(* ===== verification/Prelude.thy ===== *)
theory Prelude
  imports Main "HOL-Library.Word" "HOL-Library.Char_ord" "HOL-Library.List_Lexorder"
begin

text \<open>
  What every component of the development shares: the types of the callbacks that the C++ classes
  receive in their constructors, the widths of the machine integers, the C++ string operations the
  sources use (\<^verbatim>\<open>find\<close>, \<^verbatim>\<open>rfind\<close>, \<^verbatim>\<open>substr\<close>, \<^verbatim>\<open>tolower\<close>, \<^verbatim>\<open>std::to_string\<close>, hexadecimal
  stream output), and the collection \<open>audit_simps\<close> of the facts about audit trails.
  A \<^verbatim>\<open>std::string\<close> is a list of bytes, so it is an Isabelle \<open>string\<close>.
\<close>

section \<open>Types shared by the components\<close>

type_synonym u64 = "64 word"
type_synonym bytes = "8 word list"

text \<open>
  An audit event is the pair (event type, payload) that a component hands to its
  \<^verbatim>\<open>audit_adder_\<close>. The callback returns the id of the new entry and changes the world it writes to.
\<close>

type_synonym audit_event = "string \<times> string"
type_synonym 'w audit_adder = "string \<Rightarrow> string \<Rightarrow> 'w \<Rightarrow> string \<times> 'w"

text \<open>The exceptions the sources throw, with their message.\<close>

datatype cxx_exception =
    Invalid_argument string
  | Runtime_error string
  | Out_of_range string

text \<open>A call of the callback whose returned entry id is dropped, as most call sites do.\<close>

definition emit :: "'w audit_adder \<Rightarrow> string \<Rightarrow> string \<Rightarrow> 'w \<Rightarrow> 'w" where
  "emit add t p w = snd (add t p w)"

named_theorems audit_simps \<open>what each operation adds to the audit trail\<close>

section \<open>Characters and numbers\<close>

definition dquote :: string where
  "dquote = [CHR 0x22]"

definition squote :: string where
  "squote = [CHR 0x27]"

definition nl :: string where
  "nl = [CHR 0x0A]"

definition crlf :: string where
  "crlf = [CHR 0x0D, CHR 0x0A]"

definition backslash :: char where
  "backslash = CHR 0x5C"

text \<open>The UTF-8 bytes of the dashes and arrows that occur in the sources' string literals.\<close>

definition em_dash :: string where
  "em_dash = [CHR 0xE2, CHR 0x80, CHR 0x94]"

definition right_arrow :: string where
  "right_arrow = [CHR 0xE2, CHR 0x86, CHR 0x92]"

definition str_of_bool :: "bool \<Rightarrow> string" where
  "str_of_bool b = (if b then ''true'' else ''false'')"

definition digit_char :: "nat \<Rightarrow> char" where
  "digit_char d = ''0123456789abcdef'' ! d"

definition digit_val :: "char \<Rightarrow> nat" where
  "digit_val c = length (takeWhile (\<lambda>d. d \<noteq> c) ''0123456789abcdef'')"

text \<open>The digits of a number in base \<open>b\<close>, most significant first, without leading zeros.\<close>

fun base_digits :: "nat \<Rightarrow> nat \<Rightarrow> string" where
  "base_digits b n =
     (if b \<le> 1 \<or> n < b then [digit_char n]
      else base_digits b (n div b) @ [digit_char (n mod b)])"

declare base_digits.simps [simp del]

definition base_value :: "nat \<Rightarrow> string \<Rightarrow> nat" where
  "base_value b s = foldl (\<lambda>acc c. b * acc + digit_val c) 0 s"

abbreviation str_of_nat :: "nat \<Rightarrow> string" where
  "str_of_nat \<equiv> base_digits 10"

abbreviation hex_of_nat :: "nat \<Rightarrow> string" where
  "hex_of_nat \<equiv> base_digits 16"

definition str_of_int :: "int \<Rightarrow> string" where
  "str_of_int i = (if i < 0 then ''-'' @ str_of_nat (nat (- i)) else str_of_nat (nat i))"

definition str_of_u64 :: "u64 \<Rightarrow> string" where
  "str_of_u64 w = str_of_nat (unat w)"

text \<open>\<^verbatim>\<open>std::hex << std::setfill('0') << std::setw(2)\<close> on one byte.\<close>

definition hex_byte :: "char \<Rightarrow> string" where
  "hex_byte c = [digit_char (of_char c div 16), digit_char (of_char c mod 16)]"

definition hex_string :: "string \<Rightarrow> string" where
  "hex_string s = concat (map hex_byte s)"

lemma digit_val_char: "d < 16 \<Longrightarrow> digit_val (digit_char d) = d"
proof -
  have "\<forall>d\<in>set [0..<16]. digit_val (digit_char d) = d"
    by (simp add: digit_val_def digit_char_def upt_conv_Cons)
  moreover assume "d < 16"
  ultimately show ?thesis by simp
qed

lemma digit_char_inj: "d < 16 \<Longrightarrow> e < 16 \<Longrightarrow> digit_char d = digit_char e \<longleftrightarrow> d = e"
  using digit_val_char by metis

lemma base_digits_not_Nil [simp]: "base_digits b n \<noteq> []"
  by (subst base_digits.simps) simp

lemma base_value_snoc: "base_value b (s @ [c]) = b * base_value b s + digit_val c"
  by (simp add: base_value_def)

text \<open>Printing and reading back is the identity, so equal texts come from equal numbers.\<close>

lemma base_value_digits: "1 < b \<Longrightarrow> b \<le> 16 \<Longrightarrow> base_value b (base_digits b n) = n"
proof (induction b n rule: base_digits.induct)
  case (1 b n)
  show ?case
  proof (cases "n < b")
    case True
    with "1.prems" show ?thesis
      by (subst base_digits.simps) (simp add: base_value_def digit_val_char)
  next
    case False
    with 1 have "base_value b (base_digits b (n div b)) = n div b" by simp
    moreover have "n mod b < 16"
      using "1.prems" by (meson less_le_trans mod_less_divisor not_less0 le_less_linear zero_less_one
          less_trans)
    ultimately show ?thesis using False "1.prems"
      by (subst base_digits.simps) (simp add: base_value_snoc digit_val_char)
  qed
qed

lemma str_of_nat_inj [simp]: "str_of_nat m = str_of_nat n \<longleftrightarrow> m = n"
proof
  assume "str_of_nat m = str_of_nat n"
  then have "base_value 10 (str_of_nat m) = base_value 10 (str_of_nat n)" by simp
  then show "m = n" by (simp add: base_value_digits)
qed simp

lemma str_of_u64_inj [simp]: "str_of_u64 v = str_of_u64 w \<longleftrightarrow> v = w"
  by (simp add: str_of_u64_def word_unat_eq_iff)

lemma hex_byte_inj [simp]: "hex_byte c = hex_byte d \<longleftrightarrow> c = d"
proof
  have small: "of_char e div 16 < (16::nat)" for e
    using nat_of_char_less_256 [of e] by linarith
  assume "hex_byte c = hex_byte d"
  then have "digit_char (of_char c div 16) = digit_char (of_char d div 16)"
    and "digit_char (of_char c mod 16) = digit_char (of_char d mod 16)"
    by (simp_all add: hex_byte_def)
  then have "of_char c div 16 = (of_char d div 16 :: nat)" and "of_char c mod 16 = (of_char d mod 16 :: nat)"
    using small by (simp_all add: digit_char_inj)
  then have "of_char c = (of_char d :: nat)" by (metis div_mult_mod_eq)
  then show "c = d" by (simp only: of_char_eq_iff)
qed simp

lemma length_hex_string [simp]: "length (hex_string s) = 2 * length s"
  by (induction s) (simp_all add: hex_string_def hex_byte_def)

lemma hex_string_inj [simp]: "hex_string s = hex_string t \<longleftrightarrow> s = t"
proof
  assume "hex_string s = hex_string t"
  then show "s = t"
  proof (induction s arbitrary: t)
    case Nil
    then show ?case by (cases t) (simp_all add: hex_string_def hex_byte_def)
  next
    case (Cons c s)
    then obtain d t' where t: "t = d # t'"
      by (cases t) (simp_all add: hex_string_def hex_byte_def)
    with Cons.prems have "hex_byte c @ hex_string s = hex_byte d @ hex_string t'"
      by (simp add: hex_string_def)
    then have "hex_byte c = hex_byte d" and "hex_string s = hex_string t'"
      by (simp_all add: hex_byte_def)
    with Cons.IH t show ?case by simp
  qed
qed simp

end
