(* ===== verification/Cxx_Strings.thy ===== *)
theory Cxx_Strings
  imports Complex_Main Prelude "HOL-Library.Sublist"
begin

text \<open>
  The operations of \<^verbatim>\<open>std::string\<close> and of the output streams that the components use:
  \<^verbatim>\<open>find\<close>, \<^verbatim>\<open>rfind\<close>, prefix and suffix tests, \<^verbatim>\<open>std::tolower\<close> in the C locale, trimming, splitting
  and the printing of doubles. \<^verbatim>\<open>npos\<close> is \<open>None\<close>. A double is idealised as a real number; the
  places where the code depends on a NaN keep it as an option.
\<close>

section \<open>Searching\<close>

definition starts_with :: "'a list \<Rightarrow> 'a list \<Rightarrow> bool" where
  "starts_with p s = (take (length p) s = p)"

definition ends_with :: "string \<Rightarrow> string \<Rightarrow> bool" where
  "ends_with p s = (length p \<le> length s \<and> drop (length s - length p) s = p)"

text \<open>\<open>find_sub p s\<close> is \<^verbatim>\<open>s.find(p)\<close>, the first position where \<open>p\<close> occurs.\<close>

fun find_sub :: "'a list \<Rightarrow> 'a list \<Rightarrow> nat option" where
  "find_sub p [] = (if p = [] then Some 0 else None)"
| "find_sub p (c # s) =
     (if starts_with p (c # s) then Some 0 else map_option Suc (find_sub p s))"

definition find_from :: "string \<Rightarrow> string \<Rightarrow> nat \<Rightarrow> nat option" where
  "find_from p s i = (if length s < i then None else map_option (\<lambda>k. k + i) (find_sub p (drop i s)))"

definition contains :: "'a list \<Rightarrow> 'a list \<Rightarrow> bool" where
  "contains p s = (find_sub p s \<noteq> None)"

definition rfind_char :: "char \<Rightarrow> string \<Rightarrow> nat option" where
  "rfind_char c s =
     (if c \<in> set s then Some (length s - 1 - length (takeWhile (\<lambda>d. d \<noteq> c) (rev s))) else None)"

lemma starts_with_append: "starts_with p s \<longleftrightarrow> (\<exists>t. s = p @ t)"
  by (metis append_eq_conv_conj append_take_drop_id starts_with_def)

lemma starts_with_refl_append [simp]: "starts_with p (p @ s)"
  by (simp add: starts_with_def)

lemma starts_with_Nil [simp]: "starts_with [] s"
  by (simp add: starts_with_def)

lemma starts_with_trans: "starts_with p q \<Longrightarrow> starts_with q s \<Longrightarrow> starts_with p s"
  by (auto simp: starts_with_append)

lemma starts_with_code [simp]: "starts_with (c # p) [] = False" "starts_with (c # p) (d # s) = (c = d \<and> starts_with p s)"
  by (auto simp: starts_with_def)

lemma find_sub_Some: "find_sub p s = Some i \<Longrightarrow> i \<le> length s \<and> starts_with p (drop i s)"
  by (induction s arbitrary: i) (auto split: if_splits)

lemma find_sub_None: "find_sub p s = None \<Longrightarrow> i \<le> length s \<Longrightarrow> \<not> starts_with p (drop i s)"
proof (induction s arbitrary: i)
  case Nil
  then show ?case by (cases p) (auto split: if_splits)
next
  case (Cons c s)
  then show ?case by (cases i) (auto split: if_splits)
qed

lemma find_sub_self_append: "\<exists>i. find_sub p (a @ p @ b) = Some i"
  using find_sub_None [of p "a @ p @ b" "length a"] by (cases "find_sub p (a @ p @ b)") auto

text \<open>A text contains \<open>p\<close> exactly when it splits around an occurrence of \<open>p\<close>.\<close>

lemma contains_iff: "contains p s \<longleftrightarrow> (\<exists>a b. s = a @ p @ b)"
proof
  assume "contains p s"
  then obtain i where "find_sub p s = Some i" by (auto simp: contains_def)
  then have "starts_with p (drop i s)" using find_sub_Some by blast
  then show "\<exists>a b. s = a @ p @ b" by (metis append_take_drop_id starts_with_append)
next
  assume "\<exists>a b. s = a @ p @ b"
  then show "contains p s" using find_sub_self_append by (auto simp: contains_def)
qed

lemma contains_code [simp]:
  "contains p [] = (p = [])"
  "contains p (c # s) = (starts_with p (c # s) \<or> contains p s)"
  by (auto simp: contains_def)

lemma contains_Nil [simp]: "contains [] s"
  by (cases s) simp_all

lemma contains_append1: "contains p s \<Longrightarrow> contains p (s @ t)"
  unfolding contains_iff by (metis append.assoc)

lemma contains_append2: "contains p t \<Longrightarrow> contains p (s @ t)"
  unfolding contains_iff by (metis append.assoc)

lemma contains_trans: "contains p q \<Longrightarrow> contains q s \<Longrightarrow> contains p s"
  unfolding contains_iff by (metis append.assoc)

lemma ends_with_append: "ends_with p s \<longleftrightarrow> (\<exists>t. s = t @ p)"
  by (auto simp: ends_with_def) (metis append_take_drop_id)

section \<open>Case, trimming, splitting\<close>

text \<open>\<^verbatim>\<open>std::tolower\<close> and \<^verbatim>\<open>std::isspace\<close>, \<^verbatim>\<open>std::isxdigit\<close>, \<^verbatim>\<open>std::isdigit\<close> in the C locale.\<close>

definition tolower_char :: "char \<Rightarrow> char" where
  "tolower_char c =
     (case map_of (zip ''ABCDEFGHIJKLMNOPQRSTUVWXYZ'' ''abcdefghijklmnopqrstuvwxyz'') c of
        Some d \<Rightarrow> d | None \<Rightarrow> c)"

definition tolower :: "string \<Rightarrow> string" where
  "tolower = map tolower_char"

definition is_space :: "char \<Rightarrow> bool" where
  "is_space c = (c \<in> {CHR '' '', CHR 0x09, CHR 0x0A, CHR 0x0B, CHR 0x0C, CHR 0x0D})"

definition is_digit :: "char \<Rightarrow> bool" where
  "is_digit c = (c \<in> set ''0123456789'')"

definition is_xdigit :: "char \<Rightarrow> bool" where
  "is_xdigit c = (c \<in> set ''0123456789abcdefABCDEF'')"

definition trim_with :: "(char \<Rightarrow> bool) \<Rightarrow> string \<Rightarrow> string" where
  "trim_with p s = rev (dropWhile p (rev (dropWhile p s)))"

lemma length_tolower [simp]: "length (tolower s) = length s"
  by (simp add: tolower_def)

lemma tolower_append: "tolower (s @ t) = tolower s @ tolower t"
  by (simp add: tolower_def)

text \<open>
  \<^verbatim>\<open>std::getline\<close> with a delimiter over a whole text: the parts between delimiters, where an
  empty last part (a trailing delimiter, or an empty text) is not reported.
\<close>

fun split_on :: "char \<Rightarrow> string \<Rightarrow> string list" where
  "split_on d [] = [[]]"
| "split_on d (c # s) =
     (if c = d then [] # split_on d s
      else (case split_on d s of [] \<Rightarrow> [[c]] | l # ls \<Rightarrow> (c # l) # ls))"

definition getlines :: "char \<Rightarrow> string \<Rightarrow> string list" where
  "getlines d s = (let ps = split_on d s in if last ps = [] then butlast ps else ps)"

text \<open>Joining with a separator, the inverse of splitting.\<close>

fun join_with :: "string \<Rightarrow> string list \<Rightarrow> string" where
  "join_with d [] = []"
| "join_with d [s] = s"
| "join_with d (s # ss) = s @ d @ join_with d ss"

lemma split_on_not_Nil [simp]: "split_on d s \<noteq> []"
  by (induction s) (auto split: list.splits)

lemma join_split_on: "join_with [d] (split_on d s) = s"
proof (induction s)
  case (Cons c s)
  then show ?case
    by (cases "split_on d s"; cases "tl (split_on d s)") auto
qed simp

lemma split_on_parts: "p \<in> set (split_on d s) \<Longrightarrow> d \<notin> set p"
  by (induction s arbitrary: p) (fastforce split: if_splits list.splits)+

lemma split_on_no_sep: "d \<notin> set s \<Longrightarrow> split_on d s = [s]"
  by (induction s) auto

lemma split_on_append: "split_on d (s @ d # t) = split_on d s @ split_on d t"
proof (induction s)
  case (Cons c s)
  then show ?case by (cases "split_on d s") (auto simp: neq_Nil_conv)
qed simp

section \<open>Printing doubles\<close>

text \<open>Rounding to the nearest integer, ties to even, as the C library does.\<close>

definition round_even :: "real \<Rightarrow> int" where
  "round_even x =
     (let f = \<lfloor>x\<rfloor>; d = x - of_int f
      in if d < 1 / 2 then f else if 1 / 2 < d then f + 1 else if even f then f else f + 1)"

definition pad_left :: "nat \<Rightarrow> char \<Rightarrow> string \<Rightarrow> string" where
  "pad_left n c s = replicate (n - length s) c @ s"

text \<open>\<^verbatim>\<open>std::fixed << std::setprecision(n)\<close>; \<^verbatim>\<open>std::to_string(double)\<close> is \<open>n = 6\<close>.\<close>

definition fmt_fixed :: "nat \<Rightarrow> real \<Rightarrow> string" where
  "fmt_fixed n r =
     (let k = nat (round_even (\<bar>r\<bar> * 10 ^ n)); digits = pad_left (n + 1) (CHR ''0'') (str_of_nat k);
          w = length digits - n
      in (if r < 0 then ''-'' else []) @ take w digits @ (if n = 0 then [] else ''.'' @ drop w digits))"

text \<open>
  The default format of a stream, six significant digits as \<^verbatim>\<open>%g\<close> prints them. \<open>sci_norm\<close> finds the
  decimal exponent; 400 steps cover every finite double.
\<close>

fun sci_norm :: "nat \<Rightarrow> real \<Rightarrow> int \<Rightarrow> real \<times> int" where
  "sci_norm 0 x e = (x, e)"
| "sci_norm (Suc n) x e =
     (if 10 \<le> x then sci_norm n (x / 10) (e + 1)
      else if x < 1 then sci_norm n (x * 10) (e - 1)
      else (x, e))"

definition strip_zeros :: "string \<Rightarrow> string" where
  "strip_zeros s = rev (dropWhile (\<lambda>c. c = CHR ''0'') (rev s))"

definition with_fraction :: "string \<Rightarrow> string \<Rightarrow> string" where
  "with_fraction i f = (if strip_zeros f = [] then i else i @ ''.'' @ strip_zeros f)"

definition fmt_general :: "real \<Rightarrow> string" where
  "fmt_general r =
     (if r = 0 then ''0'' else
      let (x, e0) = sci_norm 400 \<bar>r\<bar> 0;
          m0 = nat (round_even (x * 100000));
          (m, e) = (if m0 = 1000000 then (100000, e0 + 1) else (m0, e0));
          ds = str_of_nat m
      in (if r < 0 then ''-'' else []) @
         (if e < -4 \<or> 6 \<le> e then
            with_fraction (take 1 ds) (drop 1 ds) @ ''e'' @ (if e < 0 then ''-'' else ''+'')
              @ pad_left 2 (CHR ''0'') (str_of_nat (nat \<bar>e\<bar>))
          else if 0 \<le> e then with_fraction (take (nat e + 1) ds) (drop (nat e + 1) ds)
          else with_fraction ''0'' (replicate (nat (- e) - 1) (CHR ''0'') @ ds)))"

end
