(* ===== verification/Interfaces.thy ===== *)
theory Interfaces
  imports Prelude
begin

text \<open>
  The contracts between the components. Every class receives an audit adder (wired to
  \<^verbatim>\<open>AuditChain::add_entry\<close>), some also a lockdown trigger and a lock check (wired to
  \<^verbatim>\<open>WormLock\<close>). The world \<open>'w\<close> is what the callbacks act on. The lemmas here are what a client
  may rely on; the theories of the providers interpret the locales.
\<close>

section \<open>Audit trails\<close>

definition count_type :: "string \<Rightarrow> audit_event list \<Rightarrow> nat" where
  "count_type t es = length (filter (\<lambda>e. fst e = t) es)"

lemma count_type_Nil [simp]: "count_type t [] = 0"
  by (simp add: count_type_def)

lemma count_type_append [simp]: "count_type t (es @ fs) = count_type t es + count_type t fs"
  by (simp add: count_type_def)

lemma count_type_Cons [simp]: "count_type t (e # es) = (if fst e = t then 1 else 0) + count_type t es"
  by (simp add: count_type_def)

text \<open>\<open>extends es fs\<close>: the trail \<open>fs\<close> is \<open>es\<close> with entries appended, none changed.\<close>

definition extends :: "audit_event list \<Rightarrow> audit_event list \<Rightarrow> bool" where
  "extends es fs = (take (length es) fs = es)"

lemma extends_iff: "extends es fs \<longleftrightarrow> (\<exists>ys. fs = es @ ys)"
  unfolding extends_def by (metis append_eq_conv_conj append_take_drop_id)

lemma extends_refl [simp]: "extends es es"
  by (simp add: extends_def)

lemma extends_append [simp]: "extends es (es @ ys)"
  by (simp add: extends_def)

lemma extends_trans [trans]: "extends es fs \<Longrightarrow> extends fs gs \<Longrightarrow> extends es gs"
  by (auto simp: extends_iff)

lemma extends_snoc: "extends es fs \<Longrightarrow> extends es (fs @ ys)"
  by (auto simp: extends_iff)

locale audit_sink =
  fixes add :: "'w audit_adder"
    and events :: "'w \<Rightarrow> audit_event list"
  assumes events_add: "events (snd (add t p w)) = events w @ [(t, p)]"
begin

lemma events_emit [audit_simps]: "events (emit add t p w) = events w @ [(t, p)]"
  by (simp add: emit_def events_add)

lemma emit_extends: "extends (events w) (events (emit add t p w))"
  by (simp add: events_emit)

lemma count_emit [audit_simps]:
  "count_type u (events (emit add t p w)) = count_type u (events w) + (if t = u then 1 else 0)"
  by (simp add: events_emit)

lemma fold_emit_events:
  "events (fold (\<lambda>e. emit add (fst e) (snd e)) es w) = events w @ es"
  by (induction es arbitrary: w) (simp_all add: events_emit)

end

section \<open>The lock gate\<close>

text \<open>
  A gate is a sink with a lockdown trigger and a lock check. Triggering always leaves the gate
  locked, writing an audit entry never changes the lock, and triggering only adds
  \<^verbatim>\<open>worm_lock_engaged\<close> entries to the trail.
\<close>

locale worm_gate = audit_sink add events
  for add :: "'w audit_adder" and events :: "'w \<Rightarrow> audit_event list" +
  fixes trigger :: "string \<Rightarrow> 'w \<Rightarrow> 'w"
    and locked :: "'w \<Rightarrow> bool"
  assumes trigger_locks: "locked (trigger r w)"
    and add_keeps_lock: "locked (snd (add t p w)) = locked w"
    and trigger_events: "\<exists>p. events (trigger r w) =
          events w @ (if locked w then [] else [(''worm_lock_engaged'', p)])"
begin

lemma emit_keeps_lock [simp]: "locked (emit add t p w) = locked w"
  by (simp add: emit_def add_keeps_lock)

lemma trigger_extends: "extends (events w) (events (trigger r w))"
  using trigger_events [of r w] by auto

lemma trigger_count_other:
  "u \<noteq> ''worm_lock_engaged'' \<Longrightarrow> count_type u (events (trigger r w)) = count_type u (events w)"
  using trigger_events [of r w] by auto

lemma trigger_count_engaged:
  "count_type ''worm_lock_engaged'' (events (trigger r w)) =
   count_type ''worm_lock_engaged'' (events w) + (if locked w then 0 else 1)"
  using trigger_events [of r w] by auto

end

end
