(* ===== verification/AuditChain.thy ===== *)
theory AuditChain
  imports Cxx_Strings Interfaces
begin

text \<open>
  \<^verbatim>\<open>core/audit_chain\<close>: the hash-linked audit trail that every other component writes to.
  OpenSSL's \<^verbatim>\<open>SHA256\<close> is the parameter \<open>sha\<close>, from a byte string to the 32 digest bytes; the random
  id and the clock are arguments. The mutex makes every operation atomic, so an operation is a
  function of the chain.
\<close>

section \<open>Model\<close>

record audit_entry =
  ae_entry_id :: string
  ae_timestamp :: int
  ae_event_type :: string
  ae_payload :: string
  ae_previous_hash :: string
  ae_current_hash :: string

record verification_result =
  vr_is_valid :: bool
  vr_error_message :: string
  vr_tampered_entry_index :: int
  vr_expected_hash :: string
  vr_actual_hash :: string

type_synonym chain = "audit_entry list"

definition GENESIS_HASH :: string where
  "GENESIS_HASH = replicate 64 (CHR ''0'')"

definition hash_preimage :: "audit_entry \<Rightarrow> string" where
  "hash_preimage e = ae_entry_id e @ str_of_int (ae_timestamp e) @ ae_event_type e @ ae_payload e
     @ ae_previous_hash e"

definition calculate_entry_hash :: "(string \<Rightarrow> string) \<Rightarrow> audit_entry \<Rightarrow> string" where
  "calculate_entry_hash sha e = hex_string (sha (hash_preimage e))"

definition generate_entry_id :: "u64 \<Rightarrow> string" where
  "generate_entry_id r = ''entry_'' @ hex_of_nat (unat r)"

definition get_chain_head_hash :: "chain \<Rightarrow> string" where
  "get_chain_head_hash c = (if c = [] then GENESIS_HASH else ae_current_hash (last c))"

definition add_entry ::
    "(string \<Rightarrow> string) \<Rightarrow> u64 \<Rightarrow> int \<Rightarrow> string \<Rightarrow> string \<Rightarrow> chain \<Rightarrow> string \<times> chain" where
  "add_entry sha r now t p c =
     (let eid = generate_entry_id r;
          prev = (if c = [] then GENESIS_HASH else ae_current_hash (last c));
          e = \<lparr>ae_entry_id = eid, ae_timestamp = now, ae_event_type = t, ae_payload = p,
               ae_previous_hash = prev, ae_current_hash = []\<rparr>;
          e' = e\<lparr>ae_current_hash := calculate_entry_hash sha e\<rparr>
      in (eid, c @ [e']))"

text \<open>
  The loop of \<^verbatim>\<open>verify_chain\<close> from index \<open>i\<close> on; \<open>prev\<close> is the previous entry, absent at index 0.
\<close>

fun verify_from :: "(string \<Rightarrow> string) \<Rightarrow> nat \<Rightarrow> audit_entry option \<Rightarrow> chain \<Rightarrow> verification_result" where
  "verify_from sha i prev [] =
     \<lparr>vr_is_valid = True, vr_error_message = ''Chain verification passed'', vr_tampered_entry_index = -1,
      vr_expected_hash = [], vr_actual_hash = []\<rparr>"
| "verify_from sha i prev (e # es) =
     (if ae_current_hash e \<noteq> calculate_entry_hash sha e then
        \<lparr>vr_is_valid = False,
         vr_error_message = ''Entry hash mismatch - entry has been tampered with'',
         vr_tampered_entry_index = int i,
         vr_expected_hash = calculate_entry_hash sha e, vr_actual_hash = ae_current_hash e\<rparr>
      else case prev of
        Some p \<Rightarrow>
          if ae_previous_hash e \<noteq> ae_current_hash p then
            \<lparr>vr_is_valid = False,
             vr_error_message = ''Chain link broken - previous_hash does not match'',
             vr_tampered_entry_index = int i,
             vr_expected_hash = ae_current_hash p, vr_actual_hash = ae_previous_hash e\<rparr>
          else verify_from sha (i + 1) (Some e) es
      | None \<Rightarrow> verify_from sha (i + 1) (Some e) es)"

definition verify_chain :: "(string \<Rightarrow> string) \<Rightarrow> chain \<Rightarrow> verification_result" where
  "verify_chain sha c =
     (case c of
        [] \<Rightarrow> \<lparr>vr_is_valid = True, vr_error_message = ''Chain is empty'', vr_tampered_entry_index = -1,
               vr_expected_hash = [], vr_actual_hash = []\<rparr>
      | e # _ \<Rightarrow>
          if ae_previous_hash e \<noteq> GENESIS_HASH then
            \<lparr>vr_is_valid = False, vr_error_message = ''First entry does not link to genesis hash'',
             vr_tampered_entry_index = 0, vr_expected_hash = GENESIS_HASH,
             vr_actual_hash = ae_previous_hash e\<rparr>
          else verify_from sha 0 None c)"

definition get_entry :: "string \<Rightarrow> chain \<Rightarrow> audit_entry option" where
  "get_entry eid c = List.find (\<lambda>e. ae_entry_id e = eid) c"

definition tamper_entry_for_testing :: "nat \<Rightarrow> string \<Rightarrow> chain \<Rightarrow> bool \<times> chain" where
  "tamper_entry_for_testing i p c =
     (if length c \<le> i then (False, c) else (True, c[i := (c ! i)\<lparr>ae_payload := p\<rparr>]))"

section \<open>Specification\<close>

text \<open>What a sound chain is: every stored hash is right and every entry names its predecessor's.\<close>

definition prev_hash_at :: "chain \<Rightarrow> nat \<Rightarrow> string" where
  "prev_hash_at c i = (if i = 0 then GENESIS_HASH else ae_current_hash (c ! (i - 1)))"

definition entry_sound :: "(string \<Rightarrow> string) \<Rightarrow> chain \<Rightarrow> nat \<Rightarrow> bool" where
  "entry_sound sha c i =
     (ae_current_hash (c ! i) = calculate_entry_hash sha (c ! i) \<and> ae_previous_hash (c ! i) = prev_hash_at c i)"

definition chain_linked :: "(string \<Rightarrow> string) \<Rightarrow> chain \<Rightarrow> bool" where
  "chain_linked sha c = (\<forall>i<length c. entry_sound sha c i)"

definition audit_events :: "chain \<Rightarrow> audit_event list" where
  "audit_events c = map (\<lambda>e. (ae_event_type e, ae_payload e)) c"

text \<open>A run of the chain: each request carries the id drawn, the clock reading, type and payload.\<close>

type_synonym add_request = "u64 \<times> int \<times> string \<times> string"

fun add_all :: "(string \<Rightarrow> string) \<Rightarrow> add_request list \<Rightarrow> chain \<Rightarrow> chain" where
  "add_all sha [] c = c"
| "add_all sha ((r, now, t, p) # rs) c = add_all sha rs (snd (add_entry sha r now t p c))"

section \<open>Lemmas\<close>

lemma length_calculate_entry_hash:
  "(\<And>s. length (sha s) = 32) \<Longrightarrow> length (calculate_entry_hash sha e) = 64"
  by (simp add: calculate_entry_hash_def)

lemma calculate_ignores_current [simp]:
  "calculate_entry_hash sha (e\<lparr>ae_current_hash := h\<rparr>) = calculate_entry_hash sha e"
  by (simp add: calculate_entry_hash_def hash_preimage_def)

lemma chain_linked_Nil [simp]: "chain_linked sha []"
  by (simp add: chain_linked_def)

lemma entry_sound_prefix: "i < length c \<Longrightarrow> entry_sound sha (c @ d) i = entry_sound sha c i"
  by (auto simp: entry_sound_def prev_hash_at_def nth_append)

lemma chain_linked_snoc:
  "chain_linked sha (c @ [e]) \<longleftrightarrow>
     chain_linked sha c \<and> ae_current_hash e = calculate_entry_hash sha e
       \<and> ae_previous_hash e = get_chain_head_hash c"
proof -
  have last_ok: "entry_sound sha (c @ [e]) (length c) \<longleftrightarrow>
      ae_current_hash e = calculate_entry_hash sha e \<and> ae_previous_hash e = get_chain_head_hash c"
    by (auto simp: entry_sound_def prev_hash_at_def get_chain_head_hash_def nth_append last_conv_nth)
  show ?thesis
    unfolding chain_linked_def
    by (auto simp: less_Suc_eq entry_sound_prefix last_ok)
qed

lemma add_entry_linked: "chain_linked sha c \<Longrightarrow> chain_linked sha (snd (add_entry sha r now t p c))"
  by (simp add: add_entry_def Let_def chain_linked_snoc get_chain_head_hash_def calculate_entry_hash_def
      hash_preimage_def)

lemma add_all_linked: "chain_linked sha c \<Longrightarrow> chain_linked sha (add_all sha rs c)"
  by (induction sha rs c rule: add_all.induct) (simp_all add: add_entry_linked)

lemma audit_events_add_entry [simp]:
  "audit_events (snd (add_entry sha r now t p c)) = audit_events c @ [(t, p)]"
  by (simp add: add_entry_def Let_def audit_events_def)

lemma length_add_entry [simp]: "length (snd (add_entry sha r now t p c)) = length c + 1"
  by (simp add: add_entry_def Let_def)

text \<open>The checks of the loop at one index, relative to the entry before it.\<close>

definition link_ok :: "(string \<Rightarrow> string) \<Rightarrow> audit_entry option \<Rightarrow> audit_entry \<Rightarrow> bool" where
  "link_ok sha prev e =
     (ae_current_hash e = calculate_entry_hash sha e \<and>
      (\<forall>p\<in>set_option prev. ae_previous_hash e = ae_current_hash p))"

definition pred_at :: "audit_entry option \<Rightarrow> chain \<Rightarrow> nat \<Rightarrow> audit_entry option" where
  "pred_at prev es i = (if i = 0 then prev else Some (es ! (i - 1)))"

lemma pred_at_0 [simp]: "pred_at prev es 0 = prev"
  by (simp add: pred_at_def)

lemma pred_at_Suc [simp]: "pred_at prev (e # es) (Suc i) = pred_at (Some e) es i"
  by (cases i) (simp_all add: pred_at_def)

lemma verify_from_step:
  "link_ok sha prev e \<Longrightarrow> verify_from sha k prev (e # es) = verify_from sha (k + 1) (Some e) es"
  "\<not> link_ok sha prev e \<Longrightarrow> \<not> vr_is_valid (verify_from sha k prev (e # es))"
  by (cases prev; simp add: link_ok_def)+

lemma verify_from_valid:
  "vr_is_valid (verify_from sha k prev es) \<longleftrightarrow> (\<forall>i<length es. link_ok sha (pred_at prev es i) (es ! i))"
proof (induction es arbitrary: k prev)
  case (Cons e es)
  show ?case
    by (cases "link_ok sha prev e") (auto simp: Cons.IH verify_from_step All_less_Suc2 simp del: verify_from.simps)
qed simp

lemma entry_sound_link_ok:
  "ae_previous_hash (hd c) = GENESIS_HASH \<Longrightarrow> i < length c \<Longrightarrow>
   entry_sound sha c i = link_ok sha (pred_at None c i) (c ! i)"
  by (cases c; cases i) (auto simp: entry_sound_def link_ok_def prev_hash_at_def pred_at_def)

lemma verify_chain_valid_iff: "vr_is_valid (verify_chain sha c) \<longleftrightarrow> chain_linked sha c"
proof (cases c)
  case (Cons e es)
  show ?thesis
  proof (cases "ae_previous_hash e = GENESIS_HASH")
    case True
    with Cons show ?thesis
      by (simp add: verify_chain_def verify_from_valid chain_linked_def entry_sound_link_ok
          del: verify_from.simps)
  next
    case False
    with Cons show ?thesis
      by (auto simp: verify_chain_def chain_linked_def entry_sound_def prev_hash_at_def)
  qed
qed (simp add: verify_chain_def)

text \<open>The loop stops at the first entry whose stored hash is wrong and reports its index.\<close>

lemma verify_from_first_mismatch:
  "i < length es \<Longrightarrow> (\<forall>j<i. link_ok sha (pred_at prev es j) (es ! j)) \<Longrightarrow>
   ae_current_hash (es ! i) \<noteq> calculate_entry_hash sha (es ! i) \<Longrightarrow>
   verify_from sha k prev es =
     \<lparr>vr_is_valid = False, vr_error_message = ''Entry hash mismatch - entry has been tampered with'',
      vr_tampered_entry_index = int (k + i), vr_expected_hash = calculate_entry_hash sha (es ! i),
      vr_actual_hash = ae_current_hash (es ! i)\<rparr>"
proof (induction es arbitrary: i k prev)
  case (Cons e es)
  show ?case
  proof (cases i)
    case (Suc n)
    have "link_ok sha prev e" and "\<forall>j<n. link_ok sha (pred_at (Some e) es j) (es ! j)"
      using Cons.prems(2) by (auto simp: Suc All_less_Suc2)
    with Cons.IH [of n "Some e" "k + 1"] Cons.prems Suc show ?thesis
      by (simp add: verify_from_step del: verify_from.simps)
  qed (use Cons.prems in simp)
qed simp

lemma pred_at_update: "j \<le> i \<Longrightarrow> pred_at None (c[i := e]) j = pred_at None c j"
  by (auto simp: pred_at_def)

section \<open>The chain as the world of the audit adder\<close>

text \<open>
  The process: the random ids and clock readings that successive calls draw, and the chain with
  the number of draws made. \<open>audit_add\<close> is the callback that the bridge wires into every component.
\<close>

record environment =
  env_rand64 :: "nat \<Rightarrow> u64"
  env_clock :: "nat \<Rightarrow> int"

record audit_world =
  aw_chain :: chain
  aw_calls :: nat

definition audit_add :: "(string \<Rightarrow> string) \<Rightarrow> environment \<Rightarrow> audit_world audit_adder" where
  "audit_add sha env t p w =
     (let (eid, c) = add_entry sha (env_rand64 env (aw_calls w)) (env_clock env (aw_calls w)) t p (aw_chain w)
      in (eid, w\<lparr>aw_chain := c, aw_calls := aw_calls w + 1\<rparr>))"

text \<open>A concrete digest and environment, on which the witnesses evaluate the definitions.\<close>

definition demo_sha :: "string \<Rightarrow> string" where
  "demo_sha s = take 32 (s @ replicate 32 (CHR ''x''))"

definition demo_env :: environment where
  "demo_env = \<lparr>env_rand64 = of_nat, env_clock = (\<lambda>n. 1000 + int n)\<rparr>"

definition trail :: "audit_world \<Rightarrow> audit_event list" where
  "trail w = audit_events (aw_chain w)"

definition fresh_audit :: audit_world where
  "fresh_audit = \<lparr>aw_chain = [], aw_calls = 0\<rparr>"

lemma trail_fresh [simp]: "trail fresh_audit = []"
  by (simp add: trail_def fresh_audit_def audit_events_def)

lemma trail_audit_add: "trail (snd (audit_add sha env t p w)) = trail w @ [(t, p)]"
  by (simp add: audit_add_def trail_def case_prod_beta Let_def)

lemma audit_add_linked:
  "chain_linked sha (aw_chain w) \<Longrightarrow> chain_linked sha (aw_chain (snd (audit_add sha env t p w)))"
  by (simp add: audit_add_def case_prod_beta Let_def add_entry_linked)

interpretation chain: audit_sink "audit_add sha env" trail
  by unfold_locales (rule trail_audit_add)

lemma emit_linked: "chain_linked sha (aw_chain w) \<Longrightarrow> chain_linked sha (aw_chain (emit (audit_add sha env) t p w))"
  by (simp add: emit_def audit_add_linked)

section \<open>Properties\<close>

lemma add_all_events: "audit_events (add_all sha rs c) = audit_events c @ map (\<lambda>(r, now, t, p). (t, p)) rs"
  by (induction sha rs c rule: add_all.induct) simp_all

text \<open>Every chain built by calls of \<^verbatim>\<open>add_entry\<close> passes \<^verbatim>\<open>verify_chain\<close>, and it records exactly
  the requested event types and payloads, in the order of the calls.\<close>

theorem add_entry_runs_verify:
  "vr_is_valid (verify_chain sha (add_all sha rs [])) \<and>
   audit_events (add_all sha rs []) = map (\<lambda>(r, now, t, p). (t, p)) rs"
  by (simp add: verify_chain_valid_iff add_all_linked add_all_events) (simp add: audit_events_def)

text \<open>C18. \<^verbatim>\<open>verify_chain\<close> accepts exactly the sound chains: every stored hash is the hash of its
  entry, the first entry links to the genesis hash and every other to its predecessor's hash.\<close>

theorem verify_chain_correct: "vr_is_valid (verify_chain sha c) \<longleftrightarrow> chain_linked sha c"
  by (rule verify_chain_valid_iff)

lemma tampered_preimage:
  "calculate_entry_hash sha (e\<lparr>ae_payload := p\<rparr>) \<noteq> calculate_entry_hash sha e \<longleftrightarrow>
   sha (hash_preimage (e\<lparr>ae_payload := p\<rparr>)) \<noteq> sha (hash_preimage e)"
  by (simp add: calculate_entry_hash_def)

lemma hash_preimage_payload: "hash_preimage (e\<lparr>ae_payload := p\<rparr>) = hash_preimage e \<longleftrightarrow> p = ae_payload e"
  by (simp add: hash_preimage_def)

lemma payload_add_entry_last: "ae_payload (snd (add_entry sha r now t p c) ! length c) = p"
  by (simp add: add_entry_def Let_def)

text \<open>C4. Overwriting the stored payload of entry \<open>i\<close> of a sound chain is detected by \<^verbatim>\<open>verify_chain\<close>,
  which names index \<open>i\<close> and the hash it expected, unless the new content has the same digest.\<close>

theorem tamper_detected:
  assumes "chain_linked sha c" and "i < length c"
    and "sha (hash_preimage ((c ! i)\<lparr>ae_payload := p\<rparr>)) \<noteq> sha (hash_preimage (c ! i))"
  shows "verify_chain sha (snd (tamper_entry_for_testing i p c)) =
    \<lparr>vr_is_valid = False, vr_error_message = ''Entry hash mismatch - entry has been tampered with'',
     vr_tampered_entry_index = int i,
     vr_expected_hash = calculate_entry_hash sha ((c ! i)\<lparr>ae_payload := p\<rparr>),
     vr_actual_hash = ae_current_hash (c ! i)\<rparr>"
proof -
  define c' where "c' = c[i := (c ! i)\<lparr>ae_payload := p\<rparr>]"
  have len: "i < length c'" using assms by (simp add: c'_def)
  have sound: "entry_sound sha c j" if "j < length c" for j
    using assms(1) that by (simp add: chain_linked_def)
  have "c \<noteq> []" using assms(2) by auto
  then have first: "ae_previous_hash (hd c) = GENESIS_HASH" "ae_previous_hash (hd c') = GENESIS_HASH"
    using sound [of 0] assms(2)
    by (auto simp: entry_sound_def prev_hash_at_def c'_def hd_conv_nth nth_list_update)
  have "\<forall>j<i. link_ok sha (pred_at None c' j) (c' ! j)"
    using sound first(1) assms(2) by (auto simp: c'_def pred_at_update entry_sound_link_ok)
  moreover have "ae_current_hash (c' ! i) \<noteq> calculate_entry_hash sha (c' ! i)"
    using sound [of i] assms(2,3) tampered_preimage [of sha p "c ! i"]
    by (simp add: c'_def entry_sound_def)
  ultimately have "verify_from sha 0 None c' =
    \<lparr>vr_is_valid = False, vr_error_message = ''Entry hash mismatch - entry has been tampered with'',
     vr_tampered_entry_index = int (0 + i), vr_expected_hash = calculate_entry_hash sha (c' ! i),
     vr_actual_hash = ae_current_hash (c' ! i)\<rparr>"
    by (rule verify_from_first_mismatch [OF len])
  then show ?thesis
    using first(2) len assms(2) unfolding tamper_entry_for_testing_def verify_chain_def c'_def [symmetric]
    by (cases c') (simp_all add: c'_def del: verify_from.simps)
qed

theorem tamper_detected_witness:
  "vr_tampered_entry_index (verify_chain (\<lambda>s. s)
     (snd (tamper_entry_for_testing 1 ''logout'' (add_all (\<lambda>s. s)
        [(1, 5, ''a'', ''login''), (2, 6, ''b'', ''admin'')] [])))) = 1"
proof -
  let ?c = "add_all (\<lambda>s. s) [(1, 5, ''a'', ''login''), (2, 6, ''b'', ''admin'')] []"
  have linked: "chain_linked (\<lambda>s. s) ?c" by (rule add_all_linked) simp
  have len: "1 < length ?c" by simp
  have "ae_payload (?c ! 1) = ''admin''"
    using payload_add_entry_last [of _ _ _ _ _ "snd (add_entry (\<lambda>s. s) 1 5 ''a'' ''login'' [])"] by simp
  then have "hash_preimage ((?c ! 1)\<lparr>ae_payload := ''logout''\<rparr>) \<noteq> hash_preimage (?c ! 1)"
    by (simp only: hash_preimage_payload) simp
  from tamper_detected [of "\<lambda>s. s" ?c 1 "''logout''", OF linked len this]
  have "vr_tampered_entry_index (verify_chain (\<lambda>s. s) (snd (tamper_entry_for_testing 1 ''logout'' ?c))) = int 1"
    by (rule arg_cong [where f = vr_tampered_entry_index, THEN trans]) (rule verification_result.select_convs)
  then show ?thesis unfolding of_nat_1 .
qed

text \<open>Two sound chains of the same length whose last entries have the same hash.\<close>

lemma head_hash_commits_step:
  assumes len: "\<And>s. length (sha s) = 32"
    and "chain_linked sha (c @ [e])" "chain_linked sha (d @ [f])" "length c = length d"
    and "ae_current_hash e = ae_current_hash f"
    and nocoll: "sha (hash_preimage e) = sha (hash_preimage f) \<longrightarrow> hash_preimage e = hash_preimage f"
  shows "hash_preimage e = hash_preimage f \<and> get_chain_head_hash c = get_chain_head_hash d"
proof -
  have "calculate_entry_hash sha e = calculate_entry_hash sha f"
    using assms by (simp add: chain_linked_snoc)
  then have same: "hash_preimage e = hash_preimage f"
    using nocoll by (simp add: calculate_entry_hash_def)
  have head: "length (get_chain_head_hash b) = 64" if "chain_linked sha b" for b
  proof (cases b rule: rev_cases)
    case (snoc b' x)
    with that show ?thesis
      by (simp add: get_chain_head_hash_def chain_linked_snoc length_calculate_entry_hash len)
  qed (simp add: get_chain_head_hash_def GENESIS_HASH_def)
  have "ae_previous_hash e = get_chain_head_hash c" "ae_previous_hash f = get_chain_head_hash d"
    "chain_linked sha c" "chain_linked sha d"
    using assms by (simp_all add: chain_linked_snoc)
  moreover have "\<exists>x. hash_preimage a = x @ ae_previous_hash a" for a
    unfolding hash_preimage_def by (metis append_assoc)
  then obtain x y where "hash_preimage e = x @ ae_previous_hash e" "hash_preimage f = y @ ae_previous_hash f"
    by meson
  ultimately show ?thesis using same head by simp
qed

lemma head_hash_commits_aux:
  assumes len: "\<And>s. length (sha s) = 32"
  shows "length c = length d \<Longrightarrow> chain_linked sha c \<Longrightarrow> chain_linked sha d \<Longrightarrow>
    get_chain_head_hash c = get_chain_head_hash d \<Longrightarrow>
    (\<forall>i<length c. sha (hash_preimage (c ! i)) = sha (hash_preimage (d ! i)) \<longrightarrow>
        hash_preimage (c ! i) = hash_preimage (d ! i)) \<Longrightarrow>
    map hash_preimage c = map hash_preimage d"
proof (induction c arbitrary: d rule: rev_induct)
  case (snoc e c)
  then obtain f d' where d: "d = d' @ [f]" by (cases d rule: rev_cases) auto
  have "hash_preimage e = hash_preimage f \<and> get_chain_head_hash c = get_chain_head_hash d'"
  proof (rule head_hash_commits_step [OF len])
    show "sha (hash_preimage e) = sha (hash_preimage f) \<longrightarrow> hash_preimage e = hash_preimage f"
      using snoc.prems d by (auto simp: nth_append dest: spec [of _ "length c"])
  qed (use snoc.prems d in \<open>simp_all add: get_chain_head_hash_def\<close>)
  moreover have "\<forall>i<length c. sha (hash_preimage (c ! i)) = sha (hash_preimage (d' ! i)) \<longrightarrow>
      hash_preimage (c ! i) = hash_preimage (d' ! i)"
    using snoc.prems d by (auto simp: nth_append less_Suc_eq split: if_splits)
  ultimately show ?case
    using snoc d by (simp add: chain_linked_snoc)
qed simp

text \<open>The head hash commits to the whole history: two sound chains of the same length with the same
  head hash have the same content at every entry, unless two of their entries collide under the digest.\<close>

theorem head_hash_commits:
  assumes "\<And>s. length (sha s) = 32" and "length c = length d" and "chain_linked sha c" "chain_linked sha d"
    and "get_chain_head_hash c = get_chain_head_hash d"
  shows "map hash_preimage c = map hash_preimage d \<or>
    (\<exists>i<length c. hash_preimage (c ! i) \<noteq> hash_preimage (d ! i) \<and>
        sha (hash_preimage (c ! i)) = sha (hash_preimage (d ! i)))"
  using head_hash_commits_aux [of sha c d] assms by metis

theorem head_hash_commits_witness:
  "let c = add_all (\<lambda>_. replicate 32 (CHR ''k'')) [(1, 5, ''a'', ''x'')] [];
       d = add_all (\<lambda>_. replicate 32 (CHR ''k'')) [(1, 5, ''a'', ''y'')] []
   in map hash_preimage c = map hash_preimage d \<or>
    (\<exists>i<length c. hash_preimage (c ! i) \<noteq> hash_preimage (d ! i))"
proof -
  let ?h = "\<lambda>_. replicate 32 (CHR ''k'')"
  let ?c = "add_all ?h [(1, 5, ''a'', ''x'')] []" and ?d = "add_all ?h [(1, 5, ''a'', ''y'')] []"
  have "chain_linked ?h ?c" "chain_linked ?h ?d" by (rule add_all_linked, simp)+
  moreover have "length ?c = length ?d" "get_chain_head_hash ?c = get_chain_head_hash ?d"
    by (simp_all add: add_entry_def Let_def get_chain_head_hash_def calculate_entry_hash_def)
  ultimately show ?thesis using head_hash_commits [of ?h ?c ?d] by (auto simp: Let_def)
qed

text \<open>The digest does not separate the fields: moving characters across the boundary between the event
  type and the payload of an entry leaves every stored hash valid, so \<^verbatim>\<open>verify_chain\<close> still passes.\<close>

theorem boundary_shift_undetected:
  assumes "vr_is_valid (verify_chain sha c)" and "i < length c"
    and "t @ p = ae_event_type (c ! i) @ ae_payload (c ! i)"
  shows "vr_is_valid (verify_chain sha (c[i := (c ! i)\<lparr>ae_event_type := t, ae_payload := p\<rparr>]))"
proof -
  let ?e = "(c ! i)\<lparr>ae_event_type := t, ae_payload := p\<rparr>"
  have "hash_preimage ?e = hash_preimage (c ! i)"
    using assms(3) by (simp add: hash_preimage_def)
  then have "calculate_entry_hash sha ?e = calculate_entry_hash sha (c ! i)"
    by (simp add: calculate_entry_hash_def)
  then have "entry_sound sha (c[i := ?e]) j = entry_sound sha c j" if "j < length c" for j
    using that assms(2) by (auto simp: entry_sound_def prev_hash_at_def nth_list_update)
  with assms(1) show ?thesis by (simp add: verify_chain_valid_iff chain_linked_def)
qed

theorem boundary_shift_undetected_witness:
  "let c = add_all (\<lambda>s. s) [(1, 5, ''login'', ''_ok user=eve'')] []
   in vr_is_valid (verify_chain (\<lambda>s. s)
        (c[0 := (c ! 0)\<lparr>ae_event_type := ''login_ok'', ae_payload := '' user=eve''\<rparr>]))"
proof -
  let ?c = "add_all (\<lambda>s. s) [(1, 5, ''login'', ''_ok user=eve'')] []"
  have "vr_is_valid (verify_chain (\<lambda>s. s) ?c)"
    unfolding verify_chain_valid_iff by (rule add_all_linked) simp
  moreover have "0 < length ?c" by simp
  moreover have "''login_ok'' @ '' user=eve'' = ae_event_type (?c ! 0) @ ae_payload (?c ! 0)"
    by (simp add: add_entry_def Let_def)
  ultimately show ?thesis unfolding Let_def by (rule boundary_shift_undetected)
qed

end
