(* ===== verification/WormLock.thy ===== *)
theory WormLock
  imports AuditChain
begin

text \<open>
  \<^verbatim>\<open>core/worm_lock\<close>: the two-state lockdown machine. Its state paired with the audit chain is the
  gate world \<open>gate_world\<close> that the threat machine, the rule engine and the version store act on;
  \<open>gate\<close> interprets the \<open>worm_gate\<close> contract on it.
\<close>

section \<open>Model\<close>

datatype lock_state = NORMAL | LOCKED

record worm_lock =
  wl_state :: lock_state
  wl_lock_reason :: string
  wl_lockdown_count :: u64

definition new_worm_lock :: worm_lock where
  "new_worm_lock = \<lparr>wl_state = NORMAL, wl_lock_reason = [], wl_lockdown_count = 0\<rparr>"

definition is_locked :: "worm_lock \<Rightarrow> bool" where
  "is_locked l = (wl_state l = LOCKED)"

definition trigger_lockdown :: "'w audit_adder \<Rightarrow> string \<Rightarrow> worm_lock \<Rightarrow> 'w \<Rightarrow> bool \<times> worm_lock \<times> 'w" where
  "trigger_lockdown add reason l w =
     (if wl_state l = LOCKED then (False, l, w)
      else
        let l' = l\<lparr>wl_state := LOCKED, wl_lock_reason := reason,
                   wl_lockdown_count := wl_lockdown_count l + 1\<rparr>;
            payload = ''reason='' @ dquote @ reason @ dquote
              @ '' lockdown_count='' @ str_of_u64 (wl_lockdown_count l')
        in (True, l', emit add ''worm_lock_engaged'' payload w))"

definition unlock :: "'w audit_adder \<Rightarrow> string \<Rightarrow> worm_lock \<Rightarrow> 'w \<Rightarrow> bool \<times> worm_lock \<times> 'w" where
  "unlock add authority l w =
     (if wl_state l = NORMAL then (False, l, w)
      else
        let l' = l\<lparr>wl_state := NORMAL\<rparr>;
            payload = ''authority='' @ dquote @ authority @ dquote
              @ '' previous_reason='' @ dquote @ wl_lock_reason l @ dquote
        in (True, l', emit add ''worm_lock_lifted'' payload w))"

section \<open>The gate world\<close>

type_synonym gate_world = "worm_lock \<times> audit_world"

definition gate_add :: "(string \<Rightarrow> string) \<Rightarrow> environment \<Rightarrow> gate_world audit_adder" where
  "gate_add sha env t p g = (let (eid, w) = audit_add sha env t p (snd g) in (eid, (fst g, w)))"

definition gate_trigger :: "(string \<Rightarrow> string) \<Rightarrow> environment \<Rightarrow> string \<Rightarrow> gate_world \<Rightarrow> gate_world" where
  "gate_trigger sha env reason g = snd (trigger_lockdown (audit_add sha env) reason (fst g) (snd g))"

definition gate_locked :: "gate_world \<Rightarrow> bool" where
  "gate_locked g = is_locked (fst g)"

definition gate_trail :: "gate_world \<Rightarrow> audit_event list" where
  "gate_trail g = trail (snd g)"

lemma trigger_lockdown_locks: "is_locked (fst (snd (trigger_lockdown add r l w)))"
  by (simp add: trigger_lockdown_def is_locked_def Let_def)

context audit_sink
begin

lemma trigger_lockdown_events:
  "events (snd (snd (trigger_lockdown add r l w))) =
   events w @ (if is_locked l then []
     else [(''worm_lock_engaged'', ''reason='' @ dquote @ r @ dquote @ '' lockdown_count=''
             @ str_of_u64 (wl_lockdown_count l + 1))])"
  by (simp add: trigger_lockdown_def is_locked_def Let_def events_emit)

lemma unlock_events:
  "events (snd (snd (unlock add a l w))) =
   events w @ (if is_locked l then [(''worm_lock_lifted'', ''authority='' @ dquote @ a @ dquote
                 @ '' previous_reason='' @ dquote @ wl_lock_reason l @ dquote)] else [])"
  by (cases "wl_state l") (simp_all add: unlock_def is_locked_def Let_def events_emit)

end

interpretation gate: worm_gate "gate_add sha env" gate_trail "gate_trigger sha env" gate_locked
proof unfold_locales
  fix t p r and w :: gate_world
  show "gate_trail (snd (gate_add sha env t p w)) = gate_trail w @ [(t, p)]"
    by (simp add: gate_trail_def gate_add_def case_prod_beta Let_def trail_audit_add)
  show "gate_locked (gate_trigger sha env r w)"
    by (simp add: gate_locked_def gate_trigger_def trigger_lockdown_locks)
  show "gate_locked (snd (gate_add sha env t p w)) = gate_locked w"
    by (simp add: gate_locked_def gate_add_def case_prod_beta Let_def)
  show "\<exists>p. gate_trail (gate_trigger sha env r w) =
      gate_trail w @ (if gate_locked w then [] else [(''worm_lock_engaged'', p)])"
    by (auto simp: gate_trail_def gate_trigger_def gate_locked_def chain.trigger_lockdown_events)
qed

section \<open>Runs\<close>

datatype lock_op = Trigger string | Unlock string

fun lock_step :: "'w audit_adder \<Rightarrow> lock_op \<Rightarrow> worm_lock \<times> 'w \<Rightarrow> worm_lock \<times> 'w" where
  "lock_step add (Trigger r) (l, w) = snd (trigger_lockdown add r l w)"
| "lock_step add (Unlock a) (l, w) = snd (unlock add a l w)"

definition lock_run :: "'w audit_adder \<Rightarrow> lock_op list \<Rightarrow> worm_lock \<times> 'w \<Rightarrow> worm_lock \<times> 'w" where
  "lock_run add ops s = fold (lock_step add) ops s"

text \<open>What the trail says about the lock: engaged and lifted entries alternate.\<close>

definition lock_of_trail :: "audit_event list \<Rightarrow> bool" where
  "lock_of_trail es = fold (\<lambda>e b. if fst e = ''worm_lock_engaged'' then True
                                  else if fst e = ''worm_lock_lifted'' then False else b) es False"

lemma lock_of_trail_snoc:
  "lock_of_trail (es @ [(t, p)]) =
     (if t = ''worm_lock_engaged'' then True else if t = ''worm_lock_lifted'' then False else lock_of_trail es)"
  by (simp add: lock_of_trail_def)

definition lock_trail_inv :: "worm_lock \<Rightarrow> audit_event list \<Rightarrow> bool" where
  "lock_trail_inv l es \<longleftrightarrow>
     is_locked l = lock_of_trail es \<and>
     count_type ''worm_lock_engaged'' es
       = count_type ''worm_lock_lifted'' es + (if is_locked l then 1 else 0) \<and>
     wl_lockdown_count l = of_nat (count_type ''worm_lock_engaged'' es)"

context audit_sink
begin

lemma lock_step_inv:
  assumes "lock_trail_inv (fst s) (events (snd s))"
  shows "lock_trail_inv (fst (lock_step add x s)) (events (snd (lock_step add x s)))"
proof (cases s)
  case (Pair l w)
  show ?thesis
  proof (cases x)
    case (Trigger r)
    with assms Pair show ?thesis
      by (cases "is_locked l")
        (auto simp: lock_trail_inv_def lock_of_trail_snoc trigger_lockdown_def is_locked_def Let_def
          events_emit add.commute)
  next
    case (Unlock a)
    with assms Pair show ?thesis
      by (cases "wl_state l")
        (auto simp: lock_trail_inv_def lock_of_trail_snoc unlock_def is_locked_def Let_def
          events_emit)
  qed
qed

lemma lock_run_inv:
  "lock_trail_inv (fst s) (events (snd s)) \<Longrightarrow>
   lock_trail_inv (fst (lock_run add ops s)) (events (snd (lock_run add ops s)))"
  unfolding lock_run_def by (induction ops arbitrary: s) (simp_all add: lock_step_inv)

lemma lock_step_extends: "extends (events (snd s)) (events (snd (lock_step add x s)))"
  by (cases s; cases x) (simp_all add: trigger_lockdown_events unlock_events)

end

section \<open>Properties\<close>

lemma lock_trail_inv_new: "lock_trail_inv new_worm_lock []"
  by (simp add: lock_trail_inv_def new_worm_lock_def is_locked_def lock_of_trail_def)

text \<open>The audit chain reconstructs the lock: after any calls of \<^verbatim>\<open>trigger_lockdown\<close> and \<^verbatim>\<open>unlock\<close> on a
  new lock, the lock is engaged exactly when the last lock entry of the chain is an engagement, engaged
  entries exceed lifted ones by the current state, and the 64-bit counter is their number.\<close>

theorem lock_state_from_trail:
  "let s = lock_run (audit_add sha env) ops (new_worm_lock, fresh_audit) in
   is_locked (fst s) = lock_of_trail (trail (snd s)) \<and>
   count_type ''worm_lock_engaged'' (trail (snd s))
     = count_type ''worm_lock_lifted'' (trail (snd s)) + (if is_locked (fst s) then 1 else 0) \<and>
   wl_lockdown_count (fst s) = of_nat (count_type ''worm_lock_engaged'' (trail (snd s)))"
  using chain.lock_run_inv [of "(new_worm_lock, fresh_audit)" sha env ops]
  by (simp add: lock_trail_inv_new) (simp add: lock_trail_inv_def Let_def)

text \<open>Triggering is idempotent: the first trigger engages the lock, reports a change and records the
  reason; a second one with any reason changes neither the lock nor the chain and reports no change.\<close>

theorem trigger_lockdown_idempotent:
  "let (changed, l', w') = trigger_lockdown (audit_add sha env) r l w in
   changed = (\<not> is_locked l) \<and> is_locked l' \<and> (changed \<longleftrightarrow> length (trail w') = length (trail w) + 1) \<and>
   wl_lock_reason l' = (if changed then r else wl_lock_reason l) \<and>
   trigger_lockdown (audit_add sha env) r' l' w' = (False, l', w')"
  by (simp add: trigger_lockdown_def is_locked_def Let_def chain.events_emit)

end
