(* ===== verification/ThreatLevel.thy ===== *)
theory ThreatLevel
  imports WormLock
begin

text \<open>
  \<^verbatim>\<open>core/threat_level\<close>: the four-tier threat machine. Its operations take the audit adder and the
  lockdown trigger as arguments; the lemmas hold for every gate, the properties are stated on the
  gate that the bridge wires in. Scores are C++ ints, clamped to 0..100 on entry.
\<close>

section \<open>Model\<close>

datatype threat_tier = LOW | MEDIUM | HIGH | CRITICAL

fun tier_int :: "threat_tier \<Rightarrow> nat" where
  "tier_int LOW = 0"
| "tier_int MEDIUM = 1"
| "tier_int HIGH = 2"
| "tier_int CRITICAL = 3"

fun tier_name :: "threat_tier \<Rightarrow> string" where
  "tier_name LOW = ''LOW''"
| "tier_name MEDIUM = ''MEDIUM''"
| "tier_name HIGH = ''HIGH''"
| "tier_name CRITICAL = ''CRITICAL''"

fun tier_lower_threshold :: "threat_tier \<Rightarrow> int" where
  "tier_lower_threshold LOW = 0"
| "tier_lower_threshold MEDIUM = 25"
| "tier_lower_threshold HIGH = 50"
| "tier_lower_threshold CRITICAL = 75"

fun make_response :: "threat_tier \<Rightarrow> string" where
  "make_response LOW = ''silent logging, behavioral note added, mild rate limiting''"
| "make_response MEDIUM =
     ''aggressive rate limiting, CAPTCHA-equivalent challenge, enhanced forensic logging''"
| "make_response HIGH =
     ''immediate session termination, account lockdown, forensic investigation flag''"
| "make_response CRITICAL =
     ''full WORM lockdown triggered, all non-essential access suspended''"

instantiation threat_tier :: linorder
begin

definition less_eq_threat_tier :: "threat_tier \<Rightarrow> threat_tier \<Rightarrow> bool" where
  "less_eq_threat_tier s t = (tier_int s \<le> tier_int t)"

definition less_threat_tier :: "threat_tier \<Rightarrow> threat_tier \<Rightarrow> bool" where
  "less_threat_tier s t = (tier_int s < tier_int t)"

instance
proof
  fix s t u :: threat_tier
  show "(s < t) = (s \<le> t \<and> \<not> t \<le> s)" by (auto simp: less_eq_threat_tier_def less_threat_tier_def)
  show "s \<le> s" by (simp add: less_eq_threat_tier_def)
  show "s \<le> t \<Longrightarrow> t \<le> u \<Longrightarrow> s \<le> u" by (simp add: less_eq_threat_tier_def)
  show "s \<le> t \<Longrightarrow> t \<le> s \<Longrightarrow> s = t" by (cases s; cases t) (simp_all add: less_eq_threat_tier_def)
  show "s \<le> t \<or> t \<le> s" by (auto simp: less_eq_threat_tier_def)
qed

end

lemmas tier_order = less_eq_threat_tier_def less_threat_tier_def

record signal_result =
  sr_tier_changed :: bool
  sr_previous_tier :: threat_tier
  sr_current_tier :: threat_tier
  sr_response_description :: string
  sr_worm_triggered :: bool

record threat_sm =
  ts_current_tier :: threat_tier
  ts_transition_count :: u64

definition new_threat_sm :: threat_sm where
  "new_threat_sm = \<lparr>ts_current_tier = LOW, ts_transition_count = 0\<rparr>"

definition transition_payload :: "threat_tier \<Rightarrow> threat_tier \<Rightarrow> string \<Rightarrow> string" where
  "transition_payload prev new reason =
     ''from='' @ tier_name prev @ '' to='' @ tier_name new @ '' reason='' @ dquote @ reason @ dquote
       @ '' response='' @ dquote @ make_response new @ dquote"

definition critical_reason :: "string \<Rightarrow> string" where
  "critical_reason reason = ''threat tier reached CRITICAL '' @ em_dash @ '' '' @ reason"

definition do_transition ::
    "'w audit_adder \<Rightarrow> (string \<Rightarrow> 'w \<Rightarrow> 'w) \<Rightarrow> threat_tier \<Rightarrow> string \<Rightarrow> threat_sm \<Rightarrow> 'w
       \<Rightarrow> signal_result \<times> threat_sm \<times> 'w" where
  "do_transition add worm_trigger new_tier reason m w =
     (let prev = ts_current_tier m;
          m' = m\<lparr>ts_current_tier := new_tier, ts_transition_count := ts_transition_count m + 1\<rparr>;
          w1 = emit add ''threat_tier_transition'' (transition_payload prev new_tier reason) w;
          w2 = (if new_tier = CRITICAL
                then worm_trigger (critical_reason reason) w1
                else w1)
      in (\<lparr>sr_tier_changed = True, sr_previous_tier = prev, sr_current_tier = new_tier,
           sr_response_description = make_response new_tier, sr_worm_triggered = (new_tier = CRITICAL)\<rparr>,
          m', w2))"

definition clamp_score :: "int \<Rightarrow> int" where
  "clamp_score score =
     (let s = (if score < 0 then 0 else score) in if s > 100 then 100 else s)"

definition target_tier :: "int \<Rightarrow> threat_tier" where
  "target_tier score =
     (if score \<ge> 75 then CRITICAL else if score \<ge> 50 then HIGH
      else if score \<ge> 25 then MEDIUM else LOW)"

definition observe_signal ::
    "'w audit_adder \<Rightarrow> (string \<Rightarrow> 'w \<Rightarrow> 'w) \<Rightarrow> int \<Rightarrow> string \<Rightarrow> threat_sm \<Rightarrow> 'w
       \<Rightarrow> signal_result \<times> threat_sm \<times> 'w" where
  "observe_signal add worm_trigger score0 source m w =
     (let score = clamp_score score0; target = target_tier score; cur = ts_current_tier m in
      if tier_int target > tier_int cur then
        do_transition add worm_trigger target
          (''score='' @ str_of_int score @ '' source='' @ dquote @ source @ dquote) m w
      else if tier_int target < tier_int cur \<and> score < tier_lower_threshold cur - 10 then
        do_transition add worm_trigger target
          (''de-escalation: score='' @ str_of_int score @ '' source='' @ dquote @ source @ dquote) m w
      else (\<lparr>sr_tier_changed = False, sr_previous_tier = cur, sr_current_tier = cur,
             sr_response_description = [], sr_worm_triggered = False\<rparr>, m, w))"

definition force_tier ::
    "'w audit_adder \<Rightarrow> (string \<Rightarrow> 'w \<Rightarrow> 'w) \<Rightarrow> threat_tier \<Rightarrow> string \<Rightarrow> threat_sm \<Rightarrow> 'w
       \<Rightarrow> bool \<times> threat_sm \<times> 'w" where
  "force_tier add worm_trigger tier reason m w =
     (if tier = ts_current_tier m then (False, m, w)
      else (True, snd (do_transition add worm_trigger tier (''forced: '' @ reason) m w)))"

section \<open>Specification\<close>

text \<open>
  The tier after a signal, as a function of the clamped score and the tier before: escalation to the
  score's band is immediate, a step down needs the score more than ten points below the current band.
\<close>

definition next_tier :: "int \<Rightarrow> threat_tier \<Rightarrow> threat_tier" where
  "next_tier score cur =
     (let t = target_tier score in
      if cur < t then t
      else if t < cur \<and> score < tier_lower_threshold cur - 10 then t
      else cur)"

lemma target_tier_le: "target_tier s \<le> next_tier s cur"
  by (auto simp: next_tier_def Let_def tier_order)

lemma next_tier_idem: "next_tier s (next_tier s cur) = next_tier s cur"
  by (simp add: next_tier_def Let_def)

lemma next_tier_down: "next_tier s cur < cur \<Longrightarrow> s + 10 < tier_lower_threshold cur"
  by (auto simp: next_tier_def Let_def split: if_splits)

lemma clamp_score_range: "0 \<le> clamp_score s \<and> clamp_score s \<le> 100"
  by (simp add: clamp_score_def)

definition threat_inv ::
    "('w \<Rightarrow> audit_event list) \<Rightarrow> ('w \<Rightarrow> bool) \<Rightarrow> threat_sm \<times> 'w \<Rightarrow> bool" where
  "threat_inv events locked s \<longleftrightarrow>
     (ts_current_tier (fst s) = CRITICAL \<longrightarrow> locked (snd s)) \<and>
     ts_transition_count (fst s) = of_nat (count_type ''threat_tier_transition'' (events (snd s)))"

section \<open>Lemmas for every gate\<close>

context worm_gate
begin

lemma do_transition_tier [simp]:
  "ts_current_tier (fst (snd (do_transition add trigger t r m w))) = t"
  by (simp add: do_transition_def Let_def)

lemma do_transition_locks:
  "locked (snd (snd (do_transition add trigger t r m w))) = (t = CRITICAL \<or> locked w)"
  by (simp add: do_transition_def Let_def trigger_locks)

lemma do_transition_extends: "extends (events w) (events (snd (snd (do_transition add trigger t r m w))))"
  using emit_extends extends_trans [OF emit_extends trigger_extends]
  by (simp add: do_transition_def Let_def)

lemma do_transition_count:
  "count_type ''threat_tier_transition'' (events (snd (snd (do_transition add trigger t r m w)))) =
   count_type ''threat_tier_transition'' (events w) + 1"
  by (simp add: do_transition_def Let_def trigger_count_other count_emit)

lemma observe_tier:
  "ts_current_tier (fst (snd (observe_signal add trigger s src m w))) = next_tier (clamp_score s) (ts_current_tier m)"
  by (simp add: observe_signal_def next_tier_def Let_def tier_order)

lemma observe_result:
  "sr_tier_changed (fst (observe_signal add trigger s src m w)) =
     (next_tier (clamp_score s) (ts_current_tier m) \<noteq> ts_current_tier m)"
  "sr_worm_triggered (fst (observe_signal add trigger s src m w)) =
     (next_tier (clamp_score s) (ts_current_tier m) = CRITICAL \<and> ts_current_tier m \<noteq> CRITICAL)"
  by (auto simp: observe_signal_def next_tier_def Let_def tier_order do_transition_def)

lemma observe_unchanged:
  "next_tier (clamp_score s) (ts_current_tier m) = ts_current_tier m \<Longrightarrow>
   snd (observe_signal add trigger s src m w) = (m, w)"
  by (auto simp: observe_signal_def next_tier_def Let_def tier_order split: if_splits)

lemma observe_locks:
  "locked (snd (snd (observe_signal add trigger s src m w))) =
    (locked w \<or> (next_tier (clamp_score s) (ts_current_tier m) = CRITICAL \<and> ts_current_tier m \<noteq> CRITICAL))"
  by (auto simp: observe_signal_def next_tier_def Let_def tier_order do_transition_locks)

lemma observe_extends:
  "extends (events w) (events (snd (snd (observe_signal add trigger s src m w))))"
  by (simp add: observe_signal_def Let_def do_transition_extends)

lemma force_tier_extends: "extends (events w) (events (snd (snd (force_tier add trigger t r m w))))"
  by (simp add: force_tier_def do_transition_extends)

lemma force_tier_tier [simp]: "ts_current_tier (fst (snd (force_tier add trigger t r m w))) = t"
  by (simp add: force_tier_def)

lemma force_tier_locks:
  "locked (snd (snd (force_tier add trigger t r m w))) =
     (locked w \<or> (t = CRITICAL \<and> ts_current_tier m \<noteq> CRITICAL))"
  by (auto simp: force_tier_def do_transition_locks)

end

section \<open>Runs\<close>

datatype threat_op = Observe int string | Force threat_tier string

fun threat_step :: "'w audit_adder \<Rightarrow> (string \<Rightarrow> 'w \<Rightarrow> 'w) \<Rightarrow> threat_op \<Rightarrow> threat_sm \<times> 'w \<Rightarrow> threat_sm \<times> 'w" where
  "threat_step add trg (Observe s src) (m, w) = snd (observe_signal add trg s src m w)"
| "threat_step add trg (Force t r) (m, w) = snd (force_tier add trg t r m w)"

definition threat_run ::
    "'w audit_adder \<Rightarrow> (string \<Rightarrow> 'w \<Rightarrow> 'w) \<Rightarrow> threat_op list \<Rightarrow> threat_sm \<times> 'w \<Rightarrow> threat_sm \<times> 'w" where
  "threat_run add trg ops s = fold (threat_step add trg) ops s"

context worm_gate
begin

text \<open>Along a run: a machine at CRITICAL has a locked gate, and the counter counts the entries.\<close>

lemma do_transition_inv:
  "threat_inv events locked (m, w) \<Longrightarrow> threat_inv events locked (snd (do_transition add trigger t r m w))"
  by (simp add: threat_inv_def do_transition_def Let_def trigger_locks trigger_count_other count_emit)

lemma threat_step_inv:
  "threat_inv events locked s \<Longrightarrow> threat_inv events locked (threat_step add trigger x s)"
  by (cases s; cases x) (auto simp: observe_signal_def force_tier_def Let_def do_transition_inv)

lemma threat_run_inv:
  "threat_inv events locked s \<Longrightarrow> threat_inv events locked (threat_run add trigger ops s)"
  unfolding threat_run_def by (induction ops arbitrary: s) (simp_all add: threat_step_inv)

lemma threat_run_locked_mono: "locked (snd s) \<Longrightarrow> locked (snd (threat_run add trigger ops s))"
  unfolding threat_run_def
proof (induction ops arbitrary: s)
  case (Cons x ops)
  have "locked (snd (threat_step add trigger x s))"
    using Cons.prems by (cases s; cases x) (auto simp: observe_locks force_tier_locks)
  with Cons.IH show ?case by simp
qed simp

end

section \<open>Properties\<close>

text \<open>Safety of the threat machine: from the initial state, after any sequence of signals and forced
  tiers the machine is at CRITICAL only with the lock engaged, and its 64-bit transition counter is the
  number of tier transitions in the audit chain, modulo wrap-around.\<close>

theorem threat_run_safe:
  "let s = threat_run (gate_add sha env) (gate_trigger sha env) ops (new_threat_sm, (new_worm_lock, fresh_audit)) in
   (ts_current_tier (fst s) = CRITICAL \<longrightarrow> gate_locked (snd s)) \<and>
   ts_transition_count (fst s) = of_nat (count_type ''threat_tier_transition'' (gate_trail (snd s)))"
proof -
  have "threat_inv gate_trail gate_locked (new_threat_sm, (new_worm_lock, fresh_audit))"
    by (simp add: threat_inv_def new_threat_sm_def gate_trail_def)
  from gate.threat_run_inv [OF this] show ?thesis by (simp add: threat_inv_def Let_def)
qed

theorem threat_run_safe_witness:
  "gate_locked (snd (threat_run (gate_add demo_sha demo_env) (gate_trigger demo_sha demo_env) [Observe 80 ''ids'']
     (new_threat_sm, (new_worm_lock, fresh_audit))))"
  using threat_run_safe [of demo_sha demo_env "[Observe 80 ''ids'']"]
  by (simp add: threat_run_def observe_signal_def clamp_score_def target_tier_def new_threat_sm_def
      do_transition_def Let_def)

text \<open>One signal, exactly: the tier becomes \<open>next_tier\<close> of the clamped score, the result reports whether
  it changed, the lock is engaged at once when CRITICAL is entered and otherwise left as it was, the chain
  is only extended, and repeating the same signal changes neither the machine nor the chain.\<close>

theorem observe_signal_spec:
  "let cur = ts_current_tier m; new = next_tier (clamp_score s) cur;
       (res, m', g') = observe_signal (gate_add sha env) (gate_trigger sha env) s src m g in
   ts_current_tier m' = new \<and> target_tier (clamp_score s) \<le> new \<and>
   sr_tier_changed res = (new \<noteq> cur) \<and>
   gate_locked g' = (gate_locked g \<or> new = CRITICAL \<and> cur \<noteq> CRITICAL) \<and>
   extends (gate_trail g) (gate_trail g') \<and>
   snd (observe_signal (gate_add sha env) (gate_trigger sha env) s src m' g') = (m', g')"
proof -
  obtain res m' g' where obs: "observe_signal (gate_add sha env) (gate_trigger sha env) s src m g = (res, m', g')"
    by (metis prod_cases3)
  have m': "ts_current_tier m' = next_tier (clamp_score s) (ts_current_tier m)"
    using gate.observe_tier [of sha env s src m g] by (simp add: obs)
  have "snd (observe_signal (gate_add sha env) (gate_trigger sha env) s src m' g') = (m', g')"
    by (rule gate.observe_unchanged) (simp add: m' next_tier_idem)
  with m' show ?thesis
    using gate.observe_result(1) [of sha env s src m g] gate.observe_locks [of sha env s src m g]
      gate.observe_extends [of g sha env s src m]
    by (simp add: obs target_tier_le Let_def)
qed

text \<open>De-escalation needs less than the documented full band: a machine at HIGH (lower bound 50, so a
  full band below is a score under 25) drops to MEDIUM on any score from 25 to 39, and one at CRITICAL
  drops to HIGH on any score from 50 to 64.\<close>

theorem de_escalation_within_band:
  "(25 \<le> s \<and> s < 40 \<longrightarrow>
      ts_current_tier (fst (snd (observe_signal (gate_add sha env) (gate_trigger sha env) s src
        (m\<lparr>ts_current_tier := HIGH\<rparr>) g))) = MEDIUM) \<and>
   (50 \<le> s \<and> s < 65 \<longrightarrow>
      ts_current_tier (fst (snd (observe_signal (gate_add sha env) (gate_trigger sha env) s src
        (m\<lparr>ts_current_tier := CRITICAL\<rparr>) g))) = HIGH)"
  by (simp add: gate.observe_tier) (simp add: next_tier_def target_tier_def clamp_score_def Let_def tier_order)

theorem de_escalation_within_band_witness:
  "ts_current_tier (fst (snd (observe_signal (gate_add demo_sha demo_env) (gate_trigger demo_sha demo_env) 30 ''ids''
      (new_threat_sm\<lparr>ts_current_tier := HIGH\<rparr>) (new_worm_lock, fresh_audit)))) = MEDIUM"
  using de_escalation_within_band [of 30 demo_sha demo_env "''ids''" new_threat_sm "(new_worm_lock, fresh_audit)"] by simp

end
