(* ===== verification/PacketSensor.thy ===== *)
theory PacketSensor
  imports AuditChain
begin

text \<open>
  \<^verbatim>\<open>core/packet_sensor\<close>: Shannon entropy of captured packets, accumulated into windows. libpcap is a
  parameter: the device list it reports, whether opening a device succeeds and what each dispatch
  delivers. The random bytes of the synthetic injector are an argument. Doubles are real numbers.
\<close>

section \<open>Entropy\<close>

definition byte_freq :: "bytes \<Rightarrow> nat \<Rightarrow> nat" where
  "byte_freq d b = length (filter (\<lambda>x. unat x = b) d)"

definition compute_entropy :: "bytes \<Rightarrow> real" where
  "compute_entropy d =
     (if d = [] then 0 else
      fold (\<lambda>b e. if byte_freq d b = 0 then e
                  else let p = real (byte_freq d b) / real (length d) in e - p * log 2 p)
        [0..<256] 0)"

definition entropy_to_threat_score :: "real \<Rightarrow> int" where
  "entropy_to_threat_score h =
     (let clamped = max 0 (min 8 h) in \<lfloor>(clamped / 8) * 100 + 1 / 2\<rfloor>)"

section \<open>Synthetic packets\<close>

definition DEFAULT_PACKET_SIZE :: nat where
  "DEFAULT_PACKET_SIZE = 128"

definition http_template :: string where
  "http_template = ''GET /index.html HTTP/1.1'' @ crlf @ ''Host: server.example.local'' @ crlf
     @ ''User-Agent: Astartis/1.0'' @ crlf @ ''Accept: text/html'' @ crlf @ crlf"

definition arp_pattern :: bytes where
  "arp_pattern = [0xFF, 0xFF, 0xFF, 0xFF, 0xFF, 0xFF, 0, 0, 8, 6, 0, 1]"

definition make_packet :: "(nat \<Rightarrow> 8 word) \<Rightarrow> nat \<Rightarrow> bytes" where
  "make_packet rng category =
     (if category mod 3 = 0 then map rng [0..<DEFAULT_PACKET_SIZE]
      else if category mod 3 = 1 then
        map (\<lambda>i. of_char (http_template ! (i mod length http_template))) [0..<DEFAULT_PACKET_SIZE]
      else map (\<lambda>i. arp_pattern ! (i mod length arp_pattern)) [0..<DEFAULT_PACKET_SIZE])"

definition make_batch :: "(nat \<Rightarrow> nat \<Rightarrow> 8 word) \<Rightarrow> nat \<Rightarrow> bytes list" where
  "make_batch rng n = map (\<lambda>i. make_packet (rng i) i) [0..<n]"

section \<open>The sensor\<close>

record entropy_window =
  ew_window_index :: u64
  ew_packet_count :: nat
  ew_mean_entropy_bits :: real
  ew_max_entropy_bits :: real
  ew_min_entropy_bits :: real
  ew_threat_score :: int
  ew_anomalous :: bool
  ew_synthetic :: bool
  ew_adapter_name :: string

record packet_sensor =
  ps_iface_hint :: string
  ps_window_size :: nat
  ps_pcap_handle :: "string option"
  ps_adapter_name :: string
  ps_running :: bool
  ps_synthetic_mode :: bool
  ps_window_index :: u64
  ps_entropy_accum :: "real list"

definition DEFAULT_WINDOW_SIZE :: nat where
  "DEFAULT_WINDOW_SIZE = 50"

definition ANOMALY_ENTROPY_THRESHOLD :: real where
  "ANOMALY_ENTROPY_THRESHOLD = 7.2"

definition new_packet_sensor :: "string \<Rightarrow> nat \<Rightarrow> packet_sensor" where
  "new_packet_sensor hint n =
     \<lparr>ps_iface_hint = hint, ps_window_size = (if n > 0 then n else DEFAULT_WINDOW_SIZE),
      ps_pcap_handle = None, ps_adapter_name = [], ps_running = False, ps_synthetic_mode = False,
      ps_window_index = 0, ps_entropy_accum = []\<rparr>"

definition entropy_payload :: "entropy_window \<Rightarrow> string" where
  "entropy_payload w = ''window='' @ str_of_u64 (ew_window_index w) @ '' packets='' @ str_of_nat (ew_packet_count w)
     @ '' mean_entropy='' @ fmt_fixed 3 (ew_mean_entropy_bits w)
     @ '' score='' @ str_of_int (ew_threat_score w)
     @ '' anomalous='' @ str_of_bool (ew_anomalous w) @ '' adapter='' @ ew_adapter_name w"

definition window_stats :: "real list \<Rightarrow> real \<times> real \<times> real" where
  "window_stats vs = fold (\<lambda>v (tot, mx, mn). (tot + v, if v > mx then v else mx, if v < mn then v else mn))
     vs (0, 0, 8)"

definition make_window :: "packet_sensor \<Rightarrow> entropy_window" where
  "make_window s =
     (let (tot, mx, mn) = window_stats (ps_entropy_accum s);
          mean = tot / real (length (ps_entropy_accum s))
      in \<lparr>ew_window_index = ps_window_index s, ew_packet_count = length (ps_entropy_accum s),
          ew_mean_entropy_bits = mean, ew_max_entropy_bits = mx, ew_min_entropy_bits = mn,
          ew_threat_score = entropy_to_threat_score mean,
          ew_anomalous = (mean \<ge> ANOMALY_ENTROPY_THRESHOLD),
          ew_synthetic = ps_synthetic_mode s, ew_adapter_name = ps_adapter_name s\<rparr>)"

definition flush_window_locked ::
    "'w audit_adder \<Rightarrow> (entropy_window \<Rightarrow> 'w \<Rightarrow> 'w) \<Rightarrow> packet_sensor \<times> 'w \<Rightarrow> packet_sensor \<times> 'w" where
  "flush_window_locked add window_cb = (\<lambda>(s, w).
     if ps_entropy_accum s = [] then (s, w)
     else
       let win = make_window s;
           s' = s\<lparr>ps_window_index := ps_window_index s + 1, ps_entropy_accum := []\<rparr>
       in (s', window_cb win (emit add ''packet_entropy'' (entropy_payload win) w)))"

definition flush_window ::
    "'w audit_adder \<Rightarrow> (entropy_window \<Rightarrow> 'w \<Rightarrow> 'w) \<Rightarrow> bool \<Rightarrow> packet_sensor \<times> 'w \<Rightarrow> packet_sensor \<times> 'w" where
  "flush_window add window_cb force s =
     (if force \<or> length (ps_entropy_accum (fst s)) \<ge> ps_window_size (fst s)
      then flush_window_locked add window_cb s else s)"

definition on_packet ::
    "'w audit_adder \<Rightarrow> (entropy_window \<Rightarrow> 'w \<Rightarrow> 'w) \<Rightarrow> bytes \<Rightarrow> packet_sensor \<times> 'w \<Rightarrow> packet_sensor \<times> 'w" where
  "on_packet add window_cb d = (\<lambda>(s, w).
     let s' = s\<lparr>ps_entropy_accum := ps_entropy_accum s @ [compute_entropy d]\<rparr> in
     if length (ps_entropy_accum s') \<ge> ps_window_size s' then flush_window_locked add window_cb (s', w)
     else (s', w))"

text \<open>The pcap callback drops empty packets; a dispatch delivers packets and returns a code.\<close>

datatype dispatch_rc = Dispatched nat | PCAP_ERROR | PCAP_ERROR_BREAK

definition pcap_callback ::
    "'w audit_adder \<Rightarrow> (entropy_window \<Rightarrow> 'w \<Rightarrow> 'w) \<Rightarrow> bytes \<Rightarrow> packet_sensor \<times> 'w \<Rightarrow> packet_sensor \<times> 'w" where
  "pcap_callback add window_cb d s = (if length d > 0 then on_packet add window_cb d s else s)"

fun capture_loop ::
    "'w audit_adder \<Rightarrow> (entropy_window \<Rightarrow> 'w \<Rightarrow> 'w) \<Rightarrow> (bytes list \<times> dispatch_rc) list
       \<Rightarrow> packet_sensor \<times> 'w \<Rightarrow> packet_sensor \<times> 'w" where
  "capture_loop add cb [] s = s"
| "capture_loop add cb ((pkts, rc) # ds) s =
     (if \<not> ps_running (fst s) then s
      else
        let s' = fold (pcap_callback add cb) pkts s in
        case rc of PCAP_ERROR_BREAK \<Rightarrow> s' | PCAP_ERROR \<Rightarrow> s' | Dispatched n \<Rightarrow> capture_loop add cb ds s')"

text \<open>The synthetic loop up to the point where \<open>stop\<close> clears the running flag, \<open>n\<close> packets later.\<close>

definition synthetic_loop ::
    "'w audit_adder \<Rightarrow> (entropy_window \<Rightarrow> 'w \<Rightarrow> 'w) \<Rightarrow> (nat \<Rightarrow> nat \<Rightarrow> 8 word) \<Rightarrow> nat
       \<Rightarrow> packet_sensor \<times> 'w \<Rightarrow> packet_sensor \<times> 'w" where
  "synthetic_loop add cb rng n s = fold (on_packet add cb) (make_batch rng n) s"

section \<open>Adapter selection, start, stop\<close>

record pcap_dev =
  pd_name :: string
  pd_loopback :: bool
  pd_up :: bool

fun choose_dev :: "string \<Rightarrow> pcap_dev list \<Rightarrow> pcap_dev option \<Rightarrow> pcap_dev option" where
  "choose_dev hint [] chosen = chosen"
| "choose_dev hint (d # ds) chosen =
     (if hint \<noteq> [] \<and> hint = pd_name d then Some d
      else if hint = [] \<and> \<not> pd_loopback d \<and> pd_up d \<and> chosen = None then choose_dev hint ds (Some d)
      else choose_dev hint ds chosen)"

definition open_best_adapter :: "pcap_dev list option \<Rightarrow> (string \<Rightarrow> bool) \<Rightarrow> string \<Rightarrow> string option" where
  "open_best_adapter all_devs open_live hint =
     (case all_devs of
        None \<Rightarrow> None
      | Some devs \<Rightarrow>
          (case choose_dev hint devs None of
             None \<Rightarrow> None
           | Some d \<Rightarrow> if open_live (pd_name d) then Some (pd_name d) else None))"

definition start_sensor :: "pcap_dev list option \<Rightarrow> (string \<Rightarrow> bool) \<Rightarrow> packet_sensor \<Rightarrow> bool \<times> packet_sensor" where
  "start_sensor devs open_live s =
     (if ps_running s then (\<not> ps_synthetic_mode s, s)
      else case open_best_adapter devs open_live (ps_iface_hint s) of
        Some n \<Rightarrow> (True, s\<lparr>ps_pcap_handle := Some n, ps_adapter_name := n,
                          ps_synthetic_mode := False, ps_running := True\<rparr>)
      | None \<Rightarrow> (False, s\<lparr>ps_pcap_handle := None, ps_synthetic_mode := True,
                         ps_adapter_name := ''synthetic'', ps_running := True\<rparr>))"

definition stop_sensor ::
    "'w audit_adder \<Rightarrow> (entropy_window \<Rightarrow> 'w \<Rightarrow> 'w) \<Rightarrow> packet_sensor \<times> 'w \<Rightarrow> packet_sensor \<times> 'w" where
  "stop_sensor add cb = (\<lambda>(s, w).
     if \<not> ps_running s then (s, w)
     else flush_window add cb True (s\<lparr>ps_running := False, ps_pcap_handle := None\<rparr>, w))"

section \<open>Entropy bounds\<close>

lemma byte_freq_sum: "(\<Sum>b<256. byte_freq d b) = length d"
proof (induction d)
  case (Cons x d)
  have "unat x < 2 ^ LENGTH(8)" by (rule unsigned_less)
  then have "(\<Sum>b<256. (if unat x = b then 1 else 0 :: nat)) = 1" by simp
  moreover have "byte_freq (x # d) b = (if unat x = b then 1 else 0) + byte_freq d b" for b
    by (simp add: byte_freq_def)
  ultimately show ?case using Cons by (simp add: sum.distrib)
qed (simp add: byte_freq_def)

definition entropy_term :: "real \<Rightarrow> real" where
  "entropy_term p = (if p = 0 then 0 else - (p * log 2 p))"

lemma compute_entropy_sum:
  "d \<noteq> [] \<Longrightarrow> compute_entropy d = (\<Sum>b<256. entropy_term (real (byte_freq d b) / real (length d)))"
proof -
  assume d: "d \<noteq> []"
  have "fold (\<lambda>b e. if byte_freq d b = 0 then e
            else let p = real (byte_freq d b) / real (length d) in e - p * log 2 p) [0..<n] 0
        = (\<Sum>b<n. entropy_term (real (byte_freq d b) / real (length d)))" for n
    by (induction n) (simp_all add: entropy_term_def Let_def d)
  with d show ?thesis by (simp add: compute_entropy_def)
qed

lemma entropy_term_bounds:
  assumes "0 \<le> p" "p \<le> 1"
  shows "0 \<le> entropy_term p" and "entropy_term p - 8 * p \<le> (1 / 256 - p) / ln 2"
proof -
  show "0 \<le> entropy_term p"
    using assms by (simp add: entropy_term_def mult_nonneg_nonpos)
  show "entropy_term p - 8 * p \<le> (1 / 256 - p) / ln 2"
  proof (cases "p = 0")
    case False
    with assms have p: "0 < p" by simp
    have "ln (1 / (256 * p)) \<le> 1 / (256 * p) - 1" using p by (intro ln_le_minus_one) simp
    then have "p * ln (1 / (256 * p)) \<le> p * (1 / (256 * p) - 1)" using p by (simp add: mult_left_mono)
    moreover have "p * (1 / (256 * p) - 1) = 1 / 256 - p" using p by (simp add: right_diff_distrib)
    ultimately have le: "p * ln (1 / (256 * p)) \<le> 1 / 256 - p" by simp
    have "ln (256 :: real) = 8 * ln 2" using ln_realpow [of 2 8] by simp
    then have lnp: "ln (1 / (256 * p)) = - 8 * ln 2 - ln p" using p by (simp add: ln_div ln_mult)
    have "p * ln (1 / (256 * p)) / ln 2 = entropy_term p - 8 * p"
      unfolding lnp using p by (simp add: entropy_term_def log_def field_simps)
    then show ?thesis using divide_right_mono [OF le, of "ln 2"] by simp
  qed (simp add: entropy_term_def)
qed

lemma compute_entropy_bounds: "0 \<le> compute_entropy d" "compute_entropy d \<le> 8"
proof -
  let ?p = "\<lambda>b. real (byte_freq d b) / real (length d)"
  have fl: "byte_freq d b \<le> length d" for b by (simp add: byte_freq_def)
  then have p: "0 \<le> ?p b" "?p b \<le> 1" for b by (auto simp: divide_le_eq)
  show "0 \<le> compute_entropy d"
    using p by (cases "d = []") (auto simp: compute_entropy_def [of "[]"] compute_entropy_sum
        intro!: sum_nonneg entropy_term_bounds)
  show "compute_entropy d \<le> 8"
  proof (cases "d = []")
    case False
    have one: "(\<Sum>b<256. ?p b) = 1"
      using False byte_freq_sum [of d] by (simp add: sum_divide_distrib [symmetric] of_nat_sum [symmetric] del: of_nat_sum)
    have "(\<Sum>b<256. entropy_term (?p b) - 8 * ?p b) \<le> (\<Sum>b<256. (1 / 256 - ?p b) / ln 2)"
      by (intro sum_mono entropy_term_bounds p)
    also have "\<dots> = ((\<Sum>b<(256::nat). 1 / 256) - (\<Sum>b<256. ?p b)) / ln 2"
      by (simp only: sum_divide_distrib [symmetric] sum_subtractf)
    also have "\<dots> = 0" using one by simp
    finally have "(\<Sum>b<256. entropy_term (?p b)) \<le> (\<Sum>b<256. 8 * ?p b)" by (simp only: sum_subtractf)
    also have "\<dots> = 8" using one by (simp only: sum_distrib_left [symmetric])
    finally show ?thesis using False by (simp add: compute_entropy_sum)
  qed (simp add: compute_entropy_def)
qed

section \<open>Windows\<close>

lemma score_bounds: "0 \<le> entropy_to_threat_score h" "entropy_to_threat_score h \<le> 100"
  by (auto simp: entropy_to_threat_score_def Let_def le_floor_iff floor_le_iff)

lemma score_mono: "g \<le> h \<Longrightarrow> entropy_to_threat_score g \<le> entropy_to_threat_score h"
  unfolding entropy_to_threat_score_def Let_def by (rule floor_mono) simp

lemma score_anomalous: "ANOMALY_ENTROPY_THRESHOLD \<le> h \<Longrightarrow> 90 \<le> entropy_to_threat_score h"
proof -
  assume "ANOMALY_ENTROPY_THRESHOLD \<le> h"
  then have "entropy_to_threat_score ANOMALY_ENTROPY_THRESHOLD \<le> entropy_to_threat_score h"
    by (rule score_mono)
  then show ?thesis by (simp add: entropy_to_threat_score_def ANOMALY_ENTROPY_THRESHOLD_def)
qed

definition values_ok :: "real list \<Rightarrow> bool" where
  "values_ok vs = list_all (\<lambda>v. 0 \<le> v \<and> v \<le> 8) vs"

text \<open>Sum, maximum and minimum as the loop computes them, over values in 0..8.\<close>

lemma window_stats_snoc:
  "window_stats (vs @ [v]) =
     (let (tot, mx, mn) = window_stats vs in (tot + v, if v > mx then v else mx, if v < mn then v else mn))"
  by (simp add: window_stats_def case_prod_beta Let_def)

lemma window_stats_bounds:
  "values_ok vs \<Longrightarrow> window_stats vs = (tot, mx, mn) \<Longrightarrow>
     0 \<le> mx \<and> mx \<le> 8 \<and> 0 \<le> mn \<and> mn \<le> 8 \<and>
     mn * real (length vs) \<le> tot \<and> tot \<le> mx * real (length vs) \<and> (\<forall>v\<in>set vs. mn \<le> v \<and> v \<le> mx)"
proof (induction vs arbitrary: tot mx mn rule: rev_induct)
  case (snoc v vs)
  obtain s x n where st: "window_stats vs = (s, x, n)" by (metis prod_cases3)
  have ih: "0 \<le> x" "x \<le> 8" "0 \<le> n" "n \<le> 8" "n * real (length vs) \<le> s" "s \<le> x * real (length vs)"
    "\<forall>u\<in>set vs. n \<le> u \<and> u \<le> x"
    using snoc.IH [OF _ st] snoc.prems(1) by (auto simp: values_ok_def)
  have v: "0 \<le> v" "v \<le> 8" using snoc.prems(1) by (auto simp: values_ok_def)
  have eqs: "tot = s + v" "mx = max x v" "mn = min n v"
    using snoc.prems(2) by (auto simp: window_stats_snoc st max_def min_def split: if_splits)
  have "min n v * real (length vs) \<le> n * real (length vs)"
    "x * real (length vs) \<le> max x v * real (length vs)"
    by (simp_all add: mult_right_mono)
  with ih v have "mn * real (length (vs @ [v])) \<le> tot" "tot \<le> mx * real (length (vs @ [v]))"
    by (auto simp: eqs distrib_left)
  moreover have "\<forall>u\<in>set (vs @ [v]). mn \<le> u \<and> u \<le> mx"
    using ih(7) by (auto simp: eqs min.coboundedI1 max.coboundedI1)
  ultimately show ?case using ih v by (auto simp: eqs)
qed (simp add: window_stats_def)

definition window_ok :: "nat \<Rightarrow> entropy_window \<Rightarrow> bool" where
  "window_ok n win \<longleftrightarrow>
     0 < ew_packet_count win \<and> ew_packet_count win \<le> n \<and>
     0 \<le> ew_min_entropy_bits win \<and> ew_min_entropy_bits win \<le> ew_mean_entropy_bits win \<and>
     ew_mean_entropy_bits win \<le> ew_max_entropy_bits win \<and> ew_max_entropy_bits win \<le> 8 \<and>
     0 \<le> ew_threat_score win \<and> ew_threat_score win \<le> 100 \<and>
     (ew_anomalous win \<longrightarrow> 90 \<le> ew_threat_score win)"

lemma make_window_ok:
  assumes "values_ok (ps_entropy_accum s)" "ps_entropy_accum s \<noteq> []" "length (ps_entropy_accum s) \<le> n"
  shows "window_ok n (make_window s)"
proof -
  obtain tot mx mn where st: "window_stats (ps_entropy_accum s) = (tot, mx, mn)" by (metis prod_cases3)
  have pos: "0 < real (length (ps_entropy_accum s))" using assms by simp
  from window_stats_bounds [OF assms(1) st] pos show ?thesis
    using assms by (auto simp: window_ok_def make_window_def st score_bounds le_divide_eq divide_le_eq
        Let_def intro: score_anomalous)
qed

text \<open>A run on a list of packets, the windows reported to the callback collected in order.\<close>

definition collect_cb :: "entropy_window \<Rightarrow> entropy_window list \<Rightarrow> entropy_window list" where
  "collect_cb win wins = wins @ [win]"

definition sensor_inv :: "packet_sensor \<times> entropy_window list \<Rightarrow> bool" where
  "sensor_inv st \<longleftrightarrow>
     0 < ps_window_size (fst st) \<and> values_ok (ps_entropy_accum (fst st)) \<and>
     length (ps_entropy_accum (fst st)) < ps_window_size (fst st) \<and>
     list_all (window_ok (ps_window_size (fst st))) (snd st) \<and>
     map ew_window_index (snd st) = map of_nat [0..<length (snd st)] \<and>
     ps_window_index (fst st) = of_nat (length (snd st))"

definition null_add :: "'w audit_adder" where
  "null_add t p w = ([], w)"

lemma emit_null [simp]: "emit null_add t p w = w"
  by (simp add: emit_def null_add_def)

lemma flush_locked_inv:
  assumes "sensor_inv (s\<lparr>ps_entropy_accum := []\<rparr>, wins)" "values_ok (ps_entropy_accum s)"
    "length (ps_entropy_accum s) \<le> ps_window_size s"
  shows "sensor_inv (flush_window_locked null_add collect_cb (s, wins))"
  using assms make_window_ok [of s "ps_window_size s"]
  by (auto simp: sensor_inv_def flush_window_locked_def collect_cb_def Let_def make_window_def
      values_ok_def case_prod_beta)

lemma on_packet_inv:
  assumes "sensor_inv (s, wins)"
  shows "sensor_inv (on_packet null_add collect_cb d (s, wins))"
proof -
  let ?s = "s\<lparr>ps_entropy_accum := ps_entropy_accum s @ [compute_entropy d]\<rparr>"
  have ok: "values_ok (ps_entropy_accum ?s)"
    using assms compute_entropy_bounds [of d] by (auto simp: sensor_inv_def values_ok_def)
  have "sensor_inv (?s\<lparr>ps_entropy_accum := []\<rparr>, wins)"
    using assms by (auto simp: sensor_inv_def values_ok_def)
  moreover have "length (ps_entropy_accum ?s) \<le> ps_window_size ?s"
    using assms by (auto simp: sensor_inv_def)
  ultimately show ?thesis
    using flush_locked_inv [of ?s wins] assms ok by (auto simp: on_packet_def Let_def sensor_inv_def not_le)
qed

lemma on_packet_count:
  "0 < ps_window_size (fst st) \<Longrightarrow>
   sum_list (map ew_packet_count (snd (on_packet null_add collect_cb d st)))
     + length (ps_entropy_accum (fst (on_packet null_add collect_cb d st)))
   = sum_list (map ew_packet_count (snd st)) + length (ps_entropy_accum (fst st)) + 1
   \<and> ps_window_size (fst (on_packet null_add collect_cb d st)) = ps_window_size (fst st)"
  by (cases st) (simp add: on_packet_def Let_def flush_window_locked_def collect_cb_def make_window_def case_prod_beta)

lemma packets_run:
  assumes "sensor_inv st"
  shows "sensor_inv (fold (on_packet null_add collect_cb) pkts st) \<and>
    sum_list (map ew_packet_count (snd (fold (on_packet null_add collect_cb) pkts st)))
     + length (ps_entropy_accum (fst (fold (on_packet null_add collect_cb) pkts st)))
   = sum_list (map ew_packet_count (snd st)) + length (ps_entropy_accum (fst st)) + length pkts \<and>
   ps_window_size (fst (fold (on_packet null_add collect_cb) pkts st)) = ps_window_size (fst st)"
  using assms
proof (induction pkts arbitrary: st)
  case (Cons d pkts)
  have "sensor_inv (on_packet null_add collect_cb d st)"
    using Cons.prems on_packet_inv [of "fst st" "snd st" d] by simp
  note ih = Cons.IH [OF this]
  have "0 < ps_window_size (fst st)" using Cons.prems by (simp add: sensor_inv_def)
  from ih on_packet_count [OF this, of d] show ?case by simp
qed simp

lemma sensor_inv_new: "sensor_inv (new_packet_sensor hint n, [])"
  by (simp add: sensor_inv_def new_packet_sensor_def values_ok_def DEFAULT_WINDOW_SIZE_def)

section \<open>Properties\<close>

text \<open>C40. The entropy of every packet lies between 0 and 8 bits, so its threat score lies in 0..100; a packet
  mean at or above the anomaly threshold scores at least 90, which is in the CRITICAL band.\<close>

theorem entropy_and_score_bounds:
  "0 \<le> compute_entropy d \<and> compute_entropy d \<le> 8 \<and>
   0 \<le> entropy_to_threat_score h \<and> entropy_to_threat_score h \<le> 100 \<and>
   entropy_to_threat_score (max h ANOMALY_ENTROPY_THRESHOLD) \<ge> 90"
  by (simp add: compute_entropy_bounds score_bounds score_anomalous)

text \<open>Over any sequence of packets the sensor loses none and reports well-formed windows: every window has
  between one and \<open>window_size\<close> packets with minimum, mean and maximum entropy in order within 0..8, an
  anomalous window scores at least 90, window indices count up from 0, and the packets of all windows
  plus those pending are the packets received.\<close>

theorem sensor_windows_correct:
  "let n = (if n0 > 0 then n0 else DEFAULT_WINDOW_SIZE);
       (s, wins) = fold (on_packet null_add collect_cb) pkts (new_packet_sensor hint n0, []) in
   list_all (window_ok n) wins \<and>
   map ew_window_index wins = map of_nat [0..<length wins] \<and>
   sum_list (map ew_packet_count wins) + length (ps_entropy_accum s) = length pkts \<and>
   length (ps_entropy_accum s) < n"
  using packets_run [OF sensor_inv_new [of hint n0], of pkts]
  by (auto simp: sensor_inv_def case_prod_beta Let_def) (auto simp: new_packet_sensor_def)

end
