(* ===== verification/ChaosDetector.thy ===== *)
theory ChaosDetector
  imports AuditChain
begin

text \<open>
  \<^verbatim>\<open>core/chaos_detector\<close>: the 0-1 test for chaos on windows of samples, Rosenstein's Lyapunov
  estimate beside it, and the window accumulator. Doubles are real numbers, a NaN is \<open>None\<close>,
  \<^verbatim>\<open>M_PI\<close> is \<open>pi\<close>, and \<^verbatim>\<open>std::nth_element\<close> gives the element of the sorted vector.
\<close>

section \<open>Signal algorithms\<close>

definition N_PHASES :: nat where
  "N_PHASES = 20"

definition default_phases :: "real list" where
  "default_phases = map (\<lambda>i. pi * (real i + 1) / (real N_PHASES + 1)) [0..<N_PHASES]"

text \<open>The running sums \<open>p\<close> (with \<open>f = cos\<close>) and \<open>q\<close> (with \<open>f = sin\<close>) after \<open>j\<close> samples.\<close>

definition orbit :: "(real \<Rightarrow> real) \<Rightarrow> real list \<Rightarrow> real \<Rightarrow> nat \<Rightarrow> real" where
  "orbit f series c j = (\<Sum>i\<leftarrow>[0..<j]. series ! i * f ((real i + 1) * c))"

definition compute_msd :: "real list \<Rightarrow> real \<Rightarrow> nat \<Rightarrow> real list" where
  "compute_msd series c n_max =
     map (\<lambda>n. let cnt = int (length series) - int n in
             if cnt \<le> 0 then 0
             else (\<Sum>j\<leftarrow>[1..<nat cnt + 1].
                     let dp = orbit cos series c (j + n) - orbit cos series c j;
                         dq = orbit sin series c (j + n) - orbit sin series c j
                     in dp * dp + dq * dq) / real_of_int cnt)
       [1..<n_max + 1]"

definition mean_of :: "real list \<Rightarrow> real" where
  "mean_of xs = sum_list xs / real (length xs)"

definition cross_sum :: "real list \<Rightarrow> real list \<Rightarrow> real" where
  "cross_sum xs ys = (\<Sum>i\<leftarrow>[0..<length xs]. (xs ! i - mean_of xs) * (ys ! i - mean_of ys))"

definition pearson :: "real list \<Rightarrow> real list \<Rightarrow> real" where
  "pearson xs ys =
     (if length xs < 2 \<or> length xs \<noteq> length ys then 0
      else
        let num = cross_sum xs ys; dx2 = cross_sum xs xs; dy2 = cross_sum ys ys;
            denom = sqrt (dx2 * dy2)
        in if denom < 1 / 10 ^ 12 then 0 else num / denom)"

definition median :: "real list \<Rightarrow> real" where
  "median v =
     (if v = [] then 0
      else let mid = length v div 2 in
        if length v mod 2 = 1 then sort v ! mid
        else (sort v ! (mid - 1) + sort v ! mid) / 2)"

definition compute_K :: "real list \<Rightarrow> real list \<Rightarrow> real" where
  "compute_K series phases_in =
     (if length series < 10 then 0
      else
        let phases = (if phases_in = [] then default_phases else phases_in);
            n_max = max 5 (length series div 10);
            n_vec = map (\<lambda>i. real i + 1) [0..<n_max];
            K = median (map (\<lambda>c. pearson n_vec (compute_msd series c n_max)) phases);
            K1 = (if K < 0 then 0 else K)
        in if K1 > 1 then 1 else K1)"

subsection \<open>Lyapunov exponent\<close>

definition embed_dist :: "real list \<Rightarrow> nat \<Rightarrow> nat \<Rightarrow> nat \<Rightarrow> nat \<Rightarrow> real" where
  "embed_dist series edim tau a b =
     sqrt (\<Sum>d\<leftarrow>[0..<edim]. let diff = series ! (a + d * tau) - series ! (b + d * tau) in diff * diff)"

text \<open>The nearest neighbour of vector \<open>i\<close>; \<open>None\<close> for the best distance stands for \<^verbatim>\<open>DBL_MAX\<close>.\<close>

definition nearest :: "real list \<Rightarrow> nat \<Rightarrow> nat \<Rightarrow> nat \<Rightarrow> nat \<Rightarrow> nat option" where
  "nearest series edim tau M i =
     map_option snd (fold (\<lambda>j best.
        if \<bar>int i - int j\<bar> \<le> int edim then best
        else let d = embed_dist series edim tau i j in
          (case best of None \<Rightarrow> Some (d, j) | Some (b, _) \<Rightarrow> if d < b then Some (d, j) else best))
       [0..<M] None)"

definition log_divergences :: "real list \<Rightarrow> nat \<Rightarrow> nat \<Rightarrow> nat \<Rightarrow> nat \<Rightarrow> real list" where
  "log_divergences series edim tau M s =
     concat (map (\<lambda>i. case nearest series edim tau M i of
         None \<Rightarrow> []
       | Some j \<Rightarrow>
           if i + s \<ge> M \<or> j + s \<ge> M then []
           else let d = embed_dist series edim tau (i + s) (j + s) in
             if d > 1 / 10 ^ 12 then [ln d] else []) [0..<M])"

definition compute_lyapunov :: "real list \<Rightarrow> nat \<Rightarrow> nat \<Rightarrow> real option" where
  "compute_lyapunov series edim tau =
     (let M = int (length series) - (int edim - 1) * int tau in
      if M < 2 * int edim then None
      else
        let max_steps = min 20 (nat M div 4) in
        if max_steps < 2 then None
        else
          let pts = concat (map (\<lambda>s. let ls = log_divergences series edim tau (nat M) s in
                      if ls \<noteq> [] then [(real s, sum_list ls / real (length ls))] else [])
                    [1..<max_steps + 1]);
              xs = map fst pts; ys = map snd pts
          in if length xs < 2 then None
             else if cross_sum xs xs < 1 / 10 ^ 12 then None
             else Some (cross_sum xs ys / cross_sum xs xs))"

section \<open>The detector\<close>

record chaos_window =
  cw_window_index :: u64
  cw_sample_count :: nat
  cw_K :: real
  cw_lambda1 :: "real option"
  cw_anomalous :: bool
  cw_synthetic :: bool

record chaos_detector =
  cd_window_size :: nat
  cd_window_index :: u64
  cd_samples :: "real list"
  cd_any_synthetic :: bool

definition CHAOS_THRESHOLD :: real where
  "CHAOS_THRESHOLD = 7 / 10"

definition new_chaos_detector :: "nat \<Rightarrow> chaos_detector" where
  "new_chaos_detector n =
     \<lparr>cd_window_size = n, cd_window_index = 0, cd_samples = [], cd_any_synthetic = False\<rparr>"

definition make_chaos_window :: "chaos_detector \<Rightarrow> chaos_window" where
  "make_chaos_window d =
     (let K = compute_K (cd_samples d) [] in
      \<lparr>cw_window_index = cd_window_index d, cw_sample_count = length (cd_samples d), cw_K = K,
       cw_lambda1 = compute_lyapunov (cd_samples d) 3 1, cw_anomalous = (K > CHAOS_THRESHOLD),
       cw_synthetic = cd_any_synthetic d\<rparr>)"

definition chaos_payload :: "chaos_window \<Rightarrow> string" where
  "chaos_payload w = ''window='' @ str_of_u64 (cw_window_index w)
     @ '' samples='' @ str_of_nat (cw_sample_count w) @ '' K='' @ fmt_fixed 4 (cw_K w)
     @ '' lambda1='' @ (case cw_lambda1 w of None \<Rightarrow> ''nan'' | Some l \<Rightarrow> fmt_fixed 4 l)
     @ '' anomalous='' @ str_of_bool (cw_anomalous w)
     @ '' synthetic='' @ str_of_bool (cw_synthetic w)"

definition flush_chaos ::
    "'w audit_adder \<Rightarrow> (chaos_window \<Rightarrow> 'w \<Rightarrow> 'w) \<Rightarrow> bool \<Rightarrow> chaos_detector \<times> 'w \<Rightarrow> chaos_detector \<times> 'w" where
  "flush_chaos add window_cb force = (\<lambda>(d, w).
     if length (cd_samples d) < 10 \<and> \<not> force then (d, w)
     else if cd_samples d = [] then (d, w)
     else
       let win = make_chaos_window d;
           w' = window_cb win (emit add ''chaos_window'' (chaos_payload win) w)
       in (d\<lparr>cd_window_index := cd_window_index d + 1, cd_samples := [], cd_any_synthetic := False\<rparr>, w'))"

definition push_sample ::
    "'w audit_adder \<Rightarrow> (chaos_window \<Rightarrow> 'w \<Rightarrow> 'w) \<Rightarrow> real \<times> bool \<Rightarrow> chaos_detector \<times> 'w \<Rightarrow> chaos_detector \<times> 'w" where
  "push_sample add window_cb = (\<lambda>(v, synthetic) (d, w).
     let d' = d\<lparr>cd_samples := cd_samples d @ [v],
                cd_any_synthetic := (if synthetic then True else cd_any_synthetic d)\<rparr> in
     if length (cd_samples d') \<ge> cd_window_size d' then flush_chaos add window_cb False (d', w)
     else (d', w))"

section \<open>Bounds\<close>

lemma cross_sum_nonneg: "0 \<le> cross_sum xs xs"
  unfolding cross_sum_def by (intro sum_list_nonneg) auto

lemma cauchy_schwarz_list:
  fixes f g :: "nat \<Rightarrow> real"
  shows "(\<Sum>i\<leftarrow>is. f i * g i)\<^sup>2 \<le> (\<Sum>i\<leftarrow>is. f i * f i) * (\<Sum>i\<leftarrow>is. g i * g i)"
proof (induction "is")
  case (Cons i "is")
  let ?a = "\<Sum>i\<leftarrow>is. f i * f i" and ?b = "\<Sum>i\<leftarrow>is. g i * g i" and ?c = "\<Sum>i\<leftarrow>is. f i * g i"
  have ab: "0 \<le> ?a" "0 \<le> ?b" by (auto intro!: sum_list_nonneg)
  have "(2 * (f i * g i) * ?c)\<^sup>2 \<le> (2 * (f i * g i))\<^sup>2 * (?a * ?b)"
    using Cons by (simp add: power_mult_distrib mult_left_mono)
  also have "\<dots> \<le> (f i * f i * ?b + g i * g i * ?a)\<^sup>2"
  proof -
    have "0 \<le> (f i * f i * ?b - g i * g i * ?a)\<^sup>2" by simp
    then show ?thesis by (simp add: power2_eq_square algebra_simps)
  qed
  finally have "\<bar>2 * (f i * g i) * ?c\<bar> \<le> f i * f i * ?b + g i * g i * ?a"
    using ab by (simp add: abs_le_square_iff [symmetric])
  then show ?case using Cons by (simp add: power2_eq_square algebra_simps)
qed simp

lemma pearson_bounds: "\<bar>pearson xs ys\<bar> \<le> 1"
proof -
  have "(cross_sum xs ys)\<^sup>2 \<le> cross_sum xs xs * cross_sum ys ys" if "length xs = length ys"
    using cauchy_schwarz_list [of "\<lambda>i. xs ! i - mean_of xs" "\<lambda>i. ys ! i - mean_of ys" "[0..<length xs]"] that
    by (simp add: cross_sum_def)
  then have "\<bar>cross_sum xs ys\<bar> \<le> sqrt (cross_sum xs xs * cross_sum ys ys)" if "length xs = length ys"
    using real_sqrt_le_mono that by fastforce
  then show ?thesis
    by (auto simp: pearson_def Let_def divide_le_eq abs_divide)
qed

lemma compute_K_bounds: "0 \<le> compute_K series ph" "compute_K series ph \<le> 1"
  by (simp_all add: compute_K_def Let_def)

text \<open>The median lies between the bounds of its elements.\<close>

lemma median_between:
  assumes "v \<noteq> []" and all: "\<forall>x\<in>set v. a \<le> x \<and> x \<le> b"
  shows "a \<le> median v \<and> median v \<le> b"
proof -
  have "sort v ! i \<in> set v" if "i < length v" for i
    using that nth_mem [of i "sort v"] by simp
  then have s: "a \<le> sort v ! i \<and> sort v ! i \<le> b" if "i < length v" for i
    using all that by blast
  have "length v div 2 < length v" "length v div 2 - 1 < length v"
    using assms(1) by (cases v; simp)+
  from s [OF this(1)] s [OF this(2)] assms(1) show ?thesis by (simp add: median_def Let_def)
qed

section \<open>Windows\<close>

definition collect_chaos :: "chaos_window \<Rightarrow> chaos_window list \<Rightarrow> chaos_window list" where
  "collect_chaos win wins = wins @ [win]"

definition silent_add :: "'w audit_adder" where
  "silent_add t p w = ([], w)"

definition chaos_inv :: "nat \<Rightarrow> (real \<times> bool) list \<Rightarrow> chaos_detector \<times> chaos_window list \<Rightarrow> bool" where
  "chaos_inv n pushed st \<longleftrightarrow>
     cd_window_size (fst st) = n \<and>
     (\<forall>win\<in>set (snd st). cw_sample_count win = max 10 n \<and> 0 \<le> cw_K win \<and> cw_K win \<le> 1 \<and>
        cw_anomalous win = (cw_K win > CHAOS_THRESHOLD)) \<and>
     map cw_window_index (snd st) = map of_nat [0..<length (snd st)] \<and>
     cd_window_index (fst st) = of_nat (length (snd st)) \<and>
     length (cd_samples (fst st)) < max 10 n \<and>
     length (snd st) * max 10 n + length (cd_samples (fst st)) = length pushed \<and>
     cd_samples (fst st) = drop (length (snd st) * max 10 n) (map fst pushed) \<and>
     cd_any_synthetic (fst st) = list_ex snd (drop (length (snd st) * max 10 n) pushed)"

lemma push_sample_pending:
  "length (cd_samples d) + 1 < max 10 (cd_window_size d) \<Longrightarrow>
   push_sample add cb (v, b) (d, w) =
     (d\<lparr>cd_samples := cd_samples d @ [v], cd_any_synthetic := (b \<or> cd_any_synthetic d)\<rparr>, w)"
  by (auto simp: push_sample_def flush_chaos_def Let_def less_max_iff_disj)

lemma push_sample_full:
  "length (cd_samples d) + 1 \<ge> max 10 (cd_window_size d) \<Longrightarrow>
   push_sample silent_add collect_chaos (v, b) (d, wins) =
     (d\<lparr>cd_window_index := cd_window_index d + 1, cd_samples := [], cd_any_synthetic := False\<rparr>,
      wins @ [make_chaos_window (d\<lparr>cd_samples := cd_samples d @ [v],
                                    cd_any_synthetic := (b \<or> cd_any_synthetic d)\<rparr>)])"
  by (simp add: push_sample_def flush_chaos_def Let_def collect_chaos_def silent_add_def emit_def)

lemma push_sample_inv:
  assumes "chaos_inv n pushed st"
  shows "chaos_inv n (pushed @ [x]) (push_sample silent_add collect_chaos x st)"
proof -
  obtain d wins where st: "st = (d, wins)" by (cases st)
  obtain v b where x: "x = (v, b)" by (cases x)
  define k where "k = max 10 n"
  have inv: "cd_window_size d = n" "length wins * k + length (cd_samples d) = length pushed"
    "cd_samples d = drop (length wins * k) (map fst pushed)"
    "cd_any_synthetic d = list_ex snd (drop (length wins * k) pushed)"
    "length (cd_samples d) < k"
    using assms unfolding chaos_inv_def st k_def fst_conv snd_conv by blast+
  show ?thesis
  proof (cases "length (cd_samples d) + 1 < k")
    case True
    then have "push_sample silent_add collect_chaos x st =
        (d\<lparr>cd_samples := cd_samples d @ [v], cd_any_synthetic := (b \<or> cd_any_synthetic d)\<rparr>, wins)"
      using push_sample_pending [of d] by (simp add: st x k_def inv(1))
    with True inv assms show ?thesis by (auto simp: chaos_inv_def st x k_def [symmetric])
  next
    case False
    then have "max 10 (cd_window_size d) \<le> length (cd_samples d) + 1" by (simp only: k_def inv(1) not_less)
    then have push: "push_sample silent_add collect_chaos x st =
        (d\<lparr>cd_window_index := cd_window_index d + 1, cd_samples := [], cd_any_synthetic := False\<rparr>,
         wins @ [make_chaos_window (d\<lparr>cd_samples := cd_samples d @ [v],
                                       cd_any_synthetic := (b \<or> cd_any_synthetic d)\<rparr>)])"
      unfolding st x by (rule push_sample_full)
    have full: "length (cd_samples d) + 1 = k" using False inv(5) by simp
    then have "length wins * k + k = length pushed + 1" using inv(2) by linarith
    moreover have "0 < k" by (simp add: k_def)
    ultimately show ?thesis
      using assms full unfolding chaos_inv_def push k_def [symmetric]
      by (simp add: st x make_chaos_window_def compute_K_bounds Let_def)
  qed
qed

lemma push_run_inv:
  "chaos_inv n pushed st \<Longrightarrow> chaos_inv n (pushed @ xs) (fold (push_sample silent_add collect_chaos) xs st)"
proof (induction xs arbitrary: pushed st)
  case (Cons x xs)
  from Cons.IH [OF push_sample_inv [OF Cons.prems]] show ?case by simp
qed simp

lemma chaos_inv_new: "chaos_inv n [] (new_chaos_detector n, [])"
  by (simp add: chaos_inv_def new_chaos_detector_def)

section \<open>Properties\<close>

text \<open>The chaos score is a number between 0 and 1 for every series and every choice of phases, the
  correlation it is built from never exceeds 1 in absolute value (also when the window is degenerate),
  and the median of a non-empty list of correlations stays within the same bounds.\<close>

theorem chaos_score_bounds:
  "0 \<le> compute_K series phases \<and> compute_K series phases \<le> 1 \<and> \<bar>pearson xs ys\<bar> \<le> 1 \<and>
   \<bar>median (map (\<lambda>c. pearson xs (f c)) cs)\<bar> \<le> 1"
proof -
  have "- 1 \<le> pearson xs (f c) \<and> pearson xs (f c) \<le> 1" for c
    using pearson_bounds [of xs "f c"] by auto
  then have "\<bar>median (map (\<lambda>c. pearson xs (f c)) cs)\<bar> \<le> 1"
    using median_between [of "map (\<lambda>c. pearson xs (f c)) cs" "-1" 1]
    by (cases "cs = []") (auto simp: median_def [of "[]"])
  then show ?thesis by (simp add: compute_K_bounds pearson_bounds)
qed

text \<open>Samples are cut into windows without loss: after any pushes every reported window holds exactly
  \<open>max 10 window_size\<close> samples (a smaller configured size is not flushed below ten), window indices
  count up from 0, the pending samples are the tail of the input, and the synthetic flag is set exactly
  when a pending sample is synthetic.\<close>

theorem chaos_windows_correct:
  "let (d, wins) = fold (push_sample silent_add collect_chaos) xs (new_chaos_detector n, []) in
   (\<forall>win\<in>set wins. cw_sample_count win = max 10 n \<and> 0 \<le> cw_K win \<and> cw_K win \<le> 1) \<and>
   map cw_window_index wins = map of_nat [0..<length wins] \<and>
   length wins * max 10 n + length (cd_samples d) = length xs \<and> length (cd_samples d) < max 10 n \<and>
   cd_samples d = drop (length wins * max 10 n) (map fst xs) \<and>
   cd_any_synthetic d = list_ex snd (drop (length wins * max 10 n) xs)"
  using push_run_inv [OF chaos_inv_new [of n], of xs] by (auto simp: chaos_inv_def case_prod_beta Let_def)

theorem chaos_windows_correct_witness:
  "let (d, wins) = fold (push_sample silent_add collect_chaos) [(1, False), (2, True)] (new_chaos_detector 4, [])
   in wins = [] \<and> cd_samples d = [1, 2]"
  using chaos_windows_correct [of "[(1, False), (2, True)]" 4]
  by (simp add: new_chaos_detector_def push_sample_def Let_def)

end
