(* ===== verification/RuleEngine.thy ===== *)
theory RuleEngine
  imports ThreatLevel PacketSensor ChaosDetector
begin

text \<open>
  \<^verbatim>\<open>core/rule_engine\<close>: the rules RULE-01 to RULE-05 over a shared threat machine. An evaluation maps
  the engine, the machine and the world to a result and their new states. The trigger of the engine
  and that of the machine are the same callback, as the bridge wires them.
\<close>

section \<open>Model\<close>

record rule_result =
  rr_rule_id :: string
  rr_fired :: bool
  rr_worm_triggered :: bool
  rr_action_taken :: string

record rule_engine =
  re_total_fires :: u64
  re_worm_trigger_count :: u64
  re_chaos_high_count :: int

definition new_rule_engine :: rule_engine where
  "new_rule_engine = \<lparr>re_total_fires = 0, re_worm_trigger_count = 0, re_chaos_high_count = 0\<rparr>"

definition RULE03_FAILURE_THRESHOLD :: int where
  "RULE03_FAILURE_THRESHOLD = 5"

definition RULE03_CRITICAL_THRESHOLD :: int where
  "RULE03_CRITICAL_THRESHOLD = 10"

definition RULE05_K_THRESHOLD :: real where
  "RULE05_K_THRESHOLD = 7 / 10"

definition RULE05_SUSTAINED_WINDOWS :: int where
  "RULE05_SUSTAINED_WINDOWS = 2"

definition count_fire :: "rule_engine \<Rightarrow> rule_engine" where
  "count_fire e = e\<lparr>re_total_fires := re_total_fires e + 1\<rparr>"

subsection \<open>RULE-04\<close>

definition belt_reason :: "string \<Rightarrow> string" where
  "belt_reason rule = ''RULE-04 belt: '' @ rule @ '' confirmed CRITICAL, WORM not yet locked''"

definition apply_rule04_belt ::
    "'w audit_adder \<Rightarrow> (string \<Rightarrow> 'w \<Rightarrow> 'w) \<Rightarrow> ('w \<Rightarrow> bool) \<Rightarrow> string \<Rightarrow> threat_sm
       \<Rightarrow> rule_engine \<times> 'w \<Rightarrow> bool \<times> rule_engine \<times> 'w" where
  "apply_rule04_belt add trg locked rule m = (\<lambda>(e, w).
     if ts_current_tier m = CRITICAL \<and> \<not> locked w then
       (True, e\<lparr>re_worm_trigger_count := re_worm_trigger_count e + 1\<rparr>,
        emit add ''rule_engine_rule04_belt'' (''rule=RULE-04 triggered_by='' @ rule)
          (trg (belt_reason rule) w))
     else (False, e, w))"

subsection \<open>RULE-01\<close>

definition rule01_payload :: "entropy_window \<Rightarrow> bool \<Rightarrow> bool \<Rightarrow> string" where
  "rule01_payload win changed worm_hit =
     ''rule=RULE-01'' @ '' window_index='' @ str_of_u64 (ew_window_index win)
       @ '' mean_entropy='' @ fmt_general (ew_mean_entropy_bits win)
       @ '' threat_score='' @ str_of_int (ew_threat_score win) @ '' anomalous=true''
       @ '' tier_changed='' @ str_of_bool changed @ '' worm_triggered='' @ str_of_bool worm_hit"

definition rule01_reason :: "entropy_window \<Rightarrow> string" where
  "rule01_reason win = ''RULE-01 anomalous_packet entropy='' @ fmt_fixed 6 (ew_mean_entropy_bits win)"

definition evaluate_packet_window ::
    "'w audit_adder \<Rightarrow> (string \<Rightarrow> 'w \<Rightarrow> 'w) \<Rightarrow> ('w \<Rightarrow> bool) \<Rightarrow> entropy_window
       \<Rightarrow> rule_engine \<times> threat_sm \<times> 'w \<Rightarrow> rule_result \<times> rule_engine \<times> threat_sm \<times> 'w" where
  "evaluate_packet_window add trg locked win = (\<lambda>(e, m, w).
     let (_, m1, w1) = observe_signal add trg (ew_threat_score win) ''packet_sensor_window'' m w in
     if ew_anomalous win then
       let (changed, m2, w2) = force_tier add trg CRITICAL (rule01_reason win) m1 w1;
           (worm_hit, e1, w3) = apply_rule04_belt add trg locked ''RULE-01'' m2 (e, w2);
           w4 = emit add ''rule_engine_rule01_fired'' (rule01_payload win changed worm_hit) w3
       in (\<lparr>rr_rule_id = ''RULE-01'', rr_fired = True, rr_worm_triggered = worm_hit,
            rr_action_taken =
              ''anomalous packet window detected: forced CRITICAL tier + WORM lockdown check''\<rparr>,
           count_fire e1, m2, w4)
     else (\<lparr>rr_rule_id = ''RULE-01'', rr_fired = False, rr_worm_triggered = False,
            rr_action_taken = ''packet window processed, no anomaly flag''\<rparr>, e, m1, w1))"

subsection \<open>RULE-02\<close>

definition rule02_action :: "int \<Rightarrow> string \<Rightarrow> signal_result \<Rightarrow> bool \<Rightarrow> string" where
  "rule02_action score src res worm_hit =
     ''score='' @ str_of_int score @ '' source='' @ src
       @ (if sr_tier_changed res then '' tier_transition='' @ tier_name (sr_previous_tier res)
            @ ''->'' @ tier_name (sr_current_tier res) else [])
       @ (if worm_hit then '' worm_triggered=true'' else [])"

definition evaluate_threat_score ::
    "'w audit_adder \<Rightarrow> (string \<Rightarrow> 'w \<Rightarrow> 'w) \<Rightarrow> ('w \<Rightarrow> bool) \<Rightarrow> int \<Rightarrow> string
       \<Rightarrow> rule_engine \<times> threat_sm \<times> 'w \<Rightarrow> rule_result \<times> rule_engine \<times> threat_sm \<times> 'w" where
  "evaluate_threat_score add trg locked score src = (\<lambda>(e, m, w).
     let (res, m1, w1) = observe_signal add trg score src m w;
         (worm_hit, e1, w2) = apply_rule04_belt add trg locked ''RULE-02'' m1 (e, w1);
         fired = (sr_tier_changed res \<or> worm_hit)
     in (\<lparr>rr_rule_id = ''RULE-02'', rr_fired = fired, rr_worm_triggered = worm_hit,
          rr_action_taken = rule02_action score src res worm_hit\<rparr>,
         if fired then count_fire e1 else e1, m1, w2))"

subsection \<open>RULE-03\<close>

definition rule03_reason :: "int \<Rightarrow> string \<Rightarrow> string" where
  "rule03_reason failures src = ''RULE-03 auth_failures='' @ str_of_int failures @ '' source='' @ src"

definition rule03_payload :: "int \<Rightarrow> string \<Rightarrow> threat_tier \<Rightarrow> string" where
  "rule03_payload failures src t =
     ''rule=RULE-03 failures='' @ str_of_int failures @ '' source='' @ src @ '' action=forced_'' @ tier_name t"

definition evaluate_auth_failures ::
    "'w audit_adder \<Rightarrow> (string \<Rightarrow> 'w \<Rightarrow> 'w) \<Rightarrow> ('w \<Rightarrow> bool) \<Rightarrow> int \<Rightarrow> string
       \<Rightarrow> rule_engine \<times> threat_sm \<times> 'w \<Rightarrow> rule_result \<times> rule_engine \<times> threat_sm \<times> 'w" where
  "evaluate_auth_failures add trg locked failures src = (\<lambda>(e, m, w).
     if failures \<ge> RULE03_CRITICAL_THRESHOLD then
       let (_, m1, w1) = force_tier add trg CRITICAL (rule03_reason failures src) m w;
           (worm_hit, e1, w2) = apply_rule04_belt add trg locked ''RULE-03'' m1 (e, w1);
           w3 = emit add ''rule_engine_rule03_fired'' (rule03_payload failures src CRITICAL) w2
       in (\<lparr>rr_rule_id = ''RULE-03'', rr_fired = True, rr_worm_triggered = worm_hit,
            rr_action_taken = ''auth failure spike (>= '' @ str_of_int RULE03_CRITICAL_THRESHOLD
              @ ''): forced CRITICAL + WORM check''\<rparr>, count_fire e1, m1, w3)
     else if failures \<ge> RULE03_FAILURE_THRESHOLD then
       let (_, m1, w1) = force_tier add trg HIGH (rule03_reason failures src) m w;
           w2 = emit add ''rule_engine_rule03_fired'' (rule03_payload failures src HIGH) w1
       in (\<lparr>rr_rule_id = ''RULE-03'', rr_fired = True, rr_worm_triggered = False,
            rr_action_taken = ''auth failure spike (>= '' @ str_of_int RULE03_FAILURE_THRESHOLD
              @ ''): forced HIGH''\<rparr>, count_fire e, m1, w2)
     else (\<lparr>rr_rule_id = ''RULE-03'', rr_fired = False, rr_worm_triggered = False,
            rr_action_taken = ''auth failures='' @ str_of_int failures
              @ '' (below threshold, no action)''\<rparr>, e, m, w))"

subsection \<open>RULE-05\<close>

definition rule05_reason :: "real \<Rightarrow> int \<Rightarrow> string" where
  "rule05_reason K n = ''RULE-05 chaos_precursor K='' @ fmt_fixed 6 K @ '' sustained_windows='' @ str_of_int n"

definition rule05_payload :: "chaos_window \<Rightarrow> int \<Rightarrow> string" where
  "rule05_payload win n = ''rule=RULE-05'' @ '' window_index='' @ str_of_u64 (cw_window_index win)
     @ '' K='' @ fmt_general (cw_K win) @ '' sustained_windows='' @ str_of_int n
     @ '' action=preemptive_escalation_to_MEDIUM''"

definition rule05_fired_action :: "real \<Rightarrow> int \<Rightarrow> string" where
  "rule05_fired_action K n = ''chaos precursor: K='' @ fmt_fixed 6 K @ '' sustained over ''
     @ str_of_int n @ '' windows -- preemptive escalation to MEDIUM''"

definition rule05_waiting_action :: "real \<Rightarrow> int \<Rightarrow> string" where
  "rule05_waiting_action K n = ''chaos signal accumulating: K='' @ fmt_fixed 6 K @ '' count=''
     @ str_of_int n @ '' (need '' @ str_of_int RULE05_SUSTAINED_WINDOWS @ '')''"

definition rule05_result :: "bool \<Rightarrow> string \<Rightarrow> rule_result" where
  "rule05_result fired action =
     \<lparr>rr_rule_id = ''RULE-05'', rr_fired = fired, rr_worm_triggered = False, rr_action_taken = action\<rparr>"

definition evaluate_chaos_window ::
    "'w audit_adder \<Rightarrow> (string \<Rightarrow> 'w \<Rightarrow> 'w) \<Rightarrow> chaos_window
       \<Rightarrow> rule_engine \<times> threat_sm \<times> 'w \<Rightarrow> rule_result \<times> rule_engine \<times> threat_sm \<times> 'w" where
  "evaluate_chaos_window add trg win = (\<lambda>(e, m, w).
     if cw_K win > RULE05_K_THRESHOLD then
       let n = re_chaos_high_count e + 1; e1 = e\<lparr>re_chaos_high_count := n\<rparr> in
       if n \<ge> RULE05_SUSTAINED_WINDOWS then
         let (_, m1, w1) = force_tier add trg MEDIUM (rule05_reason (cw_K win) n) m w;
             w2 = emit add ''rule_engine_rule05_fired'' (rule05_payload win n) w1
         in (rule05_result True (rule05_fired_action (cw_K win) n), count_fire e1, m1, w2)
       else (rule05_result False (rule05_waiting_action (cw_K win) n), e1, m, w)
     else (rule05_result False (''chaos K='' @ fmt_fixed 6 (cw_K win) @ '' (below threshold, no action)''),
           e\<lparr>re_chaos_high_count := 0\<rparr>, m, w))"

section \<open>Lemmas for every gate\<close>

context worm_gate
begin

lemma belt_locks:
  "ts_current_tier m = CRITICAL \<Longrightarrow> locked (snd (snd (apply_rule04_belt add trigger locked r m ew)))"
  by (cases ew) (simp add: apply_rule04_belt_def trigger_locks)

lemma belt_keeps_lock:
  "locked (snd ew) \<Longrightarrow> apply_rule04_belt add trigger locked r m ew = (False, ew)"
  by (cases ew) (simp add: apply_rule04_belt_def)

lemma belt_not_critical:
  "ts_current_tier m \<noteq> CRITICAL \<Longrightarrow> apply_rule04_belt add trigger locked r m ew = (False, ew)"
  by (cases ew) (simp add: apply_rule04_belt_def)

lemma packet_window_critical:
  "ew_anomalous win \<Longrightarrow>
   (case evaluate_packet_window add trigger locked win (e, m, w) of (res, e', m', w') \<Rightarrow>
      rr_fired res \<and> ts_current_tier m' = CRITICAL \<and> locked w')"
  using belt_locks by (simp add: evaluate_packet_window_def case_prod_beta Let_def)

lemma auth_failures_critical:
  "RULE03_CRITICAL_THRESHOLD \<le> n \<Longrightarrow>
   (case evaluate_auth_failures add trigger locked n src (e, m, w) of (res, e', m', w') \<Rightarrow>
      rr_fired res \<and> ts_current_tier m' = CRITICAL \<and> locked w')"
  using belt_locks by (simp add: evaluate_auth_failures_def case_prod_beta Let_def)

lemma threat_score_critical:
  "(case evaluate_threat_score add trigger locked s src (e, m, w) of (res, e', m', w') \<Rightarrow>
      ts_current_tier m' = next_tier (clamp_score s) (ts_current_tier m) \<and>
      (ts_current_tier m' = CRITICAL \<longrightarrow> locked w'))"
  using belt_locks by (simp add: evaluate_threat_score_def case_prod_beta Let_def observe_tier)

lemma chaos_window_lock:
  "(case evaluate_chaos_window add trigger win (e, m, w) of (res, e', m', w') \<Rightarrow>
      locked w' = locked w \<and> \<not> rr_worm_triggered res)"
  by (simp add: evaluate_chaos_window_def case_prod_beta Let_def rule05_result_def force_tier_locks)

end

section \<open>Runs\<close>

datatype rule_event =
    Packet entropy_window
  | Score int string
  | Auth int string
  | Chaos chaos_window

fun rule_step ::
    "'w audit_adder \<Rightarrow> (string \<Rightarrow> 'w \<Rightarrow> 'w) \<Rightarrow> ('w \<Rightarrow> bool) \<Rightarrow> rule_event
       \<Rightarrow> rule_engine \<times> threat_sm \<times> 'w \<Rightarrow> rule_engine \<times> threat_sm \<times> 'w" where
  "rule_step add trg locked (Packet win) s = snd (evaluate_packet_window add trg locked win s)"
| "rule_step add trg locked (Score n src) s = snd (evaluate_threat_score add trg locked n src s)"
| "rule_step add trg locked (Auth n src) s = snd (evaluate_auth_failures add trg locked n src s)"
| "rule_step add trg locked (Chaos win) s = snd (evaluate_chaos_window add trg win s)"

definition critical_locked :: "('w \<Rightarrow> bool) \<Rightarrow> rule_engine \<times> threat_sm \<times> 'w \<Rightarrow> bool" where
  "critical_locked locked s \<longleftrightarrow> (ts_current_tier (fst (snd s)) = CRITICAL \<longrightarrow> locked (snd (snd s)))"

context worm_gate
begin

lemma rule_step_safe:
  assumes "critical_locked locked s"
  shows "critical_locked locked (rule_step add trigger locked x s)"
proof -
  obtain e m w where s: "s = (e, m, w)" by (metis prod_cases3)
  show ?thesis
  proof (cases x)
    case (Packet win)
    show ?thesis
    proof (cases "ew_anomalous win")
      case True
      with packet_window_critical [OF True, where e = e and m = m and w = w] show ?thesis
        by (simp add: critical_locked_def Packet s case_prod_beta)
    next
      case False
      have "ts_current_tier m = CRITICAL \<longrightarrow> locked w" using assms by (simp add: critical_locked_def s)
      with False show ?thesis
        by (auto simp: critical_locked_def Packet s evaluate_packet_window_def case_prod_beta
            observe_tier observe_locks)
    qed
  next
    case (Score n src)
    with threat_score_critical [where s = n and src = src and e = e and m = m and w = w] show ?thesis
      by (simp add: critical_locked_def s case_prod_beta)
  next
    case (Auth n src)
    show ?thesis
    proof (cases "RULE03_CRITICAL_THRESHOLD \<le> n")
      case True
      with auth_failures_critical [OF True, where src = src and e = e and m = m and w = w] show ?thesis
        by (simp add: critical_locked_def Auth s case_prod_beta)
    next
      case False
      with assms show ?thesis
        by (auto simp: critical_locked_def Auth s evaluate_auth_failures_def case_prod_beta Let_def)
    qed
  next
    case (Chaos win)
    with assms show ?thesis
      by (auto simp: critical_locked_def s evaluate_chaos_window_def case_prod_beta Let_def)
  qed
qed

lemma rule_run_safe:
  "critical_locked locked s \<Longrightarrow> critical_locked locked (fold (rule_step add trigger locked) xs s)"
  by (induction xs arbitrary: s) (simp_all add: rule_step_safe)

end

text \<open>RULE-05 on a sequence of windows: the counter is the length of the current streak.\<close>

definition streak :: "real list \<Rightarrow> nat" where
  "streak Ks = length (takeWhile (\<lambda>K. K > RULE05_K_THRESHOLD) (rev Ks))"

definition chaos_fires :: "chaos_window list \<Rightarrow> nat" where
  "chaos_fires wins = length (filter (\<lambda>i. 2 \<le> streak (map cw_K (take (i + 1) wins))) [0..<length wins])"

lemma streak_snoc: "streak (Ks @ [K]) = (if K > RULE05_K_THRESHOLD then streak Ks + 1 else 0)"
  by (simp add: streak_def)

lemma chaos_fires_snoc:
  "chaos_fires (wins @ [win]) = chaos_fires wins + (if 2 \<le> streak (map cw_K (wins @ [win])) then 1 else 0)"
  by (auto simp: chaos_fires_def intro!: arg_cong [of _ _ length] filter_cong)

lemma chaos_run:
  "let (e, m', w') = fold (\<lambda>win s. snd (evaluate_chaos_window add trg win s)) wins (new_rule_engine, m, w) in
   re_chaos_high_count e = int (streak (map cw_K wins)) \<and>
   re_total_fires e = of_nat (chaos_fires wins)"
proof (induction wins rule: rev_induct)
  case Nil
  then show ?case by (simp add: new_rule_engine_def streak_def chaos_fires_def)
next
  case (snoc win wins)
  then show ?case
    by (auto simp: evaluate_chaos_window_def case_prod_beta Let_def count_fire_def streak_snoc
        chaos_fires_snoc RULE05_SUSTAINED_WINDOWS_def)
qed

section \<open>Properties\<close>

text \<open>C26. The lockdown rules act at once and from every state: after an anomalous packet window, and after
  ten or more authentication failures, the rule has fired, the machine is at CRITICAL and the lock is
  engaged; after any raw score that leaves the machine at CRITICAL the lock is engaged, also when it had
  been lifted by hand in between.\<close>

theorem lockdown_rules_engage:
  "(ew_anomalous win \<longrightarrow>
     (case evaluate_packet_window (gate_add sha env) (gate_trigger sha env) gate_locked win (e, m, g) of
        (res, e', m', g') \<Rightarrow> rr_fired res \<and> ts_current_tier m' = CRITICAL \<and> gate_locked g')) \<and>
   (n \<ge> 10 \<longrightarrow>
     (case evaluate_auth_failures (gate_add sha env) (gate_trigger sha env) gate_locked n src (e, m, g) of
        (res, e', m', g') \<Rightarrow> rr_fired res \<and> ts_current_tier m' = CRITICAL \<and> gate_locked g')) \<and>
   (case evaluate_threat_score (gate_add sha env) (gate_trigger sha env) gate_locked s src (e, m, g) of
        (res, e', m', g') \<Rightarrow> ts_current_tier m' = CRITICAL \<longrightarrow> gate_locked g')"
  using gate.packet_window_critical [where win = win and sha = sha and env = env and e = e and m = m and w = g]
    gate.auth_failures_critical [where n = n and sha = sha and env = env and src = src and e = e and m = m and w = g]
    gate.threat_score_critical [where s = s and sha = sha and env = env and src = src and e = e and m = m and w = g]
  by (auto simp: RULE03_CRITICAL_THRESHOLD_def case_prod_beta)

theorem lockdown_rules_engage_witness:
  "case evaluate_auth_failures (gate_add demo_sha demo_env) (gate_trigger demo_sha demo_env) gate_locked 12 ''vpn''
     (new_rule_engine, new_threat_sm, (new_worm_lock, fresh_audit)) of
     (res, e', m', g') \<Rightarrow> rr_fired res \<and> ts_current_tier m' = CRITICAL \<and> gate_locked g'"
  using lockdown_rules_engage [where sha = demo_sha and env = demo_env and e = new_rule_engine and m = new_threat_sm and
      g = "(new_worm_lock, fresh_audit)" and n = 12 and src = "''vpn''"]
  by simp

text \<open>C1. Safety of the rule engine: after any sequence of packet windows, scores, authentication spikes and
  chaos windows from the initial state, the machine is at CRITICAL only with the lock engaged.\<close>

theorem rule_runs_safe:
  "let (e, m, g) = fold (rule_step (gate_add sha env) (gate_trigger sha env) gate_locked) xs
       (new_rule_engine, new_threat_sm, (new_worm_lock, fresh_audit)) in
   ts_current_tier m = CRITICAL \<longrightarrow> gate_locked g"
  using gate.rule_run_safe [where s = "(new_rule_engine, new_threat_sm, (new_worm_lock, fresh_audit))" and
      sha = sha and env = env and xs = xs]
  by (simp add: critical_locked_def new_threat_sm_def case_prod_beta Let_def)

theorem rule_runs_safe_witness:
  "gate_locked (snd (snd (fold (rule_step (gate_add demo_sha demo_env) (gate_trigger demo_sha demo_env) gate_locked) [Auth 11 ''vpn'']
     (new_rule_engine, new_threat_sm, (new_worm_lock, fresh_audit)))))"
  using rule_runs_safe [of demo_sha demo_env "[Auth 11 ''vpn'']"]
  by (simp add: evaluate_auth_failures_def case_prod_beta Let_def RULE03_CRITICAL_THRESHOLD_def)

text \<open>RULE-05 fires on sustained chaos only: over any sequence of chaos windows the counter is the length
  of the current run of windows above the threshold, the rule fires exactly at the windows that end a
  run of at least two, and it never engages or lifts the lock.\<close>

theorem rule05_sustained:
  "(let (e, m', w') = fold (\<lambda>win s. snd (evaluate_chaos_window add trg win s)) wins (new_rule_engine, m, w) in
    re_chaos_high_count e = int (streak (map cw_K wins)) \<and> re_total_fires e = of_nat (chaos_fires wins)) \<and>
   gate_locked (snd (snd (snd (evaluate_chaos_window (gate_add sha env) (gate_trigger sha env) win (e, m, g)))))
     = gate_locked g"
  using chaos_run gate.chaos_window_lock [where sha = sha and env = env and win = win and e = e and m = m and w = g] by (simp add: case_prod_beta)

text \<open>RULE-05 is named an escalation to MEDIUM but forces the tier unconditionally: when the machine is
  already at HIGH or CRITICAL, a second chaotic window in a row lowers it to MEDIUM.\<close>

theorem rule05_lowers_tier:
  assumes "cw_K win > RULE05_K_THRESHOLD" and "re_chaos_high_count e \<ge> 1" and "ts_current_tier m \<in> {HIGH, CRITICAL}"
  shows "(case evaluate_chaos_window (gate_add sha env) (gate_trigger sha env) win (e, m, g) of
      (res, e', m', g') \<Rightarrow> rr_fired res \<and> ts_current_tier m' = MEDIUM \<and> ts_current_tier m' < ts_current_tier m)"
  using assms
  by (auto simp: evaluate_chaos_window_def RULE05_SUSTAINED_WINDOWS_def rule05_result_def Let_def
      case_prod_beta tier_order)

theorem rule05_lowers_tier_witness:
  "ts_current_tier (fst (snd (snd (evaluate_chaos_window (gate_add demo_sha demo_env) (gate_trigger demo_sha demo_env)
     \<lparr>cw_window_index = 1, cw_sample_count = 256, cw_K = 9 / 10, cw_lambda1 = None, cw_anomalous = True,
      cw_synthetic = False\<rparr>
     (new_rule_engine\<lparr>re_chaos_high_count := 1\<rparr>, new_threat_sm\<lparr>ts_current_tier := CRITICAL\<rparr>, (new_worm_lock, fresh_audit)))))) = MEDIUM"
  using rule05_lowers_tier [where win = "\<lparr>cw_window_index = 1, cw_sample_count = 256, cw_K = 9 / 10,
      cw_lambda1 = None, cw_anomalous = True, cw_synthetic = False\<rparr>"
      and e = "new_rule_engine\<lparr>re_chaos_high_count := 1\<rparr>"
      and m = "new_threat_sm\<lparr>ts_current_tier := CRITICAL\<rparr>" and sha = demo_sha and env = demo_env and g = "(new_worm_lock, fresh_audit)"]
  by (simp add: RULE05_K_THRESHOLD_def case_prod_beta)

end
