(* ===== verification/Std_Map.thy ===== *)
theory Std_Map
  imports Prelude
begin

text \<open>
  \<^verbatim>\<open>std::map\<close> as the components use it: an association list kept in ascending key order, so that
  iteration over it visits the keys in the order of the source. \<open>map_of\<close> is \<^verbatim>\<open>find\<close> / \<^verbatim>\<open>count\<close>,
  \<open>sm_assign\<close> is \<^verbatim>\<open>m[k] = v\<close>, \<open>sm_erase\<close> is \<^verbatim>\<open>erase(k)\<close>. The locale \<open>finite_map_ops\<close> is the
  interface the components rely on, and its interpretation discharges the laws.
\<close>

type_synonym ('k, 'v) std_map = "('k \<times> 'v) list"

fun sm_assign :: "'k::linorder \<Rightarrow> 'v \<Rightarrow> ('k, 'v) std_map \<Rightarrow> ('k, 'v) std_map" where
  "sm_assign k v [] = [(k, v)]"
| "sm_assign k v ((k', v') # m) =
     (if k < k' then (k, v) # (k', v') # m
      else if k = k' then (k, v) # m
      else (k', v') # sm_assign k v m)"

definition sm_erase :: "'k \<Rightarrow> ('k, 'v) std_map \<Rightarrow> ('k, 'v) std_map" where
  "sm_erase k m = filter (\<lambda>kv. fst kv \<noteq> k) m"

definition sm_get_or :: "'v \<Rightarrow> 'k \<Rightarrow> ('k, 'v) std_map \<Rightarrow> 'v" where
  "sm_get_or d k m = (case map_of m k of Some v \<Rightarrow> v | None \<Rightarrow> d)"

definition sm_has :: "'k \<Rightarrow> ('k, 'v) std_map \<Rightarrow> bool" where
  "sm_has k m = (map_of m k \<noteq> None)"

definition sm_values :: "('k, 'v) std_map \<Rightarrow> 'v list" where
  "sm_values m = map snd m"

definition sm_count_if :: "('v \<Rightarrow> bool) \<Rightarrow> ('k, 'v) std_map \<Rightarrow> nat" where
  "sm_count_if p m = length (filter p (sm_values m))"

text \<open>The representation invariant: ascending, hence distinct, keys.\<close>

definition sm_ok :: "('k::linorder, 'v) std_map \<Rightarrow> bool" where
  "sm_ok m = sorted_wrt (<) (map fst m)"

lemma sm_ok_Nil [simp]: "sm_ok []"
  by (simp add: sm_ok_def)

lemma sm_ok_distinct: "sm_ok m \<Longrightarrow> distinct (map fst m)"
  unfolding sm_ok_def using strict_sorted_iff by blast

lemma keys_sm_assign [simp]: "fst ` set (sm_assign k v m) = insert k (fst ` set m)"
  by (induction k v m rule: sm_assign.induct) (simp_all add: insert_commute)

lemma set_sm_assign: "set (sm_assign k v m) \<subseteq> insert (k, v) (set m)"
  by (induction k v m rule: sm_assign.induct) auto

lemma sm_ok_assign [simp]: "sm_ok m \<Longrightarrow> sm_ok (sm_assign k v m)"
proof (induction m)
  case (Cons kv m)
  obtain k' v' where kv: "kv = (k', v')" by (cases kv)
  have keys: "set (map fst (sm_assign k v m)) = insert k (set (map fst m))"
    using keys_sm_assign [of k v m] by simp
  from Cons kv keys show ?case
    by (auto simp: sm_ok_def)
qed (simp add: sm_ok_def)

lemma sm_ok_erase [simp]: "sm_ok m \<Longrightarrow> sm_ok (sm_erase k m)"
  unfolding sm_ok_def sm_erase_def by (induction m) auto

lemma map_of_sm_assign: "map_of (sm_assign k v m) k' = (if k' = k then Some v else map_of m k')"
  by (induction m) auto

lemma map_of_sm_erase: "map_of (sm_erase k m) k' = (if k' = k then None else map_of m k')"
  by (induction m) (auto simp: sm_erase_def)

lemma sm_assign_same [simp]: "map_of (sm_assign k v m) k = Some v"
  by (simp add: map_of_sm_assign)

lemma sm_assign_other [simp]: "k' \<noteq> k \<Longrightarrow> map_of (sm_assign k v m) k' = map_of m k'"
  by (simp add: map_of_sm_assign)

section \<open>Counting the values that satisfy a predicate\<close>

lemma sm_count_if_Nil [simp]: "sm_count_if p [] = 0"
  by (simp add: sm_count_if_def sm_values_def)

lemma sm_count_if_Cons: "sm_count_if p ((k, v) # m) = (if p v then 1 else 0) + sm_count_if p m"
  by (simp add: sm_count_if_def sm_values_def)

lemma sm_count_fresh:
  "sm_ok m \<Longrightarrow> map_of m k = None \<Longrightarrow> sm_count_if p (sm_assign k v m) = (if p v then 1 else 0) + sm_count_if p m"
  by (induction m) (auto simp: sm_count_if_Cons sm_ok_def split: if_splits)

lemma sm_count_update:
  "sm_ok m \<Longrightarrow> map_of m k = Some u \<Longrightarrow>
   sm_count_if p (sm_assign k v m) + (if p u then 1 else 0) = (if p v then 1 else 0) + sm_count_if p m"
proof (induction m)
  case (Cons kv m)
  obtain k' v' where kv: "kv = (k', v')" by (cases kv)
  show ?case
  proof (cases "k = k'")
    case True
    with Cons.prems kv show ?thesis by (auto simp: sm_count_if_Cons)
  next
    case False
    with Cons.prems kv have "map_of m k = Some u" and ok: "sm_ok m"
      and above: "\<forall>k''\<in>fst ` set m. k' < k''"
      by (auto simp: sm_ok_def)
    then have "k' < k" by (metis domI dom_map_of_conv_image_fst)
    with Cons.IH ok \<open>map_of m k = Some u\<close> False kv show ?thesis
      by (auto simp: sm_count_if_Cons)
  qed
qed simp

lemma sm_count_le: "sm_count_if p m \<le> length m"
  by (simp add: sm_count_if_def sm_values_def)

lemma sm_count_zero: "sm_count_if p m = 0 \<longleftrightarrow> (\<forall>(k, v)\<in>set m. \<not> p v)"
  by (auto simp: sm_count_if_def sm_values_def filter_empty_conv)

section \<open>The interface\<close>

locale finite_map_ops =
  fixes lookup :: "'m \<Rightarrow> 'k \<Rightarrow> 'v option"
    and assign :: "'k \<Rightarrow> 'v \<Rightarrow> 'm \<Rightarrow> 'm"
    and erase :: "'k \<Rightarrow> 'm \<Rightarrow> 'm"
    and ok :: "'m \<Rightarrow> bool"
  assumes lookup_assign: "lookup (assign k v m) = (lookup m)(k \<mapsto> v)"
    and lookup_erase: "lookup (erase k m) = (lookup m)(k := None)"
    and ok_assign: "ok m \<Longrightarrow> ok (assign k v m)"
    and ok_erase: "ok m \<Longrightarrow> ok (erase k m)"
begin

text \<open>What a client may conclude about a sequence of assignments.\<close>

lemma assign_overwrites: "lookup (assign k v (assign k u m)) = lookup (assign k v m)"
  by (simp add: lookup_assign)

lemma assign_commutes: "k \<noteq> l \<Longrightarrow> lookup (assign k v (assign l u m)) = lookup (assign l u (assign k v m))"
  by (simp add: lookup_assign fun_upd_twist)

lemma erase_assign: "lookup (erase k (assign k v m)) = lookup (erase k m)"
  by (simp add: lookup_assign lookup_erase)

lemma lookup_fold_assign:
  "k \<notin> fst ` set kvs \<Longrightarrow> lookup (fold (\<lambda>(k, v). assign k v) kvs m) k = lookup m k"
  by (induction kvs arbitrary: m) (auto simp: lookup_assign)

lemma ok_fold_assign: "ok m \<Longrightarrow> ok (fold (\<lambda>(k, v). assign k v) kvs m)"
  by (induction kvs arbitrary: m) (auto simp: ok_assign)

end

interpretation sm: finite_map_ops map_of sm_assign sm_erase sm_ok
  by unfold_locales (auto simp: map_of_sm_assign map_of_sm_erase)

end
