(* ===== verification/AccessToken.thy ===== *)
theory AccessToken
  imports AuditChain Std_Map
begin

text \<open>
  \<^verbatim>\<open>core/access_token\<close>: short-lived tokens that permit one operation each. The 16 bytes of
  \<^verbatim>\<open>RAND_bytes\<close> (\<open>None\<close> when it fails) and the clock are arguments.
\<close>

section \<open>Model\<close>

record access_token =
  tk_token_id :: string
  tk_identity_name :: string
  tk_scope :: string
  tk_granted_at_ms :: int
  tk_expires_at_ms :: int

record stored_token =
  st_token :: access_token
  st_revoked :: bool

record access_result =
  ar_granted :: bool
  ar_reason :: string

record token_store =
  to_tokens :: "(string, stored_token) std_map"
  to_total_granted :: u64

definition new_token_store :: token_store where
  "new_token_store = \<lparr>to_tokens = [], to_total_granted = 0\<rparr>"

definition generate_token_id :: "string option \<Rightarrow> cxx_exception + string" where
  "generate_token_id rand =
     (case rand of
        None \<Rightarrow> Inl (Runtime_error ''RAND_bytes failed generating token ID'')
      | Some buf \<Rightarrow> Inr (hex_string buf))"

definition granted_payload :: "access_token \<Rightarrow> int \<Rightarrow> string" where
  "granted_payload tok ttl = ''token_id='' @ tk_token_id tok @ '' identity='' @ tk_identity_name tok
     @ '' scope='' @ tk_scope tok @ '' ttl_ms='' @ str_of_int ttl"

definition grant ::
    "'w audit_adder \<Rightarrow> string option \<Rightarrow> int \<Rightarrow> string \<Rightarrow> string \<Rightarrow> int \<Rightarrow> token_store \<times> 'w
       \<Rightarrow> (cxx_exception + access_token) \<times> token_store \<times> 'w" where
  "grant add rand now identity scope ttl = (\<lambda>(s, w).
     if identity = [] then (Inl (Invalid_argument ''identity must not be empty''), s, w)
     else if scope = [] then (Inl (Invalid_argument ''scope must not be empty''), s, w)
     else if ttl \<le> 0 then (Inl (Invalid_argument ''ttl_ms must be positive''), s, w)
     else case generate_token_id rand of
       Inl err \<Rightarrow> (Inl err, s, w)
     | Inr tid \<Rightarrow>
         let tok = \<lparr>tk_token_id = tid, tk_identity_name = identity, tk_scope = scope,
                    tk_granted_at_ms = now, tk_expires_at_ms = now + ttl\<rparr>;
             s' = s\<lparr>to_tokens := sm_assign tid \<lparr>st_token = tok, st_revoked = False\<rparr> (to_tokens s),
                    to_total_granted := to_total_granted s + 1\<rparr>
         in (Inr tok, s', emit add ''token_granted'' (granted_payload tok ttl) w))"

definition revoked_payload :: "string \<Rightarrow> access_token \<Rightarrow> string \<Rightarrow> string" where
  "revoked_payload tid tok reason = ''token_id='' @ tid @ '' identity='' @ tk_identity_name tok
     @ '' scope='' @ tk_scope tok @ '' reason='' @ dquote @ reason @ dquote"

definition revoke :: "'w audit_adder \<Rightarrow> string \<Rightarrow> string \<Rightarrow> token_store \<times> 'w \<Rightarrow> bool \<times> token_store \<times> 'w" where
  "revoke add tid reason = (\<lambda>(s, w).
     case map_of (to_tokens s) tid of
       None \<Rightarrow> (False, s, w)
     | Some st \<Rightarrow>
         if st_revoked st then (False, s, w)
         else (True, s\<lparr>to_tokens := sm_assign tid (st\<lparr>st_revoked := True\<rparr>) (to_tokens s)\<rparr>,
               emit add ''token_revoked'' (revoked_payload tid (st_token st) reason) w))"

definition denied_payload :: "string \<Rightarrow> access_token option \<Rightarrow> string \<Rightarrow> string \<Rightarrow> string \<Rightarrow> string" where
  "denied_payload tid tok scope_key required reason =
     ''token_id='' @ tid
       @ (case tok of None \<Rightarrow> []
          | Some t \<Rightarrow> '' identity='' @ tk_identity_name t @ '' '' @ scope_key @ ''='' @ tk_scope t)
       @ '' required_scope='' @ required @ '' reason='' @ reason"

definition deny ::
    "'w audit_adder \<Rightarrow> string \<Rightarrow> string \<Rightarrow> 'w \<Rightarrow> access_result \<times> 'w" where
  "deny add payload reason w = (\<lparr>ar_granted = False, ar_reason = reason\<rparr>, emit add ''token_denied'' payload w)"

definition check_access ::
    "'w audit_adder \<Rightarrow> int \<Rightarrow> string \<Rightarrow> string \<Rightarrow> token_store \<Rightarrow> 'w \<Rightarrow> access_result \<times> 'w" where
  "check_access add now tid required s w =
     (case map_of (to_tokens s) tid of
        None \<Rightarrow> deny add (denied_payload tid None [] required ''not_found'') ''not_found'' w
      | Some st \<Rightarrow>
          let t = st_token st in
          if now \<ge> tk_expires_at_ms t then
            deny add (denied_payload tid (Some t) ''scope'' required ''expired'') ''expired'' w
          else if st_revoked st then
            deny add (denied_payload tid (Some t) ''scope'' required ''revoked'') ''revoked'' w
          else if tk_scope t \<noteq> required then
            deny add (denied_payload tid (Some t) ''token_scope'' required ''scope_mismatch'') ''scope_mismatch'' w
          else (\<lparr>ar_granted = True, ar_reason = ''ok''\<rparr>, w))"

definition live_token_count :: "int \<Rightarrow> token_store \<Rightarrow> nat" where
  "live_token_count now s =
     sm_count_if (\<lambda>st. \<not> st_revoked st \<and> now < tk_expires_at_ms (st_token st)) (to_tokens s)"

section \<open>Specification\<close>

text \<open>A token is good for a scope at a time: issued, not expired, not revoked, issued for the scope.\<close>

definition token_good :: "int \<Rightarrow> string \<Rightarrow> string \<Rightarrow> token_store \<Rightarrow> bool" where
  "token_good now tid required s =
     (case map_of (to_tokens s) tid of
        None \<Rightarrow> False
      | Some st \<Rightarrow> now < tk_expires_at_ms (st_token st) \<and> \<not> st_revoked st \<and> tk_scope (st_token st) = required)"

text \<open>A token that can never be used again.\<close>

definition token_dead :: "string \<Rightarrow> token_store \<Rightarrow> bool" where
  "token_dead tid s = (case map_of (to_tokens s) tid of None \<Rightarrow> False | Some st \<Rightarrow> st_revoked st)"

datatype token_op =
    Grant "string option" int string string int
  | Revoke string string
  | Check int string string

fun token_step :: "'w audit_adder \<Rightarrow> token_op \<Rightarrow> token_store \<times> 'w \<Rightarrow> token_store \<times> 'w" where
  "token_step add (Grant rand now identity scope ttl) s = snd (grant add rand now identity scope ttl s)"
| "token_step add (Revoke tid reason) s = snd (revoke add tid reason s)"
| "token_step add (Check now tid required) s = (fst s, snd (check_access add now tid required (fst s) (snd s)))"

definition token_run :: "'w audit_adder \<Rightarrow> token_op list \<Rightarrow> token_store \<times> 'w \<Rightarrow> token_store \<times> 'w" where
  "token_run add ops s = fold (token_step add) ops s"

text \<open>The operation draws the id \<open>tid\<close>, which 128 random bits make improbable.\<close>

fun draws :: "string \<Rightarrow> token_op \<Rightarrow> bool" where
  "draws tid (Grant (Some buf) now identity scope ttl) = (hex_string buf = tid)"
| "draws tid _ = False"

section \<open>Lemmas\<close>

definition tokens_ok :: "token_store \<Rightarrow> bool" where
  "tokens_ok s = sm_ok (to_tokens s)"

lemma token_step_ok: "tokens_ok (fst s) \<Longrightarrow> tokens_ok (fst (token_step add x s))"
  by (cases x; cases s)
    (auto simp: tokens_ok_def grant_def revoke_def Let_def split: option.splits sum.splits)

lemma token_run_ok: "tokens_ok (fst s) \<Longrightarrow> tokens_ok (fst (token_run add ops s))"
  unfolding token_run_def by (induction ops arbitrary: s) (simp_all add: token_step_ok)

lemma grant_other:
  "map_of (to_tokens (fst s)) tid = Some st \<Longrightarrow> \<not> draws tid (Grant rand now i sc ttl) \<Longrightarrow>
   map_of (to_tokens (fst (snd (grant add rand now i sc ttl s)))) tid = Some st"
  by (cases s; cases rand) (auto simp: grant_def generate_token_id_def Let_def map_of_sm_assign)

lemma token_step_dead: "token_dead tid (fst s) \<Longrightarrow> \<not> draws tid x \<Longrightarrow> token_dead tid (fst (token_step add x s))"
proof (cases x)
  case (Grant rand now i sc ttl)
  moreover assume "token_dead tid (fst s)" and "\<not> draws tid x"
  ultimately show ?thesis
    using grant_other [of s tid] by (auto simp: token_dead_def split: option.splits)
next
  case (Revoke tid' reason)
  moreover assume "token_dead tid (fst s)"
  ultimately show ?thesis
    by (cases s) (auto simp: token_dead_def revoke_def map_of_sm_assign split: option.splits)
qed simp

lemma token_run_dead:
  "token_dead tid (fst s) \<Longrightarrow> list_all (\<lambda>x. \<not> draws tid x) ops \<Longrightarrow> token_dead tid (fst (token_run add ops s))"
  unfolding token_run_def by (induction ops arbitrary: s) (simp_all add: token_step_dead)

lemma check_access_granted: "ar_granted (fst (check_access add now tid required s w)) = token_good now tid required s"
  by (auto simp: check_access_def token_good_def deny_def Let_def split: option.splits)

lemma token_dead_not_good: "token_dead tid s \<Longrightarrow> \<not> token_good now tid required s"
  by (auto simp: token_dead_def token_good_def split: option.splits)

lemma revoke_dead: "map_of (to_tokens (fst s)) tid \<noteq> None \<Longrightarrow> token_dead tid (fst (snd (revoke add tid r s)))"
  by (cases s) (auto simp: token_dead_def revoke_def)

context audit_sink
begin

lemma check_access_events:
  "\<exists>p. events (snd (check_access add now tid required s w)) =
     events w @ (if token_good now tid required s then [] else [(''token_denied'', p)])"
  by (auto simp: check_access_def token_good_def deny_def Let_def events_emit split: option.splits)

end

lemma live_ids:
  "tokens_ok s \<Longrightarrow> live_token_count now s = card {tid. \<exists>required. token_good now tid required s}"
proof -
  assume ok: "tokens_ok s"
  define P :: "stored_token \<Rightarrow> bool" where "P = (\<lambda>st. \<not> st_revoked st \<and> now < tk_expires_at_ms (st_token st))"
  have dist: "distinct (map fst (to_tokens s))" using ok by (simp add: tokens_ok_def sm_ok_distinct)
  then have lk: "map_of (to_tokens s) t = Some st \<longleftrightarrow> (t, st) \<in> set (to_tokens s)" for t st
    by (rule map_of_eq_Some_iff)
  have "{tid. \<exists>required. token_good now tid required s}
      = {tid. \<exists>st. map_of (to_tokens s) tid = Some st \<and> P st}"
    by (auto simp: token_good_def P_def split: option.splits)
  also have "\<dots> = fst ` set (filter (\<lambda>kv. P (snd kv)) (to_tokens s))"
    unfolding lk by force
  also have "card \<dots> = length (filter (\<lambda>kv. P (snd kv)) (to_tokens s))"
  proof -
    have "distinct (map fst (filter (\<lambda>kv. P (snd kv)) (to_tokens s)))"
      using dist by (rule distinct_map_filter)
    then show ?thesis by (metis distinct_card length_map list.set_map)
  qed
  also have "\<dots> = live_token_count now s"
    by (simp add: live_token_count_def sm_count_if_def sm_values_def P_def filter_map comp_def)
  finally show ?thesis by simp
qed

section \<open>Properties\<close>

text \<open>Access is granted exactly when the presented token was issued, has not expired, is not revoked and
  was issued for the requested scope; a grant leaves the audit chain alone and a denial adds exactly one
  \<^verbatim>\<open>token_denied\<close> entry.\<close>

theorem check_access_correct:
  "let (res, w') = check_access (audit_add sha env) now tid required s w in
   ar_granted res = token_good now tid required s \<and>
   (\<exists>p. trail w' = trail w @ (if ar_granted res then [] else [(''token_denied'', p)]))"
  using check_access_granted [of "audit_add sha env" now tid required s w]
    chain.check_access_events [where sha = sha and env = env and now = now and tid = tid and
      required = required and s = s and w = w]
  by (simp add: case_prod_beta)

text \<open>Revocation is final: after a token is revoked, no sequence of grants, revocations and checks makes
  it usable for any scope at any time, unless a later grant draws the same 128-bit id.\<close>

theorem revoked_never_granted:
  assumes "map_of (to_tokens (fst s)) tid \<noteq> None" and "list_all (\<lambda>x. \<not> draws tid x) ops"
  shows "\<not> ar_granted (fst (check_access (audit_add sha env) now tid required
    (fst (token_run (audit_add sha env) ops (snd (revoke (audit_add sha env) tid reason s)))) w))"
  using assms by (simp add: check_access_granted token_dead_not_good token_run_dead revoke_dead)

theorem revoked_never_granted_witness:
  "let s = snd (grant (audit_add demo_sha demo_env) (Some ''abcdefghijklmnop'') 5 ''alice'' ''read'' 100
             (new_token_store, fresh_audit));
       tid = hex_string ''abcdefghijklmnop''
   in \<not> ar_granted (fst (check_access (audit_add demo_sha demo_env) 6 tid ''read''
        (fst (token_run (audit_add demo_sha demo_env) [Check 6 tid ''read'']
           (snd (revoke (audit_add demo_sha demo_env) tid ''logout'' s)))) fresh_audit))"
proof -
  let ?s = "snd (grant (audit_add demo_sha demo_env) (Some ''abcdefghijklmnop'') 5 ''alice'' ''read'' 100
             (new_token_store, fresh_audit))"
  have "map_of (to_tokens (fst ?s)) (hex_string ''abcdefghijklmnop'') \<noteq> None"
    by (simp add: grant_def generate_token_id_def new_token_store_def Let_def)
  from revoked_never_granted [OF this, of "[Check 6 (hex_string ''abcdefghijklmnop'') ''read'']"]
  show ?thesis by (simp add: Let_def)
qed

text \<open>After any sequence of operations on a new store, \<^verbatim>\<open>live_token_count\<close> is the number of token ids that
  some scope check would accept at that time.\<close>

theorem live_token_count_correct:
  "let s = fst (token_run (audit_add sha env) ops (new_token_store, w)) in
   live_token_count now s
     = card {tid. \<exists>required. ar_granted (fst (check_access (audit_add sha env) now tid required s w'))}"
proof -
  have "tokens_ok (fst (token_run (audit_add sha env) ops (new_token_store, w)))"
    by (rule token_run_ok) (simp add: tokens_ok_def new_token_store_def)
  then show ?thesis by (simp add: Let_def live_ids check_access_granted)
qed

end
