(* ===== verification/CryptoIdentity.thy ===== *)
theory CryptoIdentity
  imports Prelude
begin

text \<open>
  \<^verbatim>\<open>core/crypto_identity\<close>: keypairs and per-request signatures. OpenSSL is the record of functions
  \<open>openssl\<close>: every call the code makes, with the outcome the code tests. Private keys have the type
  \<open>'k\<close>, decoded public keys \<open>'p\<close>.
\<close>

section \<open>Model\<close>

record ('k, 'p) openssl =
  os_ctx_new :: bool
  os_keygen_init :: bool
  os_set_curve :: bool
  os_keygen :: "'k option"
  os_error :: string
  os_i2d_pubkey :: "'k \<Rightarrow> bytes option"
  os_md_ctx_new :: bool
  os_sign_init :: "'k \<Rightarrow> bool"
  os_sign_update :: "bytes \<Rightarrow> bool"
  os_sign_len :: "'k \<Rightarrow> bytes \<Rightarrow> bool"
  os_sign_final :: "'k \<Rightarrow> bytes \<Rightarrow> bytes option"
  os_d2i_pubkey :: "bytes \<Rightarrow> 'p option"
  os_verify_init :: "'p \<Rightarrow> bool"
  os_verify_update :: "bytes \<Rightarrow> bool"
  os_verify_final :: "'p \<Rightarrow> bytes \<Rightarrow> bytes \<Rightarrow> bool"
  os_rand_bytes :: "nat \<Rightarrow> bytes option"

record 'k identity =
  id_name :: string
  id_pkey :: 'k

record signed_request =
  sq_identity_name :: string
  sq_challenge :: bytes
  sq_timestamp_ms :: int
  sq_signature :: bytes

definition make_identity :: "('k, 'p) openssl \<Rightarrow> string \<Rightarrow> cxx_exception + 'k identity" where
  "make_identity os name =
     (if \<not> os_ctx_new os then
        Inl (Runtime_error (''EVP_PKEY_CTX_new_from_name failed: '' @ os_error os))
      else if \<not> os_keygen_init os then
        Inl (Runtime_error (''EVP_PKEY_keygen_init failed: '' @ os_error os))
      else if \<not> os_set_curve os then
        Inl (Runtime_error (''set_ec_paramgen_curve_nid(secp256k1) failed: '' @ os_error os))
      else case os_keygen os of
        None \<Rightarrow> Inl (Runtime_error (''EVP_PKEY_keygen failed: '' @ os_error os))
      | Some k \<Rightarrow> Inr \<lparr>id_name = name, id_pkey = k\<rparr>)"

definition public_key_der :: "('k, 'p) openssl \<Rightarrow> 'k identity \<Rightarrow> cxx_exception + bytes" where
  "public_key_der os i =
     (case os_i2d_pubkey os (id_pkey i) of
        None \<Rightarrow> Inl (Runtime_error (''i2d_PUBKEY failed: '' @ os_error os))
      | Some d \<Rightarrow> Inr d)"

definition sign :: "('k, 'p) openssl \<Rightarrow> 'k identity \<Rightarrow> bytes \<Rightarrow> cxx_exception + bytes" where
  "sign os i msg =
     (if \<not> os_md_ctx_new os then Inl (Runtime_error ''EVP_MD_CTX_new failed'')
      else if \<not> os_sign_init os (id_pkey i) then
        Inl (Runtime_error (''EVP_DigestSignInit failed: '' @ os_error os))
      else if \<not> os_sign_update os msg then
        Inl (Runtime_error (''EVP_DigestSignUpdate failed: '' @ os_error os))
      else if \<not> os_sign_len os (id_pkey i) msg then
        Inl (Runtime_error (''EVP_DigestSignFinal (len) failed: '' @ os_error os))
      else case os_sign_final os (id_pkey i) msg of
        None \<Rightarrow> Inl (Runtime_error (''EVP_DigestSignFinal failed: '' @ os_error os))
      | Some s \<Rightarrow> Inr s)"

definition verify_signature :: "('k, 'p) openssl \<Rightarrow> bytes \<Rightarrow> bytes \<Rightarrow> bytes \<Rightarrow> bool" where
  "verify_signature os msg sig pub_der =
     (case os_d2i_pubkey os pub_der of
        None \<Rightarrow> False
      | Some pk \<Rightarrow>
          if \<not> os_md_ctx_new os then False
          else os_verify_init os pk \<and> os_verify_update os msg \<and> os_verify_final os pk msg sig)"

text \<open>The 64-bit timestamp as eight bytes, most significant first.\<close>

definition timestamp_bytes :: "int \<Rightarrow> bytes" where
  "timestamp_bytes t = map (\<lambda>i. word_of_int (drop_bit (i * 8) t)) [7, 6, 5, 4, 3, 2, 1, 0]"

definition build_request_message :: "string \<Rightarrow> bytes \<Rightarrow> int \<Rightarrow> bytes" where
  "build_request_message name challenge t = map of_char name @ challenge @ timestamp_bytes t"

definition make_signed_request ::
    "('k, 'p) openssl \<Rightarrow> int \<Rightarrow> 'k identity \<Rightarrow> bytes \<Rightarrow> cxx_exception + signed_request" where
  "make_signed_request os now i challenge =
     (case sign os i (build_request_message (id_name i) challenge now) of
        Inl e \<Rightarrow> Inl e
      | Inr s \<Rightarrow> Inr \<lparr>sq_identity_name = id_name i, sq_challenge = challenge,
                      sq_timestamp_ms = now, sq_signature = s\<rparr>)"

definition verify_signed_request :: "('k, 'p) openssl \<Rightarrow> signed_request \<Rightarrow> bytes \<Rightarrow> bytes \<Rightarrow> bool" where
  "verify_signed_request os req expected pub_der =
     (if sq_challenge req \<noteq> expected then False
      else verify_signature os
        (build_request_message (sq_identity_name req) (sq_challenge req) (sq_timestamp_ms req))
        (sq_signature req) pub_der)"

definition generate_challenge :: "('k, 'p) openssl \<Rightarrow> nat \<Rightarrow> cxx_exception + bytes" where
  "generate_challenge os n =
     (case os_rand_bytes os n of
        None \<Rightarrow> Inl (Runtime_error (''RAND_bytes failed: '' @ os_error os))
      | Some b \<Rightarrow> Inr b)"

section \<open>Lemmas\<close>

text \<open>Reading back \<open>n\<close> bytes of \<open>a\<close> from the most significant one on restores \<open>a\<close>.\<close>

lemma foldl_bytes:
  "(\<And>i. i < n \<Longrightarrow> uint (b i :: 8 word) = a div 2 ^ (i * 8) mod 256) \<Longrightarrow>
   foldl (\<lambda>acc x. acc * 256 + uint x) (a div 2 ^ (n * 8)) (map b (rev [0..<n])) = (a :: int)"
proof (induction n)
  case (Suc n)
  have "a div 2 ^ (Suc n * 8) = a div 2 ^ (n * 8) div 256"
    by (simp add: power_add zdiv_zmult2_eq [symmetric] mult.commute)
  then have "a div 2 ^ (Suc n * 8) * 256 + uint (b n) = a div 2 ^ (n * 8)"
    using Suc.prems [of n] by (simp only: div_mult_mod_eq lessI)
  moreover have "foldl (\<lambda>acc x. acc * 256 + uint x) (a div 2 ^ (n * 8)) (map b (rev [0..<n])) = a"
    using Suc by (meson less_SucI)
  ultimately show ?case by (simp del: power_Suc)
qed simp

lemma timestamp_bytes_value:
  assumes "- (2 ^ 63) \<le> t" "t < 2 ^ 63"
  shows "signed_take_bit 63 (foldl (\<lambda>acc b. acc * 256 + uint b) 0 (timestamp_bytes t)) = t"
proof -
  define a where "a = take_bit 64 t"
  have byte: "uint (word_of_int (drop_bit (i * 8) t) :: 8 word) = a div 2 ^ (i * 8) mod 256" if "i < 8" for i
  proof -
    have "8 \<le> 64 - i * 8" using that by simp
    then have "take_bit 8 (drop_bit (i * 8) t) = take_bit 8 (drop_bit (i * 8) (take_bit 64 t))"
      by (simp add: drop_bit_take_bit)
    then show ?thesis by (simp add: unsigned_of_int a_def take_bit_eq_mod drop_bit_eq_div)
  qed
  have "a div 2 ^ (8 * 8) = 0"
    unfolding a_def by (rule div_pos_pos_trivial) (simp_all add: take_bit_eq_mod)
  moreover have order: "[7, 6, 5, 4, 3, 2, 1, 0] = rev [0..<8]" by (simp add: upt_conv_Cons)
  ultimately have "foldl (\<lambda>acc b. acc * 256 + uint b) 0 (timestamp_bytes t) = a"
    using foldl_bytes [of 8 "\<lambda>i. word_of_int (drop_bit (i * 8) t)" a, OF byte]
    unfolding timestamp_bytes_def order by simp
  then show ?thesis
    using assms by (simp add: a_def signed_take_bit_take_bit signed_take_bit_int_eq_self_iff)
qed

lemma timestamp_bytes_inj:
  "- (2 ^ 63) \<le> s \<Longrightarrow> s < 2 ^ 63 \<Longrightarrow> - (2 ^ 63) \<le> t \<Longrightarrow> t < 2 ^ 63 \<Longrightarrow>
   timestamp_bytes s = timestamp_bytes t \<Longrightarrow> s = t"
  by (metis timestamp_bytes_value)

lemma length_timestamp_bytes [simp]: "length (timestamp_bytes t) = 8"
  by (simp add: timestamp_bytes_def)

lemma of_char_word_inj: "(of_char c :: 8 word) = of_char d \<longleftrightarrow> c = d"
proof
  assume "(of_char c :: 8 word) = of_char d"
  then have "(of_nat (of_char c) :: 8 word) = of_nat (of_char d)" by (simp only: of_nat_of_char)
  then have "of_char c mod 2 ^ 8 = (of_char d mod 2 ^ 8 :: nat)"
    by (simp add: word_of_nat_eq_iff take_bit_eq_mod)
  then have "(of_char c :: nat) = of_char d" by simp
  then show "c = d" by (simp only: of_char_eq_iff)
qed simp

lemma map_of_char_inj: "map (of_char :: char \<Rightarrow> 8 word) s = map of_char t \<longleftrightarrow> s = t"
  by (simp add: inj_map_eq_map inj_def of_char_word_inj)

section \<open>Properties\<close>

text \<open>What a signature covers: for one issued challenge, the signed message determines the claimed
  identity name and the timestamp, so no two requests for that challenge share a signed message unless
  they agree in both. Timestamps range over all 64-bit values.\<close>

theorem request_message_unambiguous:
  assumes "- (2 ^ 63) \<le> s" "s < 2 ^ 63" "- (2 ^ 63) \<le> t" "t < 2 ^ 63"
    and "build_request_message m c s = build_request_message n c t"
  shows "m = n \<and> s = t"
proof -
  from assms(5) have "map of_char m @ c = (map of_char n @ c :: bytes)" and "timestamp_bytes s = timestamp_bytes t"
    unfolding build_request_message_def append_assoc [symmetric] by (simp_all add: append_eq_append_conv)
  with assms(1-4) show ?thesis using map_of_char_inj timestamp_bytes_inj by auto
qed

theorem request_message_unambiguous_witness:
  "build_request_message ''alice'' [1, 2] (-1) \<noteq> build_request_message ''alice'' [1, 2] 255"
  using request_message_unambiguous [of "-1" 255 "''alice''" "[1, 2]" "''alice''"] by auto

text \<open>Signing and verifying agree: when OpenSSL accepts under the decoded public key what it signed with
  the private key, a request made for the issued challenge verifies, and the same request presented for
  any other challenge is rejected.\<close>

theorem signed_request_roundtrip:
  assumes "make_signed_request os now i challenge = Inr req"
    and "public_key_der os i = Inr der"
    and "os_d2i_pubkey os der = Some pk" and "os_md_ctx_new os"
    and "\<And>msg sig. os_sign_final os (id_pkey i) msg = Some sig \<Longrightarrow>
           os_verify_init os pk \<and> os_verify_update os msg \<and> os_verify_final os pk msg sig"
  shows "verify_signed_request os req challenge der \<and>
    (c' \<noteq> challenge \<longrightarrow> \<not> verify_signed_request os req c' der)"
  using assms
  by (auto simp: make_signed_request_def sign_def verify_signed_request_def verify_signature_def
      split: if_splits option.splits sum.splits)

text \<open>A keyed checksum in the place of OpenSSL, for the witness.\<close>

definition demo_openssl :: "(nat, nat) openssl" where
  "demo_openssl = \<lparr>os_ctx_new = True, os_keygen_init = True, os_set_curve = True, os_keygen = Some 7,
     os_error = [], os_i2d_pubkey = (\<lambda>k. Some [of_nat k]), os_md_ctx_new = True,
     os_sign_init = (\<lambda>k. True), os_sign_update = (\<lambda>m. True), os_sign_len = (\<lambda>k m. True),
     os_sign_final = (\<lambda>k m. Some (of_nat k # m)), os_d2i_pubkey = (\<lambda>d. Some (unat (hd d))),
     os_verify_init = (\<lambda>p. True), os_verify_update = (\<lambda>m. True),
     os_verify_final = (\<lambda>p m s. s = of_nat p # m), os_rand_bytes = (\<lambda>n. Some (replicate n 5))\<rparr>"

theorem signed_request_roundtrip_witness:
  "\<exists>req. make_signed_request demo_openssl 1000 \<lparr>id_name = ''alice'', id_pkey = 7\<rparr> [1, 2, 3] = Inr req \<and>
     verify_signed_request demo_openssl req [1, 2, 3] [7]"
proof -
  let ?i = "\<lparr>id_name = ''alice'', id_pkey = 7\<rparr> :: nat identity"
  obtain req where r: "make_signed_request demo_openssl 1000 ?i [1, 2, 3] = Inr req"
    by (simp add: make_signed_request_def sign_def demo_openssl_def)
  have "public_key_der demo_openssl ?i = Inr [7]" "os_d2i_pubkey demo_openssl [7] = Some 7"
    "os_md_ctx_new demo_openssl"
    by (simp_all add: public_key_der_def demo_openssl_def)
  from signed_request_roundtrip [OF r this] r show ?thesis by (auto simp: demo_openssl_def)
qed

end
