(* ===== verification/UnlockProtocol.thy ===== *)
theory UnlockProtocol
  imports WormLock AccessToken CryptoIdentity
begin

text \<open>
  \<^verbatim>\<open>core/unlock_protocol\<close>: the vote that lifts a lockdown. The token store is read through
  \<^verbatim>\<open>check_access\<close>, the signature check is that of \<open>CryptoIdentity\<close>, \<open>worm_unlock\<close> is the callback
  that lifts the lock. A challenge that cannot be drawn is an exception.
\<close>

section \<open>Model\<close>

datatype approver_side = ASTARTIS | CLIENT

record approver_record =
  ap_name :: string
  ap_side :: approver_side
  ap_public_key_der :: bytes
  ap_token_id :: string

record vote_result =
  vo_accepted :: bool
  vo_reason :: string
  vo_votes_now :: int
  vo_threshold :: int
  vo_unlocked :: bool

datatype protocol_state = IDLE | COLLECTING | GRANTED

record approver_status =
  as_name :: string
  as_side :: approver_side
  as_voted :: bool

record unlock_status =
  us_state :: protocol_state
  us_votes_collected :: int
  us_threshold :: int
  us_approvers :: "approver_status list"

record unlock_protocol =
  up_threshold :: int
  up_state :: protocol_state
  up_approvers :: "(string, approver_record) std_map"
  up_challenges :: "(string, bytes) std_map"
  up_votes :: "(string, bool) std_map"

definition DEMO_THRESHOLD :: int where
  "DEMO_THRESHOLD = 3"

definition new_unlock_protocol :: "int \<Rightarrow> unlock_protocol" where
  "new_unlock_protocol threshold =
     \<lparr>up_threshold = (if threshold > 0 then threshold else DEMO_THRESHOLD), up_state = IDLE,
      up_approvers = [], up_challenges = [], up_votes = []\<rparr>"

definition register_approver ::
    "string \<Rightarrow> approver_side \<Rightarrow> bytes \<Rightarrow> string \<Rightarrow> unlock_protocol \<Rightarrow> unlock_protocol" where
  "register_approver name side key tid u =
     (if sm_has name (up_approvers u) then u
      else u\<lparr>up_approvers := sm_assign name
               \<lparr>ap_name = name, ap_side = side, ap_public_key_der = key, ap_token_id = tid\<rparr> (up_approvers u),
             up_votes := sm_assign name False (up_votes u)\<rparr>)"

definition reset_votes :: "(string, bool) std_map \<Rightarrow> (string, bool) std_map" where
  "reset_votes m = map (\<lambda>(k, v). (k, False)) m"

definition begin_session :: "unlock_protocol \<Rightarrow> unlock_protocol" where
  "begin_session u =
     (if up_state u = COLLECTING then u
      else u\<lparr>up_votes := reset_votes (up_votes u), up_challenges := [],
             up_state := COLLECTING\<rparr>)"

definition get_challenge ::
    "(nat \<Rightarrow> cxx_exception + bytes) \<Rightarrow> string \<Rightarrow> unlock_protocol \<Rightarrow> (cxx_exception + bytes) \<times> unlock_protocol" where
  "get_challenge gen name u =
     (if \<not> sm_has name (up_approvers u) then (Inr [], u)
      else case map_of (up_challenges u) name of
        Some c \<Rightarrow> (Inr c, u)
      | None \<Rightarrow>
          (case gen 32 of
             Inl e \<Rightarrow> (Inl e, u)
           | Inr c \<Rightarrow> (Inr c, u\<lparr>up_challenges := sm_assign name c (up_challenges u)\<rparr>)))"

definition votes_collected :: "unlock_protocol \<Rightarrow> int" where
  "votes_collected u = int (sm_count_if (\<lambda>b. b) (up_votes u))"

definition reject ::
    "'w audit_adder \<Rightarrow> string \<Rightarrow> string \<Rightarrow> unlock_protocol \<Rightarrow> 'w \<Rightarrow> vote_result \<times> unlock_protocol \<times> 'w" where
  "reject add name reason u w =
     (\<lparr>vo_accepted = False, vo_reason = reason, vo_votes_now = votes_collected u,
       vo_threshold = up_threshold u, vo_unlocked = False\<rparr>,
      u, emit add ''worm_unlock_vote_rejected'' (''approver='' @ name @ '' reason='' @ reason) w)"

text \<open>\<^verbatim>\<open>votes_[name]\<close> inserts \<^verbatim>\<open>false\<close> for a missing key before it is read.\<close>

definition touch_vote :: "string \<Rightarrow> unlock_protocol \<Rightarrow> unlock_protocol" where
  "touch_vote name u =
     (if sm_has name (up_votes u) then u else u\<lparr>up_votes := sm_assign name False (up_votes u)\<rparr>)"

definition accept_vote ::
    "'w audit_adder \<Rightarrow> (string \<Rightarrow> 'w \<Rightarrow> 'w) \<Rightarrow> string \<Rightarrow> unlock_protocol \<Rightarrow> 'w
       \<Rightarrow> vote_result \<times> unlock_protocol \<times> 'w" where
  "accept_vote add worm_unlock name u w =
     (let u1 = u\<lparr>up_votes := sm_assign name True (up_votes u),
                 up_challenges := sm_erase name (up_challenges u)\<rparr>;
          collected = votes_collected u1;
          w1 = emit add ''worm_unlock_vote''
                 (''approver='' @ name @ '' votes_now='' @ str_of_int collected @ ''/''
                    @ str_of_int (up_threshold u)) w
      in if collected \<ge> up_threshold u then
           (\<lparr>vo_accepted = True, vo_reason = ''ok'', vo_votes_now = collected,
             vo_threshold = up_threshold u, vo_unlocked = True\<rparr>,
            u1\<lparr>up_state := GRANTED\<rparr>,
            worm_unlock ''12eye_protocol_demo_scale''
              (emit add ''worm_unlock_granted''
                 (''votes='' @ str_of_int collected @ '' threshold='' @ str_of_int (up_threshold u)) w1))
         else (\<lparr>vo_accepted = True, vo_reason = ''ok'', vo_votes_now = collected,
                vo_threshold = up_threshold u, vo_unlocked = False\<rparr>, u1, w1))"

definition cast_vote ::
    "('k, 'p) openssl \<Rightarrow> 'w audit_adder \<Rightarrow> (string \<Rightarrow> 'w \<Rightarrow> 'w) \<Rightarrow> token_store \<Rightarrow> int
       \<Rightarrow> string \<Rightarrow> signed_request \<Rightarrow> unlock_protocol \<times> 'w \<Rightarrow> vote_result \<times> unlock_protocol \<times> 'w" where
  "cast_vote os add worm_unlock ts now name req = (\<lambda>(u, w).
     if up_state u = IDLE then reject add name ''not_collecting'' u w
     else if up_state u = GRANTED then reject add name ''already_granted'' u w
     else case map_of (up_approvers u) name of
       None \<Rightarrow> reject add name ''unknown_approver'' u w
     | Some ap \<Rightarrow>
         let u0 = touch_vote name u in
         if sm_get_or False name (up_votes u0) then reject add name ''duplicate'' u0 w
         else
           let (ar, w0) = check_access add now (ap_token_id ap) ''worm_unlock_vote'' ts w in
           if \<not> ar_granted ar then reject add name (''scope_denied:'' @ ar_reason ar) u0 w0
           else case map_of (up_challenges u0) name of
             None \<Rightarrow> reject add name ''no_challenge_issued'' u0 w0
           | Some ch \<Rightarrow>
               if \<not> verify_signed_request os req ch (ap_public_key_der ap)
               then reject add name ''bad_signature'' u0 w0
               else accept_vote add worm_unlock name u0 w0)"

definition unlock_status_of :: "unlock_protocol \<Rightarrow> unlock_status" where
  "unlock_status_of u =
     \<lparr>us_state = up_state u, us_votes_collected = votes_collected u, us_threshold = up_threshold u,
      us_approvers = map (\<lambda>(k, ap). \<lparr>as_name = k, as_side = ap_side ap,
                          as_voted = sm_get_or False k (up_votes u)\<rparr>) (up_approvers u)\<rparr>"

section \<open>Specification\<close>

text \<open>The conditions under which a vote counts.\<close>

definition vote_valid ::
    "('k, 'p) openssl \<Rightarrow> token_store \<Rightarrow> int \<Rightarrow> string \<Rightarrow> signed_request \<Rightarrow> unlock_protocol \<Rightarrow> bool" where
  "vote_valid os ts now name req u =
     (up_state u = COLLECTING \<and> \<not> sm_get_or False name (up_votes u) \<and>
      (case (map_of (up_approvers u) name, map_of (up_challenges u) name) of
         (Some ap, Some ch) \<Rightarrow>
           token_good now (ap_token_id ap) ''worm_unlock_vote'' ts \<and>
           verify_signed_request os req ch (ap_public_key_der ap)
       | _ \<Rightarrow> False))"

datatype unlock_op =
    Register string approver_side bytes string
  | Begin
  | Challenge string
  | Vote token_store int string signed_request

text \<open>Each operation comes with what OpenSSL does during it, its random bytes among the rest.\<close>

fun unlock_step ::
    "'w audit_adder \<Rightarrow> (string \<Rightarrow> 'w \<Rightarrow> 'w) \<Rightarrow> ('k, 'p) openssl \<times> unlock_op
       \<Rightarrow> unlock_protocol \<times> 'w \<Rightarrow> unlock_protocol \<times> 'w" where
  "unlock_step add wu (os, Register n s k t) (u, w) = (register_approver n s k t u, w)"
| "unlock_step add wu (os, Begin) (u, w) = (begin_session u, w)"
| "unlock_step add wu (os, Challenge n) (u, w) = (snd (get_challenge (generate_challenge os) n u), w)"
| "unlock_step add wu (os, Vote ts now n req) s = snd (cast_vote os add wu ts now n req s)"

text \<open>The callback of the bridge, on the gate world.\<close>

definition gate_unlock :: "(string \<Rightarrow> string) \<Rightarrow> environment \<Rightarrow> string \<Rightarrow> gate_world \<Rightarrow> gate_world" where
  "gate_unlock sha env authority g = snd (unlock (audit_add sha env) authority (fst g) (snd g))"

section \<open>Lemmas\<close>

definition unlock_ok :: "unlock_protocol \<Rightarrow> bool" where
  "unlock_ok u \<longleftrightarrow> 0 < up_threshold u \<and> sm_ok (up_votes u) \<and> sm_ok (up_approvers u) \<and>
     fst ` set (up_votes u) = fst ` set (up_approvers u)"

lemma sm_has_key: "sm_has k m \<longleftrightarrow> k \<in> fst ` set m"
  by (auto simp: sm_has_def map_of_eq_None_iff)

lemma touch_vote_id: "unlock_ok u \<Longrightarrow> map_of (up_approvers u) n = Some ap \<Longrightarrow> touch_vote n u = u"
  by (metis map_of_eq_None_iff option.distinct(1) sm_has_key touch_vote_def unlock_ok_def)

lemma cast_vote_cases:
  assumes "unlock_ok u"
  shows "(vote_valid os ts now n req u \<longrightarrow>
           cast_vote os add wu ts now n req (u, w) = accept_vote add wu n u w) \<and>
         (\<not> vote_valid os ts now n req u \<longrightarrow>
           (\<exists>r w0. cast_vote os add wu ts now n req (u, w) = reject add n r u w0 \<and>
              (w0 = w \<or> (\<exists>p. w0 = emit add ''token_denied'' p w))))"
proof (cases "up_state u = COLLECTING")
  case False
  then show ?thesis by (cases "up_state u") (auto simp: vote_valid_def cast_vote_def)
next
  case True
  show ?thesis
  proof (cases "map_of (up_approvers u) n")
    case None
    with True show ?thesis by (auto simp: vote_valid_def cast_vote_def)
  next
    case (Some ap)
    obtain ar w0 where ca: "check_access add now (ap_token_id ap) ''worm_unlock_vote'' ts w = (ar, w0)"
      by (metis surj_pair)
    have g: "ar_granted ar = token_good now (ap_token_id ap) ''worm_unlock_vote'' ts"
      using check_access_granted [of add now "ap_token_id ap" "''worm_unlock_vote''" ts w] ca by simp
    have w0: "ar_granted ar \<Longrightarrow> w0 = w" "\<not> ar_granted ar \<Longrightarrow> \<exists>p. w0 = emit add ''token_denied'' p w"
      using ca by (auto simp: check_access_def deny_def Let_def split: option.splits if_splits)
    from True Some touch_vote_id [OF assms Some] ca g w0 show ?thesis
      by (auto simp: vote_valid_def cast_vote_def split: option.splits)
  qed
qed

lemma collected_accept:
  assumes "unlock_ok u" "map_of (up_approvers u) n \<noteq> None" "\<not> sm_get_or False n (up_votes u)"
  shows "sm_count_if (\<lambda>b. b) (sm_assign n True (up_votes u)) = sm_count_if (\<lambda>b. b) (up_votes u) + 1"
proof -
  have "n \<in> fst ` set (up_votes u)"
    using assms(1,2) by (auto simp: unlock_ok_def map_of_eq_None_iff)
  then obtain b where b: "map_of (up_votes u) n = Some b"
    by (metis map_of_eq_None_iff not_None_eq)
  with assms(3) have "\<not> b" by (simp add: sm_get_or_def)
  with sm_count_update [of "up_votes u" n b "\<lambda>b. b" True] b assms(1) show ?thesis
    by (simp add: unlock_ok_def)
qed

lemma reset_keys: "map fst (reset_votes m) = map fst m"
  by (induction m) (auto simp: reset_votes_def)

lemma reset_votes_facts:
  "sm_ok (reset_votes m) = sm_ok m" "fst ` set (reset_votes m) = fst ` set m"
  "sm_count_if (\<lambda>b. b) (reset_votes m) = 0"
proof -
  show "sm_ok (reset_votes m) = sm_ok m" by (simp add: sm_ok_def reset_keys)
  show "fst ` set (reset_votes m) = fst ` set m" using reset_keys [of m] by (metis list.set_map)
  show "sm_count_if (\<lambda>b. b) (reset_votes m) = 0"
    by (auto simp: sm_count_zero reset_votes_def)
qed

lemma register_ok: "unlock_ok u \<Longrightarrow> unlock_ok (register_approver n s k t u)"
  by (auto simp: unlock_ok_def register_approver_def)

lemma begin_ok: "unlock_ok u \<Longrightarrow> unlock_ok (begin_session u)"
  by (simp add: unlock_ok_def begin_session_def reset_votes_facts)

lemma challenge_ok: "unlock_ok u \<Longrightarrow> unlock_ok (snd (get_challenge gen n u))"
  by (auto simp: unlock_ok_def get_challenge_def split: option.splits sum.splits)

lemma accept_ok:
  "unlock_ok u \<Longrightarrow> map_of (up_approvers u) n \<noteq> None \<Longrightarrow> unlock_ok (fst (snd (accept_vote add wu n u w)))"
  by (auto simp: unlock_ok_def accept_vote_def Let_def map_of_eq_None_iff)

lemma votes_le_approvers: "unlock_ok u \<Longrightarrow> sm_count_if (\<lambda>b. b) (up_votes u) \<le> length (up_approvers u)"
proof -
  assume "unlock_ok u"
  then have "set (map fst (up_votes u)) = set (map fst (up_approvers u))"
    and "distinct (map fst (up_votes u))" and "distinct (map fst (up_approvers u))"
    by (auto simp: unlock_ok_def dest: sm_ok_distinct)
  then have "length (map fst (up_votes u)) = length (map fst (up_approvers u))"
    by (metis distinct_card)
  with sm_count_le [of "\<lambda>b. b" "up_votes u"] show ?thesis by simp
qed

lemma length_sm_assign_ge: "length m \<le> length (sm_assign k v m)"
  by (induction k v m rule: sm_assign.induct) auto

text \<open>The vote ledger: what the counters and the trail of a run say about each other.\<close>

definition ledger ::
    "('w \<Rightarrow> audit_event list) \<Rightarrow> ('w \<Rightarrow> bool) \<Rightarrow> unlock_protocol \<times> 'w \<Rightarrow> bool" where
  "ledger events locked s \<longleftrightarrow>
     (let u = fst s; votes = int (count_type ''worm_unlock_vote'' (events (snd s)));
          grants = int (count_type ''worm_unlock_granted'' (events (snd s))) in
      unlock_ok u \<and>
      up_threshold u * grants + (if up_state u = COLLECTING then votes_collected u else 0) \<le> votes \<and>
      (up_state u = COLLECTING \<longrightarrow> votes_collected u < up_threshold u) \<and>
      (grants > 0 \<longrightarrow> up_threshold u \<le> int (length (up_approvers u))) \<and>
      (grants = 0 \<longrightarrow> locked (snd s)))"

lemma gate_unlock_trail:
  "\<exists>p. gate_trail (gate_unlock sha env a g) = gate_trail g @ (if gate_locked g then [(''worm_lock_lifted'', p)] else [])"
  by (auto simp: gate_trail_def gate_unlock_def gate_locked_def chain.unlock_events)

lemma gate_unlock_count:
  "t \<noteq> ''worm_lock_lifted'' \<Longrightarrow> count_type t (gate_trail (gate_unlock sha env a g)) = count_type t (gate_trail g)"
  using gate_unlock_trail [of sha env a g] by auto

lemma ledger_reject:
  assumes "ledger gate_trail gate_locked (u, g)"
  shows "ledger gate_trail gate_locked (snd (reject (gate_add sha env) n r u g))"
    and "ledger gate_trail gate_locked (snd (reject (gate_add sha env) n r u (emit (gate_add sha env) ''token_denied'' p g)))"
  using assms by (simp_all add: ledger_def Let_def reject_def gate.count_emit)

lemma ledger_accept:
  assumes "ledger gate_trail gate_locked (u, g)" and "up_state u = COLLECTING"
    and "map_of (up_approvers u) n \<noteq> None" and "\<not> sm_get_or False n (up_votes u)"
  shows "ledger gate_trail gate_locked (snd (accept_vote (gate_add sha env) (gate_unlock sha env) n u g))"
proof -
  let ?u = "fst (snd (accept_vote (gate_add sha env) (gate_unlock sha env) n u g))"
  have ok: "unlock_ok u" using assms(1) by (simp add: ledger_def Let_def)
  have ok': "unlock_ok ?u" using accept_ok [OF ok assms(3)] .
  have col: "votes_collected ?u = votes_collected u + 1"
    using collected_accept [OF ok assms(3,4)] by (simp add: votes_collected_def accept_vote_def Let_def)
  have app: "up_approvers ?u = up_approvers u" "up_threshold ?u = up_threshold u"
    by (simp_all add: accept_vote_def Let_def)
  have "votes_collected ?u \<le> int (length (up_approvers u))"
    using votes_le_approvers [OF ok'] by (simp add: app(1) votes_collected_def)
  with assms(1,2) ok' col show ?thesis
    by (auto simp: ledger_def Let_def accept_vote_def gate.count_emit gate_unlock_count
        votes_collected_def algebra_simps split: if_splits)
qed

lemma challenge_fields:
  "up_threshold (snd (get_challenge gen n u)) = up_threshold u"
  "up_approvers (snd (get_challenge gen n u)) = up_approvers u"
  "up_state (snd (get_challenge gen n u)) = up_state u"
  "votes_collected (snd (get_challenge gen n u)) = votes_collected u"
  by (simp_all add: get_challenge_def votes_collected_def split: option.splits sum.splits)

lemma unlock_step_ledger:
  assumes "ledger gate_trail gate_locked s"
  shows "ledger gate_trail gate_locked (unlock_step (gate_add sha env) (gate_unlock sha env) x s)"
proof -
  obtain u g where s: "s = (u, g)" by (cases s)
  obtain os op where x: "x = (os, op)" by (cases x)
  have ok: "unlock_ok u" using assms by (simp add: ledger_def Let_def s)
  show ?thesis
  proof (cases op)
    case (Register n sd k t)
    have "map_of (up_approvers u) n = None \<Longrightarrow> map_of (up_votes u) n = None"
      using ok by (simp add: unlock_ok_def map_of_eq_None_iff)
    then have "votes_collected (register_approver n sd k t u) = votes_collected u"
      using ok by (simp add: votes_collected_def register_approver_def unlock_ok_def sm_count_fresh sm_has_def)
    moreover have "length (up_approvers u) \<le> length (up_approvers (register_approver n sd k t u))"
      by (simp add: register_approver_def length_sm_assign_ge)
    moreover have "up_state (register_approver n sd k t u) = up_state u"
      "up_threshold (register_approver n sd k t u) = up_threshold u" by (simp_all add: register_approver_def)
    ultimately show ?thesis
      using assms register_ok [OF ok, of n sd k t] by (auto simp: x Register s ledger_def Let_def)
  next
    case Begin
    have "up_threshold (begin_session u) = up_threshold u" "up_approvers (begin_session u) = up_approvers u"
      "up_state u = COLLECTING \<or> votes_collected (begin_session u) = 0"
      by (auto simp: begin_session_def votes_collected_def reset_votes_facts)
    moreover have "up_state u = COLLECTING \<Longrightarrow> begin_session u = u" by (simp add: begin_session_def)
    moreover have "0 < up_threshold u" using ok by (simp add: unlock_ok_def)
    ultimately show ?thesis
      using assms begin_ok [OF ok] by (cases "up_state u = COLLECTING") (auto simp: x Begin s ledger_def Let_def)
  next
    case (Challenge n)
    from assms challenge_ok [OF ok, of "generate_challenge os" n] show ?thesis
      by (cases "up_state u = COLLECTING") (simp_all add: x Challenge s ledger_def Let_def challenge_fields)
  next
    case (Vote ts now n req)
    note cases = cast_vote_cases [OF ok, of os ts now n req "gate_add sha env" "gate_unlock sha env" g]
    show ?thesis
    proof (cases "vote_valid os ts now n req u")
      case True
      then have "up_state u = COLLECTING" "map_of (up_approvers u) n \<noteq> None" "\<not> sm_get_or False n (up_votes u)"
        by (auto simp: vote_valid_def split: option.splits)
      with cases True ledger_accept assms show ?thesis by (simp add: x Vote s)
    next
      case False
      with cases obtain r w0 where vote: "cast_vote os (gate_add sha env) (gate_unlock sha env) ts now n req (u, g)
          = reject (gate_add sha env) n r u w0" and w0: "w0 = g \<or> (\<exists>p. w0 = emit (gate_add sha env) ''token_denied'' p g)"
        by blast
      have "ledger gate_trail gate_locked (u, g)" using assms by (simp only: s)
      from w0 ledger_reject [OF this] have "ledger gate_trail gate_locked (snd (reject (gate_add sha env) n r u w0))"
        by metis
      then show ?thesis by (simp only: x Vote s unlock_step.simps vote)
    qed
  qed
qed

lemma unlock_run_ledger:
  "ledger gate_trail gate_locked s \<Longrightarrow>
   ledger gate_trail gate_locked (fold (unlock_step (gate_add sha env) (gate_unlock sha env)) ops s)"
  by (induction ops arbitrary: s) (simp_all add: unlock_step_ledger)

lemma vote_threshold:
  "up_threshold (fst (snd (reject add n r u w))) = up_threshold u"
  "up_threshold (fst (snd (accept_vote add wu n u w))) = up_threshold u"
  "up_threshold (touch_vote n u) = up_threshold u"
  by (simp_all add: reject_def accept_vote_def touch_vote_def Let_def)

lemma step_threshold:
  "up_threshold (register_approver n sd k t u) = up_threshold u"
  "up_threshold (begin_session u) = up_threshold u"
  "up_threshold (snd (get_challenge gen n u)) = up_threshold u"
  "up_threshold (fst (snd (cast_vote os add wu ts now n req (u, w)))) = up_threshold u"
proof -
  show "up_threshold (register_approver n sd k t u) = up_threshold u" by (simp add: register_approver_def)
  show "up_threshold (begin_session u) = up_threshold u" by (simp add: begin_session_def)
  show "up_threshold (snd (get_challenge gen n u)) = up_threshold u"
    by (simp add: get_challenge_def split: option.splits sum.splits)
  show "up_threshold (fst (snd (cast_vote os add wu ts now n req (u, w)))) = up_threshold u"
    unfolding cast_vote_def by (simp add: vote_threshold Let_def case_prod_beta split: option.split)
qed

lemma unlock_threshold_const:
  "up_threshold (fst (fold (unlock_step add wu) ops s)) = up_threshold (fst s)"
proof (induction ops arbitrary: s)
  case (Cons x ops)
  have "up_threshold (fst (unlock_step add wu x s)) = up_threshold (fst s)"
    by (cases s; cases x; cases "snd x") (simp_all add: step_threshold)
  with Cons show ?case by simp
qed simp

section \<open>Properties\<close>

text \<open>C2. A lockdown is lifted by votes only: starting with the lock engaged and an empty chain, after any
  registrations, session openings, challenges and votes, each with its own random bytes, the lock is still engaged unless the chain
  holds at least \<open>threshold\<close> accepted votes, every grant entry is backed by \<open>threshold\<close> accepted votes of
  its own, and there is no grant with fewer registered approvers than the threshold.\<close>

theorem unlock_needs_threshold:
  assumes "is_locked l"
  shows "let n = (if threshold > 0 then threshold else DEMO_THRESHOLD);
      (u, g) = fold (unlock_step (gate_add sha env) (gate_unlock sha env)) ops
        (new_unlock_protocol threshold, (l, fresh_audit));
      votes = int (count_type ''worm_unlock_vote'' (gate_trail g));
      grants = int (count_type ''worm_unlock_granted'' (gate_trail g)) in
    n * grants \<le> votes \<and> (gate_locked g \<or> n \<le> votes) \<and>
    (int (length (up_approvers u)) < n \<longrightarrow> grants = 0 \<and> gate_locked g)"
proof -
  let ?s0 = "(new_unlock_protocol threshold, (l, fresh_audit))"
  let ?n = "if threshold > 0 then threshold else DEMO_THRESHOLD"
  obtain u g where run: "fold (unlock_step (gate_add sha env) (gate_unlock sha env)) ops ?s0 = (u, g)"
    by (metis surj_pair)
  have "ledger gate_trail gate_locked ?s0"
    using assms by (simp add: ledger_def new_unlock_protocol_def unlock_ok_def DEMO_THRESHOLD_def
        votes_collected_def gate_trail_def gate_locked_def)
  from unlock_run_ledger [OF this, of sha env ops] have inv: "ledger gate_trail gate_locked (u, g)"
    by (simp add: run)
  have thr: "up_threshold u = ?n"
    using unlock_threshold_const [of "gate_add sha env" "gate_unlock sha env" ops ?s0]
    unfolding run by (simp add: new_unlock_protocol_def)
  define votes where "votes = int (count_type ''worm_unlock_vote'' (gate_trail g))"
  define grants where "grants = int (count_type ''worm_unlock_granted'' (gate_trail g))"
  have facts: "0 < ?n" "?n * grants \<le> votes" "0 \<le> grants" "grants = 0 \<longrightarrow> gate_locked g"
    "grants > 0 \<longrightarrow> ?n \<le> int (length (up_approvers u))"
    using inv unfolding ledger_def Let_def votes_def [symmetric] grants_def [symmetric] fst_conv snd_conv thr
    by (auto simp: DEMO_THRESHOLD_def grants_def votes_collected_def split: if_splits)
  have "gate_locked g \<or> ?n \<le> votes"
  proof (cases "grants = 0")
    case False
    then have "?n * 1 \<le> ?n * grants" using facts(1,3) by (intro mult_left_mono) auto
    with facts(2) show ?thesis by linarith
  qed (use facts in simp)
  with facts show ?thesis
    unfolding run Let_def case_prod_conv votes_def [symmetric] grants_def [symmetric] by linarith
qed

theorem unlock_needs_threshold_witness:
  "gate_locked (snd (fold (unlock_step (gate_add demo_sha demo_env) (gate_unlock demo_sha demo_env)) [(demo_openssl, Begin)]
     (new_unlock_protocol 3, (new_worm_lock\<lparr>wl_state := LOCKED\<rparr>, fresh_audit))))"
  using unlock_needs_threshold [of "new_worm_lock\<lparr>wl_state := LOCKED\<rparr>" 3 demo_sha demo_env "[(demo_openssl, Begin)]"]
  by (simp add: is_locked_def new_unlock_protocol_def begin_session_def gate_trail_def Let_def)


text \<open>A registered, signed and authorised vote that completes a session of threshold one.\<close>

definition demo_vote_state :: unlock_protocol where
  "demo_vote_state = snd (get_challenge (generate_challenge demo_openssl) ''bob''
     (begin_session (register_approver ''bob'' CLIENT [7] ''t1'' (new_unlock_protocol 1))))"

definition demo_tokens :: token_store where
  "demo_tokens = \<lparr>to_tokens = [(''t1'', \<lparr>st_token = \<lparr>tk_token_id = ''t1'', tk_identity_name = ''bob'',
     tk_scope = ''worm_unlock_vote'', tk_granted_at_ms = 0, tk_expires_at_ms = 100\<rparr>, st_revoked = False\<rparr>)],
     to_total_granted = 1\<rparr>"

definition demo_request :: signed_request where
  "demo_request = \<lparr>sq_identity_name = ''bob'', sq_challenge = replicate 32 5, sq_timestamp_ms = 9,
     sq_signature = 7 # build_request_message ''bob'' (replicate 32 5) 9\<rparr>"

lemma demo_vote_state_eval:
  "demo_vote_state = \<lparr>up_threshold = 1, up_state = COLLECTING,
     up_approvers = [(''bob'', \<lparr>ap_name = ''bob'', ap_side = CLIENT, ap_public_key_der = [7], ap_token_id = ''t1''\<rparr>)],
     up_challenges = [(''bob'', replicate 32 5)], up_votes = [(''bob'', False)]\<rparr>"
  by (simp add: demo_vote_state_def get_challenge_def begin_session_def register_approver_def sm_has_def
      new_unlock_protocol_def generate_challenge_def demo_openssl_def reset_votes_def)

lemma demo_vote_state_ok: "unlock_ok demo_vote_state"
  by (simp add: demo_vote_state_eval unlock_ok_def sm_ok_def)

lemma demo_vote_valid: "vote_valid demo_openssl demo_tokens 50 ''bob'' demo_request demo_vote_state"
  by (simp add: vote_valid_def demo_vote_state_eval sm_get_or_def token_good_def demo_tokens_def
      verify_signed_request_def verify_signature_def demo_request_def demo_openssl_def)


text \<open>An accepted vote cannot be replayed: its challenge is consumed, and until a new session opens every
  further vote under the same name is rejected, whatever request it carries.\<close>

theorem accepted_vote_single_use:
  assumes "unlock_ok u" and "vote_valid os ts now n req u"
  shows "let (res, u', w') = cast_vote os add wu ts now n req (u, w) in
    map_of (up_challenges u') n = None \<and>
    \<not> vo_accepted (fst (cast_vote os add wu ts' now' n req' (u', w'')))"
proof -
  have acc: "cast_vote os add wu ts now n req (u, w) = accept_vote add wu n u w"
    by (rule mp [OF conjunct1 [OF cast_vote_cases [OF assms(1)]] assms(2)])
  obtain ap where ap: "map_of (up_approvers u) n = Some ap"
    using assms(2) by (auto simp: vote_valid_def split: option.splits)
  let ?u = "fst (snd (accept_vote add wu n u w))"
  have ok: "unlock_ok ?u" by (rule accept_ok [OF assms(1)]) (simp add: ap)
  have "map_of (up_challenges ?u) n = None" "sm_get_or False n (up_votes ?u)"
    by (simp_all add: accept_vote_def Let_def map_of_sm_erase sm_get_or_def)
  moreover from this(2) have "\<not> vote_valid os ts' now' n req' ?u" by (simp add: vote_valid_def)
  then have "\<not> vo_accepted (fst (cast_vote os add wu ts' now' n req' (?u, w'')))"
    using cast_vote_cases [OF ok, of os ts' now' n req' add wu w''] by (auto simp: reject_def)
  ultimately show ?thesis by (simp add: acc case_prod_beta)
qed

theorem accepted_vote_single_use_witness:
  "\<not> vo_accepted (fst (cast_vote demo_openssl (audit_add demo_sha demo_env) (\<lambda>r w. w) demo_tokens 50 ''bob''
     demo_request (snd (cast_vote demo_openssl (audit_add demo_sha demo_env) (\<lambda>r w. w) demo_tokens 50 ''bob''
        demo_request (demo_vote_state, fresh_audit)))))"
  using accepted_vote_single_use [OF demo_vote_state_ok demo_vote_valid, of "audit_add demo_sha demo_env" "\<lambda>r w. w"
      fresh_audit demo_tokens 50 demo_request]
  by (simp add: case_prod_beta) (metis prod.collapse)

end
