(* ===== verification/VersionStore.thy ===== *)
theory VersionStore
  imports WormLock Std_Map
begin

text \<open>
  \<^verbatim>\<open>core/version_store\<close>: versioned records behind the lock check. A write appends a version and an
  audit entry, or is refused. The digest and the clock are arguments.
\<close>

section \<open>Model\<close>

record record_version =
  rv_record_id :: string
  rv_version_number :: u64
  rv_timestamp :: int
  rv_data :: string
  rv_author :: string
  rv_version_hash :: string

record version_result =
  ve_ok :: bool
  ve_error :: string
  ve_version_number :: u64

type_synonym version_store = "(string, record_version list) std_map"

definition calculate_version_hash :: "(string \<Rightarrow> string) \<Rightarrow> record_version \<Rightarrow> string" where
  "calculate_version_hash sha v =
     hex_string (sha (rv_record_id v @ str_of_u64 (rv_version_number v) @ str_of_int (rv_timestamp v)
       @ rv_data v @ rv_author v))"

definition version_payload :: "record_version \<Rightarrow> string" where
  "version_payload v = ''record_id='' @ rv_record_id v @ '' version='' @ str_of_u64 (rv_version_number v)
     @ '' author='' @ rv_author v @ '' hash='' @ rv_version_hash v"

definition version_error :: "string \<Rightarrow> version_result" where
  "version_error msg = \<lparr>ve_ok = False, ve_error = msg, ve_version_number = 0\<rparr>"

definition version_ok :: "u64 \<Rightarrow> version_result" where
  "version_ok n = \<lparr>ve_ok = True, ve_error = [], ve_version_number = n\<rparr>"

definition get_history :: "string \<Rightarrow> version_store \<Rightarrow> record_version list" where
  "get_history rid s = (case map_of s rid of None \<Rightarrow> [] | Some h \<Rightarrow> h)"

definition make_version :: "(string \<Rightarrow> string) \<Rightarrow> int \<Rightarrow> string \<Rightarrow> string \<Rightarrow> string \<Rightarrow> version_store \<Rightarrow> record_version" where
  "make_version sha now rid data author s =
     (let v = \<lparr>rv_record_id = rid, rv_version_number = of_nat (length (get_history rid s)) + 1,
               rv_timestamp = now, rv_data = data, rv_author = author, rv_version_hash = []\<rparr>
      in v\<lparr>rv_version_hash := calculate_version_hash sha v\<rparr>)"

definition write_version ::
    "(string \<Rightarrow> string) \<Rightarrow> 'w audit_adder \<Rightarrow> ('w \<Rightarrow> bool) \<Rightarrow> int \<Rightarrow> string \<Rightarrow> string \<Rightarrow> string
       \<Rightarrow> version_store \<times> 'w \<Rightarrow> version_result \<times> version_store \<times> 'w" where
  "write_version sha add lock_check now rid data author = (\<lambda>(s, w).
     if rid = [] then (version_error ''record_id must not be empty'', s, w)
     else if lock_check w then (version_error ''write blocked: WORM lockdown is active'', s, w)
     else
       let v = make_version sha now rid data author s in
       (version_ok (rv_version_number v), sm_assign rid (get_history rid s @ [v]) s,
        emit add ''version_write'' (version_payload v) w))"

definition read_current :: "string \<Rightarrow> version_store \<Rightarrow> version_result \<times> record_version option" where
  "read_current rid s =
     (let h = get_history rid s in
      if h = [] then (version_error (''record not found: '' @ rid), None)
      else (version_ok (rv_version_number (last h)), Some (last h)))"

definition read_version :: "string \<Rightarrow> u64 \<Rightarrow> version_store \<Rightarrow> version_result \<times> record_version option" where
  "read_version rid n s =
     (let h = get_history rid s in
      if h = [] then (version_error (''record not found: '' @ rid), None)
      else if n = 0 \<or> unat n > length h then (version_error ''version_number out of range'', None)
      else let v = h ! (unat n - 1) in (version_ok (rv_version_number v), Some v))"

definition record_count :: "version_store \<Rightarrow> nat" where
  "record_count s = length s"

definition total_version_count :: "version_store \<Rightarrow> nat" where
  "total_version_count s = sum_list (map (\<lambda>kv. length (snd kv)) s)"

section \<open>Specification\<close>

text \<open>A sound history: versions count up from 1, belong to the record and carry their own hash.\<close>

definition history_ok :: "(string \<Rightarrow> string) \<Rightarrow> string \<Rightarrow> record_version list \<Rightarrow> bool" where
  "history_ok sha rid h =
     list_all (\<lambda>i. rv_version_number (h ! i) = of_nat i + 1 \<and> rv_record_id (h ! i) = rid \<and>
        rv_version_hash (h ! i) = calculate_version_hash sha (h ! i)) [0..<length h]"

definition store_ok :: "(string \<Rightarrow> string) \<Rightarrow> version_store \<Rightarrow> bool" where
  "store_ok sha s \<longleftrightarrow> sm_ok s \<and> (\<forall>(rid, h)\<in>set s. history_ok sha rid h)"

text \<open>An attempted write carries the clock, the record id, the data and the author; between writes the
  lock may be engaged or lifted.\<close>

datatype store_op = Write int string string string | Lock string | Lift string

fun store_step ::
    "(string \<Rightarrow> string) \<Rightarrow> environment \<Rightarrow> store_op \<Rightarrow> version_store \<times> gate_world \<Rightarrow> version_store \<times> gate_world" where
  "store_step sha env (Write now rid data author) s =
     snd (write_version sha (gate_add sha env) gate_locked now rid data author s)"
| "store_step sha env (Lock r) (s, g) = (s, gate_trigger sha env r g)"
| "store_step sha env (Lift a) (s, g) = (s, snd (unlock (audit_add sha env) a (fst g) (snd g)))"

section \<open>Lemmas\<close>

lemma get_history_assign: "get_history k (sm_assign r h s) = (if k = r then h else get_history k s)"
  by (simp add: get_history_def map_of_sm_assign)

lemma total_assign:
  "sm_ok s \<Longrightarrow> total_version_count (sm_assign r h s) + length (get_history r s) = total_version_count s + length h"
proof (induction r h s rule: sm_assign.induct)
  case (2 k v k' v' m)
  then have ok: "sm_ok m" and above: "\<forall>x\<in>fst ` set m. k' < x" by (auto simp: sm_ok_def)
  consider "k < k'" | "k = k'" | "k' < k" by force
  then show ?case
  proof cases
    case 1
    with above have "map_of m k = None" by (auto simp: map_of_eq_None_iff)
    with 1 show ?thesis by (simp add: total_version_count_def get_history_def)
  next
    case 3
    with 2 ok show ?thesis by (simp add: total_version_count_def get_history_def)
  qed (simp add: total_version_count_def get_history_def)
qed (simp add: total_version_count_def get_history_def)

lemma history_ok_snoc:
  "history_ok sha rid (h @ [v]) \<longleftrightarrow>
     history_ok sha rid h \<and> rv_version_number v = of_nat (length h) + 1 \<and> rv_record_id v = rid \<and>
     rv_version_hash v = calculate_version_hash sha v"
  by (auto simp: history_ok_def list_all_iff nth_append)

lemma store_ok_history: "store_ok sha s \<Longrightarrow> history_ok sha rid (get_history rid s)"
  by (force simp: store_ok_def get_history_def history_ok_def [of _ _ "[]"] split: option.splits dest: map_of_SomeD)

lemma make_version_fields:
  "rv_version_number (make_version sha now rid d a s) = of_nat (length (get_history rid s)) + 1"
  "rv_record_id (make_version sha now rid d a s) = rid"
  "rv_data (make_version sha now rid d a s) = d"
  "rv_author (make_version sha now rid d a s) = a"
  "rv_version_hash (make_version sha now rid d a s) = calculate_version_hash sha (make_version sha now rid d a s)"
  by (simp_all add: make_version_def calculate_version_hash_def Let_def)

lemma write_store_ok:
  "store_ok sha (fst s) \<Longrightarrow> store_ok sha (fst (snd (write_version sha add lk now rid d a s)))"
proof -
  assume ok: "store_ok sha (fst s)"
  obtain st w where s: "s = (st, w)" by (cases s)
  have "history_ok sha rid (get_history rid st @ [make_version sha now rid d a st])"
    using store_ok_history [of sha st rid] ok by (simp add: history_ok_snoc make_version_fields s)
  with ok show ?thesis
    using set_sm_assign [of rid "get_history rid st @ [make_version sha now rid d a st]" st]
    by (auto simp: write_version_def store_ok_def s Let_def)
qed

definition store_inv :: "(string \<Rightarrow> string) \<Rightarrow> version_store \<times> gate_world \<Rightarrow> bool" where
  "store_inv sha s \<longleftrightarrow>
     store_ok sha (fst s) \<and> total_version_count (fst s) = count_type ''version_write'' (gate_trail (snd s))"

lemma lift_trail:
  "count_type ''version_write'' (gate_trail (snd (unlock (audit_add sha env) a l w))) = count_type ''version_write'' (trail w)"
  by (simp add: gate_trail_def chain.unlock_events)

lemma store_step_inv:
  assumes "store_inv sha s"
  shows "store_inv sha (store_step sha env x s)"
proof -
  obtain st g where s: "s = (st, g)" by (cases s)
  show ?thesis
  proof (cases x)
    case (Write now rid d a)
    have ok: "store_ok sha st" using assms by (simp add: store_inv_def s)
    then have "sm_ok st" by (simp add: store_ok_def)
    from total_assign [OF this, of rid "get_history rid st @ [make_version sha now rid d a st]"]
    have "total_version_count (sm_assign rid (get_history rid st @ [make_version sha now rid d a st]) st)
        = total_version_count st + 1" by simp
    with assms write_store_ok [of sha s "gate_add sha env" gate_locked now rid d a] ok show ?thesis
      by (auto simp: Write store_inv_def s write_version_def Let_def gate.count_emit)
  next
    case (Lock r)
    with assms show ?thesis by (simp add: store_inv_def s gate.trigger_count_other)
  next
    case (Lift a)
    with assms show ?thesis by (simp add: store_inv_def s lift_trail) (simp add: gate_trail_def)
  qed
qed

lemma store_run_inv: "store_inv sha s \<Longrightarrow> store_inv sha (fold (store_step sha env) ops s)"
  by (induction ops arbitrary: s) (simp_all add: store_step_inv)

lemma store_step_prefix:
  "\<exists>new. get_history rid (fst (store_step sha env x s)) = get_history rid (fst s) @ new"
  by (cases s; cases x) (auto simp: write_version_def Let_def get_history_assign)

lemma store_run_prefix: "\<exists>new. get_history rid (fst (fold (store_step sha env) ops s)) = get_history rid (fst s) @ new"
proof (induction ops arbitrary: s)
  case (Cons x ops)
  obtain a where "get_history rid (fst (store_step sha env x s)) = get_history rid (fst s) @ a"
    using store_step_prefix by blast
  moreover obtain b where "get_history rid (fst (fold (store_step sha env) ops (store_step sha env x s)))
      = get_history rid (fst (store_step sha env x s)) @ b"
    using Cons.IH by blast
  ultimately show ?case by simp
qed simp

section \<open>Properties\<close>

text \<open>A write under lockdown is refused and changes neither a record nor the chain; outside lockdown it
  appends exactly one version, which \<^verbatim>\<open>read_current\<close> returns with the data and author written, and the
  histories of all other records are untouched.\<close>

theorem write_version_correct:
  "let (res, s', g') = write_version sha (gate_add sha env) gate_locked now rid data author (s, g) in
   ve_ok res = (rid \<noteq> [] \<and> \<not> gate_locked g) \<and>
   (if ve_ok res then
      (\<exists>v. get_history rid s' = get_history rid s @ [v] \<and> snd (read_current rid s') = Some v \<and>
         rv_data v = data \<and> rv_author v = author \<and> ve_version_number res = of_nat (length (get_history rid s)) + 1) \<and>
      (\<forall>r. r = rid \<or> get_history r s' = get_history r s) \<and>
      length (gate_trail g') = length (gate_trail g) + 1
    else s' = s \<and> g' = g)"
  by (auto simp: write_version_def Let_def version_ok_def version_error_def get_history_assign read_current_def
      make_version_fields gate.events_emit)

theorem write_version_correct_witness:
  "fst (snd (write_version demo_sha (gate_add demo_sha demo_env) gate_locked 5 ''r1'' ''data'' ''alice''
     ([], (new_worm_lock\<lparr>wl_state := LOCKED\<rparr>, fresh_audit)))) = []"
  using write_version_correct [of demo_sha demo_env 5 "''r1''" "''data''" "''alice''" "[]"
      "(new_worm_lock\<lparr>wl_state := LOCKED\<rparr>, fresh_audit)"]
  by (simp add: case_prod_beta gate_locked_def is_locked_def)

text \<open>C38. The store is append-only: whatever writes, lockdowns and lifts follow, the history of every record
  keeps its versions unchanged as a prefix; from the empty store every history is numbered from 1 with
  valid hashes, and the number of versions is the number of \<^verbatim>\<open>version_write\<close> entries in the chain.\<close>

theorem version_store_append_only:
  "(let s' = fold (store_step sha env) ops s in
    take (length (get_history rid (fst s))) (get_history rid (fst s')) = get_history rid (fst s)) \<and>
   (let (st, g) = fold (store_step sha env) ops ([], (l, fresh_audit)) in
    history_ok sha rid (get_history rid st) \<and>
    total_version_count st = count_type ''version_write'' (gate_trail g))"
proof -
  have "store_inv sha ([], (l, fresh_audit))"
    by (simp add: store_inv_def store_ok_def total_version_count_def gate_trail_def)
  from store_run_inv [OF this, of env ops] have "store_inv sha (fold (store_step sha env) ops ([], (l, fresh_audit)))" .
  moreover obtain new where "get_history rid (fst (fold (store_step sha env) ops s)) = get_history rid (fst s) @ new"
    using store_run_prefix by blast
  ultimately show ?thesis
    by (simp add: store_inv_def store_ok_history case_prod_beta Let_def)
qed

text \<open>Reading back by number: on a sound store whose history fits 64 bits, version \<open>n\<close> of a record is
  returned exactly for \<open>n\<close> from 1 to the length of its history, and it carries the number \<open>n\<close>.\<close>

theorem read_version_roundtrip:
  assumes "store_ok sha s" and "length (get_history rid s) < 2 ^ 64"
  shows "case read_version rid n s of
      (res, Some v) \<Rightarrow> 1 \<le> unat n \<and> unat n \<le> length (get_history rid s) \<and> ve_ok res \<and>
          v = get_history rid s ! (unat n - 1) \<and> rv_version_number v = n \<and> rv_record_id v = rid
    | (res, None) \<Rightarrow> (n = 0 \<or> unat n > length (get_history rid s)) \<and> \<not> ve_ok res"
proof (cases "n = 0 \<or> unat n > length (get_history rid s)")
  case True
  then have "get_history rid s = [] \<or> n = 0 \<or> unat n > length (get_history rid s)" by simp
  with True show ?thesis by (auto simp: read_version_def version_error_def Let_def)
next
  case False
  then have pos: "0 < unat n" by (simp add: unat_gt_0)
  with False have ne: "get_history rid s \<noteq> []" by auto
  have i: "unat n - 1 < length (get_history rid s)" using False pos by linarith
  have "history_ok sha rid (get_history rid s)" by (rule store_ok_history [OF assms(1)])
  then have num: "rv_version_number (get_history rid s ! (unat n - 1)) = of_nat (unat n - 1) + 1"
    and rid: "rv_record_id (get_history rid s ! (unat n - 1)) = rid"
    using i by (auto simp: history_ok_def list_all_iff)
  have "(of_nat (unat n - 1) :: u64) + 1 = of_nat (unat n - 1 + 1)" by simp
  also have "\<dots> = n" using pos by simp
  finally show ?thesis
    using False ne pos num rid by (simp add: read_version_def version_ok_def Let_def)
qed

theorem read_version_roundtrip_witness:
  "fst (read_version ''r1'' 2 [(''r1'', [make_version demo_sha 5 ''r1'' ''x'' ''a'' []])])
     = version_error ''version_number out of range''"
proof -
  let ?s = "[(''r1'', [make_version demo_sha 5 ''r1'' ''x'' ''a'' []])]"
  have "store_ok demo_sha ?s"
    by (simp add: store_ok_def sm_ok_def history_ok_def make_version_fields get_history_def)
  moreover have "length (get_history ''r1'' ?s) < 2 ^ 64" by (simp add: get_history_def)
  ultimately have "case read_version ''r1'' 2 ?s of
      (res, Some v) \<Rightarrow> 1 \<le> unat (2 :: u64) \<and> unat (2 :: u64) \<le> length (get_history ''r1'' ?s) \<and> ve_ok res \<and>
          v = get_history ''r1'' ?s ! (unat (2 :: u64) - 1) \<and> rv_version_number v = 2 \<and> rv_record_id v = ''r1''
    | (res, None) \<Rightarrow> ((2 :: u64) = 0 \<or> unat (2 :: u64) > length (get_history ''r1'' ?s)) \<and> \<not> ve_ok res"
    by (rule read_version_roundtrip)
  then show ?thesis by (auto simp: read_version_def get_history_def Let_def split: if_splits)
qed

end
