(* ===== verification/VeeamInterface.thy ===== *)
theory VeeamInterface
  imports AuditChain
begin

text \<open>
  \<^verbatim>\<open>core/veeam_interface\<close>: the stub backup repository and its immutability lock. Result fields that
  the code leaves uninitialised are \<open>None\<close>.
\<close>

section \<open>Model\<close>

datatype backup_lock_state = UNLOCKED | IMMUTABLE | COMPLIANCE_LOCK

record backup_lock_result =
  bl_success :: bool
  bl_lock_state :: backup_lock_state
  bl_repo_id :: string
  bl_backup_count :: int
  bl_locked_at_ms :: "int option"
  bl_locked_by_reason :: string
  bl_error_message :: string
  bl_audit_entry_id :: string

record integrity_check_result =
  ic_passed :: bool
  ic_checked_count :: int
  ic_violations_found :: int
  ic_checked_at_ms :: int
  ic_audit_entry_id :: string

record stub_backup_repo =
  br_lock_state :: backup_lock_state
  br_backup_count :: int
  br_locked_at_ms :: int
  br_locked_by_reason :: string
  br_integrity_check_count :: int
  br_last_integrity_check_ms :: int

record backup_repo_status =
  bs_repo_id :: string
  bs_repo :: stub_backup_repo

definition STUB_REPO_ID :: string where
  "STUB_REPO_ID = ''astartis-demo-repo-01''"

definition STUB_BACKUP_COUNT :: int where
  "STUB_BACKUP_COUNT = 47"

definition new_backup_repo :: stub_backup_repo where
  "new_backup_repo = \<lparr>br_lock_state = UNLOCKED, br_backup_count = STUB_BACKUP_COUNT, br_locked_at_ms = 0,
     br_locked_by_reason = [], br_integrity_check_count = 0, br_last_integrity_check_ms = 0\<rparr>"

definition quoted_repo :: string where
  "quoted_repo = ''repo_id='' @ dquote @ STUB_REPO_ID @ dquote"

definition lock_backups ::
    "'w audit_adder \<Rightarrow> int \<Rightarrow> string \<Rightarrow> stub_backup_repo \<times> 'w \<Rightarrow> backup_lock_result \<times> stub_backup_repo \<times> 'w" where
  "lock_backups add now reason = (\<lambda>(r, w).
     if br_lock_state r \<noteq> UNLOCKED then
       (\<lparr>bl_success = False, bl_lock_state = br_lock_state r, bl_repo_id = STUB_REPO_ID,
         bl_backup_count = br_backup_count r, bl_locked_at_ms = Some (br_locked_at_ms r),
         bl_locked_by_reason = br_locked_by_reason r, bl_error_message = ''already_locked'',
         bl_audit_entry_id = []\<rparr>, r, w)
     else
       let r' = r\<lparr>br_lock_state := IMMUTABLE, br_locked_at_ms := now, br_locked_by_reason := reason\<rparr>;
           payload = quoted_repo @ '' backup_count='' @ str_of_int (br_backup_count r')
             @ '' reason='' @ dquote @ reason @ dquote @ '' locked_at_ms='' @ str_of_int now;
           (eid, w') = add ''veeam_backup_locked'' payload w
       in (\<lparr>bl_success = True, bl_lock_state = IMMUTABLE, bl_repo_id = STUB_REPO_ID,
            bl_backup_count = br_backup_count r', bl_locked_at_ms = Some now,
            bl_locked_by_reason = reason, bl_error_message = [], bl_audit_entry_id = eid\<rparr>, r', w'))"

definition unlock_backups ::
    "'w audit_adder \<Rightarrow> string \<Rightarrow> stub_backup_repo \<times> 'w \<Rightarrow> backup_lock_result \<times> stub_backup_repo \<times> 'w" where
  "unlock_backups add authority = (\<lambda>(r, w).
     let base = \<lparr>bl_success = False, bl_lock_state = UNLOCKED, bl_repo_id = STUB_REPO_ID,
                 bl_backup_count = br_backup_count r, bl_locked_at_ms = None, bl_locked_by_reason = [],
                 bl_error_message = [], bl_audit_entry_id = []\<rparr> in
     if br_lock_state r = UNLOCKED then (base\<lparr>bl_error_message := ''already_unlocked''\<rparr>, r, w)
     else if br_lock_state r = COMPLIANCE_LOCK then
       (base\<lparr>bl_lock_state := COMPLIANCE_LOCK,
             bl_error_message := ''compliance_lock_requires_retention_expiry''\<rparr>, r, w)
     else
       let (eid, w') = add ''veeam_backup_unlocked''
             (quoted_repo @ '' authority='' @ dquote @ authority @ dquote) w
       in (base\<lparr>bl_success := True, bl_audit_entry_id := eid\<rparr>,
           r\<lparr>br_lock_state := UNLOCKED, br_locked_at_ms := 0, br_locked_by_reason := []\<rparr>, w'))"

definition integrity_check ::
    "'w audit_adder \<Rightarrow> int \<Rightarrow> stub_backup_repo \<times> 'w \<Rightarrow> integrity_check_result \<times> stub_backup_repo \<times> 'w" where
  "integrity_check add now = (\<lambda>(r, w).
     let r' = r\<lparr>br_integrity_check_count := br_integrity_check_count r + 1,
                br_last_integrity_check_ms := now\<rparr>;
         (eid, w') = add ''veeam_integrity_check''
           (quoted_repo @ '' checked='' @ str_of_int (br_backup_count r') @ '' violations=0''
              @ '' check_num='' @ str_of_int (br_integrity_check_count r')) w
     in (\<lparr>ic_passed = True, ic_checked_count = br_backup_count r', ic_violations_found = 0,
          ic_checked_at_ms = now, ic_audit_entry_id = eid\<rparr>, r', w'))"

definition backup_status :: "stub_backup_repo \<Rightarrow> backup_repo_status" where
  "backup_status r = \<lparr>bs_repo_id = STUB_REPO_ID, bs_repo = r\<rparr>"

fun lock_state_str :: "backup_lock_state \<Rightarrow> string" where
  "lock_state_str UNLOCKED = ''UNLOCKED''"
| "lock_state_str IMMUTABLE = ''IMMUTABLE''"
| "lock_state_str COMPLIANCE_LOCK = ''COMPLIANCE_LOCK''"

section \<open>Runs\<close>

datatype backup_op = LockBackups int string | UnlockBackups string | CheckIntegrity int

fun backup_step :: "'w audit_adder \<Rightarrow> backup_op \<Rightarrow> stub_backup_repo \<times> 'w \<Rightarrow> stub_backup_repo \<times> 'w" where
  "backup_step add (LockBackups now r) s = snd (lock_backups add now r s)"
| "backup_step add (UnlockBackups a) s = snd (unlock_backups add a s)"
| "backup_step add (CheckIntegrity now) s = snd (integrity_check add now s)"

definition backup_inv :: "stub_backup_repo \<Rightarrow> audit_event list \<Rightarrow> bool" where
  "backup_inv r es \<longleftrightarrow>
     br_lock_state r \<noteq> COMPLIANCE_LOCK \<and> br_backup_count r = STUB_BACKUP_COUNT \<and>
     count_type ''veeam_backup_locked'' es
       = count_type ''veeam_backup_unlocked'' es + (if br_lock_state r = IMMUTABLE then 1 else 0) \<and>
     br_integrity_check_count r = int (count_type ''veeam_integrity_check'' es) \<and>
     (br_lock_state r = UNLOCKED \<longrightarrow> br_locked_at_ms r = 0 \<and> br_locked_by_reason r = [])"

context audit_sink
begin

lemma backup_step_inv:
  assumes "backup_inv (fst s) (events (snd s))"
  shows "backup_inv (fst (backup_step add x s)) (events (snd (backup_step add x s)))"
proof -
  obtain r w where s: "s = (r, w)" by (cases s)
  show ?thesis
  proof (cases x)
    case (LockBackups now a)
    with assms show ?thesis
      by (cases "br_lock_state r") (simp_all add: s backup_inv_def lock_backups_def case_prod_beta Let_def events_add)
  next
    case (UnlockBackups a)
    with assms show ?thesis
      by (cases "br_lock_state r") (simp_all add: s backup_inv_def unlock_backups_def case_prod_beta Let_def events_add)
  next
    case (CheckIntegrity now)
    with assms show ?thesis
      by (simp add: s backup_inv_def integrity_check_def case_prod_beta Let_def events_add)
  qed
qed

lemma backup_run_inv:
  "backup_inv (fst s) (events (snd s)) \<Longrightarrow>
   backup_inv (fst (fold (backup_step add) xs s)) (events (snd (fold (backup_step add) xs s)))"
  by (induction xs arbitrary: s) (simp_all add: backup_step_inv)

end

section \<open>Properties\<close>

text \<open>The backup lock and the chain agree: after any locks, unlocks and integrity checks, locked entries
  exceed unlocked entries by one exactly when the repository is immutable, the compliance state is never
  entered, an unlocked repository carries no lock time or reason, and the check counter is the number of
  integrity entries.\<close>

theorem backup_lock_trail:
  "let (r, w) = fold (backup_step (audit_add sha env)) ops (new_backup_repo, fresh_audit) in
   (br_lock_state r = IMMUTABLE \<or> br_lock_state r = UNLOCKED) \<and>
   count_type ''veeam_backup_locked'' (trail w)
     = count_type ''veeam_backup_unlocked'' (trail w) + (if br_lock_state r = IMMUTABLE then 1 else 0) \<and>
   br_integrity_check_count r = int (count_type ''veeam_integrity_check'' (trail w)) \<and>
   br_backup_count r = STUB_BACKUP_COUNT \<and>
   \<not> (br_lock_state r = UNLOCKED \<and> \<not> (br_locked_at_ms r = 0 \<and> br_locked_by_reason r = []))"
proof -
  have "backup_inv (fst (new_backup_repo, fresh_audit)) (trail (snd (new_backup_repo, fresh_audit)))"
    by (simp add: backup_inv_def new_backup_repo_def)
  from chain.backup_run_inv [OF this, of sha env ops]
  have "backup_inv (fst (fold (backup_step (audit_add sha env)) ops (new_backup_repo, fresh_audit)))
     (trail (snd (fold (backup_step (audit_add sha env)) ops (new_backup_repo, fresh_audit))))" .
  then show ?thesis
    unfolding backup_inv_def case_prod_beta Let_def using backup_lock_state.exhaust by blast
qed

end
