(* ===== verification/Sandbox.thy ===== *)
theory Sandbox
  imports WormLock Std_Map
begin

text \<open>
  \<^verbatim>\<open>core/sandbox\<close>: the synthetic file tree, its path guard and its locks. Writing a file to disk
  is the parameter \<open>disk\<close> on the world (its exceptions are swallowed by the code); the clock is an
  argument.
\<close>

section \<open>Model\<close>

datatype entry_type = FILE | DIRECTORY

record sandbox_entry =
  se_rel_path :: string
  se_type :: entry_type
  se_content :: string
  se_version :: u64
  se_locked :: bool
  se_size_bytes :: int
  se_last_modified :: int

record sandbox =
  sb_root_path :: string
  sb_entries :: "(string, sandbox_entry) std_map"

type_synonym sandbox_result = "string + unit"

definition slash :: char where
  "slash = CHR ''/''"

fun strip_trailing_slash :: "string \<Rightarrow> string" where
  "strip_trailing_slash r = (case r of
      c # d # r' \<Rightarrow> if c = slash then strip_trailing_slash (d # r') else r
    | _ \<Rightarrow> r)"

declare strip_trailing_slash.simps [simp del]

definition normalise :: "string \<Rightarrow> string" where
  "normalise p = rev (strip_trailing_slash (rev (map (\<lambda>c. if c = backslash then slash else c) p)))"

definition has_dotdot :: "string \<Rightarrow> bool" where
  "has_dotdot s =
     (if s = ''..'' then True
      else if length s \<ge> 3 \<and> take 3 s = ''../'' then True
      else if length s \<ge> 3 \<and> drop (length s - 3) s = ''/..'' then True
      else find_sub ''/../'' s \<noteq> None)"

definition is_inside :: "string \<Rightarrow> string \<Rightarrow> bool" where
  "is_inside abs_path rt =
     (let np = normalise abs_path; nr = normalise rt in
      if has_dotdot np then False
      else if np = nr then True
      else length np > length nr \<and> take (length nr) np = nr \<and> np ! length nr = slash)"

definition to_rel :: "string \<Rightarrow> string \<Rightarrow> string" where
  "to_rel root_path abs_path =
     (let norm = normalise abs_path in
      if has_dotdot norm then []
      else if \<not> is_inside norm root_path then []
      else if norm = root_path then ''.''
      else drop (length root_path + 1) norm)"

definition new_sandbox :: "string \<Rightarrow> sandbox" where
  "new_sandbox rt = \<lparr>sb_root_path = normalise rt, sb_entries = []\<rparr>"

subsection \<open>The synthetic tree\<close>

definition kSyntheticFiles :: "(string \<times> string) list" where
  "kSyntheticFiles = [
    (''etc/nginx.conf'', concat [''worker_processes auto;'', nl,
      ''events { worker_connections 1024; }'', nl, ''http {'', nl, ''  server {'', nl,
      ''    listen 443 ssl;'', nl, ''    server_name corp.internal;'', nl, ''  }'', nl, ''}'', nl]),
    (''etc/sshd_config'', concat [''Port 22'', nl, ''PermitRootLogin no'', nl,
      ''PasswordAuthentication no'', nl, ''PubkeyAuthentication yes'', nl, ''AllowUsers admin deploy'',
      nl]),
    (''etc/hosts'', concat [''127.0.0.1 localhost'', nl, ''192.168.10.5 db-primary.corp.internal'', nl,
      ''192.168.10.6 db-replica.corp.internal'', nl, ''192.168.10.20 app-server.corp.internal'', nl]),
    (''etc/cron.d/backup-job'', concat [
      ''0 2 * * * root /opt/app/scripts/backup.sh >> /var/log/backup.log 2>&1'', nl]),
    (''etc/ssl/server.crt'', concat [''-----BEGIN CERTIFICATE-----'', nl,
      ''[SYNTHETIC CERTIFICATE PLACEHOLDER]'', nl, ''-----END CERTIFICATE-----'', nl]),
    (''var/log/auth.log'', concat [
      ''Jun 26 01:12:03 sshd[1042]: Accepted publickey for admin from 192.168.1.100'', nl,
      ''Jun 26 01:13:44 sshd[1052]: Failed password for invalid user guest from 10.0.0.55'', nl,
      ''Jun 26 02:00:01 sudo: admin : TTY=pts/0 ; USER=root ; COMMAND=/bin/systemctl restart nginx'',
      nl]),
    (''var/log/syslog'', concat [
      ''Jun 26 00:00:01 kernel: [0.000000] Linux version 5.15.0 (gcc 11.3.0)'', nl,
      ''Jun 26 01:00:00 cron[812]: (root) CMD (/opt/app/scripts/health_check.sh)'', nl,
      ''Jun 26 01:12:03 systemd[1]: Started OpenSSH server daemon.'', nl]),
    (''var/log/app.log'', concat [''[2024-06-26T01:10:00Z] INFO  app started, pid=4421'', nl,
      ''[2024-06-26T01:12:05Z] INFO  request GET /api/v2/status 200 12ms'', nl,
      ''[2024-06-26T01:14:22Z] WARN  rate limit threshold reached for 10.0.0.200'', nl]),
    (''var/log/access.log'', concat [''192.168.1.100 - admin [26/Jun/2024:01:12:05 +0000] '', dquote,
      ''GET /api/v2/status HTTP/1.1'', dquote, '' 200 512'', nl,
      ''10.0.0.200 - - [26/Jun/2024:01:14:22 +0000] '', dquote, ''POST /api/v1/auth HTTP/1.1'', dquote,
      '' 429 88'', nl]),
    (''home/admin/.ssh/authorized_keys'', concat [
      ''ssh-ed25519 AAAAC3NzaC1lZDI1NTE5AAAAIB... admin@workstation'', nl,
      ''ssh-ed25519 AAAAC3NzaC1lZDI1NTE5AAAAIG... deploy@ci-server'', nl]),
    (''home/admin/documents/q2-report.txt'', concat [''Q2 Infrastructure Report'', nl,
      ''========================'', nl, ''Uptime: 99.97%'', nl, ''Incidents: 1 (P3)'', nl]),
    (''home/admin/scripts/deploy.sh'', concat [''#!/bin/bash'', nl, ''set -euo pipefail'', nl,
      ''cd /opt/app'', nl, ''git pull origin main'', nl, ''systemctl restart app'', nl]),
    (''home/admin/.bashrc'', concat [''export PATH='', dquote, ''/opt/app/bin:$PATH'', dquote, nl,
      ''export EDITOR=vim'', nl, ''alias ll='', squote, ''ls -la'', squote, nl]),
    (''opt/app/config.json'', concat [''{'', nl, ''  '', dquote, ''db_host'', dquote, '': '', dquote,
      ''db-primary.corp.internal'', dquote, '','', nl, ''  '', dquote, ''db_port'', dquote, '': 5432,'',
      nl, ''  '', dquote, ''db_name'', dquote, '': '', dquote, ''proddb'', dquote, '','', nl, ''  '',
      dquote, ''max_connections'', dquote, '': 100,'', nl, ''  '', dquote, ''log_level'', dquote,
      '': '', dquote, ''info'', dquote, nl, ''}'', nl]),
    (''opt/app/data/users.db'', concat [''[SYNTHETIC SQLITE BINARY '', em_dash, '' 48KB]'', nl,
      ''[user records omitted for safety]'', nl]),
    (''opt/app/data/sessions.cache'', concat [''[SYNTHETIC SESSION CACHE '', em_dash, '' 12KB]'', nl,
      ''[session tokens not real]'', nl]),
    (''opt/app/bin/app-server'', concat [''[SYNTHETIC ELF BINARY '', em_dash, '' 2.1MB]'', nl]),
    (''opt/app/scripts/backup.sh'', concat [''#!/bin/bash'', nl, ''DATE=$(date +%F)'', nl,
      ''tar czf /backup/db-${DATE}.tar.gz /opt/app/data/'', nl, ''echo '', dquote,
      ''Backup complete: db-${DATE}.tar.gz'', dquote, nl]),
    (''opt/app/scripts/health_check.sh'', concat [''#!/bin/bash'', nl,
      ''curl -sf http://localhost:8080/health || systemctl restart app'', nl]),
    (''backup/db-2024-06-24.tar.gz'', concat [''[SYNTHETIC TAR.GZ '', em_dash, '' 14.2MB]'', nl]),
    (''backup/db-2024-06-25.tar.gz'', concat [''[SYNTHETIC TAR.GZ '', em_dash, '' 14.3MB]'', nl]),
    (''backup/db-2024-06-26.tar.gz'', concat [''[SYNTHETIC TAR.GZ '', em_dash, '' 14.5MB]'', nl]),
    (''backup/manifest.txt'', concat [''db-2024-06-24.tar.gz SHA256=abc123...'', nl,
      ''db-2024-06-25.tar.gz SHA256=def456...'', nl, ''db-2024-06-26.tar.gz SHA256=789abc...'', nl])]"

text \<open>
  \<^verbatim>\<open>std::stod\<close> on a decimal number with an optional sign, fraction and exponent, ignoring what
  follows; \<open>None\<close> when no number can be read. Hexadecimal, infinity and NaN texts are not read.
\<close>

definition digits_value :: "string \<Rightarrow> real" where
  "digits_value ds = real (base_value 10 ds)"

definition exponent_part :: "string \<Rightarrow> int" where
  "exponent_part s =
     (case s of
        c # r \<Rightarrow>
          if c = CHR ''e'' \<or> c = CHR ''E'' then
            (let neg = starts_with ''-'' r; r' = (if neg \<or> starts_with ''+'' r then tl r else r);
                 ds = takeWhile is_digit r'; v = int (base_value 10 ds)
             in if ds = [] then 0 else if neg then - v else v)
          else 0
      | [] \<Rightarrow> 0)"

definition stod :: "string \<Rightarrow> real option" where
  "stod s0 =
     (let s1 = dropWhile is_space s0; neg = starts_with ''-'' s1;
          s = (if neg \<or> starts_with ''+'' s1 then tl s1 else s1);
          i = takeWhile is_digit s; r = dropWhile is_digit s;
          f = (if starts_with ''.'' r then takeWhile is_digit (tl r) else []);
          r' = (if starts_with ''.'' r then dropWhile is_digit (tl r) else r);
          v = (digits_value i + digits_value f / 10 ^ length f);
          e = exponent_part r';
          w = (if e < 0 then v / 10 ^ nat (- e) else v * 10 ^ nat e)
      in if i = [] \<and> f = [] then None else Some (if neg then - w else w))"

text \<open>\<^verbatim>\<open>content.rfind(needle, pos)\<close>: the last occurrence that starts at or before \<open>pos\<close>.\<close>

definition rfind_at :: "string \<Rightarrow> string \<Rightarrow> nat \<Rightarrow> nat option" where
  "rfind_at p s pos =
     List.find (\<lambda>i. starts_with p (drop i s)) (rev [0..<min pos (length s) + 1])"

definition marker_size :: "string \<Rightarrow> real \<Rightarrow> string \<Rightarrow> int option" where
  "marker_size marker unit content =
     (case find_sub marker content of
        None \<Rightarrow> None
      | Some pos \<Rightarrow>
          (case rfind_at em_dash content pos of
             None \<Rightarrow> None
           | Some dash \<Rightarrow>
               let num = dropWhile (\<lambda>c. c = CHR '' '' \<or> c = CHR 0x0A)
                           (take (pos - dash - 3) (drop (dash + 3) content))
               in map_option (\<lambda>v. if v * unit < 0 then \<lceil>v * unit\<rceil> else \<lfloor>v * unit\<rfloor>) (stod num)))"

definition synthetic_size :: "string \<Rightarrow> int" where
  "synthetic_size content =
     (case marker_size ''MB]'' (1024 * 1024) content of
        Some n \<Rightarrow> n
      | None \<Rightarrow>
          (case marker_size ''KB]'' 1024 content of
             Some n \<Rightarrow> n
           | None \<Rightarrow> int (length content)))"

definition new_entry :: "string \<Rightarrow> string \<Rightarrow> int \<Rightarrow> int \<Rightarrow> sandbox_entry" where
  "new_entry rel content size_bytes ts =
     \<lparr>se_rel_path = rel, se_type = FILE, se_content = content, se_version = 1, se_locked = False,
      se_size_bytes = size_bytes, se_last_modified = ts\<rparr>"

definition populate_file ::
    "(string \<Rightarrow> string \<Rightarrow> 'w \<Rightarrow> 'w) \<Rightarrow> int \<Rightarrow> string \<times> string \<Rightarrow> nat \<times> sandbox \<times> 'w \<Rightarrow> nat \<times> sandbox \<times> 'w" where
  "populate_file disk ts = (\<lambda>(rel, content) (created, s, w).
     if sm_has rel (sb_entries s) then (created, s, w)
     else (created + 1,
           s\<lparr>sb_entries := sm_assign rel (new_entry rel content (synthetic_size content) ts) (sb_entries s)\<rparr>,
           disk (sb_root_path s @ ''/'' @ rel) content w))"

definition populate ::
    "'w audit_adder \<Rightarrow> (string \<Rightarrow> string \<Rightarrow> 'w \<Rightarrow> 'w) \<Rightarrow> int \<Rightarrow> sandbox \<times> 'w \<Rightarrow> nat \<times> sandbox \<times> 'w" where
  "populate add disk ts = (\<lambda>(s, w).
     let (created, s', w') = fold (populate_file disk ts) kSyntheticFiles (0, s, w) in
     (created, s',
      if created > 0 then
        emit add ''sandbox_populated''
          (''root='' @ sb_root_path s @ '' entries_created='' @ str_of_nat created) w'
      else w'))"

subsection \<open>Writing, reading, locking\<close>

definition outside_error :: "string \<Rightarrow> string" where
  "outside_error abs_path = ''path outside sandbox root: '' @ abs_path"

definition write_entry :: "string \<Rightarrow> string \<Rightarrow> int \<Rightarrow> sandbox \<Rightarrow> sandbox_entry" where
  "write_entry rel content ts s =
     (case map_of (sb_entries s) rel of
        None \<Rightarrow> new_entry rel content (int (length content)) ts
      | Some e \<Rightarrow> e\<lparr>se_content := content, se_version := se_version e + 1,
                     se_size_bytes := int (length content), se_last_modified := ts\<rparr>)"

definition write_payload :: "sandbox_entry \<Rightarrow> string \<Rightarrow> string \<Rightarrow> string" where
  "write_payload e rel author = ''rel='' @ rel @ '' version='' @ str_of_u64 (se_version e)
     @ '' author='' @ author @ '' size='' @ str_of_int (se_size_bytes e)"

definition sandbox_write ::
    "'w audit_adder \<Rightarrow> ('w \<Rightarrow> bool) \<Rightarrow> (string \<Rightarrow> string \<Rightarrow> 'w \<Rightarrow> 'w) \<Rightarrow> int \<Rightarrow> string \<Rightarrow> string \<Rightarrow> string
       \<Rightarrow> sandbox \<times> 'w \<Rightarrow> sandbox_result \<times> sandbox \<times> 'w" where
  "sandbox_write add lock_check disk ts abs_path content author = (\<lambda>(s, w).
     if \<not> is_inside abs_path (sb_root_path s) then (Inl (outside_error abs_path), s, w)
     else
       let rel = to_rel (sb_root_path s) abs_path in
       if rel = [] then (Inl (''could not compute rel_path for: '' @ abs_path), s, w)
       else if lock_check w then (Inl ''write blocked: global WORM lockdown active'', s, w)
       else if (case map_of (sb_entries s) rel of None \<Rightarrow> False | Some e \<Rightarrow> se_locked e) then
         (Inl (''write blocked: entry is individually locked: '' @ rel), s, w)
       else
         let e = write_entry rel content ts s;
             s' = s\<lparr>sb_entries := sm_assign rel e (sb_entries s)\<rparr>
         in (Inr (), s', emit add ''sandbox_write'' (write_payload e rel author) (disk abs_path content w)))"

definition sandbox_read :: "string \<Rightarrow> sandbox \<Rightarrow> string + sandbox_entry" where
  "sandbox_read abs_path s =
     (if \<not> is_inside abs_path (sb_root_path s) then Inl (outside_error abs_path)
      else let rel = to_rel (sb_root_path s) abs_path in
        (case map_of (sb_entries s) rel of
           None \<Rightarrow> Inl (''entry not found: '' @ rel)
         | Some e \<Rightarrow> Inr e))"

text \<open>\<^verbatim>\<open>lock_entry\<close> and \<^verbatim>\<open>unlock_entry\<close> differ in the flag they set and the event they record.\<close>

definition set_entry_lock ::
    "bool \<Rightarrow> string \<Rightarrow> 'w audit_adder \<Rightarrow> string \<Rightarrow> string \<Rightarrow> sandbox \<times> 'w \<Rightarrow> sandbox_result \<times> sandbox \<times> 'w" where
  "set_entry_lock flag event add abs_path reason = (\<lambda>(s, w).
     if \<not> is_inside abs_path (sb_root_path s) then (Inl (outside_error abs_path), s, w)
     else let rel = to_rel (sb_root_path s) abs_path in
       (case map_of (sb_entries s) rel of
          None \<Rightarrow> (Inl (''entry not found: '' @ rel), s, w)
        | Some e \<Rightarrow> (Inr (), s\<lparr>sb_entries := sm_assign rel (e\<lparr>se_locked := flag\<rparr>) (sb_entries s)\<rparr>,
            emit add event (''rel='' @ rel @ '' reason='' @ dquote @ reason @ dquote) w)))"

definition lock_entry ::
    "'w audit_adder \<Rightarrow> string \<Rightarrow> string \<Rightarrow> sandbox \<times> 'w \<Rightarrow> sandbox_result \<times> sandbox \<times> 'w" where
  "lock_entry = set_entry_lock True ''sandbox_entry_locked''"

definition unlock_entry ::
    "'w audit_adder \<Rightarrow> string \<Rightarrow> string \<Rightarrow> sandbox \<times> 'w \<Rightarrow> sandbox_result \<times> sandbox \<times> 'w" where
  "unlock_entry = set_entry_lock False ''sandbox_entry_unlocked''"

definition lock_all :: "'w audit_adder \<Rightarrow> string \<Rightarrow> sandbox \<times> 'w \<Rightarrow> nat \<times> sandbox \<times> 'w" where
  "lock_all add reason = (\<lambda>(s, w).
     let newly = sm_count_if (\<lambda>e. \<not> se_locked e) (sb_entries s) in
     (newly, s\<lparr>sb_entries := map (\<lambda>(k, e). (k, e\<lparr>se_locked := True\<rparr>)) (sb_entries s)\<rparr>,
      emit add ''sandbox_worm_lock_all''
        (''newly_locked='' @ str_of_nat newly @ '' total='' @ str_of_nat (length (sb_entries s))
           @ '' reason='' @ dquote @ reason @ dquote) w))"

definition get_tree :: "sandbox \<Rightarrow> sandbox_entry list" where
  "get_tree s = sm_values (sb_entries s)"

definition entry_count :: "sandbox \<Rightarrow> nat" where
  "entry_count s = length (sb_entries s)"

section \<open>The path guard\<close>

lemma dotdot_component_iff:
  "''..'' \<in> set (split_on slash s) \<longleftrightarrow>
     s = ''..'' \<or> (\<exists>t. s = ''../'' @ t) \<or> (\<exists>t. s = t @ ''/..'') \<or> (\<exists>a b. s = a @ ''/../'' @ b)"
    (is "?L \<longleftrightarrow> ?R")
proof
  assume ?R
  then consider "s = ''..''" | t where "s = ''..'' @ slash # t" | t where "s = t @ slash # ''..''"
    | a b where "s = a @ slash # (''..'' @ slash # b)"
    by (auto simp: slash_def)
  moreover have "split_on slash ''..'' = [''..'']" by (simp add: slash_def)
  ultimately show ?L by cases (simp_all only: split_on_append set_append, auto)
next
  assume ?L
  then obtain xs ys where parts: "split_on slash s = xs @ ''..'' # ys" by (meson split_list)
  have s: "s = join_with [slash] (xs @ ''..'' # ys)" using join_split_on [of slash s] parts by simp
  have join: "join_with [slash] (x # zs) = x @ concat (map (\<lambda>z. slash # z) zs)" for x zs
    by (induction zs arbitrary: x) auto
  show ?R
  proof (cases xs)
    case Nil
    then show ?thesis using s join by (cases ys) (auto simp: slash_def)
  next
    case (Cons x zs)
    let ?pre = "x @ concat (map (\<lambda>z. slash # z) zs)"
    have s: "s = ?pre @ ''/..'' @ concat (map (\<lambda>z. slash # z) ys)"
      using s Cons join [of x "zs @ ''..'' # ys"] by (simp add: slash_def)
    show ?thesis
    proof (cases ys)
      case Nil
      with s have "s = ?pre @ ''/..''" by simp
      then show ?thesis by blast
    next
      case (Cons y zs')
      with s have "s = ?pre @ ''/../'' @ (y @ concat (map (\<lambda>z. slash # z) zs'))" by (simp add: slash_def)
      then show ?thesis by blast
    qed
  qed
qed

lemma take3: "(length s \<ge> 3 \<and> take 3 s = ''../'') \<longleftrightarrow> (\<exists>t. s = ''../'' @ t)"
  by (metis append_eq_conv_conj append_take_drop_id length_append le_add1 numeral_3_eq_3
      list.size(3,4) One_nat_def add_Suc_right add_0_right)

lemma drop3: "(length s \<ge> 3 \<and> drop (length s - 3) s = ''/..'') \<longleftrightarrow> (\<exists>t. s = t @ ''/..'')"
proof
  assume "length s \<ge> 3 \<and> drop (length s - 3) s = ''/..''"
  then show "\<exists>t. s = t @ ''/..''" by (metis append_take_drop_id)
qed auto

text \<open>The four string tests of \<^verbatim>\<open>has_dotdot\<close> find exactly the paths with a \<^verbatim>\<open>..\<close> component.\<close>

lemma has_dotdot_iff: "has_dotdot s \<longleftrightarrow> ''..'' \<in> set (split_on slash s)"
proof -
  have "find_sub ''/../'' s \<noteq> None \<longleftrightarrow> (\<exists>a b. s = a @ ''/../'' @ b)"
    using contains_iff [of "''/../''" s] by (simp add: contains_def)
  then show ?thesis unfolding has_dotdot_def dotdot_component_iff take3 drop3 by auto
qed

lemma is_inside_iff:
  "is_inside p r \<longleftrightarrow> \<not> has_dotdot (normalise p) \<and>
     (normalise p = normalise r \<or> (\<exists>t. normalise p = normalise r @ slash # t))"
proof -
  have "(length np > length nr \<and> take (length nr) np = nr \<and> np ! length nr = slash)
      \<longleftrightarrow> (\<exists>t. np = nr @ slash # t)" for np nr :: string
  proof
    assume a: "length np > length nr \<and> take (length nr) np = nr \<and> np ! length nr = slash"
    then have "np = nr @ drop (length nr) np" by (metis append_take_drop_id)
    also have "drop (length nr) np = slash # drop (Suc (length nr)) np"
      using a by (simp add: Cons_nth_drop_Suc [symmetric])
    finally show "\<exists>t. np = nr @ slash # t" by blast
  qed auto
  then show ?thesis by (auto simp: is_inside_def Let_def)
qed

text \<open>
  Lexical resolution of a path: \<^verbatim>\<open>..\<close> drops the last component, \<^verbatim>\<open>.\<close> and empty components (other
  than the leading one of an absolute path) are skipped.
\<close>

fun resolve :: "string list \<Rightarrow> string list \<Rightarrow> string list" where
  "resolve acc [] = acc"
| "resolve acc (c # cs) =
     (if c = ''..'' then resolve (butlast acc) cs
      else if c = ''.'' \<or> c = [] then resolve acc cs
      else resolve (acc @ [c]) cs)"

lemma resolve_append: "resolve acc (xs @ ys) = resolve (resolve acc xs) ys"
  by (induction acc xs rule: resolve.induct) auto

lemma resolve_no_dotdot: "''..'' \<notin> set cs \<Longrightarrow> \<exists>new. resolve acc cs = acc @ new"
proof (induction acc cs rule: resolve.induct)
  case (2 acc c cs)
  then show ?case by (cases "c = ''.'' \<or> c = []") auto
qed simp

lemma inside_resolves:
  assumes "is_inside p r"
  shows "\<exists>new. resolve [] (split_on slash (normalise p)) = resolve [] (split_on slash (normalise r)) @ new"
proof -
  from assms consider "normalise p = normalise r" | t where "normalise p = normalise r @ slash # t"
    and "''..'' \<notin> set (split_on slash (normalise p))"
    by (auto simp: is_inside_iff has_dotdot_iff)
  then show ?thesis
  proof cases
    case 2
    then have "''..'' \<notin> set (split_on slash t)" by (auto simp: split_on_append)
    from resolve_no_dotdot [OF this] show ?thesis using 2(1) by (simp add: split_on_append resolve_append)
  qed simp
qed

text \<open>Normalised roots, and the paths directly built below one.\<close>

lemma strip_id: "t = [] \<or> hd t \<noteq> slash \<or> tl t = [] \<Longrightarrow> strip_trailing_slash t = t"
  by (subst strip_trailing_slash.simps) (auto split: list.split)

lemma strip_shape:
  "set (strip_trailing_slash t) \<subseteq> set t \<and>
   (strip_trailing_slash t = [] \<or> hd (strip_trailing_slash t) \<noteq> slash \<or> tl (strip_trailing_slash t) = [])"
proof (induction t rule: strip_trailing_slash.induct)
  case (1 r)
  show ?case
  proof (cases "r = [] \<or> hd r \<noteq> slash \<or> tl r = []")
    case True
    then show ?thesis by (simp only: strip_id) simp
  next
    case False
    then obtain d r' where r: "r = slash # d # r'" by (cases r; cases "tl r") auto
    have "strip_trailing_slash r = strip_trailing_slash (d # r')"
      by (subst strip_trailing_slash.simps) (simp add: r)
    with 1 [OF r] show ?thesis by (auto simp: r)
  qed
qed

lemma normalise_no_backslash: "backslash \<notin> set (normalise p)"
proof -
  have "set (normalise p) \<subseteq> (\<lambda>c. if c = backslash then slash else c) ` set p"
    using strip_shape [of "rev (map (\<lambda>c. if c = backslash then slash else c) p)"]
    by (auto simp: normalise_def)
  then show ?thesis by (auto simp: slash_def backslash_def split: if_splits)
qed

lemma normalise_fixed:
  "backslash \<notin> set p \<Longrightarrow> p = [] \<or> last p \<noteq> slash \<Longrightarrow> normalise p = p"
proof -
  assume "backslash \<notin> set p" and "p = [] \<or> last p \<noteq> slash"
  then have "map (\<lambda>c. if c = backslash then slash else c) p = p" and "rev p = [] \<or> hd (rev p) \<noteq> slash"
    by (auto intro!: map_idI simp: hd_rev)
  moreover from this(2) have "strip_trailing_slash (rev p) = rev p" by (intro strip_id) auto
  ultimately show ?thesis by (simp add: normalise_def)
qed

lemma normalise_idem: "normalise (normalise p) = normalise p"
proof -
  let ?q = "strip_trailing_slash (rev (map (\<lambda>c. if c = backslash then slash else c) p))"
  have "map (\<lambda>c. if c = backslash then slash else c) (normalise p) = normalise p"
    using normalise_no_backslash [of p] by (intro map_idI) auto
  then have "normalise (normalise p) = rev (strip_trailing_slash (rev (normalise p)))"
    by (simp only: normalise_def [of "normalise p"])
  also have "\<dots> = rev (strip_trailing_slash ?q)" by (simp add: normalise_def)
  also have "\<dots> = normalise p" using strip_shape strip_id by (simp add: normalise_def)
  finally show ?thesis .
qed

lemma has_dotdot_append: "has_dotdot (s @ slash # t) \<longleftrightarrow> has_dotdot s \<or> has_dotdot t"
  by (simp add: has_dotdot_iff split_on_append)

text \<open>A child path: below a normalised root, not ending in a slash, without \<^verbatim>\<open>..\<close>.\<close>

definition child_ok :: "string \<Rightarrow> bool" where
  "child_ok rel \<longleftrightarrow> rel \<noteq> [] \<and> backslash \<notin> set rel \<and> last rel \<noteq> slash \<and> \<not> has_dotdot rel"

lemma child_path:
  assumes "normalise r = r" and "\<not> has_dotdot r" and "child_ok rel"
  shows "is_inside (r @ ''/'' @ rel) r" and "to_rel r (r @ ''/'' @ rel) = rel"
proof -
  have "backslash \<notin> set r" using normalise_no_backslash [of r] assms(1) by simp
  then have n: "normalise (r @ slash # rel) = r @ slash # rel"
    using assms(3) by (intro normalise_fixed) (auto simp: child_ok_def slash_def backslash_def)
  have dd: "\<not> has_dotdot (r @ slash # rel)" using assms by (simp add: has_dotdot_append child_ok_def)
  have eq: "r @ ''/'' @ rel = r @ slash # rel" by (simp add: slash_def)
  show "is_inside (r @ ''/'' @ rel) r" unfolding eq is_inside_iff n using dd assms(1) by simp
  then show "to_rel r (r @ ''/'' @ rel) = rel"
    unfolding eq to_rel_def n Let_def using dd by simp
qed

section \<open>Runs\<close>

datatype sandbox_op =
    Populate int
  | SWrite int string string string
  | LockEntry string string
  | LockAll string
  | UnlockEntry string string

fun sandbox_step ::
    "'w audit_adder \<Rightarrow> ('w \<Rightarrow> bool) \<Rightarrow> (string \<Rightarrow> string \<Rightarrow> 'w \<Rightarrow> 'w) \<Rightarrow> sandbox_op \<Rightarrow> sandbox \<times> 'w \<Rightarrow> sandbox \<times> 'w" where
  "sandbox_step add lk disk (Populate ts) s = snd (populate add disk ts s)"
| "sandbox_step add lk disk (SWrite ts p c a) s = snd (sandbox_write add lk disk ts p c a s)"
| "sandbox_step add lk disk (LockEntry p r) s = snd (lock_entry add p r s)"
| "sandbox_step add lk disk (LockAll r) s = snd (lock_all add r s)"
| "sandbox_step add lk disk (UnlockEntry p r) s = snd (unlock_entry add p r s)"

fun unlocks :: "sandbox_op \<Rightarrow> bool" where
  "unlocks (UnlockEntry p r) = True"
| "unlocks _ = False"

text \<open>An entry that is locked and holds the given content at the given version.\<close>

definition frozen :: "string \<Rightarrow> sandbox_entry \<Rightarrow> sandbox \<Rightarrow> bool" where
  "frozen rel e s = (map_of (sb_entries s) rel = Some e \<and> se_locked e)"

lemma populate_fold_frozen:
  "frozen rel e s \<Longrightarrow> frozen rel e (fst (snd (fold (populate_file disk ts) fs (n, s, w))))"
proof (induction fs arbitrary: n s w)
  case (Cons f fs)
  obtain k c where f: "f = (k, c)" by (cases f)
  show ?case
  proof (cases "sm_has k (sb_entries s)")
    case True
    with Cons show ?thesis by (simp add: f populate_file_def)
  next
    case False
    with Cons.prems have "frozen rel e (s\<lparr>sb_entries := sm_assign k (new_entry k c (synthetic_size c) ts) (sb_entries s)\<rparr>)"
      by (auto simp: frozen_def map_of_sm_assign sm_has_def)
    from Cons.IH [OF this] False show ?thesis by (simp add: f populate_file_def)
  qed
qed simp

lemma map_of_lock_all: "map_of (map (\<lambda>(k, e). (k, f e)) m) k = map_option f (map_of m k)"
  by (induction m) auto

lemma sandbox_step_frozen:
  assumes "frozen rel e (fst s)" "\<not> unlocks x"
  shows "frozen rel e (fst (sandbox_step add lk disk x s))"
proof -
  obtain sb w where s: "s = (sb, w)" by (cases s)
  have e: "map_of (sb_entries sb) rel = Some e" "se_locked e" using assms(1) by (simp_all add: frozen_def s)
  then have same: "e\<lparr>se_locked := True\<rparr> = e" by simp
  show ?thesis
  proof (cases x)
    case (Populate ts)
    with assms(1) show ?thesis
      by (auto simp: s populate_def case_prod_beta Let_def populate_fold_frozen)
  next
    case (LockEntry p r)
    with e same show ?thesis
      by (auto simp: s frozen_def lock_entry_def set_entry_lock_def Let_def map_of_sm_assign split: option.splits)
  next
    case (LockAll r)
    with e same show ?thesis
      by (simp add: s frozen_def lock_all_def Let_def map_of_lock_all)
  next
    case (SWrite ts p c a)
    with e show ?thesis
      by (auto simp: s frozen_def sandbox_write_def Let_def map_of_sm_assign)
  qed (use assms in simp)
qed

lemma sandbox_run_frozen:
  "frozen rel e (fst s) \<Longrightarrow> list_all (\<lambda>x. \<not> unlocks x) ops \<Longrightarrow>
   frozen rel e (fst (fold (sandbox_step add lk disk) ops s))"
  by (induction ops arbitrary: s) (simp_all add: sandbox_step_frozen)

section \<open>Properties\<close>

text \<open>C6. The path guard is a containment check: \<^verbatim>\<open>has_dotdot\<close> finds exactly the paths with a \<^verbatim>\<open>..\<close>
  component, and a path that \<^verbatim>\<open>is_inside\<close> accepts resolves, component by component, to a location at
  or below the root.\<close>

theorem path_guard_contains:
  "(has_dotdot s \<longleftrightarrow> ''..'' \<in> set (split_on slash s)) \<and>
   (is_inside p r \<longrightarrow> (\<exists>new.
      resolve [] (split_on slash (normalise p)) = resolve [] (split_on slash (normalise r)) @ new))"
  using has_dotdot_iff inside_resolves by blast

lemma eval_is_inside: "is_inside ''/srv/sb/etc/hosts'' ''/srv/sb/''"
  by (simp add: is_inside_def normalise_def has_dotdot_def slash_def backslash_def strip_trailing_slash.simps Let_def)

theorem path_guard_contains_witness:
  "\<exists>new. resolve [] (split_on slash (normalise ''/srv/sb/etc/hosts'')) =
     resolve [] (split_on slash (normalise ''/srv/sb/'')) @ new"
  using path_guard_contains [of s "''/srv/sb/etc/hosts''" "''/srv/sb/''"] eval_is_inside by blast

text \<open>A lockdown freezes the tree: after \<^verbatim>\<open>lock_all\<close>, no sequence of writes, populations and further
  locks changes the content or the version of any entry that existed, until an entry is unlocked
  explicitly.\<close>

theorem lock_all_freezes:
  assumes "map_of (sb_entries s) rel = Some e" and "list_all (\<lambda>x. \<not> unlocks x) ops"
  shows "map_of (sb_entries (fst (fold (sandbox_step add lk disk) ops (snd (lock_all add reason (s, w)))))) rel
     = Some (e\<lparr>se_locked := True\<rparr>)"
proof -
  have "frozen rel (e\<lparr>se_locked := True\<rparr>) (fst (snd (lock_all add reason (s, w))))"
    using assms(1) by (simp add: frozen_def lock_all_def Let_def map_of_lock_all)
  from sandbox_run_frozen [OF this assms(2)] show ?thesis by (simp add: frozen_def)
qed

theorem lock_all_freezes_witness:
  "map_of (sb_entries (fst (fold (sandbox_step (audit_add demo_sha demo_env) (\<lambda>w. False) (\<lambda>p c w. w))
      [SWrite 9 ''/sb/a'' ''evil'' ''eve'']
      (snd (lock_all (audit_add demo_sha demo_env) ''worm''
        (\<lparr>sb_root_path = ''/sb'', sb_entries = [(''a'', new_entry ''a'' ''ok'' 2 1)]\<rparr>, fresh_audit)))))) ''a''
   = Some (new_entry ''a'' ''ok'' 2 1\<lparr>se_locked := True\<rparr>)"
  by (rule lock_all_freezes) simp_all

text \<open>A write succeeds exactly when the path is inside the root, no lockdown is active and the entry is not
  locked; reading the path back then gives the content, with the version one higher (or 1), and every
  refused write leaves tree, disk and chain as they were.\<close>

theorem sandbox_write_read:
  "let (res, s', w') = sandbox_write add lk disk ts p content author (s, w);
       rel = to_rel (sb_root_path s) p; old = map_of (sb_entries s) rel in
   (case res of
      Inl err \<Rightarrow> s' = s \<and> w' = w \<and>
        \<not> (is_inside p (sb_root_path s) \<and> rel \<noteq> [] \<and> \<not> lk w \<and> \<not> (\<exists>e. old = Some e \<and> se_locked e))
    | Inr _ \<Rightarrow> is_inside p (sb_root_path s) \<and> \<not> lk w \<and>
        (case sandbox_read p s' of
           Inl err \<Rightarrow> False
         | Inr e \<Rightarrow> se_content e = content \<and> se_size_bytes e = int (length content) \<and> \<not> se_locked e \<and>
             se_version e = (case old of None \<Rightarrow> 1 | Some o' \<Rightarrow> se_version o' + 1)))"
  by (auto simp: sandbox_write_def sandbox_read_def write_entry_def new_entry_def Let_def split: option.splits if_splits)

text \<open>The normalisation does not collapse duplicate slashes, and the lock of an entry is looked up by the
  relative path: with an entry locked, writing to it through a path with a doubled slash after the root
  is accepted, creates a second entry and overwrites the locked file on disk.\<close>

theorem double_slash_bypasses_lock:
  assumes "normalise r = r" and "normalise rel = rel" and "rel \<noteq> []" and "\<not> has_dotdot (r @ ''//'' @ rel)"
    and "last rel \<noteq> slash" and "backslash \<notin> set (r @ rel)"
    and "map_of (sb_entries s) rel = Some e" and "se_locked e" and "map_of (sb_entries s) (slash # rel) = None"
    and "sb_root_path s = r" and "\<not> lk w"
  shows "fst (sandbox_write add lk disk ts (r @ ''/'' @ rel) content author (s, w)) \<noteq> Inr () \<and>
    (let (res, s', w') = sandbox_write add lk disk ts (r @ ''//'' @ rel) content author (s, w) in
     res = Inr () \<and> sandbox_read (r @ ''//'' @ rel) s' = Inr (new_entry (slash # rel) content (int (length content)) ts))"
proof -
  have strip: "strip_trailing_slash t = t" if "t = [] \<or> hd t \<noteq> slash" for t
    using that by (subst strip_trailing_slash.simps) (auto split: list.split)
  have norm: "normalise (r @ mid @ rel) = r @ mid @ rel" if "backslash \<notin> set mid" for mid
  proof -
    have "map (\<lambda>c. if c = backslash then slash else c) (r @ mid @ rel) = r @ mid @ rel"
      using assms(6) that by (intro map_idI) auto
    moreover have "hd (rev (r @ mid @ rel)) \<noteq> slash" using assms(3,5) by (simp add: hd_append hd_rev)
    ultimately show ?thesis by (simp add: normalise_def strip)
  qed
  have n1: "normalise (r @ ''/'' @ rel) = r @ slash # rel" and n2: "normalise (r @ ''//'' @ rel) = r @ slash # slash # rel"
    using norm [of "''/''"] norm [of "''//''"] by (auto simp: slash_def backslash_def)
  have nn2: "normalise (r @ slash # slash # rel) = r @ slash # slash # rel"
    using n2 by (simp add: slash_def)
  have dd2: "\<not> has_dotdot (r @ slash # slash # rel)" using assms(4) by (simp add: slash_def)
  have rel1: "to_rel r (r @ ''/'' @ rel) = [] \<or> to_rel r (r @ ''/'' @ rel) = rel"
    unfolding to_rel_def n1 Let_def by auto
  have rel2: "to_rel r (r @ ''//'' @ rel) = slash # rel"
    using dd2 assms(1) unfolding to_rel_def n2 Let_def by (simp add: is_inside_iff nn2)
  have inside: "is_inside (r @ ''//'' @ rel) r" using dd2 assms(1) unfolding is_inside_iff n2 by simp
  then have "\<exists>w'. sandbox_write add lk disk ts (r @ ''//'' @ rel) content author (s, w)
      = (Inr (), s\<lparr>sb_entries := sm_assign (slash # rel) (new_entry (slash # rel) content (int (length content)) ts) (sb_entries s)\<rparr>, w')"
    using assms(9-11) unfolding sandbox_write_def case_prod_conv assms(10) rel2 Let_def
    by (simp add: write_entry_def)
  moreover have "fst (sandbox_write add lk disk ts (r @ ''/'' @ rel) content author (s, w)) \<noteq> Inr ()"
    using rel1 assms(7,8) unfolding sandbox_write_def case_prod_conv assms(10) Let_def by auto
  ultimately show ?thesis
    using inside assms(10) unfolding sandbox_read_def Let_def by (elim exE) (simp add: rel2 del: append_Cons)
qed

theorem double_slash_bypasses_lock_witness:
  "fst (sandbox_write (audit_add demo_sha demo_env) (\<lambda>w. False) (\<lambda>p c w. w) 9 ''/sb//a'' ''evil'' ''eve''
      (\<lparr>sb_root_path = ''/sb'', sb_entries = [(''a'', new_entry ''a'' ''ok'' 2 1\<lparr>se_locked := True\<rparr>)]\<rparr>, fresh_audit))
   = Inr ()"
  using double_slash_bypasses_lock [of "''/sb''" "''a''"
      "\<lparr>sb_root_path = ''/sb'', sb_entries = [(''a'', new_entry ''a'' ''ok'' 2 1\<lparr>se_locked := True\<rparr>)]\<rparr>"
      "new_entry ''a'' ''ok'' 2 1\<lparr>se_locked := True\<rparr>" "\<lambda>w. False" fresh_audit
      "audit_add demo_sha demo_env" "\<lambda>p c w. w" 9 "''evil''" "''eve''"]
  by (simp add: case_prod_beta normalise_def has_dotdot_def slash_def backslash_def strip_trailing_slash.simps)

end
