(* ===== verification/ActiveResponse.thy ===== *)
theory ActiveResponse
  imports AuditChain Std_Map
begin

text \<open>
  \<^verbatim>\<open>core/active_response\<close>: throttled synthetic responses to attacker sessions and the lookup of
  indicators of compromise.
\<close>

section \<open>Model\<close>

datatype ioc_type = IOC_IP | IOC_DOMAIN | IOC_HASH

fun ioc_type_name :: "ioc_type \<Rightarrow> string" where
  "ioc_type_name IOC_IP = ''IOC_IP''"
| "ioc_type_name IOC_DOMAIN = ''IOC_DOMAIN''"
| "ioc_type_name IOC_HASH = ''IOC_HASH''"

record ioc_entry =
  io_type :: ioc_type
  io_indicator :: string
  io_description :: string
  io_source :: string

record response_event =
  rs_timestamp_ms :: int
  rs_session_id :: string
  rs_resource :: string
  rs_response_tier :: int
  rs_response_body :: string
  rs_ioc_match :: bool
  rs_ioc_indicator :: string

record active_response =
  av_session_counts :: "(string, int) std_map"
  av_forensic_log :: "response_event list"
  av_ioc_list :: "ioc_entry list"

definition kSampleIocs :: "ioc_entry list" where
  "kSampleIocs = map (\<lambda>(t, i, d, s). \<lparr>io_type = t, io_indicator = i, io_description = d, io_source = s\<rparr>)
    [(IOC_IP, ''185.220.101.45'', ''Tor exit node used in credential stuffing (example)'', ''CISA AA22-040A''),
     (IOC_IP, ''45.142.212.100'', ''C2 Cobalt Strike beacon (example)'', ''AlienVault OTX example''),
     (IOC_IP, ''194.165.16.11'', ''Ransomware staging LockBit 3.0 (example)'', ''FBI Flash example''),
     (IOC_IP, ''10.0.0.55'', ''Internal pivot source observed in auth.log'', ''Internal detection''),
     (IOC_DOMAIN, ''update-service.corp-helpdesk.com'', ''Phishing domain impersonating IT helpdesk (example)'',
      ''PhishTank example''),
     (IOC_DOMAIN, ''cdn-delivery.staticfiles.net'', ''Malware payload staging domain (example)'', ''URLHaus example''),
     (IOC_DOMAIN, ''exfil.darkcomet-c2.xyz'', ''C2 domain for DarkComet RAT (example)'', ''OpenPhish example''),
     (IOC_HASH, ''aabbccddeeff00112233445566778899aabbccddeeff00112233445566778899'',
      ''Mimikatz variant credential dumping tool (example)'', ''Sigma rule example'')]"

definition new_active_response :: active_response where
  "new_active_response = \<lparr>av_session_counts = [], av_forensic_log = [], av_ioc_list = kSampleIocs\<rparr>"

definition response_tier :: "int \<Rightarrow> int" where
  "response_tier count = (if count < 3 then 0 else if count < 6 then 1 else if count < 10 then 2 else 3)"

definition quote :: "string \<Rightarrow> string" where
  "quote s = dquote @ s @ dquote"

definition build_response :: "int \<Rightarrow> string \<Rightarrow> int \<Rightarrow> string" where
  "build_response tier resource n =
     ''SYNTHETIC [tier='' @ str_of_int tier @ '' n='' @ str_of_int n @ '']'' @ nl @
     (if tier = 0 then
        ''HTTP/1.1 200 OK'' @ nl @ nl @ ''{'' @ quote ''status'' @ '':'' @ quote ''ok'' @ '','' @ quote ''resource''
          @ '':'' @ quote resource @ '','' @ quote ''data'' @ '':'' @ quote ''[synthetic payload]'' @ ''}''
      else if tier = 1 then
        ''HTTP/1.1 200 OK'' @ nl @ nl @ ''{'' @ quote ''status'' @ '':'' @ quote ''ok'' @ '','' @ quote ''resource''
          @ '':'' @ quote resource @ '','' @ quote ''data'' @ '':null}''
      else if tier = 2 then
        ''HTTP/1.1 206 Partial'' @ nl @ nl @ resource @ '': [PARTIAL] data truncated''
      else
        ''HTTP/1.1 200 OK'' @ nl @ nl @ ''{'' @ quote ''redirect'' @ '':'' @ quote resource @ '',''
          @ quote ''retry_after'' @ '':0}'')"

definition find_ioc :: "string \<Rightarrow> active_response \<Rightarrow> ioc_entry option" where
  "find_ioc ind a = List.find (\<lambda>e. io_indicator e = ind) (av_ioc_list a)"

definition ioc_payload :: "string \<Rightarrow> ioc_entry \<Rightarrow> string" where
  "ioc_payload ind e = ''indicator='' @ quote ind @ '' type='' @ ioc_type_name (io_type e)
     @ '' description='' @ quote (io_description e) @ '' source='' @ quote (io_source e)"

definition served_payload :: "response_event \<Rightarrow> int \<Rightarrow> string" where
  "served_payload ev count = ''session='' @ rs_session_id ev @ '' resource='' @ rs_resource ev
     @ '' tier='' @ str_of_int (rs_response_tier ev) @ '' interaction='' @ str_of_int count
     @ '' ioc_match='' @ str_of_bool (rs_ioc_match ev)"

definition serve ::
    "'w audit_adder \<Rightarrow> int \<Rightarrow> string \<Rightarrow> string \<Rightarrow> string \<Rightarrow> active_response \<times> 'w
       \<Rightarrow> response_event \<times> active_response \<times> 'w" where
  "serve add now sid res ioc_hint = (\<lambda>(a, w).
     let count = sm_get_or 0 sid (av_session_counts a) + 1;
         tier = response_tier count;
         hit = (if ioc_hint \<noteq> [] then find_ioc ioc_hint a else None);
         w1 = (case hit of None \<Rightarrow> w
               | Some e \<Rightarrow> emit add ''ioc_correlation_match'' (ioc_payload ioc_hint e @ '' session='' @ sid) w);
         ev = \<lparr>rs_timestamp_ms = now, rs_session_id = sid, rs_resource = res, rs_response_tier = tier,
               rs_response_body = build_response tier res count, rs_ioc_match = (hit \<noteq> None),
               rs_ioc_indicator = (if hit \<noteq> None then ioc_hint else [])\<rparr>
     in (ev, a\<lparr>av_session_counts := sm_assign sid count (av_session_counts a),
               av_forensic_log := av_forensic_log a @ [ev]\<rparr>,
         emit add ''active_response_served'' (served_payload ev count) w1))"

definition check_ioc :: "'w audit_adder \<Rightarrow> string \<Rightarrow> active_response \<times> 'w \<Rightarrow> ioc_entry option \<times> 'w" where
  "check_ioc add ind = (\<lambda>(a, w).
     case find_ioc ind a of
       None \<Rightarrow> (None, w)
     | Some e \<Rightarrow> (Some e, emit add ''ioc_correlation_match'' (ioc_payload ind e) w))"

definition session_interaction_count :: "string \<Rightarrow> active_response \<Rightarrow> int" where
  "session_interaction_count sid a = sm_get_or 0 sid (av_session_counts a)"

section \<open>Specification\<close>

text \<open>A request carries the clock, the session, the resource and the hint.\<close>

type_synonym serve_request = "int \<times> string \<times> string \<times> string"

definition serve_step :: "'w audit_adder \<Rightarrow> serve_request \<Rightarrow> active_response \<times> 'w \<Rightarrow> active_response \<times> 'w" where
  "serve_step add = (\<lambda>(now, sid, res, hint) s. snd (serve add now sid res hint s))"

definition requests_of :: "string \<Rightarrow> serve_request list \<Rightarrow> nat" where
  "requests_of sid rs = length (filter (\<lambda>(now, s, res, hint). s = sid) rs)"

text \<open>The tiers that a request sequence must be answered with: by the number of requests of its session.\<close>

definition expected_tiers :: "serve_request list \<Rightarrow> int list" where
  "expected_tiers rs = map (\<lambda>i. response_tier (int (requests_of (fst (snd (rs ! i))) (take (i + 1) rs)))) [0..<length rs]"

lemma requests_of_snoc:
  "requests_of sid (rs @ [r]) = requests_of sid rs + (if fst (snd r) = sid then 1 else 0)"
  by (auto simp: requests_of_def case_prod_beta)

lemma expected_tiers_snoc:
  "expected_tiers (rs @ [r]) = expected_tiers rs @ [response_tier (int (requests_of (fst (snd r)) (rs @ [r])))]"
  by (auto simp: expected_tiers_def nth_append)

lemma session_count_serve:
  "session_interaction_count sid (fst (serve_step add r (a, w))) =
     session_interaction_count sid a + (if fst (snd r) = sid then 1 else 0)"
  by (cases r) (simp add: serve_step_def serve_def session_interaction_count_def sm_get_or_def map_of_sm_assign Let_def)

lemma log_serve:
  "av_forensic_log (fst (serve_step add r (a, w))) = av_forensic_log a @
     [fst (serve add (fst r) (fst (snd r)) (fst (snd (snd r))) (snd (snd (snd r))) (a, w))]"
  by (cases r) (simp add: serve_step_def serve_def Let_def)

context audit_sink
begin

lemma serve_run:
  "let s = fold (serve_step add) rs (new_active_response, w) in
   (\<forall>sid. session_interaction_count sid (fst s) = int (requests_of sid rs)) \<and>
   map rs_response_tier (av_forensic_log (fst s)) = expected_tiers rs \<and>
   map rs_session_id (av_forensic_log (fst s)) = map (\<lambda>r. fst (snd r)) rs \<and>
   count_type ''active_response_served'' (events (snd s)) = count_type ''active_response_served'' (events w) + length rs"
proof (induction rs rule: rev_induct)
  case Nil
  then show ?case
    by (simp add: session_interaction_count_def new_active_response_def requests_of_def expected_tiers_def sm_get_or_def)
next
  case (snoc r rs)
  obtain a v where s: "fold (serve_step add) rs (new_active_response, w) = (a, v)" by (metis surj_pair)
  obtain now sid res hint where r: "r = (now, sid, res, hint)" by (metis prod_cases4)
  have ih: "session_interaction_count k a = int (requests_of k rs)" for k using snoc by (simp add: s Let_def)
  have cnt: "sm_get_or 0 sid (av_session_counts a) = int (requests_of sid rs)"
    using ih [of sid] by (simp add: session_interaction_count_def)
  have tier: "rs_response_tier (fst (serve add now sid res hint (a, v))) = response_tier (int (requests_of sid (rs @ [r])))"
    by (simp add: serve_def Let_def cnt requests_of_snoc r add.commute)
  have "rs_session_id (fst (serve add now sid res hint (a, v))) = sid" by (simp add: serve_def Let_def)
  moreover have "count_type ''active_response_served'' (events (snd (serve_step add r (a, v))))
      = count_type ''active_response_served'' (events v) + 1"
    by (simp add: serve_step_def serve_def Let_def r count_emit split: option.split)
  ultimately show ?case
    using snoc ih tier
    by (simp add: s Let_def session_count_serve log_serve requests_of_snoc expected_tiers_snoc) (simp add: r add.commute)
qed

end

lemma find_ioc_sample: "(find_ioc ind new_active_response \<noteq> None) = (ind \<in> io_indicator ` set kSampleIocs)"
  by (auto simp: find_ioc_def new_active_response_def find_None_iff)

section \<open>Properties\<close>

text \<open>The responder counts and degrades per session: after any sequence of requests every session's counter
  is the number of its requests, the forensic log holds one event per request in order, each answered
  with the tier of its rank within its session, and the chain has one served entry per request.\<close>

theorem active_response_log:
  "let s = fold (serve_step (audit_add sha env)) rs (new_active_response, w) in
   (\<forall>sid. session_interaction_count sid (fst s) = int (requests_of sid rs)) \<and>
   map rs_response_tier (av_forensic_log (fst s)) = expected_tiers rs \<and>
   map rs_session_id (av_forensic_log (fst s)) = map (\<lambda>r. fst (snd r)) rs \<and>
   count_type ''active_response_served'' (trail (snd s)) = count_type ''active_response_served'' (trail w) + length rs"
  using chain.serve_run [where sha = sha and env = env and rs = rs and w = w] .

end
