(* ===== verification/Firewall.thy ===== *)
theory Firewall
  imports AuditChain Std_Map
begin

text \<open>
  \<^verbatim>\<open>core/firewall\<close>: temporary block rules for single addresses. Running \<^verbatim>\<open>netsh\<close> is the parameter
  \<open>netsh\<close> on the operating system's state \<open>'f\<close>, giving an exit code; adapters and DNS servers are
  what Windows reports. The expiry thread is the operation \<open>expiry_tick\<close>, one pass of its loop.
\<close>

section \<open>Model\<close>

record block_result =
  bk_blocked :: bool
  bk_reason :: string
  bk_rule_name_in :: string
  bk_rule_name_out :: string

record active_block =
  ab_ip :: string
  ab_rule_name_in :: string
  ab_rule_name_out :: string
  ab_blocked_at_ms :: int
  ab_expires_at_ms :: int
  ab_audit_entry_id :: string

record firewall_blocker =
  fb_default_ttl_s :: int
  fb_blocks :: "(string, active_block) std_map"
  fb_allowlist :: "string list"

type_synonym 'f netsh = "string \<Rightarrow> 'f \<Rightarrow> int \<times> 'f"

definition DEFAULT_TTL_SECONDS :: int where
  "DEFAULT_TTL_SECONDS = 900"

definition run_netsh :: "'f netsh \<Rightarrow> string \<Rightarrow> 'f \<Rightarrow> int \<times> 'f" where
  "run_netsh netsh args f = netsh (''netsh '' @ args) f"

definition add_rule :: "'f netsh \<Rightarrow> string \<Rightarrow> string \<Rightarrow> string \<Rightarrow> 'f \<Rightarrow> bool \<times> 'f" where
  "add_rule netsh name ip dir f =
     (let (rc, f') = run_netsh netsh (''advfirewall firewall add rule'' @ '' name='' @ dquote @ name @ dquote
        @ '' protocol=any'' @ '' dir='' @ dir @ '' action=block'' @ '' remoteip='' @ ip) f
      in (rc = 0, f'))"

definition delete_rule :: "'f netsh \<Rightarrow> string \<Rightarrow> 'f \<Rightarrow> bool \<times> 'f" where
  "delete_rule netsh name f =
     (let (rc, f') = run_netsh netsh (''advfirewall firewall delete rule'' @ '' name='' @ dquote @ name @ dquote) f
      in (rc = 0, f'))"

definition ping_elevation_check :: "'f netsh \<Rightarrow> 'f \<Rightarrow> bool \<times> 'f" where
  "ping_elevation_check netsh f =
     (let (rc, f') = run_netsh netsh ''advfirewall show currentprofile'' f in (rc = 0, f'))"

definition make_rule_stem :: "int \<Rightarrow> string \<Rightarrow> string" where
  "make_rule_stem now ip = ''Astartis-Block-''
     @ map (\<lambda>c. if c = CHR '':'' then CHR ''-'' else c) (map (\<lambda>c. if c = CHR ''.'' then CHR ''-'' else c) ip)
     @ ''-'' @ str_of_int now"

definition usable_ip :: "string \<Rightarrow> bool" where
  "usable_ip ip = (ip \<noteq> [] \<and> ip \<noteq> ''0.0.0.0'')"

text \<open>Gateways per adapter and DNS servers; \<open>None\<close> when the Windows call fails.\<close>

definition build_allowlist ::
    "string list list option \<Rightarrow> string list option \<Rightarrow> string list \<Rightarrow> string list" where
  "build_allowlist adapters dns extra =
     remdups_adj (sort ([''127.0.0.1'', ''::1'', ''0.0.0.0'']
       @ (case adapters of None \<Rightarrow> [] | Some gws \<Rightarrow> concat (map (filter usable_ip) gws))
       @ (case dns of None \<Rightarrow> [] | Some ds \<Rightarrow> filter usable_ip ds)
       @ extra))"

definition new_firewall_blocker ::
    "string list list option \<Rightarrow> string list option \<Rightarrow> int \<Rightarrow> string list \<Rightarrow> firewall_blocker" where
  "new_firewall_blocker adapters dns ttl extra =
     \<lparr>fb_default_ttl_s = (if ttl > 0 then ttl else DEFAULT_TTL_SECONDS), fb_blocks = [],
      fb_allowlist = build_allowlist adapters dns extra\<rparr>"

definition block_refused :: "string \<Rightarrow> block_result" where
  "block_refused reason =
     \<lparr>bk_blocked = False, bk_reason = reason, bk_rule_name_in = [], bk_rule_name_out = []\<rparr>"

definition block_payload :: "active_block \<Rightarrow> int \<Rightarrow> string" where
  "block_payload ab ttl = ''ip='' @ ab_ip ab @ '' rule_in='' @ ab_rule_name_in ab @ '' rule_out=''
     @ ab_rule_name_out ab @ '' ttl_s='' @ str_of_int ttl @ '' expires_at_ms='' @ str_of_int (ab_expires_at_ms ab)"

definition make_block :: "int \<Rightarrow> int \<Rightarrow> int \<Rightarrow> string \<Rightarrow> active_block" where
  "make_block stem_now now ttl ip =
     \<lparr>ab_ip = ip, ab_rule_name_in = make_rule_stem stem_now ip @ ''-in'',
      ab_rule_name_out = make_rule_stem stem_now ip @ ''-out'', ab_blocked_at_ms = now,
      ab_expires_at_ms = now + ttl * 1000, ab_audit_entry_id = []\<rparr>"

text \<open>\<open>stem_now\<close> and \<open>now\<close> are the two clock readings of a call.\<close>

definition block_ip ::
    "'w audit_adder \<Rightarrow> 'f netsh \<Rightarrow> int \<Rightarrow> int \<Rightarrow> string \<Rightarrow> int \<Rightarrow> firewall_blocker \<times> 'f \<times> 'w
       \<Rightarrow> block_result \<times> firewall_blocker \<times> 'f \<times> 'w" where
  "block_ip add netsh stem_now now ip ttl_s = (\<lambda>(b, f, w).
     if ip \<in> set (fb_allowlist b) then
       (block_refused (''ip '' @ ip @ '' is in the allowlist (loopback/gateway/DNS) '' @ em_dash @ '' not blocked''), b, f, w)
     else if sm_has ip (fb_blocks b) then (block_refused (''ip '' @ ip @ '' is already blocked''), b, f, w)
     else
       let stem = make_rule_stem stem_now ip;
           (ok_in, f1) = add_rule netsh (stem @ ''-in'') ip ''in'' f;
           (ok_out, f2) = add_rule netsh (stem @ ''-out'') ip ''out'' f1
       in if \<not> ok_in \<and> \<not> ok_out then
            (block_refused (''netsh add rule failed for '' @ ip @ '' (not elevated?)''), b, f2, w)
          else
            let ttl = (if ttl_s > 0 then ttl_s else fb_default_ttl_s b);
                ab = make_block stem_now now ttl ip;
                (eid, w') = add ''firewall_block'' (block_payload ab ttl) w
            in (\<lparr>bk_blocked = True, bk_reason = ''blocked'', bk_rule_name_in = ab_rule_name_in ab,
                 bk_rule_name_out = ab_rule_name_out ab\<rparr>,
                b\<lparr>fb_blocks := sm_assign ip (ab\<lparr>ab_audit_entry_id := eid\<rparr>) (fb_blocks b)\<rparr>, f2, w'))"

definition unblock_payload :: "active_block \<Rightarrow> int \<Rightarrow> string" where
  "unblock_payload ab now = ''ip='' @ ab_ip ab @ '' rule_in='' @ ab_rule_name_in ab @ '' rule_out=''
     @ ab_rule_name_out ab @ '' blocked_at_ms='' @ str_of_int (ab_blocked_at_ms ab)
     @ '' unblocked_at_ms='' @ str_of_int now"

definition do_unblock_locked ::
    "'w audit_adder \<Rightarrow> 'f netsh \<Rightarrow> int \<Rightarrow> string \<times> active_block \<Rightarrow> firewall_blocker \<times> 'f \<times> 'w
       \<Rightarrow> firewall_blocker \<times> 'f \<times> 'w" where
  "do_unblock_locked add netsh now = (\<lambda>(ip, ab) (b, f, w).
     let (_, f1) = delete_rule netsh (ab_rule_name_in ab) f;
         (_, f2) = delete_rule netsh (ab_rule_name_out ab) f1
     in (b\<lparr>fb_blocks := sm_erase ip (fb_blocks b)\<rparr>, f2,
         emit add ''firewall_unblock'' (unblock_payload ab now) w))"

definition unblock_ip ::
    "'w audit_adder \<Rightarrow> 'f netsh \<Rightarrow> int \<Rightarrow> string \<Rightarrow> firewall_blocker \<times> 'f \<times> 'w
       \<Rightarrow> bool \<times> firewall_blocker \<times> 'f \<times> 'w" where
  "unblock_ip add netsh now ip s =
     (case map_of (fb_blocks (fst s)) ip of
        None \<Rightarrow> (False, s)
      | Some ab \<Rightarrow> (True, do_unblock_locked add netsh now (ip, ab) s))"

text \<open>One pass of the expiry thread at time \<open>now\<close>; \<open>clk\<close> gives the reading at each removal.\<close>

definition expiry_tick ::
    "'w audit_adder \<Rightarrow> 'f netsh \<Rightarrow> int \<Rightarrow> (string \<Rightarrow> int) \<Rightarrow> firewall_blocker \<times> 'f \<times> 'w
       \<Rightarrow> firewall_blocker \<times> 'f \<times> 'w" where
  "expiry_tick add netsh now clk s =
     fold (\<lambda>(ip, ab) s. if ab_expires_at_ms ab \<le> now then do_unblock_locked add netsh (clk ip) (ip, ab) s else s)
       (fb_blocks (fst s)) s"

definition is_blocked :: "string \<Rightarrow> firewall_blocker \<Rightarrow> bool" where
  "is_blocked ip b = sm_has ip (fb_blocks b)"

definition active_blocks :: "firewall_blocker \<Rightarrow> active_block list" where
  "active_blocks b = sm_values (fb_blocks b)"

definition shutdown_firewall :: "'f netsh \<Rightarrow> firewall_blocker \<times> 'f \<Rightarrow> firewall_blocker \<times> 'f" where
  "shutdown_firewall netsh = (\<lambda>(b, f).
     (b\<lparr>fb_blocks := []\<rparr>,
      fold (\<lambda>(ip, ab) f. snd (delete_rule netsh (ab_rule_name_out ab) (snd (delete_rule netsh (ab_rule_name_in ab) f))))
        (fb_blocks b) f))"

section \<open>Runs\<close>

datatype firewall_op = Block int int string int | Unblock int string | Expire int "string \<Rightarrow> int"

fun firewall_step ::
    "'w audit_adder \<Rightarrow> 'f netsh \<Rightarrow> firewall_op \<Rightarrow> firewall_blocker \<times> 'f \<times> 'w \<Rightarrow> firewall_blocker \<times> 'f \<times> 'w" where
  "firewall_step add netsh (Block sn now ip ttl) s = snd (block_ip add netsh sn now ip ttl s)"
| "firewall_step add netsh (Unblock now ip) s = snd (unblock_ip add netsh now ip s)"
| "firewall_step add netsh (Expire now clk) s = expiry_tick add netsh now clk s"

section \<open>Lemmas\<close>

lemma erase_length:
  "sm_ok m \<Longrightarrow> map_of m k = Some v \<Longrightarrow> length (sm_erase k m) + 1 = length m"
proof (induction m)
  case (Cons kv m)
  obtain k' v' where kv: "kv = (k', v')" by (cases kv)
  have ok: "sm_ok m" and above: "\<forall>x\<in>fst ` set m. k' < x" using Cons.prems by (auto simp: sm_ok_def kv)
  show ?case
  proof (cases "k = k'")
    case True
    then have "sm_erase k m = m" using above by (auto simp: sm_erase_def filter_id_conv)
    with True show ?thesis by (simp add: sm_erase_def kv)
  next
    case False
    with Cons.IH ok Cons.prems show ?thesis by (simp add: sm_erase_def kv)
  qed
qed simp

lemma assign_fresh_length: "map_of m k = None \<Longrightarrow> length (sm_assign k v m) = length m + 1"
  by (induction k v m rule: sm_assign.induct) (auto split: if_splits)

text \<open>The ledger of a run: no allowlisted address is blocked, and the trail counts the active blocks.\<close>

definition firewall_inv ::
    "nat \<Rightarrow> ('w \<Rightarrow> audit_event list) \<Rightarrow> firewall_blocker \<times> 'f \<times> 'w \<Rightarrow> bool" where
  "firewall_inv k events s \<longleftrightarrow>
     (let b = fst s; es = events (snd (snd s)) in
      sm_ok (fb_blocks b) \<and> (\<forall>ip. sm_has ip (fb_blocks b) \<longrightarrow> ip \<notin> set (fb_allowlist b)) \<and>
      count_type ''firewall_block'' es + k = count_type ''firewall_unblock'' es + length (fb_blocks b))"

lemma unblock_fields:
  "fst (do_unblock_locked add netsh now (ip, ab) s) = (fst s)\<lparr>fb_blocks := sm_erase ip (fb_blocks (fst s))\<rparr>"
  by (cases s) (simp add: do_unblock_locked_def case_prod_beta Let_def)

context audit_sink
begin

lemma unblock_events:
  "events (snd (snd (do_unblock_locked add netsh now (ip, ab) s))) =
     events (snd (snd s)) @ [(''firewall_unblock'', unblock_payload ab now)]"
  by (cases s) (simp add: do_unblock_locked_def case_prod_beta Let_def events_emit)

lemma do_unblock_inv:
  assumes "firewall_inv k events s" and "map_of (fb_blocks (fst s)) ip = Some ab'"
  shows "firewall_inv k events (do_unblock_locked add netsh now (ip, ab) s)"
proof -
  have "sm_ok (fb_blocks (fst s))" using assms(1) by (simp add: firewall_inv_def Let_def)
  from erase_length [OF this assms(2)] have "length (fb_blocks (fst s)) = length (sm_erase ip (fb_blocks (fst s))) + 1"
    by simp
  with assms(1) show ?thesis
    by (auto simp: firewall_inv_def Let_def unblock_fields unblock_events sm_has_def map_of_sm_erase split: if_splits)
qed

lemma expiry_fold_inv:
  "firewall_inv k events s \<Longrightarrow> distinct (map fst kvs) \<Longrightarrow>
   (\<forall>(ip, ab)\<in>set kvs. map_of (fb_blocks (fst s)) ip = Some ab) \<Longrightarrow>
   firewall_inv k events
     (fold (\<lambda>(ip, ab) s. if ab_expires_at_ms ab \<le> now then do_unblock_locked add netsh (clk ip) (ip, ab) s else s) kvs s) \<and>
   fb_allowlist (fst (fold (\<lambda>(ip, ab) s. if ab_expires_at_ms ab \<le> now then do_unblock_locked add netsh (clk ip) (ip, ab) s else s) kvs s))
     = fb_allowlist (fst s) \<and>
   (\<forall>ip. map_of (fb_blocks (fst (fold (\<lambda>(ip, ab) s. if ab_expires_at_ms ab \<le> now then do_unblock_locked add netsh (clk ip) (ip, ab) s else s) kvs s))) ip
     = (case map_of kvs ip of Some ab \<Rightarrow> if ab_expires_at_ms ab \<le> now then None else Some ab
        | None \<Rightarrow> map_of (fb_blocks (fst s)) ip))"
proof (induction kvs arbitrary: s)
  case (Cons kv kvs)
  obtain ip ab where kv: "kv = (ip, ab)" by (cases kv)
  define s1 where "s1 = (if ab_expires_at_ms ab \<le> now then do_unblock_locked add netsh (clk ip) (ip, ab) s else s)"
  have here: "map_of (fb_blocks (fst s)) ip = Some ab" using Cons.prems(3) by (simp add: kv)
  have inv1: "firewall_inv k events s1"
    using Cons.prems(1) do_unblock_inv [OF Cons.prems(1) here] by (simp add: s1_def)
  have fresh: "ip \<notin> fst ` set kvs" using Cons.prems(2) by (simp add: kv)
  have blocks1: "map_of (fb_blocks (fst s1)) j =
      (if j = ip \<and> ab_expires_at_ms ab \<le> now then None else map_of (fb_blocks (fst s)) j)" for j
    by (simp add: s1_def unblock_fields map_of_sm_erase)
  have allow1: "fb_allowlist (fst s1) = fb_allowlist (fst s)" by (simp add: s1_def unblock_fields)
  have rest: "\<forall>(j, a)\<in>set kvs. map_of (fb_blocks (fst s1)) j = Some a"
    using Cons.prems(3) fresh by (force simp: blocks1 kv)
  have dist: "distinct (map fst kvs)" using Cons.prems(2) by (simp add: kv)
  have none: "map_of kvs ip = None" using fresh by (simp add: map_of_eq_None_iff)
  from Cons.IH [OF inv1 dist rest] show ?case
    unfolding kv fold_Cons comp_apply case_prod_conv s1_def [symmetric] blocks1 allow1
    using here none by (auto split: option.splits)
qed simp

lemma expiry_tick_inv:
  assumes "firewall_inv k events s"
  shows "firewall_inv k events (expiry_tick add netsh now clk s)"
    and "map_of (fb_blocks (fst (expiry_tick add netsh now clk s))) ip =
      (case map_of (fb_blocks (fst s)) ip of None \<Rightarrow> None
       | Some ab \<Rightarrow> if ab_expires_at_ms ab \<le> now then None else Some ab)"
    and "fb_allowlist (fst (expiry_tick add netsh now clk s)) = fb_allowlist (fst s)"
proof -
  have ok: "sm_ok (fb_blocks (fst s))" using assms by (simp add: firewall_inv_def Let_def)
  then have dist: "distinct (map fst (fb_blocks (fst s)))" by (rule sm_ok_distinct)
  have all: "\<forall>(ip, ab)\<in>set (fb_blocks (fst s)). map_of (fb_blocks (fst s)) ip = Some ab"
    using dist by auto
  note fold = expiry_fold_inv [OF assms dist all, of now netsh clk]
  show "firewall_inv k events (expiry_tick add netsh now clk s)"
    using fold unfolding expiry_tick_def by blast
  show "fb_allowlist (fst (expiry_tick add netsh now clk s)) = fb_allowlist (fst s)"
    using fold unfolding expiry_tick_def by blast
  show "map_of (fb_blocks (fst (expiry_tick add netsh now clk s))) ip =
      (case map_of (fb_blocks (fst s)) ip of None \<Rightarrow> None
       | Some ab \<Rightarrow> if ab_expires_at_ms ab \<le> now then None else Some ab)"
    using fold unfolding expiry_tick_def by (auto split: option.splits)
qed

lemma block_refused_cases:
  "\<not> bk_blocked (fst (block_ip add netsh sn now ip ttl (b, f, w))) \<Longrightarrow>
   \<exists>f'. snd (block_ip add netsh sn now ip ttl (b, f, w)) = (b, f', w)"
  by (auto simp: block_ip_def Let_def case_prod_beta)

lemma block_accepted:
  assumes "bk_blocked (fst (block_ip add netsh sn now ip ttl (b, f, w)))"
  shows "ip \<notin> set (fb_allowlist b) \<and> \<not> sm_has ip (fb_blocks b) \<and>
    (\<exists>f' eid p. snd (block_ip add netsh sn now ip ttl (b, f, w)) =
        (b\<lparr>fb_blocks := sm_assign ip
             (make_block sn now (if ttl > 0 then ttl else fb_default_ttl_s b) ip\<lparr>ab_audit_entry_id := eid\<rparr>)
             (fb_blocks b)\<rparr>, f', snd (add ''firewall_block'' p w)))"
proof -
  have free: "ip \<notin> set (fb_allowlist b)"
    using assms by (cases "ip \<in> set (fb_allowlist b)") (simp_all add: block_ip_def block_refused_def)
  have new: "\<not> sm_has ip (fb_blocks b)"
    using assms free by (cases "sm_has ip (fb_blocks b)") (simp_all add: block_ip_def block_refused_def)
  obtain ok_in f1 where r1: "add_rule netsh (make_rule_stem sn ip @ ''-in'') ip ''in'' f = (ok_in, f1)"
    by fastforce
  obtain ok_out f2 where r2: "add_rule netsh (make_rule_stem sn ip @ ''-out'') ip ''out'' f1 = (ok_out, f2)"
    by fastforce
  define ttl' where "ttl' = (if ttl > 0 then ttl else fb_default_ttl_s b)"
  define ab where "ab = make_block sn now ttl' ip"
  obtain eid w' where r3: "add ''firewall_block'' (block_payload ab ttl') w = (eid, w')" by fastforce
  have run: "block_ip add netsh sn now ip ttl (b, f, w) =
      (if \<not> ok_in \<and> \<not> ok_out then
         (block_refused (''netsh add rule failed for '' @ ip @ '' (not elevated?)''), b, f2, w)
       else (\<lparr>bk_blocked = True, bk_reason = ''blocked'', bk_rule_name_in = ab_rule_name_in ab,
               bk_rule_name_out = ab_rule_name_out ab\<rparr>,
             b\<lparr>fb_blocks := sm_assign ip (ab\<lparr>ab_audit_entry_id := eid\<rparr>) (fb_blocks b)\<rparr>, f2, w'))"
    unfolding block_ip_def case_prod_conv if_not_P [OF free] if_not_P [OF new] Let_def r1 r2
      ttl'_def [symmetric] ab_def [symmetric] r3 ..
  have taken: "ok_in \<or> ok_out" using assms unfolding run by (cases ok_in; cases ok_out) (simp_all add: block_refused_def)
  have "w' = snd (add ''firewall_block'' (block_payload ab ttl') w)" by (simp add: r3)
  with free new taken show ?thesis unfolding run ab_def ttl'_def by auto
qed

lemma firewall_step_inv:
  assumes "firewall_inv k events s"
  shows "firewall_inv k events (firewall_step add netsh x s) \<and> fb_allowlist (fst (firewall_step add netsh x s)) = fb_allowlist (fst s)"
proof -
  obtain b f w where s: "s = (b, f, w)" by (metis prod_cases3)
  show ?thesis
  proof (cases x)
    case (Block sn now ip ttl)
    show ?thesis
    proof (cases "bk_blocked (fst (block_ip add netsh sn now ip ttl (b, f, w)))")
      case True
      from block_accepted [OF True] obtain f' eid p t where free: "ip \<notin> set (fb_allowlist b)" "\<not> sm_has ip (fb_blocks b)"
        and step: "snd (block_ip add netsh sn now ip ttl (b, f, w)) =
          (b\<lparr>fb_blocks := sm_assign ip (make_block sn now t ip\<lparr>ab_audit_entry_id := eid\<rparr>) (fb_blocks b)\<rparr>, f',
           snd (add ''firewall_block'' p w))"
        by blast
      have "map_of (fb_blocks b) ip = None" using free(2) by (simp add: sm_has_def)
      from assign_fresh_length [OF this] assms free show ?thesis
        by (auto simp: Block s step firewall_inv_def Let_def sm_has_def map_of_sm_assign events_add)
    next
      case False
      from block_refused_cases [OF this] obtain f' where "snd (block_ip add netsh sn now ip ttl (b, f, w)) = (b, f', w)"
        by blast
      with assms show ?thesis by (simp add: Block s firewall_inv_def)
    qed
  next
    case (Unblock now ip)
    with assms do_unblock_inv [OF assms] show ?thesis
      by (auto simp: unblock_ip_def unblock_fields split: option.splits)
  next
    case (Expire now clk)
    with expiry_tick_inv [OF assms] show ?thesis by simp
  qed
qed

lemma firewall_run_inv:
  "firewall_inv k events s \<Longrightarrow>
   firewall_inv k events (fold (firewall_step add netsh) xs s) \<and>
   fb_allowlist (fst (fold (firewall_step add netsh) xs s)) = fb_allowlist (fst s)"
  by (induction xs arbitrary: s) (simp_all add: firewall_step_inv)

end

lemma allowlist_static: "ip \<in> {''127.0.0.1'', ''::1'', ''0.0.0.0''} \<union> set extra \<Longrightarrow> ip \<in> set (build_allowlist adapters dns extra)"
  unfolding build_allowlist_def remdups_adj_set set_sort set_append by auto

section \<open>Properties\<close>

text \<open>C36. Whatever \<^verbatim>\<open>netsh\<close> answers, after any blocks, unblocks and expiry passes no loopback address, no caller
  extra and no detected gateway or DNS server is blocked, and the chain has exactly one block entry for
  each unblock entry and each active block.\<close>

theorem firewall_ledger:
  "let (b, f', w) = fold (firewall_step (audit_add sha env) netsh) ops
         (new_firewall_blocker adapters dns ttl extra, f, fresh_audit) in
   list_all (\<lambda>ip. \<not> is_blocked ip b) ([''127.0.0.1'', ''::1'', ''0.0.0.0''] @ extra @ build_allowlist adapters dns extra) \<and>
   count_type ''firewall_block'' (trail w) = count_type ''firewall_unblock'' (trail w) + length (active_blocks b)"
proof -
  let ?s0 = "(new_firewall_blocker adapters dns ttl extra, f, fresh_audit)"
  have "firewall_inv 0 trail ?s0"
    by (simp add: firewall_inv_def new_firewall_blocker_def sm_has_def)
  from chain.firewall_run_inv [OF this, of sha env netsh ops] show ?thesis
    using allowlist_static [of _ extra adapters dns]
    by (auto simp: firewall_inv_def Let_def case_prod_beta is_blocked_def active_blocks_def sm_values_def
        list_all_iff new_firewall_blocker_def)
qed

text \<open>A block lasts for its time to live: in a state of any run, blocking a free address with at least one
  accepted rule makes it blocked until \<open>now + ttl\<close> seconds; an expiry pass removes exactly the blocks
  that are due, and keeps every other block as it was.\<close>

theorem block_expires:
  assumes "firewall_inv k trail (b, f, w)"
  shows "(let (res, b', f', w') = block_ip (audit_add sha env) netsh sn now ip ttl (b, f, w) in
      bk_blocked res \<longrightarrow> (\<exists>ab. map_of (fb_blocks b') ip = Some ab \<and>
         ab_expires_at_ms ab = now + (if ttl > 0 then ttl else fb_default_ttl_s b) * 1000)) \<and>
    map_of (fb_blocks (fst (expiry_tick (audit_add sha env) netsh t clk (b, f, w)))) ip' =
      (case map_of (fb_blocks b) ip' of None \<Rightarrow> None
       | Some ab \<Rightarrow> if ab_expires_at_ms ab \<le> t then None else Some ab)"
proof -
  have "bk_blocked (fst (block_ip (audit_add sha env) netsh sn now ip ttl (b, f, w))) \<longrightarrow>
    (\<exists>ab. map_of (fb_blocks (fst (snd (block_ip (audit_add sha env) netsh sn now ip ttl (b, f, w))))) ip = Some ab \<and>
       ab_expires_at_ms ab = now + (if ttl > 0 then ttl else fb_default_ttl_s b) * 1000)"
    using chain.block_accepted [where sha = sha and env = env and netsh = netsh and sn = sn and now = now and ip = ip
      and ttl = ttl and b = b and f = f and w = w]
    by (auto simp: make_block_def)
  moreover have "map_of (fb_blocks (fst (expiry_tick (audit_add sha env) netsh t clk (b, f, w)))) ip' =
      (case map_of (fb_blocks b) ip' of None \<Rightarrow> None
       | Some ab \<Rightarrow> if ab_expires_at_ms ab \<le> t then None else Some ab)"
    using chain.expiry_tick_inv(2) [OF assms] by simp
  ultimately show ?thesis by (simp add: case_prod_beta Let_def)
qed

theorem block_expires_witness:
  "let s = snd (block_ip (audit_add demo_sha demo_env) (\<lambda>c f. (0, f)) 10 20 ''10.1.1.1'' 5
       (new_firewall_blocker None None 0 [], (), fresh_audit)) in
   map_of (fb_blocks (fst (expiry_tick (audit_add demo_sha demo_env) (\<lambda>c f. (0, f)) 5020 (\<lambda>_. 5020)
      (new_firewall_blocker None None 0 [], (), fresh_audit)))) ''10.1.1.1'' = None \<and>
   (\<exists>ab. map_of (fb_blocks (fst s)) ''10.1.1.1'' = Some ab \<and> ab_expires_at_ms ab = 5020)"
proof -
  let ?b = "new_firewall_blocker None None 0 []"
  have inv: "firewall_inv 0 trail (?b, (), fresh_audit)"
    by (simp add: firewall_inv_def new_firewall_blocker_def sm_has_def)
  have "bk_blocked (fst (block_ip (audit_add demo_sha demo_env) (\<lambda>c f. (0, f)) 10 20 ''10.1.1.1'' 5 (?b, (), fresh_audit)))"
    by (auto simp: block_ip_def new_firewall_blocker_def build_allowlist_def sm_has_def add_rule_def
        run_netsh_def Let_def case_prod_beta)
  with block_expires [OF inv, where sha = demo_sha and env = demo_env and netsh = "\<lambda>c f. (0, f)" and sn = 10 and now = 20
      and ip = "''10.1.1.1''" and ttl = 5 and t = 5020 and clk = "\<lambda>_. 5020" and ip' = "''10.1.1.1''"]
  show ?thesis by (simp add: case_prod_beta Let_def new_firewall_blocker_def)
qed

end
