(* ===== verification/Quarantine.thy ===== *)
theory Quarantine
  imports AuditChain Cxx_Strings
begin

text \<open>
  \<^verbatim>\<open>core/quarantine\<close>: infected files are moved to \<^verbatim>\<open><dir>/<entry_id>.bin\<close> beside a \<^verbatim>\<open>.meta\<close> sidecar and can
  be moved back. The files of the machine are a map from absolute paths to contents; what the operating
  system lets a call do is the record \<open>os_answers\<close>. \<open>absolute\<close> stands for \<^verbatim>\<open>fs::absolute\<close>, which depends
  on the current directory. Directories are not modelled.
\<close>

section \<open>Files\<close>

type_synonym files = "string \<Rightarrow> string option"

record os_answers =
  os_stat :: bool
  os_read :: bool
  os_rename :: bool
  os_copy :: bool
  os_remove :: bool
  os_meta :: bool

text \<open>Each call gives \<open>None\<close> when it sets its \<^verbatim>\<open>error_code\<close>.\<close>

definition fs_rename :: "bool \<Rightarrow> string \<Rightarrow> string \<Rightarrow> files \<Rightarrow> files option" where
  "fs_rename allowed a b files =
     (case files a of
        Some c \<Rightarrow> if allowed then Some ((files(a := None))(b := Some c)) else None
      | None \<Rightarrow> None)"

definition fs_copy_file :: "bool \<Rightarrow> string \<Rightarrow> string \<Rightarrow> files \<Rightarrow> files option" where
  "fs_copy_file allowed a b files =
     (case files a of Some c \<Rightarrow> if allowed then Some (files(b := Some c)) else None | None \<Rightarrow> None)"

definition fs_remove :: "bool \<Rightarrow> string \<Rightarrow> files \<Rightarrow> files" where
  "fs_remove allowed a files = (if allowed then files(a := None) else files)"

text \<open>\<^verbatim>\<open>(fs::path(dir) / name).string()\<close> on Windows.\<close>

definition path_join :: "string \<Rightarrow> string \<Rightarrow> string" where
  "path_join dir name =
     (if dir = [] \<or> last dir = CHR ''/'' \<or> last dir = backslash \<or> last dir = CHR '':'' then dir @ name
      else dir @ [backslash] @ name)"

section \<open>Model\<close>

record quarantine_entry =
  qe_entry_id :: string
  qe_original_path :: string
  qe_quarantine_path :: string
  qe_virus_name :: string
  qe_sha256_hash :: string
  qe_quarantined_at_ms :: int

record quarantine =
  qr_dir :: string
  qr_entries :: "quarantine_entry list"

definition new_quarantine :: "string \<Rightarrow> quarantine" where
  "new_quarantine dir = \<lparr>qr_dir = dir, qr_entries = []\<rparr>"

definition sha256_hex :: "(string \<Rightarrow> string) \<Rightarrow> string \<Rightarrow> string" where
  "sha256_hex sha content = hex_string (sha content)"

definition quarantine_entry_id :: "u64 \<Rightarrow> u64 \<Rightarrow> string" where
  "quarantine_entry_id a b =
     ''qtn_'' @ pad_left 16 (CHR ''0'') (hex_of_nat (unat a)) @ pad_left 16 (CHR ''0'') (hex_of_nat (unat b))"

definition meta_escape :: "string \<Rightarrow> string" where
  "meta_escape s = concat (map (\<lambda>c. if c = backslash then [backslash, backslash]
     else if c = CHR 0x22 then [backslash, CHR 0x22] else [c]) s)"

definition meta_field :: "string \<Rightarrow> string \<Rightarrow> string" where
  "meta_field key v = ''  '' @ dquote @ key @ dquote @ '': '' @ v"

definition make_meta_json :: "quarantine_entry \<Rightarrow> string" where
  "make_meta_json e =
     CHR 0x7B # nl
     @ meta_field ''entry_id'' (dquote @ meta_escape (qe_entry_id e) @ dquote) @ '','' @ nl
     @ meta_field ''original_path'' (dquote @ meta_escape (qe_original_path e) @ dquote) @ '','' @ nl
     @ meta_field ''quarantine_path'' (dquote @ meta_escape (qe_quarantine_path e) @ dquote) @ '','' @ nl
     @ meta_field ''virus_name'' (dquote @ meta_escape (qe_virus_name e) @ dquote) @ '','' @ nl
     @ meta_field ''sha256_hash'' (dquote @ qe_sha256_hash e @ dquote) @ '','' @ nl
     @ meta_field ''quarantined_at_ms'' (str_of_int (qe_quarantined_at_ms e)) @ nl
     @ CHR 0x7D # nl"

text \<open>A default-constructed entry; its timestamp is not initialised, so it is an argument.\<close>

definition blank_entry :: "int \<Rightarrow> quarantine_entry" where
  "blank_entry junk = \<lparr>qe_entry_id = [], qe_original_path = [], qe_quarantine_path = [],
     qe_virus_name = [], qe_sha256_hash = [], qe_quarantined_at_ms = junk\<rparr>"

definition MAX_HASH_BYTES :: nat where
  "MAX_HASH_BYTES = 500 * 1024 * 1024"

record quarantine_call =
  qc_rand_a :: u64
  qc_rand_b :: u64
  qc_now :: int
  qc_junk :: int
  qc_os :: os_answers

definition filled_entry ::
    "(string \<Rightarrow> string) \<Rightarrow> (string \<Rightarrow> string) \<Rightarrow> quarantine_call \<Rightarrow> string \<Rightarrow> string \<Rightarrow> string option
       \<Rightarrow> string \<Rightarrow> quarantine_entry" where
  "filled_entry sha absolute k src_path virus_name content dir =
     (let eid = quarantine_entry_id (qc_rand_a k) (qc_rand_b k) in
      \<lparr>qe_entry_id = eid, qe_original_path = absolute src_path,
       qe_quarantine_path = path_join dir (eid @ ''.bin''), qe_virus_name = virus_name,
       qe_sha256_hash = (case content of Some c \<Rightarrow> sha256_hex sha c | None \<Rightarrow> ''(file too large to hash)''),
       qe_quarantined_at_ms = qc_now k\<rparr>)"

text \<open>Rename, or copy and a best-effort delete when the rename fails.\<close>

definition move_file :: "os_answers \<Rightarrow> string \<Rightarrow> string \<Rightarrow> files \<Rightarrow> files option" where
  "move_file os a b files =
     (case fs_rename (os_rename os) a b files of
        Some files' \<Rightarrow> Some files'
      | None \<Rightarrow>
          (case fs_copy_file (os_copy os) a b files of
             None \<Rightarrow> None
           | Some files' \<Rightarrow> Some (fs_remove (os_remove os) a files')))"

definition write_meta :: "(string \<Rightarrow> string) \<Rightarrow> os_answers \<Rightarrow> string \<Rightarrow> quarantine_entry \<Rightarrow> files \<Rightarrow> files" where
  "write_meta absolute os dir e files =
     (if os_meta os then files(absolute (path_join dir (qe_entry_id e @ ''.meta'')) := Some (make_meta_json e))
      else files)"

definition quarantine_payload :: "quarantine_entry \<Rightarrow> string" where
  "quarantine_payload e = ''original_path='' @ qe_original_path e @ '' sha256='' @ qe_sha256_hash e
     @ '' virus='' @ qe_virus_name e"

definition quarantine_file ::
    "(string \<Rightarrow> string) \<Rightarrow> (string \<Rightarrow> string) \<Rightarrow> 'w audit_adder \<Rightarrow> quarantine_call \<Rightarrow> string \<Rightarrow> string
       \<Rightarrow> quarantine \<times> files \<times> 'w \<Rightarrow> quarantine_entry \<times> quarantine \<times> files \<times> 'w" where
  "quarantine_file sha absolute add k src_path virus_name = (\<lambda>(q, files, w).
     case files (absolute src_path) of
       None \<Rightarrow> (blank_entry (qc_junk k), q, files, w)
     | Some data \<Rightarrow>
         if \<not> os_stat (qc_os k) then (blank_entry (qc_junk k), q, files, w)
         else if length data \<le> MAX_HASH_BYTES \<and> \<not> os_read (qc_os k) then (blank_entry (qc_junk k), q, files, w)
         else
           let content = (if length data \<le> MAX_HASH_BYTES then Some data else None);
               e = filled_entry sha absolute k src_path virus_name content (qr_dir q)
           in case move_file (qc_os k) (absolute src_path) (absolute (qe_quarantine_path e)) files of
                None \<Rightarrow> (blank_entry 0, q, files, w)
              | Some files' \<Rightarrow>
                  (e, q\<lparr>qr_entries := qr_entries q @ [e]\<rparr>, write_meta absolute (qc_os k) (qr_dir q) e files',
                   emit add ''quarantine'' (quarantine_payload e) w))"

definition restore_payload :: "quarantine_entry \<Rightarrow> string" where
  "restore_payload e = ''entry_id='' @ qe_entry_id e @ '' original_path='' @ qe_original_path e"

text \<open>\<^verbatim>\<open>find_if\<close> and \<^verbatim>\<open>erase\<close>: the first entry with the id.\<close>

fun erase_entry :: "string \<Rightarrow> quarantine_entry list \<Rightarrow> quarantine_entry list" where
  "erase_entry eid [] = []"
| "erase_entry eid (e # es) = (if qe_entry_id e = eid then es else e # erase_entry eid es)"

definition restore ::
    "(string \<Rightarrow> string) \<Rightarrow> 'w audit_adder \<Rightarrow> os_answers \<Rightarrow> string
       \<Rightarrow> quarantine \<times> files \<times> 'w \<Rightarrow> bool \<times> quarantine \<times> files \<times> 'w" where
  "restore absolute add os eid = (\<lambda>(q, files, w).
     case find (\<lambda>e. qe_entry_id e = eid) (qr_entries q) of
       None \<Rightarrow> (False, q, files, w)
     | Some e \<Rightarrow>
         (case move_file os (absolute (qe_quarantine_path e)) (absolute (qe_original_path e)) files of
            None \<Rightarrow> (False, q, files, w)
          | Some files' \<Rightarrow>
              (True, q\<lparr>qr_entries := erase_entry eid (qr_entries q)\<rparr>,
               fs_remove (os_remove os) (absolute (path_join (qr_dir q) (qe_entry_id e @ ''.meta''))) files',
               emit add ''quarantine_restore'' (restore_payload e) w)))"

definition quarantine_list :: "quarantine \<Rightarrow> quarantine_entry list" where
  "quarantine_list q = qr_entries q"

section \<open>Lemmas\<close>

lemma move_file_moves:
  assumes "files a = Some c" "os_rename os \<or> os_copy os \<and> os_remove os" "a \<noteq> b"
  shows "move_file os a b files = Some (files(a := None, b := Some c))"
  using assms by (auto simp: move_file_def fs_rename_def fs_copy_file_def fs_remove_def fun_eq_iff)

text \<open>A move never destroys the moved content: it is at the target, or nothing changed.\<close>

lemma move_file_keeps:
  "move_file os a b files = Some files' \<Longrightarrow> files' b = files a \<or> a = b"
  by (auto simp: move_file_def fs_rename_def fs_copy_file_def fs_remove_def split: option.splits if_splits)

lemma erase_entry_fresh:
  "(\<forall>e\<in>set es. qe_entry_id e \<noteq> eid) \<Longrightarrow> qe_entry_id e = eid \<Longrightarrow> erase_entry eid (es @ [e]) = es"
  by (induction es) auto

lemma find_fresh:
  "(\<forall>e\<in>set es. qe_entry_id e \<noteq> eid) \<Longrightarrow> qe_entry_id e = eid \<Longrightarrow>
   find (\<lambda>e. qe_entry_id e = eid) (es @ [e]) = Some e"
  by (induction es) auto

text \<open>The two files of a quarantine call.\<close>

abbreviation call_id :: "quarantine_call \<Rightarrow> string" where
  "call_id k \<equiv> quarantine_entry_id (qc_rand_a k) (qc_rand_b k)"

definition bin_path :: "quarantine \<Rightarrow> quarantine_call \<Rightarrow> string" where
  "bin_path q k = path_join (qr_dir q) (call_id k @ ''.bin'')"

definition meta_path :: "quarantine \<Rightarrow> quarantine_call \<Rightarrow> string" where
  "meta_path q k = path_join (qr_dir q) (call_id k @ ''.meta'')"

section \<open>Properties\<close>

text \<open>C37. Quarantining a readable file and restoring it, by rename or by copy and delete, gives back every file
  of the machine and the list as they were; in between the original is gone and its content is in the
  quarantine directory; the chain records both, in this order. The paths involved are distinct and the id fresh.\<close>

theorem quarantine_restore_roundtrip:
  fixes k :: quarantine_call and os :: os_answers and q :: quarantine and absolute :: "string \<Rightarrow> string"
  assumes "files (absolute src) = Some data" "os_stat (qc_os k)" "os_read (qc_os k)"
    and "os_rename (qc_os k) \<or> os_copy (qc_os k) \<and> os_remove (qc_os k)" "os_remove os" "os_rename os \<or> os_copy os"
    and "absolute (absolute src) = absolute src" "distinct [absolute src, absolute (bin_path q k), absolute (meta_path q k)]"
    and "files (absolute (bin_path q k)) = None" "files (absolute (meta_path q k)) = None"
    and "\<forall>e\<in>set (qr_entries q). qe_entry_id e \<noteq> call_id k"
  shows "let (e, q', files', w') = quarantine_file sha absolute (audit_add csha env) k src virus (q, files, w);
             (r, q'', files'', w'') = restore absolute (audit_add csha env) os (qe_entry_id e) (q', files', w') in
    r \<and> files' (absolute src) = None \<and> files' (absolute (bin_path q k)) = Some data \<and> quarantine_list q' = quarantine_list q @ [e] \<and>
    files'' = files \<and> q'' = q \<and>
    trail w'' = trail w @ [(''quarantine'', quarantine_payload e), (''quarantine_restore'', restore_payload e)]"
proof -
  define content where "content = (if length data \<le> MAX_HASH_BYTES then Some data else None)"
  define e where "e = filled_entry sha absolute k src virus content (qr_dir q)"
  have e: "qe_entry_id e = call_id k" "qe_original_path e = absolute src" "qe_quarantine_path e = bin_path q k"
    by (simp_all add: e_def filled_entry_def Let_def bin_path_def)
  define files1 where "files1 = files(absolute src := None, absolute (bin_path q k) := Some data)"
  have ne: "absolute src \<noteq> absolute (bin_path q k)" "absolute src \<noteq> absolute (meta_path q k)" "absolute (bin_path q k) \<noteq> absolute (meta_path q k)"
    using assms(8) by auto
  have "move_file (qc_os k) (absolute src) (absolute (bin_path q k)) files = Some files1"
    unfolding files1_def by (rule move_file_moves) (use assms ne in auto)
  then have first: "quarantine_file sha absolute (audit_add csha env) k src virus (q, files, w) =
      (e, q\<lparr>qr_entries := qr_entries q @ [e]\<rparr>, write_meta absolute (qc_os k) (qr_dir q) e files1,
       emit (audit_add csha env) ''quarantine'' (quarantine_payload e) w)"
    unfolding quarantine_file_def case_prod_conv using assms(1-3)
    by (simp add: Let_def content_def [symmetric] e_def [symmetric] e(3))
  define files2 where "files2 = write_meta absolute (qc_os k) (qr_dir q) e files1"
  have two: "files2 (absolute (bin_path q k)) = Some data" "files2 (absolute src) = None"
      "x \<noteq> absolute (meta_path q k) \<Longrightarrow> files2 x = files1 x" for x
    using ne by (auto simp: files2_def write_meta_def e(1) meta_path_def files1_def)
  have move: "move_file os (absolute (bin_path q k)) (absolute src) files2 = Some (files2(absolute (bin_path q k) := None, absolute src := Some data))"
    by (rule move_file_moves) (use assms two ne in auto)
  have undone: "(files2(absolute (bin_path q k) := None, absolute src := Some data))(absolute (meta_path q k) := None) = files"
    using two(3) ne assms(1,9,10) by (auto simp: fun_eq_iff files1_def)
  note found = find_fresh [where es = "qr_entries q", OF assms(11) e(1)]
  note erased = erase_entry_fresh [where es = "qr_entries q", OF assms(11) e(1)]
  have second: "restore absolute (audit_add csha env) os (call_id k)
      (q\<lparr>qr_entries := qr_entries q @ [e]\<rparr>, files2, w') =
      (True, q, files, emit (audit_add csha env) ''quarantine_restore'' (restore_payload e) w')" for w'
    unfolding restore_def case_prod_conv
    using found erased move undone assms(5,7) by (simp add: e fs_remove_def meta_path_def [symmetric])
  show ?thesis
    unfolding first Let_def case_prod_conv files2_def [symmetric] e(1) second
    using two by (simp add: quarantine_list_def chain.events_emit)
qed

definition open_os :: os_answers where
  "open_os = \<lparr>os_stat = True, os_read = True, os_rename = True, os_copy = True, os_remove = True, os_meta = True\<rparr>"

theorem quarantine_restore_roundtrip_witness:
  "let k = \<lparr>qc_rand_a = 1, qc_rand_b = 2, qc_now = 50, qc_junk = 0, qc_os = open_os\<rparr>;
       files0 = [''f'' \<mapsto> ''EICAR''];
       (e, q', files', w') = quarantine_file demo_sha id (audit_add demo_sha demo_env) k ''f'' ''Win.Test''
         (new_quarantine ''Q'', files0, fresh_audit);
       (r, q'', files'', w'') = restore id (audit_add demo_sha demo_env) open_os (qe_entry_id e) (q', files', w') in
   r \<and> files' ''f'' = None \<and> files'' = files0"
proof -
  let ?k = "\<lparr>qc_rand_a = 1, qc_rand_b = 2, qc_now = 50, qc_junk = 0, qc_os = open_os\<rparr>"
  let ?q = "new_quarantine ''Q''" and ?files = "[''f'' \<mapsto> ''EICAR'']"
  have paths: "distinct [id ''f'', id (bin_path ?q ?k), id (meta_path ?q ?k)]"
    by (simp add: bin_path_def meta_path_def path_join_def new_quarantine_def quarantine_entry_id_def)
  then have free: "?files (id (bin_path ?q ?k)) = None" "?files (id (meta_path ?q ?k)) = None"
    by auto
  have os: "os_stat (qc_os ?k)" "os_read (qc_os ?k)" "os_rename (qc_os ?k) \<or> os_copy (qc_os ?k) \<and> os_remove (qc_os ?k)"
      "os_remove open_os" "os_rename open_os \<or> os_copy open_os"
    by (simp_all add: open_os_def)
  have none: "\<forall>e\<in>set (qr_entries ?q). qe_entry_id e \<noteq> call_id ?k"
    by (simp add: new_quarantine_def)
  have data: "?files (id ''f'') = Some ''EICAR''" by simp
  have idem: "id (id ''f'') = id ''f''" by simp
  from quarantine_restore_roundtrip [where sha = demo_sha and csha = demo_sha and env = demo_env and w = fresh_audit
      and virus = "''Win.Test''", OF data os idem paths free none]
  show ?thesis unfolding case_prod_beta Let_def id_apply by blast
qed

end
