(* ===== verification/Attribution.thy ===== *)
theory Attribution
  imports Decoy ActiveResponse Quarantine
begin

text \<open>
  \<^verbatim>\<open>core/attribution\<close>: the report on one attacker session, built from the forensic logs of the decoys and of
  the active responder. Writing the file is the parameter \<open>put\<close> on the disk state, as for the sandbox;
  \<^verbatim>\<open>gmtime\<close> and \<^verbatim>\<open>strftime\<close> are modelled in the proleptic Gregorian calendar.
\<close>

section \<open>Technique table\<close>

record technique_rule =
  tr_action_contains :: string
  tr_path_contains :: string
  tr_technique_id :: string
  tr_name :: string
  tr_tactic :: string

record attack_technique =
  at_technique_id :: string
  at_name :: string
  at_tactic :: string
  at_evidence :: string

definition trule :: "string \<Rightarrow> string \<Rightarrow> string \<Rightarrow> string \<Rightarrow> string \<Rightarrow> technique_rule" where
  "trule a p i n t = \<lparr>tr_action_contains = a, tr_path_contains = p, tr_technique_id = i, tr_name = n, tr_tactic = t\<rparr>"

definition kTechniqueRules :: "technique_rule list" where
  "kTechniqueRules =
    [trule [] ''credentials'' ''T1552'' ''Unsecured Credentials'' ''Credential Access'',
     trule [] ''.aws'' ''T1552.005'' ''Cloud Instance Metadata API'' ''Credential Access'',
     trule [] ''id_rsa'' ''T1552.004'' ''Private Keys'' ''Credential Access'',
     trule [] ''shadow'' ''T1003.008'' ''OS Credential Dumping: /etc/shadow'' ''Credential Access'',
     trule [] ''.env'' ''T1552.001'' ''Credentials In Files'' ''Credential Access'',
     trule [] ''etc/hostname'' ''T1082'' ''System Information Discovery'' ''Discovery'',
     trule [] ''etc/nginx.conf'' ''T1518'' ''Software Discovery'' ''Discovery'',
     trule [] ''etc/sshd_config'' ''T1082'' ''System Information Discovery'' ''Discovery'',
     trule [] ''authorized_keys'' ''T1087'' ''Account Discovery'' ''Discovery'',
     trule [] ''config.json'' ''T1083'' ''File and Directory Discovery'' ''Discovery'',
     trule [] ''financial'' ''T1213'' ''Data from Information Repositories'' ''Collection'',
     trule [] ''customer-pii'' ''T1005'' ''Data from Local System'' ''Collection'',
     trule [] ''ip-source-code'' ''T1213'' ''Data from Information Repositories'' ''Collection'',
     trule [] ''roadmap'' ''T1005'' ''Data from Local System'' ''Collection'',
     trule ''exfil'' [] ''T1041'' ''Exfiltration Over C2 Channel'' ''Exfiltration'',
     trule [] ''server-02'' ''T1021'' ''Remote Services'' ''Lateral Movement'',
     trule [] ''auth.log'' ''T1654'' ''Log Enumeration'' ''Discovery'',
     trule [] ''access.log'' ''T1654'' ''Log Enumeration'' ''Discovery'',
     trule ''redirect'' [] ''T1036'' ''Masquerading'' ''Defense Evasion'']"

definition rule_matches :: "string \<Rightarrow> string \<Rightarrow> technique_rule \<Rightarrow> bool" where
  "rule_matches action rel_path r =
     ((tr_action_contains r = [] \<or> contains (tr_action_contains r) action) \<and>
      (tr_path_contains r = [] \<or> contains (tr_path_contains r) rel_path))"

text \<open>Appending what has a new id, as both loops of the code do.\<close>

fun add_new :: "attack_technique list \<Rightarrow> attack_technique list \<Rightarrow> attack_technique list" where
  "add_new acc [] = acc"
| "add_new acc (t # ts) =
     add_new (if at_technique_id t \<in> set (map at_technique_id acc) then acc else acc @ [t]) ts"

definition map_techniques :: "string \<Rightarrow> string \<Rightarrow> poison_type \<Rightarrow> attack_technique list" where
  "map_techniques action rel_path ptype =
     add_new [] (map (\<lambda>r. \<lparr>at_technique_id = tr_technique_id r, at_name = tr_name r, at_tactic = tr_tactic r,
                          at_evidence = action @ '' on '' @ rel_path\<rparr>)
       (filter (rule_matches action rel_path) kTechniqueRules))"

section \<open>Timestamps\<close>

text \<open>C++ division truncates.\<close>

definition quot_int :: "int \<Rightarrow> int \<Rightarrow> int" where
  "quot_int a b = sgn a * sgn b * (\<bar>a\<bar> div \<bar>b\<bar>)"

definition rem_int :: "int \<Rightarrow> int \<Rightarrow> int" where
  "rem_int a b = a - b * quot_int a b"

text \<open>The date of a day counted from 1 January 1970; years are counted from March.\<close>

definition civil_of_days :: "int \<Rightarrow> int \<times> int \<times> int" where
  "civil_of_days days =
     (let z = days + 719468;
          era = z div 146097;
          doe = z mod 146097;
          yoe = (doe - doe div 1460 + doe div 36524 - doe div 146096) div 365;
          doy = doe - (365 * yoe + yoe div 4 - yoe div 100);
          mp = (5 * doy + 2) div 153;
          d = doy - (153 * mp + 2) div 5 + 1;
          m = (if mp < 10 then mp + 3 else mp - 9);
          y = yoe + era * 400
      in (if m \<le> 2 then y + 1 else y, m, d))"

definition two_digits :: "int \<Rightarrow> string" where
  "two_digits n = pad_left 2 (CHR ''0'') (str_of_int n)"

definition format_timestamp :: "int \<Rightarrow> string" where
  "format_timestamp ms =
     (let sec = quot_int ms 1000; ms_part = rem_int ms 1000;
          (y, m, d) = civil_of_days (sec div 86400); t = sec mod 86400
      in str_of_int y @ ''-'' @ two_digits m @ ''-'' @ two_digits d @ ''T''
         @ two_digits (t div 3600) @ '':'' @ two_digits (t mod 3600 div 60) @ '':'' @ two_digits (t mod 60)
         @ ''.'' @ pad_left 3 (CHR ''0'') (str_of_int ms_part) @ ''Z'')"

section \<open>Report\<close>

record ioc_hit =
  ih_indicator :: string
  ih_type :: string
  ih_description :: string
  ih_source :: string
  ih_timestamp_ms :: int

record report_artifact =
  ra_session_id :: string
  ra_session_start_ms :: int
  ra_session_end_ms :: int
  ra_total_interactions :: int
  ra_techniques :: "attack_technique list"
  ra_ioc_hits :: "ioc_hit list"
  ra_decoy_events :: "decoy_event list"
  ra_response_events :: "response_event list"
  ra_summary :: string
  ra_report_file_path :: string

definition heavy_rule :: string where
  "heavy_rule = ''================================================================================'' @ nl"

definition light_rule :: string where
  "light_rule = ''--------------------------------------------------------------------------------'' @ nl"

definition section_head :: "string \<Rightarrow> string" where
  "section_head title = light_rule @ ''  '' @ title @ nl @ light_rule"

definition technique_text :: "attack_technique \<Rightarrow> string" where
  "technique_text t = ''  ['' @ at_technique_id t @ '']  '' @ at_name t @ ''  ('' @ at_tactic t @ '')'' @ nl
     @ ''    Evidence: '' @ at_evidence t @ nl"

definition ioc_text :: "ioc_hit \<Rightarrow> string" where
  "ioc_text h = ''  ['' @ ih_type h @ '']  '' @ ih_indicator h @ nl
     @ ''    '' @ ih_description h @ ''  (source: '' @ ih_source h @ '')'' @ nl
     @ ''    Observed at: '' @ format_timestamp (ih_timestamp_ms h) @ nl"

definition decoy_text :: "decoy_event \<Rightarrow> string" where
  "decoy_text ev = ''  '' @ format_timestamp (de_timestamp_ms ev) @ ''  ['' @ poison_type_name (de_poison_type ev) @ '']''
     @ ''  '' @ de_action ev @ ''  '' @ de_rel_path ev @ nl"

definition response_text :: "response_event \<Rightarrow> string" where
  "response_text ev = ''  '' @ format_timestamp (rs_timestamp_ms ev) @ ''  tier='' @ str_of_int (rs_response_tier ev)
     @ ''  '' @ rs_resource ev
     @ (if rs_ioc_match ev then ''  [IOC HIT: '' @ rs_ioc_indicator ev @ '']'' else []) @ nl"

definition build_report_text :: "report_artifact \<Rightarrow> string" where
  "build_report_text r =
     heavy_rule @ ''  ASTARTIS ATTRIBUTION REPORT'' @ nl @ ''  DIBANET Layer 4 -- Decoy Session Analysis'' @ nl
     @ heavy_rule @ nl
     @ ''Session ID      : '' @ ra_session_id r @ nl
     @ ''Session Start   : '' @ format_timestamp (ra_session_start_ms r) @ nl
     @ ''Session End     : '' @ format_timestamp (ra_session_end_ms r) @ nl
     @ ''Total Interactions: '' @ str_of_int (ra_total_interactions r) @ nl @ nl
     @ section_head ''MITRE ATT&CK TECHNIQUE MATCHES''
     @ (if ra_techniques r = [] then ''  (no techniques matched)'' @ nl
        else concat (map technique_text (ra_techniques r))) @ nl
     @ section_head ''IOC CORRELATION RESULTS''
     @ (if ra_ioc_hits r = [] then ''  (no IOC matches)'' @ nl else concat (map ioc_text (ra_ioc_hits r))) @ nl
     @ section_head ''DECOY INTERACTION TIMELINE''
     @ concat (map decoy_text (ra_decoy_events r)) @ nl
     @ section_head ''RESPONSE TIER PROGRESSION''
     @ concat (map response_text (ra_response_events r)) @ nl
     @ section_head ''SUMMARY'' @ ra_summary r @ nl @ nl
     @ heavy_rule @ ''  Generated by Astartis -- DIBANET Layer 4'' @ nl @ heavy_rule"

definition INT64_MAX :: int where
  "INT64_MAX = 2 ^ 63 - 1"

definition INT64_MIN :: int where
  "INT64_MIN = - (2 ^ 63)"

definition time_span :: "int list \<Rightarrow> int \<times> int" where
  "time_span ts = fold (\<lambda>t (mn, mx). (if t < mn then t else mn, if t > mx then t else mx)) ts (INT64_MAX, INT64_MIN)"

definition session_span :: "int \<Rightarrow> int list \<Rightarrow> int \<times> int" where
  "session_span now ts = (let (mn, mx) = time_span ts in if mn = INT64_MAX then (now, now) else (mn, mx))"

definition is_ip_text :: "string \<Rightarrow> bool" where
  "is_ip_text s = (CHR ''.'' \<in> set s \<and> list_all (\<lambda>c. c \<in> set ''0123456789.'') s)"

definition ioc_hit_of :: "response_event \<Rightarrow> ioc_hit" where
  "ioc_hit_of ev = \<lparr>ih_indicator = rs_ioc_indicator ev,
     ih_type = (if is_ip_text (rs_ioc_indicator ev) then ''IP_ADDRESS'' else ''DOMAIN''),
     ih_description = ''IOC match observed in session'', ih_source = ''Astartis IOC database'',
     ih_timestamp_ms = rs_timestamp_ms ev\<rparr>"

definition max_tier :: "response_event list \<Rightarrow> int" where
  "max_tier evs = fold (\<lambda>ev m. if rs_response_tier ev > m then rs_response_tier ev else m) evs 0"

definition summary_text :: "report_artifact \<Rightarrow> string" where
  "summary_text r =
     ''Attacker session '' @ squote @ ra_session_id r @ squote @ '' interacted with the decoy environment ''
     @ str_of_int (ra_total_interactions r) @ '' time(s) across '' @ str_of_nat (length (ra_decoy_events r))
     @ '' distinct poisoned asset(s). ''
     @ (if ra_techniques r = [] then [] else
          str_of_nat (length (ra_techniques r)) @ '' MITRE ATT&CK technique(s) were observed: ''
          @ join_with '', '' (map (\<lambda>t. at_technique_id t @ '' ('' @ at_name t @ '')'') (ra_techniques r)) @ ''. '')
     @ (if ra_ioc_hits r = [] then [] else
          str_of_nat (length (ra_ioc_hits r)) @ '' IOC match(es) were recorded: ''
          @ join_with '', '' (map ih_indicator (ra_ioc_hits r)) @ ''. '')
     @ ''The attacker reached response tier '' @ str_of_int (max_tier (ra_response_events r))
     @ '' (0=full response, 3=honeypot loop). ''
     @ ''All interactions were contained within the sandbox. '' @ ''No real system data was exposed.''"

definition report_payload :: "report_artifact \<Rightarrow> string" where
  "report_payload r = ''session='' @ ra_session_id r @ '' techniques='' @ str_of_nat (length (ra_techniques r))
     @ '' ioc_hits='' @ str_of_nat (length (ra_ioc_hits r)) @ '' interactions='' @ str_of_int (ra_total_interactions r)
     @ '' file='' @ ra_report_file_path r"

definition collect_report :: "int \<Rightarrow> string \<Rightarrow> string \<Rightarrow> decoy_event list \<Rightarrow> response_event list \<Rightarrow> report_artifact" where
  "collect_report now sandbox_root sid decoy_log response_log =
     (let des = filter (\<lambda>ev. de_attacker_tag ev = sid) decoy_log;
          res = filter (\<lambda>ev. rs_session_id ev = sid) response_log;
          (t_min, t_max) = session_span now (map de_timestamp_ms des @ map rs_timestamp_ms res)
      in \<lparr>ra_session_id = sid, ra_session_start_ms = t_min, ra_session_end_ms = t_max,
          ra_total_interactions = int (length res),
          ra_techniques = fold (\<lambda>ev acc. add_new acc (map_techniques (de_action ev) (de_rel_path ev) (de_poison_type ev)))
            des [],
          ra_ioc_hits = map ioc_hit_of (filter rs_ioc_match res),
          ra_decoy_events = des, ra_response_events = res, ra_summary = [],
          ra_report_file_path = path_join (path_join sandbox_root ''reports'') (sid @ ''.txt'')\<rparr>)"

text \<open>\<^verbatim>\<open>fs::create_directories\<close> throws when it fails, before the file and the entry of the chain are written; the
  result is then \<open>None\<close>. \<open>mkdir\<close> says for which directories it succeeds.\<close>

definition generate_report ::
    "'w audit_adder \<Rightarrow> (string \<Rightarrow> string \<Rightarrow> 'd \<Rightarrow> 'd) \<Rightarrow> (string \<Rightarrow> bool) \<Rightarrow> int \<Rightarrow> string \<Rightarrow> string
       \<Rightarrow> decoy_event list \<Rightarrow> response_event list \<Rightarrow> 'd \<times> 'w \<Rightarrow> report_artifact option \<times> 'd \<times> 'w" where
  "generate_report add put mkdir now sandbox_root sid decoy_log response_log = (\<lambda>(disk, w).
     let r0 = collect_report now sandbox_root sid decoy_log response_log;
         r = r0\<lparr>ra_summary := summary_text r0\<rparr>
     in if \<not> mkdir (path_join sandbox_root ''reports'') then (None, disk, w)
        else (Some r, put (ra_report_file_path r) (build_report_text r) disk,
              emit add ''attribution_report_generated'' (report_payload r) w))"

section \<open>Lemmas\<close>

lemma add_new_distinct: "distinct (map at_technique_id acc) \<Longrightarrow> distinct (map at_technique_id (add_new acc ts))"
  by (induction acc ts rule: add_new.induct) auto

lemma add_new_ids: "at_technique_id ` set (add_new acc ts) = at_technique_id ` (set acc \<union> set ts)"
  by (induction acc ts rule: add_new.induct) (auto simp: image_iff)

lemma add_new_subset: "set (add_new acc ts) \<subseteq> set acc \<union> set ts"
  by (induction acc ts rule: add_new.induct) (auto split: if_splits)

text \<open>The techniques of an event, by the table.\<close>

definition event_ids :: "decoy_event \<Rightarrow> string set" where
  "event_ids ev = tr_technique_id ` set (filter (rule_matches (de_action ev) (de_rel_path ev)) kTechniqueRules)"

lemma map_techniques_ids:
  "at_technique_id ` set (map_techniques (de_action ev) (de_rel_path ev) t) = event_ids ev"
  by (simp add: map_techniques_def add_new_ids event_ids_def image_image)

lemma fold_techniques:
  "distinct (map at_technique_id acc) \<Longrightarrow>
   distinct (map at_technique_id (fold (\<lambda>ev acc. add_new acc (map_techniques (de_action ev) (de_rel_path ev) (de_poison_type ev))) des acc)) \<and>
   at_technique_id ` set (fold (\<lambda>ev acc. add_new acc (map_techniques (de_action ev) (de_rel_path ev) (de_poison_type ev))) des acc)
     = at_technique_id ` set acc \<union> (\<Union>ev\<in>set des. event_ids ev)"
  by (induction des arbitrary: acc)
    (auto simp: add_new_distinct add_new_ids image_Un map_techniques_ids)

definition in_span :: "int \<times> int \<Rightarrow> int \<Rightarrow> bool" where
  "in_span p t = (fst p \<le> t \<and> t \<le> snd p)"

lemma time_span_fold:
  "fold (\<lambda>t (mn, mx). (if t < mn then t else mn, if t > mx then t else mx)) ts (a, b) =
     (Min (insert a (set ts)), Max (insert b (set ts)))"
proof (induction ts arbitrary: a b)
  case (Cons t ts)
  have "(if t < a then t else a) = min a t" "(if t > b then t else b) = max b t" by auto
  with Cons show ?case
    by (cases "ts = []") (simp_all add: insert_commute [of a t] insert_commute [of b t] min.commute max.commute ac_simps)
qed simp

lemma session_span_covers:
  assumes "list_all (\<lambda>t. t < INT64_MAX) ts" and "t \<in> set ts"
  shows "in_span (session_span now ts) t \<and> fst (session_span now ts) \<in> set ts"
proof -
  have fin: "finite (insert INT64_MAX (set ts))" by simp
  have least: "Min (insert INT64_MAX (set ts)) \<le> t" using assms(2) by (intro Min_le) auto
  have "t < INT64_MAX" using assms by (auto simp: list_all_iff)
  with least have "Min (insert INT64_MAX (set ts)) \<noteq> INT64_MAX" by linarith
  moreover have "Min (insert INT64_MAX (set ts)) \<in> insert INT64_MAX (set ts)" by (intro Min_in) auto
  moreover have "t \<le> Max (insert INT64_MIN (set ts))" using assms(2) by (intro Max_ge) auto
  moreover note least
  ultimately show ?thesis
    by (simp add: session_span_def time_span_def time_span_fold in_span_def del: Min_insert Max_insert)
qed

lemma climbing_name_rejected:
  "\<not> is_inside (path_join (path_join d ''reports'') ''../../x.txt'') rt"
proof -
  let ?f = "\<lambda>c. if c = backslash then slash else c"
  let ?d = "path_join d ''reports''"
  have "last ?d = CHR ''s''" "?d \<noteq> []" by (simp_all add: path_join_def)
  then have p: "path_join ?d ''../../x.txt'' = ?d @ backslash # ''../../x.txt''"
    by (simp add: path_join_def [of ?d] backslash_def)
  have tail: "map ?f ''../../x.txt'' = ''../../x.txt''" by (simp add: backslash_def)
  have "map ?f (?d @ backslash # ''../../x.txt'') = map ?f ?d @ slash # ''../../x.txt''" using tail by simp
  moreover have "hd (rev (map ?f ?d @ slash # ''../../x.txt'')) \<noteq> slash" by (simp add: slash_def)
  ultimately have "normalise (path_join ?d ''../../x.txt'') = map ?f ?d @ slash # ''../../x.txt''"
    by (simp only: normalise_def p strip_id rev_rev_ident simp_thms)
  moreover have "has_dotdot ''../../x.txt''" by (simp add: has_dotdot_def)
  ultimately show ?thesis by (simp only: is_inside_iff has_dotdot_append simp_thms)
qed

section \<open>Properties\<close>

text \<open>C34. A report is about its session and complete for it: it lists exactly the logged events of the session in
  order, its time span covers each of them, its techniques are exactly those that the table assigns to the session's
  decoy events, each once, there is one IOC hit per matching response, and one entry is added to the chain. There is
  no report, no file and no entry exactly when the directory for it cannot be made.\<close>

theorem report_faithful:
  assumes "list_all (\<lambda>t. t < INT64_MAX) (map de_timestamp_ms decoy_log @ map rs_timestamp_ms response_log)"
  shows "let (result, disk', w') = generate_report (audit_add sha env) put mkdir now sbr sid decoy_log response_log (disk, w);
      des = filter (\<lambda>ev. de_attacker_tag ev = sid) decoy_log; res = filter (\<lambda>ev. rs_session_id ev = sid) response_log in
    case result of None \<Rightarrow> \<not> mkdir (path_join sbr ''reports'') \<and> disk' = disk \<and> w' = w | Some r \<Rightarrow>
    mkdir (path_join sbr ''reports'') \<and> ra_decoy_events r = des \<and> ra_response_events r = res \<and>
    list_all (in_span (ra_session_start_ms r, ra_session_end_ms r)) (map de_timestamp_ms des @ map rs_timestamp_ms res) \<and>
    distinct (map at_technique_id (ra_techniques r)) \<and>
    set (map at_technique_id (ra_techniques r)) = (\<Union>ev\<in>set des. event_ids ev) \<and>
    map ih_indicator (ra_ioc_hits r) = map rs_ioc_indicator (filter rs_ioc_match res) \<and>
    disk' = put (ra_report_file_path r) (build_report_text r) disk \<and>
    trail w' = trail w @ [(''attribution_report_generated'', report_payload r)]"
proof -
  let ?des = "filter (\<lambda>ev. de_attacker_tag ev = sid) decoy_log"
  let ?res = "filter (\<lambda>ev. rs_session_id ev = sid) response_log"
  let ?ts = "map de_timestamp_ms ?des @ map rs_timestamp_ms ?res"
  have "list_all (\<lambda>t. t < INT64_MAX) ?ts" using assms by (auto simp: list_all_iff)
  then have "list_all (in_span (session_span now ?ts)) ?ts"
    using session_span_covers by (simp only: list_all_iff) blast
  moreover have "map ih_indicator (map ioc_hit_of (filter rs_ioc_match ?res)) = map rs_ioc_indicator (filter rs_ioc_match ?res)"
    by (simp add: ioc_hit_of_def)
  ultimately show ?thesis
    using fold_techniques [of "[]" ?des]
    by (simp add: generate_report_def collect_report_def Let_def case_prod_beta chain.events_emit)
qed

definition demo_decoy_event :: decoy_event where
  "demo_decoy_event = \<lparr>de_timestamp_ms = 5, de_rel_path = ''home/.aws/credentials'', de_poison_type = CREDENTIAL,
     de_action = ''read'', de_attacker_tag = ''s1'', de_detail = []\<rparr>"

theorem report_faithful_witness:
  "let (result, disk', w') = generate_report (audit_add demo_sha demo_env) (\<lambda>p c d. d) (\<lambda>_. True) 9 ''/sb'' ''s1''
     [demo_decoy_event] [] ((), fresh_audit) in
   case result of None \<Rightarrow> False | Some r \<Rightarrow>
     ra_decoy_events r = [demo_decoy_event] \<and> set (map at_technique_id (ra_techniques r)) = event_ids demo_decoy_event"
proof -
  have "list_all (\<lambda>t. t < INT64_MAX) (map de_timestamp_ms [demo_decoy_event] @ map rs_timestamp_ms [])"
    by (simp add: demo_decoy_event_def INT64_MAX_def)
  from report_faithful [OF this, where sha = demo_sha and env = demo_env and put = "\<lambda>p c d. d" and mkdir = "\<lambda>_. True" and now = 9
      and sbr = "''/sb''" and sid = "''s1''" and disk = "()" and w = fresh_audit]
  show ?thesis by (simp add: Let_def case_prod_beta split: option.splits) (simp add: demo_decoy_event_def)
qed

text \<open>The session id goes into the file name unchecked: a session whose id climbs out of the reports directory
  has its report written to a path that the sandbox's own guard rejects, for any sandbox root.\<close>

theorem report_path_escapes:
  "let (result, disk', w') = generate_report (audit_add sha env) put mkdir now sbr ''../../x'' decoy_log response_log (disk, w) in
   case result of None \<Rightarrow> \<not> mkdir (path_join sbr ''reports'') | Some r \<Rightarrow> disk' = put (ra_report_file_path r) (build_report_text r) disk \<and> \<not> is_inside (ra_report_file_path r) sbr"
  using climbing_name_rejected [of sbr sbr]
  by (simp add: generate_report_def collect_report_def Let_def case_prod_beta)

end
