(* ===== verification/Json.thy ===== *)
theory Json
  imports Cxx_Strings
begin

text \<open>
  Parsed JSON values and the typed reads the sources do on them (\<^verbatim>\<open>contains\<close>, \<^verbatim>\<open>value(key, default)\<close>,
  \<^verbatim>\<open>get<T>()\<close>). The parser and the printer are vendored code and are arguments of the functions that use
  them; a read of the wrong type throws \<^verbatim>\<open>json::type_error\<close>.
\<close>

datatype json = JNull | JBool bool | JInt int | JReal real | JString string | JArray "json list"
  | JObject "(string \<times> json) list"

datatype json_error = Type_error

fun json_field :: "string \<Rightarrow> json \<Rightarrow> json option" where
  "json_field k (JObject kvs) = map_of kvs k"
| "json_field k j = None"

definition json_contains :: "string \<Rightarrow> json \<Rightarrow> bool" where
  "json_contains k j = (json_field k j \<noteq> None)"

section \<open>Fallible steps in sequence\<close>

fun and_then :: "'e + 'a \<Rightarrow> ('a \<Rightarrow> 'e + 'b) \<Rightarrow> 'e + 'b" where
  "and_then (Inl e) f = Inl e"
| "and_then (Inr x) f = f x"

lemma and_then_Inr: "and_then r f = Inr y \<longleftrightarrow> (\<exists>x. r = Inr x \<and> f x = Inr y)"
  by (cases r) auto

lemma and_then_succeeds: "(\<exists>y. and_then r f = Inr y) \<longleftrightarrow> (\<exists>x. r = Inr x \<and> (\<exists>y. f x = Inr y))"
  by (cases r) auto

lemma and_then_assoc: "and_then (and_then r f) g = and_then r (\<lambda>x. and_then (f x) g)"
  by (cases r) auto

section \<open>Typed reads\<close>

text \<open>Conversion to a 32-bit \<^verbatim>\<open>int\<close> and to \<^verbatim>\<open>uint16_t\<close>; a floating value is truncated first.\<close>

definition to_int32 :: "int \<Rightarrow> int" where
  "to_int32 i = (i + 2 ^ 31) mod 2 ^ 32 - 2 ^ 31"

definition to_u16 :: "int \<Rightarrow> int" where
  "to_u16 i = i mod 2 ^ 16"

definition trunc :: "real \<Rightarrow> int" where
  "trunc r = (if 0 \<le> r then \<lfloor>r\<rfloor> else \<lceil>r\<rceil>)"

fun get_string :: "json \<Rightarrow> json_error + string" where
  "get_string (JString s) = Inr s"
| "get_string j = Inl Type_error"

fun get_bool :: "json \<Rightarrow> json_error + bool" where
  "get_bool (JBool b) = Inr b"
| "get_bool j = Inl Type_error"

fun get_double :: "json \<Rightarrow> json_error + real" where
  "get_double (JInt i) = Inr (of_int i)"
| "get_double (JReal r) = Inr r"
| "get_double j = Inl Type_error"

text \<open>The integer types of the sources also accept a boolean.\<close>

fun get_integer :: "(int \<Rightarrow> int) \<Rightarrow> json \<Rightarrow> json_error + int" where
  "get_integer conv (JInt i) = Inr (conv i)"
| "get_integer conv (JReal r) = Inr (conv (trunc r))"
| "get_integer conv (JBool b) = Inr (if b then 1 else 0)"
| "get_integer conv j = Inl Type_error"

abbreviation get_int :: "json \<Rightarrow> json_error + int" where
  "get_int \<equiv> get_integer to_int32"

abbreviation get_uint16 :: "json \<Rightarrow> json_error + int" where
  "get_uint16 \<equiv> get_integer to_u16"

text \<open>\<^verbatim>\<open>j.value(key, default)\<close>.\<close>

definition json_value :: "(json \<Rightarrow> json_error + 'a) \<Rightarrow> string \<Rightarrow> 'a \<Rightarrow> json \<Rightarrow> json_error + 'a" where
  "json_value get k d j =
     (case j of
        JObject kvs \<Rightarrow> (case map_of kvs k of None \<Rightarrow> Inr d | Some v \<Rightarrow> get v)
      | _ \<Rightarrow> Inl Type_error)"

lemma to_int32_id [simp]: "- (2 ^ 31) \<le> i \<Longrightarrow> i < 2 ^ 31 \<Longrightarrow> to_int32 i = i"
  by (simp add: to_int32_def)

lemma to_u16_id [simp]: "0 \<le> i \<Longrightarrow> i < 2 ^ 16 \<Longrightarrow> to_u16 i = i"
  by (simp add: to_u16_def)

lemma to_int32_range: "- (2 ^ 31) \<le> to_int32 i \<and> to_int32 i < 2 ^ 31"
  by (simp add: to_int32_def)

lemma json_value_object: "json_value get k d (JObject kvs) = (case map_of kvs k of None \<Rightarrow> Inr d | Some v \<Rightarrow> get v)"
  by (simp add: json_value_def)

end
