(* ===== verification/GraniteClient.thy ===== *)
theory GraniteClient
  imports Json AuditChain
begin

text \<open>
  \<^verbatim>\<open>agents/controller/granite_client\<close>: the client of the local language-model server. One request runs over
  a socket whose behaviour is a script (\<open>ollama_io\<close>): what the calls return and, before each send and
  receive, whether the deadline has passed. A script that ends stands for a peer that closes the
  connection. Printing JSON may throw (\<^verbatim>\<open>dump\<close> rejects text that is not UTF-8); it is then \<open>None\<close>.
\<close>

section \<open>Model tiers\<close>

datatype granite_model = FAST | HEAVY | ACCURACY | ORCHESTRATOR

definition FAST_MODEL_TAG :: string where
  "FAST_MODEL_TAG = ''granite3.1-moe:3b''"

definition HEAVY_MODEL_TAG :: string where
  "HEAVY_MODEL_TAG = ''granite3.1-dense:8b''"

definition ACCURACY_MODEL_TAG :: string where
  "ACCURACY_MODEL_TAG = ''ibm/granite4.1:8b-q5_K_M''"

definition ORCHESTRATOR_MODEL_TAG :: string where
  "ORCHESTRATOR_MODEL_TAG = ''ibm/granite4.1:8b-q5_K_M''"

definition ALLOWED_MODELS :: "string list" where
  "ALLOWED_MODELS = [FAST_MODEL_TAG, HEAVY_MODEL_TAG, ACCURACY_MODEL_TAG]"

definition is_allowed_model :: "string \<Rightarrow> bool" where
  "is_allowed_model tag = list_ex (\<lambda>m. m = tag) ALLOWED_MODELS"

text \<open>The tag and the timeout in milliseconds of a tier.\<close>

fun model_tag :: "granite_model \<Rightarrow> string" where
  "model_tag FAST = FAST_MODEL_TAG"
| "model_tag HEAVY = HEAVY_MODEL_TAG"
| "model_tag ACCURACY = ACCURACY_MODEL_TAG"
| "model_tag ORCHESTRATOR = ORCHESTRATOR_MODEL_TAG"

fun model_timeout :: "granite_model \<Rightarrow> int" where
  "model_timeout FAST = 30000"
| "model_timeout HEAVY = 60000"
| "model_timeout ACCURACY = 360000"
| "model_timeout ORCHESTRATOR = 360000"

section \<open>State\<close>

record granite_response =
  gr_ok :: bool
  gr_text :: string
  gr_model_used :: string
  gr_tokens_used :: "int option" \<comment> \<open>\<open>None\<close>: never assigned\<close>

record granite_client =
  gc_inflight_async :: int
  gc_inflight_fast :: int
  gc_inflight_heavy :: int
  gc_inflight_accuracy :: int

definition new_granite_client :: granite_client where
  "new_granite_client = \<lparr>gc_inflight_async = 0, gc_inflight_fast = 0, gc_inflight_heavy = 0, gc_inflight_accuracy = 0\<rparr>"

fun increment_inflight :: "granite_model \<Rightarrow> granite_client \<Rightarrow> granite_client" where
  "increment_inflight FAST c = c\<lparr>gc_inflight_fast := gc_inflight_fast c + 1\<rparr>"
| "increment_inflight HEAVY c = c\<lparr>gc_inflight_heavy := gc_inflight_heavy c + 1\<rparr>"
| "increment_inflight ACCURACY c = c\<lparr>gc_inflight_accuracy := gc_inflight_accuracy c + 1\<rparr>"
| "increment_inflight ORCHESTRATOR c = c\<lparr>gc_inflight_accuracy := gc_inflight_accuracy c + 1\<rparr>"

fun decrement_inflight :: "granite_model \<Rightarrow> granite_client \<Rightarrow> granite_client" where
  "decrement_inflight FAST c = c\<lparr>gc_inflight_fast := gc_inflight_fast c - 1\<rparr>"
| "decrement_inflight HEAVY c = c\<lparr>gc_inflight_heavy := gc_inflight_heavy c - 1\<rparr>"
| "decrement_inflight ACCURACY c = c\<lparr>gc_inflight_accuracy := gc_inflight_accuracy c - 1\<rparr>"
| "decrement_inflight ORCHESTRATOR c = c\<lparr>gc_inflight_accuracy := gc_inflight_accuracy c - 1\<rparr>"

section \<open>One request\<close>

definition NUL :: char where
  "NUL = CHR 0x00"

text \<open>A string literal that is passed as a \<^verbatim>\<open>const char*\<close> ends at its first NUL.\<close>

definition c_string :: "string \<Rightarrow> string" where
  "c_string s = takeWhile (\<lambda>c. c \<noteq> NUL) s"

record ollama_io =
  io_resolved :: bool
  io_socket :: bool
  io_selected :: bool
  io_connected :: bool
  io_sends :: "(bool \<times> int) list"
  io_recvs :: "(bool \<times> string) list"

definition chat_body :: "string \<Rightarrow> string \<Rightarrow> string \<Rightarrow> int \<Rightarrow> real \<Rightarrow> json" where
  "chat_body tag system user max_tokens temperature =
     JObject
       [(''messages'', JArray
          [JObject [(''content'', JString system), (''role'', JString ''system'')],
           JObject [(''content'', JString user), (''role'', JString ''user'')]]),
        (''model'', JString tag),
        (''options'', JObject [(''num_predict'', JInt max_tokens), (''temperature'', JReal temperature)]),
        (''stream'', JBool False)]"

definition http_request :: "string \<Rightarrow> string \<Rightarrow> int \<Rightarrow> string \<Rightarrow> string" where
  "http_request path host port body =
     ''POST '' @ path @ '' HTTP/1.0'' @ crlf
     @ ''Host: '' @ host @ '':'' @ str_of_int port @ crlf
     @ ''Content-Type: application/json'' @ crlf
     @ ''Content-Length: '' @ str_of_nat (length body) @ crlf
     @ ''Connection: close'' @ crlf @ crlf @ body"

datatype send_outcome = Send_done | Send_deadline | Send_failed

fun send_all :: "int \<Rightarrow> (bool \<times> int) list \<Rightarrow> send_outcome" where
  "send_all remaining script =
     (if remaining \<le> 0 then Send_done
      else (case script of
              [] \<Rightarrow> Send_failed
            | (late, sent) # rest \<Rightarrow>
                if late then Send_deadline
                else if sent \<le> 0 then Send_failed
                else send_all (remaining - sent) rest))"

definition MAX_RESPONSE_BYTES :: nat where
  "MAX_RESPONSE_BYTES = 8 * 1024 * 1024"

text \<open>The receive loop: what was received and whether the size limit was exceeded.\<close>

fun recv_all :: "string \<Rightarrow> (bool \<times> string) list \<Rightarrow> string \<times> bool" where
  "recv_all acc [] = (acc, False)"
| "recv_all acc ((late, chunk) # rest) =
     (if late then (acc @ c_string (NUL # ''DEADLINE''), False)
      else if chunk = [] then (acc, False)
      else if length (acc @ chunk) > MAX_RESPONSE_BYTES then (acc @ chunk, True)
      else recv_all (acc @ chunk) rest)"

definition http_body :: "string \<Rightarrow> string" where
  "http_body response = (case find_sub (crlf @ crlf) response of None \<Rightarrow> [] | Some i \<Rightarrow> drop (i + 4) response)"

definition call_ollama_api ::
    "(json \<Rightarrow> string option) \<Rightarrow> string \<Rightarrow> int \<Rightarrow> ollama_io \<Rightarrow> string \<Rightarrow> string \<Rightarrow> string \<Rightarrow> int \<Rightarrow> real \<Rightarrow> string option" where
  "call_ollama_api dump host port io tag system user max_tokens temperature =
     (case dump (chat_body tag system user max_tokens temperature) of
        None \<Rightarrow> None
      | Some body \<Rightarrow> Some
          (if \<not> io_resolved io \<or> \<not> io_socket io \<or> \<not> io_selected io \<or> \<not> io_connected io then []
           else (case send_all (int (length (http_request ''/api/chat'' host port body))) (io_sends io) of
                   Send_deadline \<Rightarrow> NUL # ''DEADLINE''
                 | Send_failed \<Rightarrow> []
                 | Send_done \<Rightarrow>
                     (let (response, size_exceeded) = recv_all [] (io_recvs io) in
                      if size_exceeded then c_string (NUL # ''TRUNCATED'') else http_body response))))"

definition ping :: "ollama_io \<Rightarrow> bool" where
  "ping io = (io_resolved io \<and> io_socket io \<and> io_selected io)"

section \<open>Generation\<close>

record granite_env =
  ge_dump :: "json \<Rightarrow> string option"
  ge_parse :: "string \<Rightarrow> json option"
  ge_host :: string
  ge_port :: int

definition ORCHESTRATOR_PROMPT_PREFIX :: string where
  "ORCHESTRATOR_PROMPT_PREFIX = concat [nl,
     ''You are the Astartis Swarm Orchestrator. You coordinate multiple specialized security AI agents.'', nl,
     ''Your job is to:'', nl,
     ''1. Break complex tasks into sub-tasks assignable to specialist agents'', nl,
     ''2. Track which agents are available and their current load'', nl,
     ''3. Synthesize outputs from multiple agents into coherent plans'', nl,
     ''4. Detect conflicts or gaps in agent outputs'', nl,
     ''5. Escalate to human operator when confidence is low'', nl, nl,
     ''When responding, always structure your output as:'', nl,
     ''- EXECUTIVE_SUMMARY: One paragraph'', nl,
     ''- AGENT_ASSIGNMENTS: Which agents should handle which sub-tasks'', nl,
     ''- DEPENDENCIES: Order of operations'', nl,
     ''- RISK_ASSESSMENT: What could go wrong'', nl,
     ''- HUMAN_ESCALATION: Yes/No with reason'', nl, nl]"

definition failed_response :: "string \<Rightarrow> granite_response" where
  "failed_response used = \<lparr>gr_ok = False, gr_text = [], gr_model_used = used, gr_tokens_used = None\<rparr>"

text \<open>The content of a reply; a read of the wrong type throws.\<close>

definition reply_text :: "json \<Rightarrow> json_error + string" where
  "reply_text j =
     (case json_field ''message'' j of
        Some m \<Rightarrow>
          (case json_field ''content'' m of
             Some c \<Rightarrow> get_string c
           | None \<Rightarrow> (case json_field ''response'' j of Some r \<Rightarrow> get_string r | None \<Rightarrow> Inr []))
      | None \<Rightarrow> (case json_field ''response'' j of Some r \<Rightarrow> get_string r | None \<Rightarrow> Inr []))"

definition read_reply :: "(string \<Rightarrow> json option) \<Rightarrow> string \<Rightarrow> string \<Rightarrow> granite_response" where
  "read_reply parse tag raw =
     (case parse raw of
        None \<Rightarrow> failed_response ''parse_error''
      | Some j \<Rightarrow>
          if json_contains ''error'' j then failed_response ''unavailable''
          else (case reply_text j of
                  Inl e \<Rightarrow> failed_response ''parse_error''
                | Inr text \<Rightarrow>
                    if text = [] then failed_response ''unavailable''
                    else (case json_value get_int ''eval_count'' 0 j of
                            Inl e \<Rightarrow> (failed_response ''parse_error'')\<lparr>gr_text := text\<rparr>
                          | Inr n \<Rightarrow> \<lparr>gr_ok = True, gr_text = text, gr_model_used = tag, gr_tokens_used = Some n\<rparr>)))"

text \<open>\<open>None\<close> as the response stands for an exception that leaves \<^verbatim>\<open>generate\<close>.\<close>

definition generate ::
    "'w audit_adder \<Rightarrow> granite_env \<Rightarrow> ollama_io \<Rightarrow> granite_model \<Rightarrow> string \<Rightarrow> string \<Rightarrow> int \<Rightarrow> real
       \<Rightarrow> granite_client \<times> 'w \<Rightarrow> granite_response option \<times> granite_client \<times> 'w" where
  "generate add e io m system user max_tokens temperature = (\<lambda>(c, w).
     let tag = model_tag m in
     if \<not> is_allowed_model tag then
       (Some (failed_response ''rejected''), c,
        emit add ''ai_model_rejected'' (''requested='' @ tag @ '' reason=not_local_granite'') w)
     else
       let c1 = increment_inflight m c;
           w1 = (if m = ORCHESTRATOR
                 then emit add ''orchestrator_prefix_injected'' (''agent_prompt_len='' @ str_of_nat (length system)) w
                 else w);
           prompt = (if m = ORCHESTRATOR then ORCHESTRATOR_PROMPT_PREFIX @ system else system)
       in (case call_ollama_api (ge_dump e) (ge_host e) (ge_port e) io tag prompt user max_tokens temperature of
             None \<Rightarrow> (None, c1, w1)
           | Some raw \<Rightarrow>
               if raw = [] then (Some (failed_response ''unavailable''), c1, w1)
               else if contains (c_string (NUL # ''TRUNCATED'')) raw then
                 (Some (failed_response ''truncated_response''), c1,
                  emit add ''ollama_response_truncated'' (''model='' @ tag @ '' reason=max_size_exceeded'') w1)
               else if contains (c_string (NUL # ''DEADLINE'')) raw then
                 (Some (failed_response ''timeout''), c1,
                  emit add ''ollama_response_timeout'' (''model='' @ tag) w1)
               else (Some (read_reply (ge_parse e) tag raw), decrement_inflight m c1, w1)))"

definition generateAsync ::
    "'w audit_adder \<Rightarrow> granite_env \<Rightarrow> ollama_io \<Rightarrow> granite_model \<Rightarrow> string \<Rightarrow> string \<Rightarrow> int \<Rightarrow> real
       \<Rightarrow> granite_client \<times> 'w \<Rightarrow> granite_response option \<times> granite_client \<times> 'w" where
  "generateAsync add e io m system user max_tokens temperature = (\<lambda>(c, w).
     let (r, c1, w1) = generate add e io m system user max_tokens temperature
           (c\<lparr>gc_inflight_async := gc_inflight_async c + 1\<rparr>, w)
     in (r, (case r of None \<Rightarrow> c1 | Some _ \<Rightarrow> c1\<lparr>gc_inflight_async := gc_inflight_async c1 - 1\<rparr>), w1))"

section \<open>Keep-alive\<close>

definition keep_alive_tiers :: "granite_client \<Rightarrow> (string \<times> int) list" where
  "keep_alive_tiers c = [(FAST_MODEL_TAG, gc_inflight_fast c), (HEAVY_MODEL_TAG, gc_inflight_heavy c),
     (ACCURACY_MODEL_TAG, gc_inflight_accuracy c)]"

text \<open>One pass of the keep-alive thread; \<open>running\<close> holds what \<^verbatim>\<open>keep_alive_running_\<close> reads before each tier.\<close>

fun keep_alive_pass :: "bool list \<Rightarrow> (string \<times> int) list \<Rightarrow> string list" where
  "keep_alive_pass (True # rs) ((tag, n) # ts) =
     (if n > 0 then keep_alive_pass rs ts else tag # keep_alive_pass rs ts)"
| "keep_alive_pass rs ts = []"

section \<open>Lemmas\<close>

lemma every_tag_allowed [simp]: "is_allowed_model (model_tag m)"
  by (cases m) (simp_all add: is_allowed_model_def ALLOWED_MODELS_def ORCHESTRATOR_MODEL_TAG_def ACCURACY_MODEL_TAG_def)

lemma c_string_sentinel [simp]: "c_string (NUL # s) = []"
  by (simp add: c_string_def)

text \<open>The sentinel that \<^verbatim>\<open>generate\<close> looks for is the empty string, which occurs in every reply.\<close>

lemma generate_cases:
  "generate add e io m system user max_tokens temperature (c, w) =
     (let w1 = (if m = ORCHESTRATOR
                then emit add ''orchestrator_prefix_injected'' (''agent_prompt_len='' @ str_of_nat (length system)) w
                else w);
          prompt = (if m = ORCHESTRATOR then ORCHESTRATOR_PROMPT_PREFIX @ system else system)
      in (case call_ollama_api (ge_dump e) (ge_host e) (ge_port e) io (model_tag m) prompt user max_tokens temperature of
            None \<Rightarrow> (None, increment_inflight m c, w1)
          | Some raw \<Rightarrow>
              if raw = [] then (Some (failed_response ''unavailable''), increment_inflight m c, w1)
              else (Some (failed_response ''truncated_response''), increment_inflight m c,
                    emit add ''ollama_response_truncated'' (''model='' @ model_tag m @ '' reason=max_size_exceeded'') w1)))"
  unfolding generate_def by (simp add: Let_def split: option.split)

lemma generate_client: "fst (snd (generate add e io m system user k t (c, w))) = increment_inflight m c"
  by (simp add: generate_cases Let_def split: option.split)

lemma generate_response:
  "fst (generate add e io m system user k t (c, w)) \<in>
     {None, Some (failed_response ''unavailable''), Some (failed_response ''truncated_response'')}"
  by (simp add: generate_cases Let_def split: option.split)

lemma recv_all_bound:
  "recv_all acc script = (r, False) \<Longrightarrow> length acc \<le> MAX_RESPONSE_BYTES \<Longrightarrow> length r \<le> MAX_RESPONSE_BYTES"
  by (induction acc script rule: recv_all.induct) (auto split: if_splits)

lemma http_body_length: "length (http_body r) \<le> length r"
  by (simp add: http_body_def split: option.split)

definition tag_counter :: "granite_model \<Rightarrow> granite_client \<Rightarrow> int" where
  "tag_counter m c = (case m of FAST \<Rightarrow> gc_inflight_fast c | HEAVY \<Rightarrow> gc_inflight_heavy c
     | _ \<Rightarrow> gc_inflight_accuracy c)"

lemma tag_counter_new [simp]: "tag_counter m new_granite_client = 0"
  by (simp add: tag_counter_def new_granite_client_def split: granite_model.split)

lemma tag_counter_increment:
  "tag_counter m (increment_inflight n c) = tag_counter m c + (if model_tag m = model_tag n then 1 else 0)"
  by (cases m; cases n) (simp_all add: tag_counter_def FAST_MODEL_TAG_def HEAVY_MODEL_TAG_def ACCURACY_MODEL_TAG_def
      ORCHESTRATOR_MODEL_TAG_def)

lemma keep_alive_pass_idle: "tag \<in> set (keep_alive_pass rs ts) \<Longrightarrow> \<exists>n. (tag, n) \<in> set ts \<and> n \<le> 0"
  by (induction rs ts rule: keep_alive_pass.induct) (auto split: if_splits)

lemma keep_alive_tier: "(model_tag m, n) \<in> set (keep_alive_tiers c) \<Longrightarrow> n = tag_counter m c"
  by (cases m) (auto simp: keep_alive_tiers_def tag_counter_def FAST_MODEL_TAG_def HEAVY_MODEL_TAG_def ACCURACY_MODEL_TAG_def
      ORCHESTRATOR_MODEL_TAG_def)

record generate_request =
  rq_io :: ollama_io
  rq_model :: granite_model
  rq_system :: string
  rq_user :: string
  rq_max_tokens :: int
  rq_temperature :: real

definition generate_all ::
    "'w audit_adder \<Rightarrow> granite_env \<Rightarrow> generate_request list \<Rightarrow> granite_client \<times> 'w \<Rightarrow> granite_client \<times> 'w" where
  "generate_all add e rs s = fold (\<lambda>r. snd \<circ> generate add e (rq_io r) (rq_model r) (rq_system r) (rq_user r)
     (rq_max_tokens r) (rq_temperature r)) rs s"

lemma generate_all_counter:
  "tag_counter m (fst (generate_all add e rs (c, w))) =
   tag_counter m c + int (length (filter (\<lambda>r. model_tag (rq_model r) = model_tag m) rs))"
proof (induction rs arbitrary: c w)
  case (Cons r rs)
  obtain c1 w1 where s: "snd (generate add e (rq_io r) (rq_model r) (rq_system r) (rq_user r)
      (rq_max_tokens r) (rq_temperature r) (c, w)) = (c1, w1)" by fastforce
  then have "c1 = increment_inflight (rq_model r) c" using generate_client by (metis fst_conv)
  with Cons.IH [of c1 w1] s show ?case
    by (simp add: generate_all_def tag_counter_increment)
qed (simp add: generate_all_def)

section \<open>Properties\<close>

text \<open>No request succeeds: the sentinels begin with a NUL and are passed as C strings, so the test for a
  truncated reply matches every reply. Whatever the server answers, the response is not ok and carries no text,
  a non-empty reply is reported as truncated, and the in-flight counter of the tier stays raised.\<close>

theorem granite_never_ok:
  "(case generate add e io m system user k t (c, w) of (r, c', w') \<Rightarrow>
      r = map_option (\<lambda>raw. failed_response (if raw = [] then ''unavailable'' else ''truncated_response''))
            (call_ollama_api (ge_dump e) (ge_host e) (ge_port e) io (model_tag m)
               (if m = ORCHESTRATOR then ORCHESTRATOR_PROMPT_PREFIX @ system else system) user k t)
      \<and> c' = increment_inflight m c)"
  by (simp add: generate_cases Let_def split: option.split)

text \<open>The leaked counters starve the keep-alive thread: once a tier has served a request, no later pass
  pings its model, whatever the requests and however often the thread runs.\<close>

theorem keep_alive_starved:
  "set (keep_alive_pass rs (keep_alive_tiers (fst (generate_all add e reqs (new_granite_client, w)))))
     \<inter> (model_tag \<circ> rq_model) ` set reqs = {}"
proof -
  have False if tag: "tag \<in> set (keep_alive_pass rs (keep_alive_tiers (fst (generate_all add e reqs (new_granite_client, w)))))"
    and r: "r \<in> set reqs" "tag = model_tag (rq_model r)" for tag r
  proof -
    from keep_alive_pass_idle [OF tag] obtain n where
      "(tag, n) \<in> set (keep_alive_tiers (fst (generate_all add e reqs (new_granite_client, w))))" "n \<le> 0" by blast
    then have "tag_counter (rq_model r) (fst (generate_all add e reqs (new_granite_client, w))) \<le> 0"
      using keep_alive_tier r(2) by metis
    then have "filter (\<lambda>q. model_tag (rq_model q) = model_tag (rq_model r)) reqs = []"
      by (simp add: generate_all_counter)
    with r(1) show False by (auto simp: filter_empty_conv)
  qed
  then show ?thesis by auto
qed

text \<open>What a request returns is bounded by eight megabytes, whatever the peer sends.\<close>

theorem ollama_reply_bounded:
  "(case call_ollama_api dump host port io tag system user k t of
      None \<Rightarrow> True
    | Some raw \<Rightarrow> length raw \<le> MAX_RESPONSE_BYTES)"
proof -
  have "length (http_body r) \<le> MAX_RESPONSE_BYTES" if "recv_all [] (io_recvs io) = (r, False)" for r
    using recv_all_bound [OF that] http_body_length [of r] by simp
  then show ?thesis
    by (auto simp: call_ollama_api_def MAX_RESPONSE_BYTES_def Let_def split: option.split send_outcome.split prod.split)
qed

end
