(* ===== verification/Personas.thy ===== *)
theory Personas
  imports GraniteClient
begin

text \<open>
  \<^verbatim>\<open>agents/controller/persona_loader\<close> and \<^verbatim>\<open>agents/ecc/ecc_adapter\<close>: agent personas, read from a JSON
  definition or from a Markdown file with a front matter. A file is its content, \<open>None\<close> when it cannot be
  opened; the JSON parser is an argument that returns a value or the text of its exception.
\<close>

section \<open>Personas\<close>

record agent_persona =
  ap_name :: string
  ap_description :: string
  ap_category :: string
  ap_preferred_model :: granite_model
  ap_system_prompt :: string
  ap_skills :: "string list"
  ap_max_tokens :: int
  ap_temperature :: real
  ap_input_schema :: string
  ap_output_schema :: string

datatype task_priority = PRIO_HIGH | PRIO_NORMAL | PRIO_LOW

datatype persona_error = Persona_runtime_error string | Persona_type_error

definition as_persona :: "json_error + 'a \<Rightarrow> persona_error + 'a" where
  "as_persona r = (case r of Inl e \<Rightarrow> Inl Persona_type_error | Inr x \<Rightarrow> Inr x)"

definition tier_of_name :: "string \<Rightarrow> granite_model" where
  "tier_of_name s =
     (let n = tolower s in
      if n = ''fast'' then FAST
      else if n = ''heavy'' then HEAVY
      else if n = ''accuracy'' then ACCURACY
      else if n = ''orchestrator'' then ORCHESTRATOR
      else HEAVY)"

definition json_strings :: "json \<Rightarrow> string list" where
  "json_strings j = (case j of JArray xs \<Rightarrow> concat (map (\<lambda>x. case x of JString s \<Rightarrow> [s] | _ \<Rightarrow> []) xs) | _ \<Rightarrow> [])"

definition persona_of_json :: "json \<Rightarrow> json_error + agent_persona" where
  "persona_of_json j =
     and_then (json_value get_string ''name'' [] j) (\<lambda>name.
     and_then (json_value get_string ''description'' [] j) (\<lambda>description.
     and_then (json_value get_string ''category'' [] j) (\<lambda>category.
     and_then (json_value get_string ''system_prompt'' [] j) (\<lambda>system_prompt.
     and_then (json_value get_int ''max_tokens'' 512 j) (\<lambda>max_tokens.
     and_then (json_value get_double ''temperature'' (1 / 5) j) (\<lambda>temperature.
     and_then (json_value get_string ''input_schema'' [] j) (\<lambda>input_schema.
     and_then (json_value get_string ''output_schema'' [] j) (\<lambda>output_schema.
     and_then (json_value get_string ''granite_model'' ''heavy'' j) (\<lambda>model.
       Inr \<lparr>ap_name = name, ap_description = description, ap_category = category,
            ap_preferred_model = tier_of_name model, ap_system_prompt = system_prompt,
            ap_skills = (case json_field ''skills'' j of Some a \<Rightarrow> json_strings a | None \<Rightarrow> []),
            ap_max_tokens = max_tokens, ap_temperature = temperature,
            ap_input_schema = input_schema, ap_output_schema = output_schema\<rparr>)))))))))"

definition load_from_json ::
    "(string \<Rightarrow> string + json) \<Rightarrow> (string \<Rightarrow> string option) \<Rightarrow> string \<Rightarrow> persona_error + agent_persona" where
  "load_from_json parse read path =
     (case read path of
        None \<Rightarrow> Inl (Persona_runtime_error (''Cannot open persona file: '' @ path))
      | Some content \<Rightarrow>
          (case parse content of
             Inl what \<Rightarrow> Inl (Persona_runtime_error (''Persona parse error in '' @ path @ '': '' @ what))
           | Inr j \<Rightarrow> as_persona (persona_of_json j)))"

definition validate_persona :: "agent_persona \<Rightarrow> bool" where
  "validate_persona p =
     (if ap_name p = [] then False
      else if ap_system_prompt p = [] then False
      else if ap_max_tokens p < 1 then False
      else if ap_temperature p < 0 \<or> ap_temperature p > 2 then False
      else True)"

definition is_granite_only :: "agent_persona \<Rightarrow> bool" where
  "is_granite_only p = (ap_preferred_model p = FAST \<or> ap_preferred_model p = HEAVY \<or>
     ap_preferred_model p = ACCURACY \<or> ap_preferred_model p = ORCHESTRATOR)"

section \<open>Front matter\<close>

definition is_blank :: "char \<Rightarrow> bool" where
  "is_blank c = (c = CHR '' '' \<or> c = CHR 0x09 \<or> c = CHR 0x0D \<or> c = CHR 0x0A)"

definition trim :: "string \<Rightarrow> string" where
  "trim s = trim_with is_blank s"

definition unquote :: "string \<Rightarrow> string" where
  "unquote s =
     (let t = trim s in
      if length t \<ge> 2 \<and> hd t = CHR 0x22 \<and> last t = CHR 0x22 then take (length t - 2) (drop 1 t) else t)"

definition yaml_to_snake_case :: "string \<Rightarrow> string" where
  "yaml_to_snake_case name = map (\<lambda>c. if c = CHR ''-'' then CHR ''_'' else tolower_char c) name"

definition parse_yaml_array :: "string \<Rightarrow> string list" where
  "parse_yaml_array v =
     (let s = trim v in
      if s = [] then []
      else
        let s1 = (if hd s = CHR ''['' then drop 1 s else s);
            s2 = (if s1 \<noteq> [] \<and> last s1 = CHR '']'' then butlast s1 else s1)
        in filter (\<lambda>item. item \<noteq> []) (map (\<lambda>token. unquote (trim token)) (getlines (CHR '','') s2)))"

definition parse_model_hint :: "string \<Rightarrow> granite_model" where
  "parse_model_hint hint =
     (let h = tolower (trim hint) in
      if h = ''opus'' then ORCHESTRATOR
      else if h = ''sonnet'' then ACCURACY
      else if h = ''haiku'' then HEAVY
      else if h = ''fast'' \<or> h = ''mini'' then FAST
      else if h = ''accuracy'' then ACCURACY
      else if h = ''orchestrator'' then ORCHESTRATOR
      else if h = ''heavy'' then HEAVY
      else HEAVY)"

record ecc_frontmatter =
  fm_name :: string
  fm_description :: string
  fm_tools :: "string list"
  fm_model_hint :: string
  fm_color :: string
  fm_body :: string

definition blank_frontmatter :: ecc_frontmatter where
  "blank_frontmatter = \<lparr>fm_name = [], fm_description = [], fm_tools = [], fm_model_hint = [], fm_color = [], fm_body = []\<rparr>"

text \<open>One line of the front matter.\<close>

definition fm_line :: "string \<Rightarrow> ecc_frontmatter \<Rightarrow> ecc_frontmatter" where
  "fm_line line fm =
     (case find_sub '':'' line of
        None \<Rightarrow> fm
      | Some colon \<Rightarrow>
          let key = tolower (trim (take colon line)); val = trim (drop (colon + 1) line) in
          if key = ''name'' then fm\<lparr>fm_name := unquote val\<rparr>
          else if key = ''description'' then fm\<lparr>fm_description := unquote val\<rparr>
          else if key = ''model'' then fm\<lparr>fm_model_hint := unquote val\<rparr>
          else if key = ''color'' then fm\<lparr>fm_color := unquote val\<rparr>
          else if key = ''tools'' then fm\<lparr>fm_tools := parse_yaml_array val\<rparr>
          else fm)"

text \<open>The lines up to the closing dashes, and the lines after them.\<close>

fun fm_lines :: "string list \<Rightarrow> ecc_frontmatter \<Rightarrow> ecc_frontmatter \<times> string list" where
  "fm_lines [] fm = (fm, [])"
| "fm_lines (line # rest) fm = (if trim line = ''---'' then (fm, rest) else fm_lines rest (fm_line line fm))"

definition is_bom :: "char \<Rightarrow> bool" where
  "is_bom c = (c = CHR 0xEF \<or> c = CHR 0xBB \<or> c = CHR 0xBF)"

definition skip_bom :: "string \<Rightarrow> string" where
  "skip_bom s = (if list_all is_bom s then s else dropWhile is_bom s)"

definition parse_frontmatter :: "string \<Rightarrow> ecc_frontmatter" where
  "parse_frontmatter md =
     (if md = [] then blank_frontmatter
      else (case getlines (CHR 0x0A) (skip_bom md) of
              [] \<Rightarrow> blank_frontmatter
            | line # rest \<Rightarrow>
                if trim line \<noteq> ''---'' then blank_frontmatter
                else
                  let (fm, body) = fm_lines rest blank_frontmatter
                  in fm\<lparr>fm_body := trim (concat (map (\<lambda>l. l @ nl) body))\<rparr>))"

definition to_agent_persona :: "ecc_frontmatter \<Rightarrow> agent_persona" where
  "to_agent_persona fm =
     \<lparr>ap_name = yaml_to_snake_case (fm_name fm), ap_description = fm_description fm, ap_category = ''pen_test'',
      ap_preferred_model = parse_model_hint (fm_model_hint fm), ap_system_prompt = fm_body fm, ap_skills = [],
      ap_max_tokens = 2048, ap_temperature = 1 / 5, ap_input_schema = [], ap_output_schema = []\<rparr>"

text \<open>The last component of a path, and its extension and stem.\<close>

definition path_filename :: "string \<Rightarrow> string" where
  "path_filename p = rev (takeWhile (\<lambda>c. c \<noteq> CHR ''/'' \<and> c \<noteq> backslash) (rev p))"

definition path_extension :: "string \<Rightarrow> string" where
  "path_extension p =
     (let f = path_filename p in
      case rfind_char (CHR ''.'') f of
        None \<Rightarrow> []
      | Some i \<Rightarrow> if i = 0 \<or> f = ''..'' then [] else drop i f)"

definition path_stem :: "string \<Rightarrow> string" where
  "path_stem p = (let f = path_filename p in take (length f - length (path_extension p)) f)"

definition is_ecc_file :: "(string \<Rightarrow> string option) \<Rightarrow> string \<Rightarrow> bool" where
  "is_ecc_file read path =
     (if path_extension path \<noteq> ''.md'' then False
      else (case read path of
              None \<Rightarrow> False
            | Some content \<Rightarrow>
                (case getlines (CHR 0x0A) content of [] \<Rightarrow> False | line # _ \<Rightarrow> trim line = ''---'')))"

text \<open>\<^verbatim>\<open>load_from_md\<close>: the persona written to the output argument, and whether it is valid.\<close>

definition load_from_md :: "(string \<Rightarrow> string option) \<Rightarrow> string \<Rightarrow> agent_persona option \<times> bool" where
  "load_from_md read path =
     (if \<not> is_ecc_file read path then (None, False)
      else (case read path of
              None \<Rightarrow> (None, False)
            | Some content \<Rightarrow>
                let fm = parse_frontmatter content in
                if fm_name fm = [] then (None, False)
                else if fm_body fm = [] then (None, False)
                else (Some (to_agent_persona fm), validate_persona (to_agent_persona fm))))"

section \<open>Lemmas\<close>

lemma tier_is_granite [simp]: "is_granite_only p"
  by (cases "ap_preferred_model p") (simp_all add: is_granite_only_def)

lemma valid_iff:
  "validate_persona p \<longleftrightarrow> ap_name p \<noteq> [] \<and> ap_system_prompt p \<noteq> [] \<and> 1 \<le> ap_max_tokens p
     \<and> 0 \<le> ap_temperature p \<and> ap_temperature p \<le> 2"
  by (auto simp: validate_persona_def)

lemma load_from_md_valid: "load_from_md read path = (Some p, True) \<Longrightarrow> validate_persona p"
  by (auto simp: load_from_md_def Let_def split: if_splits option.splits)

subsection \<open>Trimming\<close>

lemma trim_Nil [simp]: "trim [] = []"
  by (simp add: trim_def trim_with_def)

lemma trim_blank [simp]: "is_blank c \<Longrightarrow> trim (c # s) = trim s"
  by (simp add: trim_def trim_with_def)

lemma trim_solid: "\<not> is_blank c \<Longrightarrow> trim (c # s) = c # rev (dropWhile is_blank (rev s))"
  by (simp add: trim_def trim_with_def dropWhile_append3)

lemma trimmed_parts:
  assumes "trim s = s"
  shows "dropWhile is_blank s = s" and "dropWhile is_blank (rev s) = rev s"
proof -
  have "length (trim s) \<le> length (dropWhile is_blank s)"
    unfolding trim_def trim_with_def by (metis length_dropWhile_le length_rev)
  with assms have "length s \<le> length (dropWhile is_blank s)" by simp
  moreover have "length (takeWhile is_blank s) + length (dropWhile is_blank s) = length s"
    by (metis length_append takeWhile_dropWhile_id)
  ultimately have "length (takeWhile is_blank s) = 0" by linarith
  then have "takeWhile is_blank s = []" by (simp only: length_0_conv)
  then show "dropWhile is_blank s = s" by (metis append_Nil takeWhile_dropWhile_id)
  with assms show "dropWhile is_blank (rev s) = rev s"
    unfolding trim_def trim_with_def by (metis rev_rev_ident)
qed

lemma trim_snoc_blank: "trim s = s \<Longrightarrow> is_blank c \<Longrightarrow> trim (s @ [c]) = s"
proof (cases s)
  case (Cons d t)
  assume s: "trim s = s" and c: "is_blank c"
  from Cons trimmed_parts(1) [OF s] have "dropWhile is_blank (s @ [c]) = s @ [c]"
    by (cases "is_blank d") (auto simp: dropWhile_eq_Cons_conv)
  with c trimmed_parts(2) [OF s] show ?thesis by (simp add: trim_def trim_with_def)
qed simp

lemma blank_chars [simp]: "is_blank (CHR '' '')" "is_blank (CHR 0x0A)"
  by (simp_all add: is_blank_def)

subsection \<open>Lines\<close>

lemma getlines_line: "d \<notin> set l \<Longrightarrow> getlines d (l @ d # rest) = l # getlines d rest"
  by (simp add: getlines_def split_on_append split_on_no_sep Let_def)

lemma getlines_last: "d \<notin> set l \<Longrightarrow> l \<noteq> [] \<Longrightarrow> getlines d l = [l]"
  by (simp add: getlines_def split_on_no_sep)

lemma concat_split_on: "concat (map (\<lambda>l. l @ [d]) (split_on d s)) = s @ [d]"
  by (induction s) (auto split: list.split)

lemma getlines_closed: "getlines d (s @ [d]) = split_on d s"
proof -
  have "split_on d (s @ [d]) = split_on d s @ [[]]" by (induction s) (auto split: list.split)
  then show ?thesis by (simp add: getlines_def)
qed

subsection \<open>A printer for front matters\<close>

definition plain :: "string \<Rightarrow> bool" where
  "plain s = (CHR 0x0A \<notin> set s \<and> unquote s = s)"

definition plain_tool :: "string \<Rightarrow> bool" where
  "plain_tool s = (s \<noteq> [] \<and> CHR '','' \<notin> set s \<and> CHR 0x0A \<notin> set s)"

definition quoted :: "string \<Rightarrow> string" where
  "quoted s = dquote @ s @ dquote"

definition print_tools :: "string list \<Rightarrow> string" where
  "print_tools ts = ''['' @ join_with '', '' (map quoted ts) @ '']''"

definition fm_ok :: "ecc_frontmatter \<Rightarrow> bool" where
  "fm_ok fm = (plain (fm_name fm) \<and> plain (fm_description fm) \<and> plain (fm_model_hint fm) \<and> plain (fm_color fm)
     \<and> list_all plain_tool (fm_tools fm) \<and> trim (fm_body fm) = fm_body fm)"

definition print_frontmatter :: "ecc_frontmatter \<Rightarrow> string" where
  "print_frontmatter fm = ''---'' @ nl @ ''name: '' @ fm_name fm @ nl @ ''description: '' @ fm_description fm @ nl
     @ ''tools: '' @ print_tools (fm_tools fm) @ nl @ ''model: '' @ fm_model_hint fm @ nl
     @ ''color: '' @ fm_color fm @ nl @ ''---'' @ nl @ fm_body fm @ nl"

lemma plain_trim: "plain s \<Longrightarrow> trim s = s"
proof -
  assume "plain s"
  then have u: "unquote s = s" by (simp add: plain_def)
  have len: "length (trim s) \<le> length s"
    unfolding trim_def trim_with_def by (metis length_dropWhile_le length_rev order_trans)
  show ?thesis
  proof (cases "length (trim s) \<ge> 2 \<and> hd (trim s) = CHR 0x22 \<and> last (trim s) = CHR 0x22")
    case True
    with u have "s = take (length (trim s) - 2) (drop 1 (trim s))" by (simp add: unquote_def Let_def)
    then have "length s \<le> length (trim s) - 2" by (metis length_take min.cobounded2 min.commute)
    with True len show ?thesis by linarith
  next
    case False
    with u show ?thesis by (auto simp: unquote_def Let_def)
  qed
qed

lemma unquote_plain: "plain s \<Longrightarrow> unquote (CHR '' '' # s) = s"
  by (simp add: unquote_def plain_def Let_def)

lemma trim_quoted [simp]: "trim (quoted s) = quoted s"
  by (simp add: quoted_def dquote_def trim_solid is_blank_def)

lemma unquote_quoted [simp]: "unquote (quoted s) = s"
  unfolding unquote_def trim_quoted Let_def by (simp add: quoted_def dquote_def)

lemma tool_tokens:
  "list_all plain_tool ts \<Longrightarrow> ts \<noteq> [] \<Longrightarrow>
   getlines (CHR '','') (join_with '', '' (map quoted ts)) = quoted (hd ts) # map (\<lambda>t. CHR '' '' # quoted t) (tl ts)"
proof (induction ts rule: induct_list012)
  case (2 t)
  then show ?case by (simp add: getlines_last plain_tool_def quoted_def dquote_def)
next
  case (3 t u ts)
  have sep: "CHR '','' \<notin> set (quoted t)" using "3.prems" by (simp add: plain_tool_def quoted_def dquote_def)
  have "getlines (CHR '','') (join_with '', '' (map quoted (u # ts))) =
      quoted u # map (\<lambda>t. CHR '' '' # quoted t) ts" using 3 by simp
  moreover have "getlines d (CHR '' '' # x) = (case getlines d x of [] \<Rightarrow> [[CHR '' '']] | l # ls \<Rightarrow> (CHR '' '' # l) # ls)"
    if "d \<noteq> CHR '' ''" for d x
    using that by (auto simp: getlines_def Let_def split: list.split)
  ultimately have "getlines (CHR '','') (CHR '' '' # join_with '', '' (map quoted (u # ts))) =
      (CHR '' '' # quoted u) # map (\<lambda>t. CHR '' '' # quoted t) ts" by simp
  then show ?case using getlines_line [OF sep] by simp
qed simp

lemma trim_print_tools [simp]: "trim (print_tools ts) = print_tools ts"
  by (simp add: print_tools_def trim_solid is_blank_def)

lemma parse_print_tools:
  assumes ok: "list_all plain_tool ts"
  shows "parse_yaml_array (print_tools ts) = ts"
proof -
  have parts: "print_tools ts \<noteq> []" "hd (print_tools ts) = CHR ''[''"
    "drop (Suc 0) (print_tools ts) = join_with '', '' (map quoted ts) @ '']''"
    by (simp_all add: print_tools_def)
  have "parse_yaml_array (print_tools ts) =
      filter (\<lambda>i. i \<noteq> []) (map (\<lambda>t. unquote (trim t)) (getlines (CHR '','') (join_with '', '' (map quoted ts))))"
    unfolding parse_yaml_array_def trim_print_tools Let_def using parts by (simp del: length_greater_0_conv)
  also have "\<dots> = ts"
  proof (cases ts)
    case (Cons u us)
    have "filter (\<lambda>i. i \<noteq> []) ts = ts" using ok by (auto simp: plain_tool_def list_all_iff filter_id_conv)
    with Cons tool_tokens [OF ok] show ?thesis by (simp add: comp_def)
  qed (simp add: getlines_def)
  finally show ?thesis .
qed

lemma field_line:
  assumes "plain v"
  shows "fm_line (''name: '' @ v) fm = fm\<lparr>fm_name := v\<rparr>"
    and "fm_line (''description: '' @ v) fm = fm\<lparr>fm_description := v\<rparr>"
    and "fm_line (''model: '' @ v) fm = fm\<lparr>fm_model_hint := v\<rparr>"
    and "fm_line (''color: '' @ v) fm = fm\<lparr>fm_color := v\<rparr>"
  using unquote_plain [OF assms] plain_trim [OF assms] assms
  by (simp_all add: fm_line_def trim_solid is_blank_def tolower_def tolower_char_def plain_def)

lemma tools_line: "list_all plain_tool ts \<Longrightarrow> fm_line (''tools: '' @ print_tools ts) fm = fm\<lparr>fm_tools := ts\<rparr>"
  by (simp add: fm_line_def trim_solid is_blank_def tolower_def tolower_char_def parse_print_tools)

lemma getlines_lines:
  "list_all (\<lambda>l. d \<notin> set l) ls \<Longrightarrow> getlines d (concat (map (\<lambda>l. l @ [d]) ls) @ rest) = ls @ getlines d rest"
  by (induction ls) (simp_all add: getlines_line)

lemma print_lines:
  assumes "fm_ok fm"
  shows "getlines (CHR 0x0A) (print_frontmatter fm) =
    [''---'', ''name: '' @ fm_name fm, ''description: '' @ fm_description fm, ''tools: '' @ print_tools (fm_tools fm),
     ''model: '' @ fm_model_hint fm, ''color: '' @ fm_color fm, ''---''] @ split_on (CHR 0x0A) (fm_body fm)"
    (is "_ = ?ls @ _")
proof -
  have "CHR 0x0A \<notin> set (join_with '', '' (map quoted ts))" if "list_all plain_tool ts" for ts
    using that by (induction ts rule: induct_list012) (auto simp: plain_tool_def quoted_def dquote_def)
  with assms have "list_all (\<lambda>l. CHR 0x0A \<notin> set l) ?ls"
    by (simp add: fm_ok_def plain_def print_tools_def)
  from getlines_lines [OF this, of "fm_body fm @ [CHR 0x0A]"] show ?thesis
    by (simp add: print_frontmatter_def nl_def getlines_closed)
qed

lemma fm_lines_five:
  assumes "trim a \<noteq> ''---''" "trim b \<noteq> ''---''" "trim c \<noteq> ''---''" "trim d \<noteq> ''---''" "trim e \<noteq> ''---''" "trim z = ''---''"
  shows "fm_lines ([a, b, c, d, e, z] @ body) fm = (fm_line e (fm_line d (fm_line c (fm_line b (fm_line a fm)))), body)"
  using assms by simp

lemma fm_lines_printed:
  assumes "fm_ok fm"
  shows "fm_lines ([''name: '' @ fm_name fm, ''description: '' @ fm_description fm, ''tools: '' @ print_tools (fm_tools fm),
     ''model: '' @ fm_model_hint fm, ''color: '' @ fm_color fm, ''---''] @ body) blank_frontmatter = (fm\<lparr>fm_body := []\<rparr>, body)"
proof -
  have heads: "trim (''name: '' @ v) \<noteq> ''---''" "trim (''description: '' @ v) \<noteq> ''---''" "trim (''tools: '' @ v) \<noteq> ''---''"
    "trim (''model: '' @ v) \<noteq> ''---''" "trim (''color: '' @ v) \<noteq> ''---''" "trim ''---'' = ''---''" for v
    by (simp_all add: trim_solid is_blank_def)
  have ok: "plain (fm_name fm)" "plain (fm_description fm)" "plain (fm_model_hint fm)" "plain (fm_color fm)"
    "list_all plain_tool (fm_tools fm)" using assms by (simp_all add: fm_ok_def)
  show ?thesis
    unfolding fm_lines_five [OF heads] field_line(1) [OF ok(1)] field_line(2) [OF ok(2)] tools_line [OF ok(5)]
      field_line(3) [OF ok(3)] field_line(4) [OF ok(4)]
    by (simp add: blank_frontmatter_def)
qed

definition field_typed :: "(json \<Rightarrow> json_error + 'a) \<Rightarrow> (string \<times> json) list \<Rightarrow> string \<Rightarrow> bool" where
  "field_typed get kvs k = (case map_of kvs k of None \<Rightarrow> True | Some v \<Rightarrow> (case get v of Inl _ \<Rightarrow> False | Inr _ \<Rightarrow> True))"

definition persona_typed :: "json \<Rightarrow> bool" where
  "persona_typed j =
     (case j of
        JObject kvs \<Rightarrow>
          list_all (field_typed get_string kvs) [''name'', ''description'', ''category'', ''system_prompt'',
            ''input_schema'', ''output_schema'', ''granite_model'']
          \<and> field_typed get_int kvs ''max_tokens'' \<and> field_typed get_double kvs ''temperature''
      | _ \<Rightarrow> False)"

lemma json_value_ok: "(\<exists>x. json_value get k d (JObject kvs) = Inr x) \<longleftrightarrow> field_typed get kvs k"
  by (auto simp: json_value_object field_typed_def split: option.split sum.split)

lemma persona_of_json_ok: "(\<exists>p. persona_of_json j = Inr p) \<longleftrightarrow> persona_typed j"
proof (cases j)
  case (JObject kvs)
  then show ?thesis
    unfolding persona_of_json_def and_then_succeeds persona_typed_def
    by (simp add: json_value_ok conj_ac)
qed (simp_all add: persona_of_json_def persona_typed_def json_value_def)

section \<open>Properties\<close>

text \<open>Reading back a printed front matter gives the same fields, tools and body, also behind a byte order
  mark, for fields on one line without surrounding blanks or quotes and tools without commas.\<close>

theorem ecc_frontmatter_roundtrip:
  assumes "fm_ok fm" and "list_all is_bom bom"
  shows "parse_frontmatter (bom @ print_frontmatter fm) = fm"
proof -
  have start: "print_frontmatter fm = CHR ''-'' # drop 1 (print_frontmatter fm)"
    by (simp add: print_frontmatter_def)
  have "dropWhile is_bom (bom @ print_frontmatter fm) = print_frontmatter fm"
    using assms(2) by (subst start, subst (2) start) (induction bom, auto simp: is_bom_def)
  moreover have "\<not> list_all is_bom (print_frontmatter fm)"
    by (subst start) (simp add: is_bom_def)
  ultimately have "skip_bom (bom @ print_frontmatter fm) = print_frontmatter fm"
    by (simp add: skip_bom_def)
  moreover have "bom @ print_frontmatter fm \<noteq> []" by (subst start) simp
  moreover have "trim ''---'' = ''---''" by (simp add: trim_solid is_blank_def)
  moreover have "trim (concat (map (\<lambda>l. l @ nl) (split_on (CHR 0x0A) (fm_body fm)))) = fm_body fm"
    unfolding nl_def concat_split_on using assms(1) by (simp add: trim_snoc_blank fm_ok_def)
  ultimately show ?thesis
    using print_lines [OF assms(1)] fm_lines_printed [OF assms(1)]
    unfolding parse_frontmatter_def by (simp only: if_False append_Cons list.case Let_def case_prod_conv not_not if_True) simp
qed

theorem ecc_frontmatter_roundtrip_witness:
  "parse_frontmatter ([CHR 0xEF, CHR 0xBB, CHR 0xBF] @ print_frontmatter
     \<lparr>fm_name = ''security-reviewer'', fm_description = ''Finds flaws: all of them'', fm_tools = [''Read'', ''Bash''],
      fm_model_hint = ''sonnet'', fm_color = [], fm_body = ''# Body'' @ nl @ nl @ ''text''\<rparr>) =
     \<lparr>fm_name = ''security-reviewer'', fm_description = ''Finds flaws: all of them'', fm_tools = [''Read'', ''Bash''],
      fm_model_hint = ''sonnet'', fm_color = [], fm_body = ''# Body'' @ nl @ nl @ ''text''\<rparr>"
  by (rule ecc_frontmatter_roundtrip)
    (simp_all add: fm_ok_def plain_def plain_tool_def unquote_def trim_solid is_blank_def is_bom_def nl_def)

text \<open>Reading a JSON definition succeeds exactly when the file can be opened and parses to an object whose nine
  fields are absent or of the right type; it then has a tier of the allow-list, and every other case is an exception.\<close>

theorem persona_load_ok:
  "(\<exists>p. load_from_json parse read path = Inr p) =
     (case read path of None \<Rightarrow> False
      | Some content \<Rightarrow> (case parse content of Inl _ \<Rightarrow> False | Inr j \<Rightarrow> persona_typed j))
   \<and> (case load_from_json parse read path of Inl _ \<Rightarrow> True | Inr p \<Rightarrow> is_granite_only p)"
proof -
  have "(\<exists>p. as_persona (persona_of_json j) = Inr p) = persona_typed j" for j
    unfolding persona_of_json_ok [symmetric] as_persona_def by (auto split: sum.split)
  note ok = this
  show ?thesis
  proof (cases "read path")
    case (Some content)
    show ?thesis
    proof (cases "parse content")
      case (Inr j)
      with Some ok [of j] show ?thesis by (simp add: load_from_json_def split: sum.split)
    qed (simp add: load_from_json_def Some)
  qed (simp add: load_from_json_def)
qed

end
