(* ===== verification/AutonomyLoop.thy ===== *)
theory AutonomyLoop
  imports Personas
begin

text \<open>
  \<^verbatim>\<open>core/autonomy_loop\<close>: the background loop that submits agent tasks from the threat level, from a
  bounded buffer of signals and on a fixed rotation. The agent controller may be absent; its \<^verbatim>\<open>submit_task\<close>
  is an argument acting on a state \<open>'c\<close> that returns the task id, empty when the task is refused. One
  pass of the loop is \<open>loop_tick\<close>; the sleep between passes and the console output are not modelled.
\<close>

section \<open>Model\<close>

record pending_signal =
  ps_source :: string
  ps_score :: int
  ps_description :: string
  ps_timestamp_ms :: int

record autonomy_loop =
  al_pending_signals :: "pending_signal list"
  al_threat_level :: string
  al_threat_score :: int
  al_soc_rotation_index :: u64
  al_tasks_submitted :: u64

type_synonym 'c task_submitter = "string \<Rightarrow> string \<Rightarrow> task_priority \<Rightarrow> 'c \<Rightarrow> string \<times> 'c"

definition k_soc_rotation :: "string list" where
  "k_soc_rotation = [''threat_hunter'', ''siem_analyst'', ''alert_triage'', ''incident_responder'',
     ''ioc_manager'', ''forensics_investigator'', ''compliance_monitor'', ''vulnerability_mgr'',
     ''insider_threat_detector'', ''ransomware_hunter'']"

definition new_autonomy_loop :: autonomy_loop where
  "new_autonomy_loop = \<lparr>al_pending_signals = [], al_threat_level = ''LOW'', al_threat_score = 0,
     al_soc_rotation_index = 0, al_tasks_submitted = 0\<rparr>"

text \<open>The ring keeps the last 100 signals.\<close>

definition last_100 :: "'x list \<Rightarrow> 'x list" where
  "last_100 xs = drop (length xs - 100) xs"

definition push_signal :: "pending_signal \<Rightarrow> autonomy_loop \<Rightarrow> autonomy_loop" where
  "push_signal s l = l\<lparr>al_pending_signals := last_100 (al_pending_signals l @ [s])\<rparr>"

definition notify_threat_level :: "string \<Rightarrow> int \<Rightarrow> autonomy_loop \<Rightarrow> autonomy_loop" where
  "notify_threat_level level score l = l\<lparr>al_threat_level := level, al_threat_score := score\<rparr>"

text \<open>A submission counts when the controller returns a task id.\<close>

definition submit ::
    "'c task_submitter \<Rightarrow> string \<Rightarrow> string \<Rightarrow> task_priority \<Rightarrow> autonomy_loop \<times> 'c \<Rightarrow> autonomy_loop \<times> 'c" where
  "submit submit_task agent input prio = (\<lambda>(l, c).
     let (task_id, c') = submit_task agent input prio c in
     (if task_id \<noteq> [] then l\<lparr>al_tasks_submitted := al_tasks_submitted l + 1\<rparr> else l, c'))"

definition response_agents :: "string list" where
  "response_agents = [''incident_responder'', ''threat_hunter'', ''forensics_investigator'']"

definition alert_input :: "string \<Rightarrow> int \<Rightarrow> string" where
  "alert_input level score = ''AUTONOMOUS ALERT: System threat level is '' @ level
     @ '' (score='' @ str_of_int score @ ''). ''
     @ ''Perform immediate assessment. Check for active intrusion, ''
     @ ''suspicious processes, lateral movement indicators. ''
     @ ''Recommend specific containment actions.''"

definition medium_input :: "int \<Rightarrow> string" where
  "medium_input score = ''AUTONOMOUS: Threat level elevated to MEDIUM (score='' @ str_of_int score
     @ ''). Analyse recent event patterns. '' @ ''Identify false positives vs real threats.''"

definition tick_threat_response :: "'c task_submitter option \<Rightarrow> autonomy_loop \<times> 'c \<Rightarrow> autonomy_loop \<times> 'c" where
  "tick_threat_response ctl s =
     (case ctl of
        None \<Rightarrow> s
      | Some st \<Rightarrow>
          let level = al_threat_level (fst s); score = al_threat_score (fst s) in
          if level = ''CRITICAL'' \<or> level = ''HIGH'' then
            fold (\<lambda>agent. submit st agent (alert_input level score) PRIO_HIGH) response_agents s
          else if level = ''MEDIUM'' then submit st ''alert_triage'' (medium_input score) PRIO_NORMAL s
          else s)"

definition max_score :: "pending_signal list \<Rightarrow> int" where
  "max_score batch = fold (\<lambda>s m. max m (ps_score s)) batch 0"

definition batch_input :: "pending_signal list \<Rightarrow> string" where
  "batch_input batch = ''AUTONOMOUS: '' @ str_of_nat (length batch) @ '' security signals received:'' @ nl
     @ concat (map (\<lambda>s. ''  [score='' @ str_of_int (ps_score s) @ ''] '' @ ps_source s @ '': ''
         @ ps_description s @ nl) batch)
     @ ''Analyse these signals. Identify attack patterns, false positives, ''
     @ ''and recommended actions (block IP, quarantine file, escalate).''"

definition batch_agent :: "int \<Rightarrow> string" where
  "batch_agent m = (if m \<ge> 60 then ''incident_responder'' else if m \<ge> 40 then ''alert_triage'' else ''siem_analyst'')"

definition batch_priority :: "int \<Rightarrow> task_priority" where
  "batch_priority m = (if m \<ge> 60 then PRIO_HIGH else if m \<ge> 40 then PRIO_NORMAL else PRIO_LOW)"

definition tick_signal_drain :: "'c task_submitter option \<Rightarrow> autonomy_loop \<times> 'c \<Rightarrow> autonomy_loop \<times> 'c" where
  "tick_signal_drain ctl = (\<lambda>(l, c).
     case ctl of
       None \<Rightarrow> (l, c)
     | Some st \<Rightarrow>
         if al_pending_signals l = [] then (l, c)
         else
           let n = min (length (al_pending_signals l)) 20;
               batch = take n (al_pending_signals l);
               l1 = l\<lparr>al_pending_signals := drop n (al_pending_signals l)\<rparr>
           in submit st (batch_agent (max_score batch)) (batch_input batch) (batch_priority (max_score batch)) (l1, c))"

definition routine_input :: string where
  "routine_input = ''AUTONOMOUS ROUTINE CHECK: Perform a standard health and threat assessment. ''
     @ ''Review any recent anomalies in your domain. ''
     @ ''Report status: GREEN (normal), AMBER (watch), or RED (action required). ''
     @ ''Keep response under 100 words.''"

definition tick_soc_rotation :: "'c task_submitter option \<Rightarrow> autonomy_loop \<times> 'c \<Rightarrow> autonomy_loop \<times> 'c" where
  "tick_soc_rotation ctl = (\<lambda>(l, c).
     case ctl of
       None \<Rightarrow> (l, c)
     | Some st \<Rightarrow>
         let agent = k_soc_rotation ! (unat (al_soc_rotation_index l) mod length k_soc_rotation);
             l1 = l\<lparr>al_soc_rotation_index := al_soc_rotation_index l + 1\<rparr>
         in submit st agent routine_input PRIO_LOW (l1, c))"

definition loop_tick ::
    "'w audit_adder \<Rightarrow> 'c task_submitter option \<Rightarrow> autonomy_loop \<times> 'c \<times> 'w \<Rightarrow> autonomy_loop \<times> 'c \<times> 'w" where
  "loop_tick add ctl = (\<lambda>(l, c, w).
     let (l', c') = tick_soc_rotation ctl (tick_signal_drain ctl (tick_threat_response ctl (l, c))) in
     (l', c', emit add ''autonomy_tick'' (''tasks_submitted='' @ str_of_u64 (al_tasks_submitted l')) w))"

section \<open>Runs\<close>

datatype loop_op = Push pending_signal | Notify string int | Tick

fun loop_step ::
    "'w audit_adder \<Rightarrow> 'c task_submitter option \<Rightarrow> loop_op \<Rightarrow> autonomy_loop \<times> 'c \<times> 'w \<Rightarrow> autonomy_loop \<times> 'c \<times> 'w" where
  "loop_step add ctl (Push s) (l, cw) = (push_signal s l, cw)"
| "loop_step add ctl (Notify level score) (l, cw) = (notify_threat_level level score l, cw)"
| "loop_step add ctl Tick s = loop_tick add ctl s"

text \<open>A controller that accepts every task and logs it.\<close>

definition logging_controller :: "(string \<times> string \<times> task_priority) list task_submitter" where
  "logging_controller agent input prio tasks = (''task'', tasks @ [(agent, input, prio)])"

section \<open>Lemmas\<close>

lemma last_100_short: "length xs \<le> 100 \<Longrightarrow> last_100 xs = xs"
  by (simp add: last_100_def)

lemma last_100_length: "length (last_100 xs) \<le> 100"
  by (simp add: last_100_def)

lemma submit_keeps [simp]:
  "al_pending_signals (fst (submit st a i p s)) = al_pending_signals (fst s)"
  "al_soc_rotation_index (fst (submit st a i p s)) = al_soc_rotation_index (fst s)"
  "al_threat_level (fst (submit st a i p s)) = al_threat_level (fst s)"
  by (simp_all add: submit_def case_prod_beta Let_def)

lemma submits_keep:
  "al_pending_signals (fst (fold (\<lambda>a. submit st a i p) as s)) = al_pending_signals (fst s) \<and>
   al_soc_rotation_index (fst (fold (\<lambda>a. submit st a i p) as s)) = al_soc_rotation_index (fst s)"
  by (induction as arbitrary: s) simp_all

lemma threat_keeps [simp]:
  "al_pending_signals (fst (tick_threat_response ctl s)) = al_pending_signals (fst s)"
  "al_soc_rotation_index (fst (tick_threat_response ctl s)) = al_soc_rotation_index (fst s)"
  by (simp_all add: tick_threat_response_def Let_def submits_keep split: option.splits)

lemma drain_pending [simp]:
  "al_pending_signals (fst (tick_signal_drain ctl s)) =
     (case ctl of None \<Rightarrow> al_pending_signals (fst s) | Some st \<Rightarrow> drop 20 (al_pending_signals (fst s)))"
  "al_soc_rotation_index (fst (tick_signal_drain ctl s)) = al_soc_rotation_index (fst s)"
  by (auto simp: tick_signal_drain_def case_prod_beta Let_def min_def split: option.splits)

lemma rotation_keeps [simp]:
  "al_pending_signals (fst (tick_soc_rotation ctl s)) = al_pending_signals (fst s)"
  "al_soc_rotation_index (fst (tick_soc_rotation ctl s)) =
     al_soc_rotation_index (fst s) + (case ctl of None \<Rightarrow> 0 | Some st \<Rightarrow> 1)"
  by (auto simp: tick_soc_rotation_def case_prod_beta Let_def split: option.splits)

lemma tick_pending:
  "al_pending_signals (fst (loop_tick add ctl (l, c, w))) =
     (case ctl of None \<Rightarrow> al_pending_signals l | Some st \<Rightarrow> drop 20 (al_pending_signals l))"
  "al_soc_rotation_index (fst (loop_tick add ctl (l, c, w))) =
     al_soc_rotation_index l + (case ctl of None \<Rightarrow> 0 | Some st \<Rightarrow> 1)"
  by (cases ctl; simp add: loop_tick_def case_prod_beta Let_def)+

fun pushed :: "loop_op list \<Rightarrow> pending_signal list" where
  "pushed [] = []"
| "pushed (Push s # xs) = s # pushed xs"
| "pushed (x # xs) = pushed xs"

lemma subseq_last_100: "subseq (last_100 xs) xs"
  by (simp add: last_100_def suffix_drop suffix_imp_subseq)

text \<open>
  What the loop hands to the agents is observed at the controller: \<open>recording\<close> wraps any \<^verbatim>\<open>submit_task\<close> and
  notes the arguments of every call, whether the controller accepts the task or not. \<open>is_batch_task\<close> tells the
  calls that carry signals from the other submissions of a tick by the words their input ends with.
\<close>

type_synonym submission = "string \<times> string \<times> task_priority"

definition recording :: "'c task_submitter \<Rightarrow> ('c \<times> submission list) task_submitter" where
  "recording st agent input prio = (\<lambda>(c, tasks).
     let (task_id, c') = st agent input prio c in (task_id, c', tasks @ [(agent, input, prio)]))"

definition is_batch_task :: "submission \<Rightarrow> bool" where
  "is_batch_task t = suffix ''(block IP, quarantine file, escalate).'' (fst (snd t))"

text \<open>
  The contract of the buffer: a queue of at most 100 signals that gives up its oldest for a new one, and from
  which a tick takes the oldest 20. The result is the batches taken, one per tick that finds a signal, and
  the signals that still wait.
\<close>

fun ring :: "loop_op list \<Rightarrow> pending_signal list \<Rightarrow> pending_signal list list \<times> pending_signal list" where
  "ring [] q = ([], q)"
| "ring (Push s # xs) q = ring xs (if length q < 100 then q @ [s] else tl q @ [s])"
| "ring (Notify level score # xs) q = ring xs q"
| "ring (Tick # xs) q =
     (if q = [] then ring xs q else let (batches, rest) = ring xs (drop 20 q) in (take 20 q # batches, rest))"

text \<open>A submission carries a batch: a line for each of its signals, in order, to the agent and at the priority of its
  worst score.\<close>

definition signal_line :: "pending_signal \<Rightarrow> string" where
  "signal_line s = ''  [score='' @ str_of_int (ps_score s) @ ''] '' @ ps_source s @ '': '' @ ps_description s @ nl"

definition carries :: "submission \<Rightarrow> pending_signal list \<Rightarrow> bool" where
  "carries t batch = (case t of (agent, input, prio) \<Rightarrow>
     prefix (''AUTONOMOUS: '' @ str_of_nat (length batch) @ '' security signals received:'' @ nl
       @ concat (map signal_line batch) @ ''Analyse these signals.'') input
     \<and> (if list_ex (\<lambda>s. 60 \<le> ps_score s) batch then agent = ''incident_responder'' \<and> prio = PRIO_HIGH
        else if list_ex (\<lambda>s. 40 \<le> ps_score s) batch then agent = ''alert_triage'' \<and> prio = PRIO_NORMAL
        else agent = ''siem_analyst'' \<and> prio = PRIO_LOW))"

definition task_of :: "pending_signal list \<Rightarrow> submission" where
  "task_of batch = (batch_agent (max_score batch), batch_input batch, batch_priority (max_score batch))"

lemma max_score_ge: "0 < m \<Longrightarrow> (m \<le> max_score batch) = list_ex (\<lambda>s. m \<le> ps_score s) batch"
proof -
  have "(m \<le> fold (\<lambda>s k. max k (ps_score s)) batch a) = (m \<le> a \<or> list_ex (\<lambda>s. m \<le> ps_score s) batch)" for a
    by (induction batch arbitrary: a) (auto simp: le_max_iff_disj)
  then show "0 < m \<Longrightarrow> ?thesis" by (simp add: max_score_def)
qed

lemma task_of_carries: "carries (task_of batch) batch"
  by (simp add: carries_def task_of_def batch_input_def batch_agent_def batch_priority_def max_score_ge
      signal_line_def [abs_def] prefix_def)

lemma batch_task [simp]: "is_batch_task (task_of batch)"
proof -
  have "fst (snd (task_of batch)) = (''AUTONOMOUS: '' @ str_of_nat (length batch) @ '' security signals received:'' @ nl
      @ concat (map (\<lambda>s. ''  [score='' @ str_of_int (ps_score s) @ ''] '' @ ps_source s @ '': ''
         @ ps_description s @ nl) batch)
      @ ''Analyse these signals. Identify attack patterns, false positives, '' @ ''and recommended actions '')
      @ ''(block IP, quarantine file, escalate).''"
    by (simp add: task_of_def batch_input_def)
  then show ?thesis unfolding is_batch_task_def by (rule suffixI)
qed

lemma not_batch_task [simp]:
  "\<not> is_batch_task (a, alert_input level score, p)" "\<not> is_batch_task (a, medium_input score, p)"
  "\<not> is_batch_task (a, routine_input, p)"
  by (simp_all add: is_batch_task_def alert_input_def medium_input_def routine_input_def suffix_to_prefix)

abbreviation recorded :: "autonomy_loop \<times> 'c \<times> submission list \<Rightarrow> submission list" where
  "recorded s \<equiv> filter is_batch_task (snd (snd s))"

lemma submit_recording [simp]: "snd (snd (submit (recording st) a i p s)) = snd (snd s) @ [(a, i, p)]"
  by (simp add: submit_def recording_def case_prod_beta Let_def)

lemma submits_recording:
  "snd (snd (fold (\<lambda>a. submit (recording st) a i p) as s)) = snd (snd s) @ map (\<lambda>a. (a, i, p)) as"
  by (induction as arbitrary: s) simp_all

lemma threat_records [simp]: "recorded (tick_threat_response (Some (recording st)) s) = recorded s"
  by (simp add: tick_threat_response_def Let_def submits_recording response_agents_def)

lemma rotation_records [simp]: "recorded (tick_soc_rotation (Some (recording st)) s) = recorded s"
  by (cases s) (simp add: tick_soc_rotation_def Let_def)

lemma drain_records:
  "recorded (tick_signal_drain (Some (recording st)) s) =
     recorded s @ (if al_pending_signals (fst s) = [] then [] else [task_of (take 20 (al_pending_signals (fst s)))])"
proof (cases s)
  case (fields l c tasks)
  define b where "b = take 20 (al_pending_signals l)"
  have b: "take (min (length (al_pending_signals l)) 20) (al_pending_signals l) = b" by (simp add: b_def min_def)
  show ?thesis
    using batch_task [of b]
    by (simp add: fields tick_signal_drain_def Let_def b b_def [symmetric] task_of_def)
qed

lemma loop_tick_parts:
  "fst (loop_tick add ctl (l, c, w)) = fst (tick_soc_rotation ctl (tick_signal_drain ctl (tick_threat_response ctl (l, c))))"
  "fst (snd (loop_tick add ctl (l, c, w))) = snd (tick_soc_rotation ctl (tick_signal_drain ctl (tick_threat_response ctl (l, c))))"
  by (simp_all add: loop_tick_def case_prod_beta Let_def)

lemma tick_records:
  "filter is_batch_task (snd (fst (snd (loop_tick add (Some (recording st)) (l, c, w))))) =
     filter is_batch_task (snd c)
     @ (if al_pending_signals l = [] then [] else [task_of (take 20 (al_pending_signals l))])"
  unfolding loop_tick_parts rotation_records drain_records by simp

lemma ring_last_100:
  "length q \<le> 100 \<Longrightarrow> (if length q < 100 then q @ [s] else tl q @ [s]) = last_100 (q @ [s])"
  by (cases q) (auto simp: last_100_def)

text \<open>The loop implements the contract.\<close>

lemma run_rings:
  "length (al_pending_signals l) \<le> 100 \<Longrightarrow>
   (case fold (loop_step add (Some (recording st))) xs (l, c, w) of
      (l', c', w') \<Rightarrow> (case ring xs (al_pending_signals l) of (batches, rest) \<Rightarrow>
        filter is_batch_task (snd c') = filter is_batch_task (snd c) @ map task_of batches \<and> al_pending_signals l' = rest))"
proof (induction xs arbitrary: l c w)
  case (Cons x xs)
  show ?case
  proof (cases x)
    case (Push p)
    have "length (al_pending_signals (push_signal p l)) \<le> 100" by (simp add: push_signal_def last_100_length)
    from Cons.IH [OF this, of c w] show ?thesis
      unfolding Push ring.simps ring_last_100 [OF Cons.prems] by (simp add: push_signal_def)
  next
    case (Notify level score)
    with Cons.prems Cons.IH [of "notify_threat_level level score l" c w] show ?thesis by (simp add: notify_threat_level_def)
  next
    case Tick
    obtain l' c' w' where t: "loop_tick add (Some (recording st)) (l, c, w) = (l', c', w')" by (metis prod_cases3)
    have l': "al_pending_signals l' = drop 20 (al_pending_signals l)"
      using tick_pending(1) [of add "Some (recording st)" l c w] t by simp
    have c': "filter is_batch_task (snd c') = filter is_batch_task (snd c)
        @ (if al_pending_signals l = [] then [] else [task_of (take 20 (al_pending_signals l))])"
      using tick_records [of add st l c w] t by simp
    have "length (al_pending_signals l') \<le> 100" using Cons.prems l' by simp
    from Cons.IH [OF this, of c' w'] show ?thesis
      unfolding Tick l' c' by (cases "al_pending_signals l = []") (auto simp: t split: prod.splits)
  qed
qed simp

lemma ring_batches: "list_all (\<lambda>b. b \<noteq> [] \<and> length b \<le> 20) (fst (ring xs q))"
  by (induction xs q rule: ring.induct) (auto simp: case_prod_beta Let_def)

lemma ring_bounded: "length q \<le> 100 \<Longrightarrow> length (snd (ring xs q)) \<le> 100"
  by (induction xs q rule: ring.induct) (auto simp: case_prod_beta Let_def)

definition served :: "pending_signal list list \<times> pending_signal list \<Rightarrow> pending_signal list" where
  "served r = concat (fst r) @ snd r"

lemma served_tick: "served (ring (Tick # xs) q) = take 20 q @ served (ring xs (drop 20 q))"
  by (simp add: served_def case_prod_beta Let_def)

lemma ring_subseq: "subseq (served (ring xs q)) (q @ pushed xs)"
proof (induction xs q rule: ring.induct)
  case (2 s xs q)
  have "subseq (tl q) q" by (cases q) auto
  then have "subseq ((if length q < 100 then q @ [s] else tl q @ [s]) @ pushed xs) ((q @ [s]) @ pushed xs)"
    by (intro list_emb_append_mono) auto
  with 2 show ?case unfolding ring.simps pushed.simps append_assoc append_Cons append_Nil
    by (rule subseq_order.trans)
next
  case (4 xs q)
  have "subseq (served (ring xs (drop 20 q))) (drop 20 q @ pushed xs)" using 4 by (cases "q = []") simp_all
  then have "subseq (take 20 q @ served (ring xs (drop 20 q))) (take 20 q @ drop 20 q @ pushed xs)"
    by (intro list_emb_append_mono) auto
  then show ?case unfolding served_tick by (simp flip: append_assoc)
qed (simp_all add: served_def)

lemma ring_keeps: "length q \<le> 100 \<Longrightarrow> min 100 (length q + length (pushed xs)) \<le> length (served (ring xs q))"
proof (induction xs q rule: ring.induct)
  case (4 xs q)
  have "min 100 (length (drop 20 q) + length (pushed xs)) \<le> length (served (ring xs (drop 20 q)))"
    using 4 by (cases "q = []") simp_all
  then show ?case unfolding served_tick by (auto simp: min_def split: if_splits)
qed (auto simp: served_def)

lemma last_100_twice: "last_100 (last_100 xs @ ys) = last_100 (xs @ ys)"
  by (cases "length xs \<le> 100") (simp_all add: last_100_def add.commute)

lemma unattended:
  "length (al_pending_signals l) \<le> 100 \<Longrightarrow>
   al_pending_signals (fst (fold (loop_step add None) xs (l, c, w))) = last_100 (al_pending_signals l @ pushed xs)"
proof (induction xs arbitrary: l c w)
  case (Cons x xs)
  show ?case
  proof (cases x)
    case (Push p)
    have "length (al_pending_signals (push_signal p l)) \<le> 100" by (simp add: push_signal_def last_100_length)
    from Cons.IH [OF this] show ?thesis by (simp add: Push push_signal_def last_100_twice)
  next
    case (Notify level score)
    with Cons show ?thesis by (simp add: notify_threat_level_def)
  next
    case Tick
    obtain l' c' w' where t: "loop_tick add None (l, c, w) = (l', c', w')" by (metis prod_cases3)
    have "al_pending_signals l' = al_pending_signals l" using tick_pending(1) [of add None l c w] t by simp
    with Cons.IH [of l'] Cons.prems show ?thesis by (simp add: Tick t)
  qed
qed (simp add: last_100_short)

lemma pending_bounded:
  "length (al_pending_signals (fst s)) \<le> 100 \<Longrightarrow>
   length (al_pending_signals (fst (fold (loop_step add ctl) xs s))) \<le> 100"
proof (induction xs arbitrary: s)
  case (Cons x xs)
  obtain l c w where s: "s = (l, c, w)" by (metis prod_cases3)
  have "length (al_pending_signals (fst (loop_step add ctl x s))) \<le> 100"
    using Cons.prems
    by (cases x) (auto simp: s push_signal_def last_100_length notify_threat_level_def tick_pending split: option.splits)
  from Cons.IH [OF this] show ?case by simp
qed simp

text \<open>With the logging controller: the tasks that each part of a tick submits.\<close>

definition is_routine :: "string \<times> string \<times> task_priority \<Rightarrow> bool" where
  "is_routine t = (fst (snd t) = routine_input)"

lemma not_routine:
  "\<not> is_routine (a, alert_input level score, p)" "\<not> is_routine (a, medium_input score, p)"
  "\<not> is_routine (a, batch_input batch, p)" "is_routine (a, routine_input, p)"
  by (simp_all add: is_routine_def alert_input_def medium_input_def batch_input_def routine_input_def)

definition tasks_inv :: "nat \<Rightarrow> autonomy_loop \<times> (string \<times> string \<times> task_priority) list \<Rightarrow> bool" where
  "tasks_inv n s \<longleftrightarrow>
     al_tasks_submitted (fst s) = of_nat (length (snd s)) \<and>
     filter is_routine (snd s) =
       map (\<lambda>k. (k_soc_rotation ! (unat (of_nat k :: u64) mod length k_soc_rotation), routine_input, PRIO_LOW)) [0..<n]"

lemma submit_inv:
  "tasks_inv n s \<Longrightarrow> \<not> is_routine (a, i, p) \<Longrightarrow> tasks_inv n (submit logging_controller a i p s)"
  by (cases s) (simp add: tasks_inv_def submit_def logging_controller_def)

lemma submits_inv:
  "tasks_inv n s \<Longrightarrow> (\<And>a. \<not> is_routine (a, i, p)) \<Longrightarrow> tasks_inv n (fold (\<lambda>a. submit logging_controller a i p) as s)"
  by (induction as arbitrary: s) (simp_all add: submit_inv)

lemma threat_inv': "tasks_inv n s \<Longrightarrow> tasks_inv n (tick_threat_response (Some logging_controller) s)"
  by (simp add: tick_threat_response_def Let_def submits_inv submit_inv not_routine)

lemma tasks_inv_signals: "tasks_inv n (l\<lparr>al_pending_signals := x\<rparr>, c) = tasks_inv n (l, c)"
  by (simp add: tasks_inv_def)

lemma drain_inv: "tasks_inv n s \<Longrightarrow> tasks_inv n (tick_signal_drain (Some logging_controller) s)"
  by (cases s) (simp add: tick_signal_drain_def Let_def not_routine tasks_inv_signals submit_inv)

lemma rotation_inv:
  assumes "tasks_inv n s" and "al_soc_rotation_index (fst s) = of_nat n"
  shows "tasks_inv (Suc n) (tick_soc_rotation (Some logging_controller) s)"
  using assms
  by (cases s) (simp add: tick_soc_rotation_def submit_def logging_controller_def tasks_inv_def Let_def not_routine)

lemma tick_inv:
  assumes "tasks_inv n (l, c)" and "al_soc_rotation_index l = of_nat n"
  shows "let (l', c', w') = loop_tick add (Some logging_controller) (l, c, w) in
    tasks_inv (Suc n) (l', c') \<and> al_soc_rotation_index l' = of_nat (Suc n)"
proof -
  let ?s = "tick_signal_drain (Some logging_controller) (tick_threat_response (Some logging_controller) (l, c))"
  have "tasks_inv n ?s" using assms(1) by (intro drain_inv threat_inv')
  moreover have "al_soc_rotation_index (fst ?s) = of_nat n" using assms(2) by simp
  ultimately have "tasks_inv (Suc n) (tick_soc_rotation (Some logging_controller) ?s)" by (rule rotation_inv)
  then show ?thesis
    using assms(2) by (simp add: loop_tick_def case_prod_beta Let_def add.commute)
qed

lemma rotation_length: "length k_soc_rotation = 10"
  by (simp add: k_soc_rotation_def)

lemma routine_filter: "is_routine = (\<lambda>t. fst (snd t) = routine_input)"
  by (simp add: is_routine_def fun_eq_iff)

definition ticks :: "loop_op list \<Rightarrow> nat" where
  "ticks xs = length (filter (\<lambda>x. x = Tick) xs)"

lemma run_inv:
  "tasks_inv n (l, c) \<Longrightarrow> al_soc_rotation_index l = of_nat n \<Longrightarrow>
   (case fold (loop_step add (Some logging_controller)) xs (l, c, w) of
      (l', c', w') \<Rightarrow> tasks_inv (n + ticks xs) (l', c') \<and> al_soc_rotation_index l' = of_nat (n + ticks xs))"
proof (induction xs arbitrary: n l c w)
  case (Cons x xs)
  show ?case
  proof (cases x)
    case (Push p)
    with Cons.prems Cons.IH [of n "push_signal p l" c w] show ?thesis
      by (simp add: ticks_def push_signal_def tasks_inv_def)
  next
    case (Notify level score)
    with Cons.prems Cons.IH [of n "notify_threat_level level score l" c w] show ?thesis
      by (simp add: ticks_def notify_threat_level_def tasks_inv_def)
  next
    case Tick
    obtain l' c' w' where step: "loop_tick add (Some logging_controller) (l, c, w) = (l', c', w')"
      by (metis prod_cases3)
    from tick_inv [OF Cons.prems, of add w] Cons.IH [of "Suc n" l' c' w'] show ?thesis
      by (simp add: Tick step ticks_def del: of_nat_Suc)
  qed
qed (simp add: ticks_def)

section \<open>Properties\<close>

text \<open>C35. What the loop submits: over any pushes, notifications and ticks, and whatever \<^verbatim>\<open>submit_task\<close> answers, the
  calls of \<^verbatim>\<open>submit_task\<close> that carry signals are one per batch, each with a line for every signal of its batch, to the
  agent and at the priority of the worst score. The batches and the signals still waiting are those of the bounded
  queue: at most 20 signals in a batch, at most 100 waiting, each a pushed signal, in the order pushed, at most once,
  and none dropped before 100 have been pushed. Without a controller the last 100 signals pushed wait.\<close>

theorem autonomy_signal_buffer:
  "(case fold (loop_step (audit_add sha env) (Some (recording st))) xs (new_autonomy_loop, (c, []), w) of
      (l, (c', tasks), w') \<Rightarrow> (case ring xs [] of (batches, waiting) \<Rightarrow>
        list_all2 carries (filter is_batch_task tasks) batches \<and> al_pending_signals l = waiting
        \<and> list_all (\<lambda>b. b \<noteq> [] \<and> length b \<le> 20) batches \<and> length waiting \<le> 100
        \<and> subseq (concat batches @ waiting) (pushed xs)
        \<and> min 100 (length (pushed xs)) \<le> length (concat batches @ waiting)))
   \<and> al_pending_signals (fst (fold (loop_step (audit_add sha env) (None :: 'c task_submitter option)) xs
       (new_autonomy_loop, d, w))) = last_100 (pushed xs)"
proof -
  have new: "al_pending_signals new_autonomy_loop = []" by (simp add: new_autonomy_loop_def)
  obtain batches waiting where r: "ring xs [] = (batches, waiting)" by fastforce
  obtain l c' tasks w' where
    f: "fold (loop_step (audit_add sha env) (Some (recording st))) xs (new_autonomy_loop, (c, []), w) = (l, (c', tasks), w')"
    by (metis prod.collapse)
  have run: "filter is_batch_task tasks = map task_of batches \<and> al_pending_signals l = waiting"
    using run_rings [where l = new_autonomy_loop and add = "audit_add sha env" and st = st and xs = xs and c = "(c, [])" and w = w] by (simp add: new f r)
  have "list_all2 carries (map task_of batches) batches"
    by (simp add: list_all2_map1 task_of_carries list_all2_refl)
  with run ring_batches [of xs "[]"] ring_bounded [of "[]" xs] ring_subseq [of xs "[]"] ring_keeps [of "[]" xs]
    unattended [where l = new_autonomy_loop and add = "audit_add sha env" and xs = xs and c = d and w = w]
  show ?thesis by (simp add: f r new served_def)
qed

text \<open>The task ledger: with a controller that accepts every task the counter is the number of tasks submitted, and
  the routine checks visit the rotation table in order, one agent per tick, at low priority.\<close>

theorem autonomy_rotation:
  "case fold (loop_step (audit_add sha env) (Some logging_controller)) xs (new_autonomy_loop, [], w) of
     (l, tasks, w') \<Rightarrow>
       al_tasks_submitted l = of_nat (length tasks) \<and>
       filter (\<lambda>t. fst (snd t) = routine_input) tasks =
         map (\<lambda>k. (k_soc_rotation ! (unat (of_nat k :: u64) mod 10), routine_input, PRIO_LOW)) [0..<ticks xs]"
proof -
  have "tasks_inv 0 (new_autonomy_loop, [])" "al_soc_rotation_index new_autonomy_loop = of_nat 0"
    by (simp_all add: tasks_inv_def new_autonomy_loop_def)
  from run_inv [OF this, where add = "audit_add sha env" and xs = xs and w = w] show ?thesis
    by (auto simp: tasks_inv_def rotation_length routine_filter split: prod.splits)
qed

end
