(* ===== verification/ZeroTrust.thy ===== *)
theory ZeroTrust
  imports AuditChain Cxx_Strings
begin

text \<open>
  \<^verbatim>\<open>network_arch\<close>: the zero-trust engine, the eight-step NAC workflow and the VLAN segmentation
  table. The engine audits every decision; the NAC workflow keeps no state.
\<close>

section \<open>Zero-trust engine\<close>

datatype trust_decision = ALLOW | DENY | QUARANTINE | MFA_REQUIRED | LIMITED

record access_context =
  ac_user_id :: string
  ac_device_id :: string
  ac_source_ip :: string
  ac_destination_ip :: string
  ac_requested_resource :: string
  ac_ssid_name :: string
  ac_trust_score :: int

definition ANOMALOUS_ACTIONS :: "string list" where
  "ANOMALOUS_ACTIONS = [''login_off_hours'', ''mass_download'', ''admin_from_public_ssid'',
     ''privilege_escalation_attempt'']"

text \<open>The two \<^verbatim>\<open>std::map\<close> members in key order; no operation changes them.\<close>

definition zone_map :: "(string \<times> string) list" where
  "zone_map = [(''10.0.200.'', ''enterprise''), (''10.0.300.'', ''quarantine''),
     (''10.0.99.'', ''management''), (''192.168.100.'', ''public'')]"

definition zone_policies :: "(string \<times> string list) list" where
  "zone_policies = [(''enterprise'', [''it_admin'', ''staff'', ''contractor'']),
     (''management'', [''it_admin'']), (''public'', [''guest'', ''contractor'']), (''quarantine'', [])]"

fun zone_of :: "string \<Rightarrow> (string \<times> string) list \<Rightarrow> string" where
  "zone_of ip [] = ''unknown''"
| "zone_of ip ((pre, zone) # zm) = (if starts_with pre ip then zone else zone_of ip zm)"

definition known_users :: "string list" where
  "known_users = [''kgosi.blanda'', ''admin'', ''user1'', ''user2'', ''contractor1'']"

definition is_anomalous_behavior :: "string \<Rightarrow> string \<Rightarrow> bool" where
  "is_anomalous_behavior user action = (action \<in> set ANOMALOUS_ACTIONS)"

definition calculate_trust_score :: "access_context \<Rightarrow> int" where
  "calculate_trust_score ctx =
     (let user_known = ac_user_id ctx \<in> set known_users;
          s1 = (if user_known then 40 else 0);
          s2 = (if user_known \<and> (ac_ssid_name ctx = ''eGov'' \<or> ac_ssid_name ctx = ''Astartis-Admin'')
                then s1 + 20 else s1);
          s3 = (if user_known \<and> starts_with ''10.0.200.'' (ac_source_ip ctx) then s2 + 20 else s2);
          s4 = (if \<not> is_anomalous_behavior (ac_user_id ctx) (ac_requested_resource ctx) then s3 + 20 else s3)
      in min s4 100)"

definition is_cross_zone_allowed :: "string \<Rightarrow> string \<Rightarrow> string \<Rightarrow> bool" where
  "is_cross_zone_allowed from_zone to_zone role =
     (if from_zone = ''public'' \<and> to_zone = ''enterprise'' then False
      else if from_zone = ''public'' \<and> to_zone = ''management'' then False
      else if from_zone = ''quarantine'' then False
      else case map_of zone_policies to_zone of
        None \<Rightarrow> False
      | Some roles \<Rightarrow> role \<in> set roles)"

fun decision_str :: "trust_decision \<Rightarrow> string" where
  "decision_str ALLOW = ''ALLOW''"
| "decision_str DENY = ''DENY''"
| "decision_str QUARANTINE = ''QUARANTINE''"
| "decision_str MFA_REQUIRED = ''MFA_REQUIRED''"
| "decision_str LIMITED = ''LIMITED''"

definition zt_payload :: "access_context \<Rightarrow> trust_decision \<Rightarrow> string \<Rightarrow> string" where
  "zt_payload ctx d reason = ''user='' @ ac_user_id ctx @ '' device='' @ ac_device_id ctx
     @ '' src='' @ ac_source_ip ctx @ '' dst='' @ ac_destination_ip ctx
     @ '' resource='' @ ac_requested_resource ctx @ '' ssid='' @ ac_ssid_name ctx
     @ '' score='' @ str_of_int (ac_trust_score ctx) @ '' decision='' @ decision_str d
     @ '' reason='' @ reason"

definition log_decision :: "'w audit_adder \<Rightarrow> access_context \<Rightarrow> trust_decision \<Rightarrow> string \<Rightarrow> 'w \<Rightarrow> 'w" where
  "log_decision add ctx d reason w = emit add ''zerotrust_decision'' (zt_payload ctx d reason) w"

definition zt_verdict :: "access_context \<Rightarrow> trust_decision \<times> string" where
  "zt_verdict ctx =
     (let score = calculate_trust_score ctx;
          from_zone = zone_of (ac_source_ip ctx) zone_map;
          to_zone = zone_of (ac_destination_ip ctx) zone_map in
      if is_anomalous_behavior (ac_user_id ctx) (ac_requested_resource ctx) then
        (MFA_REQUIRED, ''Anomalous behavior detected '' @ em_dash @ '' MFA required'')
      else if \<not> is_cross_zone_allowed from_zone to_zone ''staff'' then
        (DENY, ''Cross-zone routing denied: '' @ from_zone @ '' '' @ right_arrow @ '' '' @ to_zone)
      else if score \<ge> 70 then
        (ALLOW, ''Trust score '' @ str_of_int score @ '' >= 70 '' @ em_dash @ '' full access'')
      else if score \<ge> 40 then
        (LIMITED, ''Trust score '' @ str_of_int score @ '' '' @ em_dash @ '' limited access'')
      else (QUARANTINE, ''Trust score '' @ str_of_int score @ '' < 40 '' @ em_dash @ '' quarantine''))"

definition zt_evaluate :: "'w audit_adder \<Rightarrow> access_context \<Rightarrow> 'w \<Rightarrow> trust_decision \<times> 'w" where
  "zt_evaluate add ctx w = (let (d, reason) = zt_verdict ctx in (d, log_decision add ctx d reason w))"

section \<open>NAC workflow\<close>

record device_posture =
  dp_os_updated :: bool
  dp_antivirus_running :: bool
  dp_disk_encrypted :: bool
  dp_firewall_enabled :: bool
  dp_screen_lock_enabled :: bool
  dp_os_version :: string
  dp_last_update_date :: string
  dp_critical_patches_missing :: int

record identity_credentials =
  ic_username :: string
  ic_domain :: string
  ic_certificate_based :: bool
  ic_cert_thumbprint :: string

record access_request =
  rq_device_mac :: string
  rq_device_name :: string
  rq_ssid_name :: string
  rq_identity :: identity_credentials
  rq_posture :: device_posture

datatype nac_result = NAC_ALLOW_FULL | NAC_ALLOW_LIMITED | NAC_MFA_REQUIRED | NAC_QUARANTINE | NAC_DENY

record nac_decision =
  nd_result :: nac_result
  nd_assigned_vlan :: string
  nd_assigned_role :: string
  nd_accessible_resources :: "string list"
  nd_remediation_reason :: string
  nd_reauth_interval :: int

datatype nac_step = CONNECT | AUTH_8021X | VERIFY_IDENTITY | POSTURE_CHECK | APPLY_POLICY | RBAC_ASSIGN
  | CONTINUOUS_MONITOR | REMEDIATE

record step_result =
  sp_step :: nac_step
  sp_passed :: bool
  sp_detail :: string
  sp_duration_ms :: int

definition KNOWN_DEVICES :: "string list" where
  "KNOWN_DEVICES = [''11:22:33:44:55:66'', ''aa:bb:cc:dd:ee:ff'', ''de:ad:be:ef:00:01'']"

definition USER_ROLES :: "(string \<times> string) list" where
  "USER_ROLES = [(''kgosi.blanda'', ''it_admin''), (''admin'', ''it_admin''), (''user1'', ''staff''),
     (''user2'', ''staff''), (''contractor1'', ''contractor''), (''guest'', ''guest'')]"

definition ROLE_RESOURCES :: "(string \<times> string list) list" where
  "ROLE_RESOURCES =
     [(''it_admin'', [''file-server'', ''admin-portal'', ''print-server'', ''dc01'', ''backup-repo'']),
      (''staff'', [''file-server'', ''print-server'', ''intranet'']),
      (''contractor'', [''intranet'']), (''guest'', [])]"

definition is_known_device :: "string \<Rightarrow> bool" where
  "is_known_device mac = (tolower mac \<in> set KNOWN_DEVICES)"

definition authenticate_8021x :: "string \<Rightarrow> identity_credentials \<Rightarrow> bool" where
  "authenticate_8021x ssid creds =
     (if ssid = ''SmartBots'' then True else ic_username creds \<noteq> [] \<and> ic_domain creds \<noteq> [])"

definition verify_identity :: "identity_credentials \<Rightarrow> bool" where
  "verify_identity creds = (map_of USER_ROLES (ic_username creds) \<noteq> None)"

definition determine_role :: "string \<Rightarrow> string \<Rightarrow> string" where
  "determine_role user domain = (case map_of USER_ROLES user of Some r \<Rightarrow> r | None \<Rightarrow> ''guest'')"

definition resources_for_role :: "string \<Rightarrow> string list" where
  "resources_for_role role = (case map_of ROLE_RESOURCES role of Some rs \<Rightarrow> rs | None \<Rightarrow> [])"

definition is_compliant :: "device_posture \<Rightarrow> bool" where
  "is_compliant p = (dp_os_updated p \<and> dp_antivirus_running p \<and> dp_disk_encrypted p \<and> dp_firewall_enabled p)"

definition build_decision :: "bool \<Rightarrow> bool \<Rightarrow> string \<Rightarrow> string \<Rightarrow> nac_decision" where
  "build_decision identity_ok posture_ok role ssid =
     (if ssid = ''SmartBots'' then
        \<lparr>nd_result = NAC_ALLOW_LIMITED, nd_assigned_vlan = ''VLAN_100'', nd_assigned_role = ''guest'',
         nd_accessible_resources = [], nd_remediation_reason = [], nd_reauth_interval = 3600\<rparr>
      else if \<not> identity_ok then
        \<lparr>nd_result = NAC_DENY, nd_assigned_vlan = [], nd_assigned_role = ''none'', nd_accessible_resources = [],
         nd_remediation_reason = ''Identity verification failed '' @ em_dash @ '' unknown user or bad credentials'',
         nd_reauth_interval = 3600\<rparr>
      else if \<not> posture_ok then
        \<lparr>nd_result = NAC_QUARANTINE, nd_assigned_vlan = ''VLAN_300'', nd_assigned_role = ''quarantine'',
         nd_accessible_resources = [],
         nd_remediation_reason = ''Device posture non-compliant '' @ em_dash
           @ '' run OS updates and enable encryption'',
         nd_reauth_interval = 300\<rparr>
      else
        \<lparr>nd_result = NAC_ALLOW_FULL, nd_assigned_vlan = ''VLAN_200'', nd_assigned_role = role,
         nd_accessible_resources = resources_for_role role, nd_remediation_reason = [],
         nd_reauth_interval = 3600\<rparr>)"

definition nac_process :: "access_request \<Rightarrow> nac_decision" where
  "nac_process rq =
     (let identity_ok = authenticate_8021x (rq_ssid_name rq) (rq_identity rq) \<and> verify_identity (rq_identity rq);
          posture_ok = is_compliant (rq_posture rq);
          role = (if identity_ok then determine_role (ic_username (rq_identity rq)) (ic_domain (rq_identity rq))
                  else ''guest'')
      in build_decision identity_ok posture_ok role (rq_ssid_name rq))"

definition make_step :: "nac_step \<Rightarrow> bool \<Rightarrow> string \<Rightarrow> step_result" where
  "make_step s passed detail = \<lparr>sp_step = s, sp_passed = passed, sp_detail = detail, sp_duration_ms = 1\<rparr>"

definition posture_detail :: "device_posture \<Rightarrow> string" where
  "posture_detail p =
     (if is_compliant p then
        ''Device posture compliant (OS updated, AV running, disk encrypted, firewall on)''
      else ''Posture NON-COMPLIANT:''
        @ (if dp_os_updated p then [] else '' [OS not updated]'')
        @ (if dp_antivirus_running p then [] else '' [AV not running]'')
        @ (if dp_disk_encrypted p then [] else '' [disk not encrypted]'')
        @ (if dp_firewall_enabled p then [] else '' [firewall disabled]''))"

definition process_verbose :: "access_request \<Rightarrow> step_result list" where
  "process_verbose rq =
     (let ident = rq_identity rq;
          auth_ok = authenticate_8021x (rq_ssid_name rq) ident;
          id_ok = auth_ok \<and> verify_identity ident;
          posture_ok = is_compliant (rq_posture rq);
          role = (if id_ok then determine_role (ic_username ident) (ic_domain ident) else ''guest'');
          d = build_decision id_ok posture_ok role (rq_ssid_name rq);
          policy_ok = (nd_result d = NAC_ALLOW_FULL \<or> nd_result d = NAC_ALLOW_LIMITED);
          needs_remediation = (nd_result d = NAC_QUARANTINE \<or> nd_result d = NAC_DENY)
      in [make_step CONNECT True (''Device '' @ rq_device_name rq @ '' ('' @ rq_device_mac rq @ '') connected to ''
            @ rq_ssid_name rq),
          make_step AUTH_8021X auth_ok
            (if auth_ok then ''802.1X EAP accepted for '' @ ic_username ident @ ''@'' @ ic_domain ident
             else ''802.1X EAP rejected '' @ em_dash @ '' missing credentials''),
          make_step VERIFY_IDENTITY id_ok
            (if id_ok then ''AD/LDAP: user '' @ squote @ ic_username ident @ squote @ '' found in directory''
             else ''AD/LDAP: user '' @ squote @ ic_username ident @ squote @ '' not found''),
          make_step POSTURE_CHECK posture_ok (posture_detail (rq_posture rq)),
          make_step APPLY_POLICY policy_ok
            (''Policy: VLAN='' @ nd_assigned_vlan d @ '' role='' @ nd_assigned_role d),
          make_step RBAC_ASSIGN (policy_ok \<and> id_ok)
            (''RBAC: role='' @ role @ '' resources='' @ str_of_nat (length (nd_accessible_resources d))),
          make_step CONTINUOUS_MONITOR True
            (''Continuous monitoring enabled '' @ em_dash @ '' reauth in '' @ str_of_int (nd_reauth_interval d) @ ''s''),
          make_step REMEDIATE (\<not> needs_remediation)
            (if needs_remediation then ''Remediation required: '' @ nd_remediation_reason d
             else ''No remediation needed'')])"

section \<open>VLAN segmentation\<close>

datatype security_posture = FILTERED_INTERNET | ZERO_TRUST | MANAGEMENT

record ssid_config =
  sc_ssid_name :: string
  sc_vlan_id :: string
  sc_ip_subnet :: string
  sc_gateway :: string
  sc_posture :: security_posture
  sc_client_isolation :: bool
  sc_requires_8021x :: bool
  sc_captive_portal_url :: string
  sc_bandwidth_limit_mbps :: int
  sc_session_timeout_minutes :: int

definition make_public_ssid :: ssid_config where
  "make_public_ssid = \<lparr>sc_ssid_name = ''SmartBots'', sc_vlan_id = ''VLAN_100'',
     sc_ip_subnet = ''192.168.100.0/24'', sc_gateway = ''192.168.100.1'', sc_posture = FILTERED_INTERNET,
     sc_client_isolation = True, sc_requires_8021x = False,
     sc_captive_portal_url = ''http://captive.astartis.local'', sc_bandwidth_limit_mbps = 10,
     sc_session_timeout_minutes = 60\<rparr>"

definition make_enterprise_ssid :: ssid_config where
  "make_enterprise_ssid = \<lparr>sc_ssid_name = ''eGov'', sc_vlan_id = ''VLAN_200'',
     sc_ip_subnet = ''10.0.200.0/24'', sc_gateway = ''10.0.200.1'', sc_posture = ZERO_TRUST,
     sc_client_isolation = False, sc_requires_8021x = True, sc_captive_portal_url = [],
     sc_bandwidth_limit_mbps = 0, sc_session_timeout_minutes = 0\<rparr>"

definition make_management_ssid :: ssid_config where
  "make_management_ssid = \<lparr>sc_ssid_name = ''Astartis-Admin'', sc_vlan_id = ''VLAN_999'',
     sc_ip_subnet = ''10.0.99.0/24'', sc_gateway = ''10.0.99.1'', sc_posture = MANAGEMENT,
     sc_client_isolation = True, sc_requires_8021x = True, sc_captive_portal_url = [],
     sc_bandwidth_limit_mbps = 100, sc_session_timeout_minutes = 30\<rparr>"

definition vlan_routing_allowed :: "string \<Rightarrow> string \<Rightarrow> bool" where
  "vlan_routing_allowed from_vlan to_vlan =
     (if from_vlan = ''VLAN_100'' \<and> to_vlan = ''VLAN_200'' then False
      else if from_vlan = ''VLAN_100'' \<and> to_vlan = ''VLAN_999'' then False
      else if from_vlan = ''VLAN_200'' \<and> to_vlan = ''VLAN_999'' then False
      else True)"

section \<open>Lemmas\<close>

lemma trust_score_cases:
  "calculate_trust_score ctx =
     (if ac_requested_resource ctx \<in> set ANOMALOUS_ACTIONS then 0 else 20) +
     (if ac_user_id ctx \<in> set known_users then
        40 + (if ac_ssid_name ctx = ''eGov'' \<or> ac_ssid_name ctx = ''Astartis-Admin'' then 20 else 0)
           + (if starts_with ''10.0.200.'' (ac_source_ip ctx) then 20 else 0)
      else 0)"
  unfolding calculate_trust_score_def is_anomalous_behavior_def Let_def by simp

lemma trust_bounds: "0 \<le> calculate_trust_score ctx \<and> calculate_trust_score ctx \<le> 100"
  unfolding trust_score_cases by simp

text \<open>With the role fixed to \<^verbatim>\<open>staff\<close>, only the enterprise zone can be entered.\<close>

lemma staff_zones:
  "is_cross_zone_allowed from_zone to_zone ''staff'' =
     (to_zone = ''enterprise'' \<and> from_zone \<noteq> ''public'' \<and> from_zone \<noteq> ''quarantine'')"
  by (simp add: is_cross_zone_allowed_def zone_policies_def)

lemma zone_of_cases:
  "zone_of ip zone_map = (if starts_with ''10.0.200.'' ip then ''enterprise''
     else if starts_with ''10.0.300.'' ip then ''quarantine''
     else if starts_with ''10.0.99.'' ip then ''management''
     else if starts_with ''192.168.100.'' ip then ''public'' else ''unknown'')"
  by (simp add: zone_map_def)

lemma roles_known: "map_of USER_ROLES u = Some r \<Longrightarrow> map_of ROLE_RESOURCES r \<noteq> None"
  by (auto simp: USER_ROLES_def ROLE_RESOURCES_def split: if_splits)

lemma user_resources:
  "map_of USER_ROLES u = Some r \<Longrightarrow> resources_for_role (determine_role u dom') = the (map_of ROLE_RESOURCES r)"
  using roles_known [of u r] by (auto simp: determine_role_def resources_for_role_def)

section \<open>Properties\<close>

text \<open>C28. The decision table of the engine: an anomalous action asks for a second factor before segmentation is
  looked at; otherwise access is denied unless the destination is in the enterprise zone and the source is
  neither public nor quarantined (a source in no known zone passes); then an unknown user is quarantined and a known one
  gets full access on a trusted network name or from the enterprise subnet. Each evaluation adds one entry,
  with the score of the request as it was handed in.\<close>

theorem zt_decision_table:
  "let (d, w') = zt_evaluate (audit_add sha env) ctx w; src = zone_of (ac_source_ip ctx) zone_map in
   d = (if ac_requested_resource ctx \<in> set ANOMALOUS_ACTIONS then MFA_REQUIRED
        else if zone_of (ac_destination_ip ctx) zone_map \<noteq> ''enterprise'' then DENY
        else if src = ''public'' then DENY else if src = ''quarantine'' then DENY
        else if ac_user_id ctx \<notin> set known_users then QUARANTINE
        else if ac_ssid_name ctx \<in> set [''eGov'', ''Astartis-Admin''] then ALLOW
        else if src = ''enterprise'' then ALLOW else LIMITED) \<and>
   (\<exists>reason. trail w' = trail w @ [(''zerotrust_decision'', zt_payload ctx d reason)])"
proof -
  define v where "v = zt_verdict ctx"
  have "fst v = (if ac_requested_resource ctx \<in> set ANOMALOUS_ACTIONS then MFA_REQUIRED
        else if zone_of (ac_destination_ip ctx) zone_map \<noteq> ''enterprise'' then DENY
        else if zone_of (ac_source_ip ctx) zone_map = ''public'' then DENY
        else if zone_of (ac_source_ip ctx) zone_map = ''quarantine'' then DENY
        else if ac_user_id ctx \<notin> set known_users then QUARANTINE
        else if ac_ssid_name ctx \<in> set [''eGov'', ''Astartis-Admin''] then ALLOW
        else if zone_of (ac_source_ip ctx) zone_map = ''enterprise'' then ALLOW else LIMITED)"
    unfolding v_def zt_verdict_def Let_def staff_zones trust_score_cases is_anomalous_behavior_def
    by (simp add: zone_of_cases [of "ac_source_ip ctx"])
  then show ?thesis
    by (simp add: zt_evaluate_def log_decision_def v_def [symmetric] case_prod_beta Let_def chain.events_emit
        del: set_simps) blast
qed

text \<open>NAC admission: full access goes exactly to identified users on compliant devices off the public network,
  only full access comes with resources, and these are the resources of the user's role in the directory.\<close>

theorem nac_admission:
  "let d = nac_process rq; u = ic_username (rq_identity rq) in
   (nd_result d = NAC_ALLOW_FULL) = (rq_ssid_name rq \<noteq> ''SmartBots'' \<and> ic_domain (rq_identity rq) \<noteq> [] \<and>
       map_of USER_ROLES u \<noteq> None \<and> is_compliant (rq_posture rq)) \<and>
   nd_accessible_resources d =
     (if nd_result d = NAC_ALLOW_FULL then the (map_of ROLE_RESOURCES (the (map_of USER_ROLES u))) else [])"
proof -
  have "map_of USER_ROLES [] = None" by (simp add: USER_ROLES_def)
  then show ?thesis
    by (auto simp: nac_process_def build_decision_def authenticate_8021x_def verify_identity_def
        user_resources Let_def)
qed

text \<open>The verbose run reports what the workflow decides: eight steps in order, where the policy step passes
  exactly when access is granted, the remediation step exactly when it is not withheld, and the identity
  and posture steps exactly when the workflow found them in order.\<close>

theorem nac_verbose_agrees:
  "let d = nac_process rq; r = nd_result d; ok = map sp_passed (process_verbose rq) in
   map sp_step (process_verbose rq) = [CONNECT, AUTH_8021X, VERIFY_IDENTITY, POSTURE_CHECK, APPLY_POLICY,
     RBAC_ASSIGN, CONTINUOUS_MONITOR, REMEDIATE] \<and>
   ok ! 4 = (r = NAC_ALLOW_FULL \<or> r = NAC_ALLOW_LIMITED) \<and> ok ! 7 = (r = NAC_ALLOW_FULL \<or> r = NAC_ALLOW_LIMITED) \<and>
   (if rq_ssid_name rq = ''SmartBots'' then r = NAC_ALLOW_LIMITED
    else r = (if \<not> ok ! 2 then NAC_DENY else if \<not> ok ! 3 then NAC_QUARANTINE else NAC_ALLOW_FULL))"
  by (simp add: process_verbose_def nac_process_def build_decision_def make_step_def Let_def)

text \<open>Segmentation of what the workflow assigns: a device with full access cannot be routed to the management
  VLAN and a public one to neither internal VLAN, but a quarantined device can be routed to both.\<close>

theorem quarantine_vlan_not_isolated:
  "let d = nac_process rq; route = vlan_routing_allowed (nd_assigned_vlan d) in
   (case nd_result d of
      NAC_ALLOW_FULL \<Rightarrow> \<not> route (sc_vlan_id make_management_ssid)
    | NAC_ALLOW_LIMITED \<Rightarrow> \<not> route (sc_vlan_id make_enterprise_ssid) \<and> \<not> route (sc_vlan_id make_management_ssid)
    | NAC_QUARANTINE \<Rightarrow> route (sc_vlan_id make_enterprise_ssid) \<and> route (sc_vlan_id make_management_ssid)
    | NAC_DENY \<Rightarrow> nd_assigned_vlan d = []
    | NAC_MFA_REQUIRED \<Rightarrow> False)"
  by (simp add: nac_process_def build_decision_def vlan_routing_allowed_def make_management_ssid_def
      make_enterprise_ssid_def Let_def)

text \<open>The score in the entry of a decision is the one the caller put into the request, which plays no part in the decision;
  the score that decided is not logged.\<close>

lemma audited_score_is_the_callers:
  "zt_verdict (ctx\<lparr>ac_trust_score := n\<rparr>) = zt_verdict ctx"
  "contains ('' score='' @ str_of_int n @ '' decision='') (zt_payload (ctx\<lparr>ac_trust_score := n\<rparr>) d reason)"
proof -
  show "zt_verdict (ctx\<lparr>ac_trust_score := n\<rparr>) = zt_verdict ctx"
    by (simp add: zt_verdict_def calculate_trust_score_def)
  have "zt_payload (ctx\<lparr>ac_trust_score := n\<rparr>) d reason =
      (''user='' @ ac_user_id ctx @ '' device='' @ ac_device_id ctx @ '' src='' @ ac_source_ip ctx
       @ '' dst='' @ ac_destination_ip ctx @ '' resource='' @ ac_requested_resource ctx @ '' ssid='' @ ac_ssid_name ctx)
      @ ('' score='' @ str_of_int n @ '' decision='') @ (decision_str d @ '' reason='' @ reason)"
    by (simp add: zt_payload_def)
  then show "contains ('' score='' @ str_of_int n @ '' decision='') (zt_payload (ctx\<lparr>ac_trust_score := n\<rparr>) d reason)"
    unfolding contains_iff by blast
qed

end
