(* ===== verification/Cxx_Regex.thy ===== *)
theory Cxx_Regex
  imports Cxx_Strings
begin

text \<open>
  \<^verbatim>\<open>std::regex\<close> in its default (ECMAScript) grammar, as far as the sources use it: character classes,
  word boundaries, sequences, greedy bounded repetition and \<^verbatim>\<open>+\<close>. A match is found by backtracking:
  \<open>rx_ends r s i\<close> lists the positions where a match of \<open>r\<close> starting at \<open>i\<close> can end, in the order in
  which the backtracking search tries them, so its head is the match that is reported.
\<close>

section \<open>Model\<close>

datatype rx =
    Cls "char \<Rightarrow> bool"
  | WordB
  | Seq rx rx
  | Rep nat nat rx
  | Plus rx

definition is_alpha :: "char \<Rightarrow> bool" where
  "is_alpha c = (c \<in> set ''ABCDEFGHIJKLMNOPQRSTUVWXYZabcdefghijklmnopqrstuvwxyz'')"

definition is_alnum :: "char \<Rightarrow> bool" where
  "is_alnum c = (is_alpha c \<or> is_digit c)"

definition is_word :: "char \<Rightarrow> bool" where
  "is_word c = (is_alnum c \<or> c = CHR ''_'')"

definition word_at :: "string \<Rightarrow> nat \<Rightarrow> bool" where
  "word_at s i = (i < length s \<and> is_word (s ! i))"

definition boundary :: "string \<Rightarrow> nat \<Rightarrow> bool" where
  "boundary s i = ((0 < i \<and> word_at s (i - 1)) \<noteq> word_at s i)"

text \<open>Greedy repetition, at least \<open>lo\<close> and at most \<open>hi\<close> times: one more round first, then stopping.\<close>

fun rep_ends :: "(nat \<Rightarrow> nat list) \<Rightarrow> nat \<Rightarrow> nat \<Rightarrow> nat \<Rightarrow> nat list" where
  "rep_ends f lo 0 i = (if lo = 0 then [i] else [])"
| "rep_ends f lo (Suc hi) i = concat (map (rep_ends f (lo - 1) hi) (f i)) @ (if lo = 0 then [i] else [])"

text \<open>An iteration of \<^verbatim>\<open>+\<close> consumes a character here, so the length of the text bounds it.\<close>

primrec rx_ends :: "rx \<Rightarrow> string \<Rightarrow> nat \<Rightarrow> nat list" where
  "rx_ends (Cls p) s i = (if i < length s \<and> p (s ! i) then [i + 1] else [])"
| "rx_ends WordB s i = (if boundary s i then [i] else [])"
| "rx_ends (Seq a b) s i = concat (map (rx_ends b s) (rx_ends a s i))"
| "rx_ends (Rep lo hi a) s i = rep_ends (rx_ends a s) lo hi i"
| "rx_ends (Plus a) s i = rep_ends (rx_ends a s) 1 (length s) i"

text \<open>\<^verbatim>\<open>regex_search\<close>: the leftmost start, as a pair of start and end.\<close>

definition rx_search :: "rx \<Rightarrow> string \<Rightarrow> nat \<Rightarrow> (nat \<times> nat) option" where
  "rx_search r s start =
     (case List.find (\<lambda>i. rx_ends r s i \<noteq> []) [start..<Suc (length s)] of
        None \<Rightarrow> None
      | Some i \<Rightarrow> Some (i, hd (rx_ends r s i)))"

definition substr :: "string \<Rightarrow> nat \<Rightarrow> nat \<Rightarrow> string" where
  "substr s i j = take (j - i) (drop i s)"

definition rx_first :: "rx \<Rightarrow> string \<Rightarrow> string option" where
  "rx_first r s = (case rx_search r s 0 of None \<Rightarrow> None | Some (i, j) \<Rightarrow> Some (substr s i j))"

lemma rx_search_bounds: "rx_search r s start = Some (i, j) \<Longrightarrow> start \<le> i \<and> i \<le> length s \<and> j \<in> set (rx_ends r s i)"
  by (auto simp: rx_search_def find_Some_iff nth_append split: option.splits if_splits)

text \<open>
  \<^verbatim>\<open>sregex_iterator\<close>: the next search starts where the last match ended. The regular expressions iterated
  here never match the empty string; an empty match would end the iteration.
\<close>

function rx_iter :: "rx \<Rightarrow> string \<Rightarrow> nat \<Rightarrow> string list" where
  "rx_iter r s start =
     (case rx_search r s start of
        None \<Rightarrow> []
      | Some (i, j) \<Rightarrow> if i < j then substr s i j # rx_iter r s j else [])"
  by pat_completeness auto
termination
proof (relation "measure (\<lambda>(r, s, start). Suc (length s) - start)", goal_cases)
  case (2 r s start x i j)
  then have "start \<le> i" "i \<le> length s" using rx_search_bounds [of r s start i j] by auto
  with 2 show ?case by auto
qed simp

declare rx_iter.simps [simp del]

section \<open>What a match consists of\<close>

text \<open>Every character of a match is in one of the classes of the expression.\<close>

primrec rx_over :: "(char \<Rightarrow> bool) \<Rightarrow> rx \<Rightarrow> bool" where
  "rx_over q (Cls p) = (\<forall>c. p c \<longrightarrow> q c)"
| "rx_over q WordB = True"
| "rx_over q (Seq a b) = (rx_over q a \<and> rx_over q b)"
| "rx_over q (Rep lo hi a) = rx_over q a"
| "rx_over q (Plus a) = rx_over q a"

definition spans :: "(char \<Rightarrow> bool) \<Rightarrow> string \<Rightarrow> nat \<Rightarrow> nat \<Rightarrow> bool" where
  "spans q s i j = (i \<le> j \<and> (\<forall>k. i \<le> k \<and> k < j \<longrightarrow> k < length s \<and> q (s ! k)))"

lemma spans_refl [simp]: "spans q s i i"
  by (auto simp: spans_def)

lemma spans_trans: "spans q s i j \<Longrightarrow> spans q s j k \<Longrightarrow> spans q s i k"
  unfolding spans_def by (meson le_trans not_le)

lemma rep_ends_spans:
  "(\<And>i j. j \<in> set (f i) \<Longrightarrow> spans q s i j) \<Longrightarrow> j \<in> set (rep_ends f lo hi i) \<Longrightarrow> spans q s i j"
proof (induction hi arbitrary: lo i)
  case (Suc hi)
  from Suc.prems(2) consider "j = i" | k where "k \<in> set (f i)" "j \<in> set (rep_ends f (lo - 1) hi k)"
    by (auto split: if_splits)
  then show ?case
  proof cases
    case 2
    from Suc.IH [OF Suc.prems(1) 2(2)] Suc.prems(1) [OF 2(1)] show ?thesis by (blast intro: spans_trans)
  qed simp
qed (simp split: if_splits)

lemma rx_ends_spans: "rx_over q r \<Longrightarrow> j \<in> set (rx_ends r s i) \<Longrightarrow> spans q s i j"
proof (induction r arbitrary: i j)
  case (Cls p)
  then show ?case by (auto simp: spans_def less_Suc_eq split: if_splits)
next
  case (Seq a b)
  from Seq.prems(2) obtain k where k: "k \<in> set (rx_ends a s i)" "j \<in> set (rx_ends b s k)" by auto
  have "spans q s i k" "spans q s k j" using Seq k by auto
  then show ?case by (rule spans_trans)
next
  case (Rep lo hi a)
  then show ?case using rep_ends_spans [of "rx_ends a s" q s] by auto
next
  case (Plus a)
  then show ?case using rep_ends_spans [of "rx_ends a s" q s] by auto
qed (simp split: if_splits)

lemma substr_chars: "spans q s i j \<Longrightarrow> list_all q (substr s i j)"
  by (auto simp: spans_def substr_def list_all_length)

lemma rx_iter_chars: "rx_over q r \<Longrightarrow> m \<in> set (rx_iter r s start) \<Longrightarrow> list_all q m"
proof (induction r s start rule: rx_iter.induct)
  case (1 r s start)
  show ?case
  proof (cases "rx_search r s start")
    case None
    with 1(3) show ?thesis by (simp add: rx_iter.simps)
  next
    case (Some ij)
    obtain i j where ij: "ij = (i, j)" by (cases ij)
    from Some ij have "j \<in> set (rx_ends r s i)" using rx_search_bounds [of r s start i j] by simp
    then have "list_all q (substr s i j)" using 1(2) by (intro substr_chars rx_ends_spans)
    with 1 Some ij show ?thesis by (auto simp: rx_iter.simps [of r s start] split: if_splits)
  qed
qed

lemma rx_first_chars: "rx_over q r \<Longrightarrow> rx_first r s = Some m \<Longrightarrow> list_all q m"
  by (auto simp: rx_first_def split: option.splits dest!: rx_search_bounds intro!: substr_chars rx_ends_spans)

end
