(* ===== verification/ActionDispatcher.thy ===== *)
theory ActionDispatcher
  imports Firewall Quarantine ActiveResponse ZeroTrust Cxx_Regex Json
begin

text \<open>
  \<^verbatim>\<open>agents/controller\<close>: the policy engine and the dispatcher that turns the output of an agent into an
  action of one of four components, which share one audit chain. Parsing and printing JSON is vendored code: a
  parsed value is a \<open>json\<close>, and \<open>parse\<close> and \<open>dump\<close> are arguments (\<open>None\<close> when they throw).
\<close>

section \<open>Policy engine\<close>

definition FIREWALL_BLOCK_AGENTS :: "string list" where
  "FIREWALL_BLOCK_AGENTS = [''incident_responder'', ''breach_simulator'', ''red_team_coord'', ''ransomware_hunter'']"

definition QUARANTINE_AGENTS :: "string list" where
  "QUARANTINE_AGENTS = [''malware_analyst'', ''forensics_agent'', ''forensics_investigator'', ''threat_hunter'']"

definition DECEPTION_AGENTS :: "string list" where
  "DECEPTION_AGENTS = [''deception_engineer'', ''purple_team'']"

definition ZEROTRUST_DENY_AGENTS :: "string list" where
  "ZEROTRUST_DENY_AGENTS = [''zero_trust_engineer'', ''iam_privilege_auditor'']"

fun name_in :: "string list \<Rightarrow> string \<Rightarrow> bool" where
  "name_in [] name = False"
| "name_in (x # xs) name = (if name = x then True else name_in xs name)"

definition can_block_firewall :: "string \<Rightarrow> bool" where
  "can_block_firewall agent = name_in FIREWALL_BLOCK_AGENTS agent"

definition can_quarantine :: "string \<Rightarrow> bool" where
  "can_quarantine agent = name_in QUARANTINE_AGENTS agent"

definition can_deceive :: "string \<Rightarrow> bool" where
  "can_deceive agent = name_in DECEPTION_AGENTS agent"

definition can_zerotrust_deny :: "string \<Rightarrow> bool" where
  "can_zerotrust_deny agent = name_in ZEROTRUST_DENY_AGENTS agent"

section \<open>Extraction\<close>

definition private_prefixes :: "string list" where
  "private_prefixes = [''192.168.'', ''10.'', ''172.16.'', ''172.17.'', ''172.18.'', ''172.19.'', ''172.20.'',
     ''172.21.'', ''172.22.'', ''172.23.'', ''172.24.'', ''172.25.'', ''172.26.'', ''172.27.'', ''172.28.'',
     ''172.29.'', ''172.30.'', ''172.31.'']"

definition is_safe_ip :: "string \<Rightarrow> bool" where
  "is_safe_ip ip =
     (if ip = ''127.0.0.1'' \<or> ip = ''::1'' \<or> ip = ''0.0.0.0'' then True
      else if starts_with ''::'' ip \<and> length ip < 6 then True
      else list_ex (\<lambda>p. starts_with p ip) private_prefixes)"

abbreviation lit :: "char \<Rightarrow> rx" where
  "lit c \<equiv> Cls (\<lambda>d. d = c)"

definition ip_re :: rx where
  "ip_re = Seq WordB (Seq (Rep 3 3 (Seq (Rep 1 3 (Cls is_digit)) (lit (CHR ''.''))))
     (Seq (Rep 1 3 (Cls is_digit)) WordB))"

definition extract_ipv4 :: "string \<Rightarrow> string" where
  "extract_ipv4 text = (case List.find (\<lambda>ip. \<not> is_safe_ip ip) (rx_iter ip_re text 0) of
     Some ip \<Rightarrow> ip | None \<Rightarrow> [])"

definition path_char :: "char \<Rightarrow> bool" where
  "path_char c = (\<not> is_space c \<and> c \<notin> {CHR 0x22, CHR 0x27, CHR ''<'', CHR ''>'', CHR ''|'', CHR ''*'', CHR ''?''})"

definition path_re :: rx where
  "path_re = Seq (Cls is_alpha) (Seq (lit (CHR '':'')) (Seq (lit backslash) (Seq (Plus (Cls path_char))
     (Seq (lit (CHR ''.'')) (Rep 1 6 (Cls is_alnum))))))"

definition extract_filepath :: "string \<Rightarrow> string" where
  "extract_filepath text = (case rx_first path_re text of Some p \<Rightarrow> p | None \<Rightarrow> [])"

definition ilit :: "char \<Rightarrow> rx" where
  "ilit c = Cls (\<lambda>d. tolower_char d = c)"

definition sess_re :: rx where
  "sess_re = Seq WordB (Seq (ilit (CHR ''s'')) (Seq (ilit (CHR ''e'')) (Seq (ilit (CHR ''s'')) (Seq (ilit (CHR ''s''))
     (Seq (Rep 0 1 (Seq (ilit (CHR ''i'')) (Seq (ilit (CHR ''o'')) (ilit (CHR ''n'')))))
       (Seq (Rep 0 1 (lit (CHR ''_''))) (Seq (Rep 3 20 (Cls is_word)) WordB)))))))"

definition mac_re :: rx where
  "mac_re = Seq (Rep 2 2 (Cls is_xdigit)) (Rep 5 5 (Seq (lit (CHR '':'')) (Rep 2 2 (Cls is_xdigit))))"

section \<open>JSON fields\<close>

fun json_text :: "(json \<Rightarrow> string option) \<Rightarrow> json \<Rightarrow> string option" where
  "json_text dump (JString s) = Some s"
| "json_text dump j = dump j"

text \<open>The loop over an array: the first item with a hit; \<open>None\<close> when printing an item throws.\<close>

fun first_hit :: "(json \<Rightarrow> string option) \<Rightarrow> (string \<Rightarrow> string) \<Rightarrow> json list \<Rightarrow> string option" where
  "first_hit dump extract [] = Some []"
| "first_hit dump extract (x # xs) =
     (case json_text dump x of
        None \<Rightarrow> None
      | Some s \<Rightarrow> if extract s \<noteq> [] then Some (extract s) else first_hit dump extract xs)"

text \<open>
  The structured pass of \<^verbatim>\<open>try_firewall_block\<close> and \<^verbatim>\<open>try_quarantine\<close>, which differ in the names of the
  two fields and in the extraction: the first field may be an array or a string, the second is an array.
\<close>

definition structured_target ::
    "(string \<Rightarrow> json option) \<Rightarrow> (json \<Rightarrow> string option) \<Rightarrow> (string \<Rightarrow> string) \<Rightarrow> string \<Rightarrow> string \<Rightarrow> string \<Rightarrow> string" where
  "structured_target parse dump extract field1 field2 output =
     (case parse output of
        None \<Rightarrow> []
      | Some j \<Rightarrow>
          (case (case json_field field1 j of
                   Some (JArray xs) \<Rightarrow> first_hit dump extract xs
                 | Some (JString s) \<Rightarrow> Some (extract s)
                 | _ \<Rightarrow> Some []) of
             None \<Rightarrow> []
           | Some t \<Rightarrow>
               if t \<noteq> [] then t
               else (case json_field field2 j of
                       Some (JArray xs) \<Rightarrow> (case first_hit dump extract xs of None \<Rightarrow> [] | Some t' \<Rightarrow> t')
                     | _ \<Rightarrow> [])))"

definition find_target ::
    "(string \<Rightarrow> json option) \<Rightarrow> (json \<Rightarrow> string option) \<Rightarrow> (string \<Rightarrow> string) \<Rightarrow> string \<Rightarrow> string \<Rightarrow> string \<Rightarrow> string" where
  "find_target parse dump extract field1 field2 output =
     (let t = structured_target parse dump extract field1 field2 output in
      if t = [] then extract output else t)"

text \<open>The first element of an array field, as text.\<close>

definition head_text :: "(json \<Rightarrow> string option) \<Rightarrow> string \<Rightarrow> json \<Rightarrow> string option" where
  "head_text dump field j =
     (case json_field field j of
        Some (JArray (x # xs)) \<Rightarrow> json_text dump x
      | _ \<Rightarrow> Some [])"

definition find_session :: "(string \<Rightarrow> json option) \<Rightarrow> (json \<Rightarrow> string option) \<Rightarrow> string \<Rightarrow> string" where
  "find_session parse dump output =
     (case parse output of
        None \<Rightarrow> []
      | Some j \<Rightarrow>
          (case head_text dump ''eradication_steps'' j of
             None \<Rightarrow> []
           | Some s \<Rightarrow> (case rx_first sess_re s of Some m \<Rightarrow> m | None \<Rightarrow> [])))"

text \<open>Device and resource; a \<^verbatim>\<open>zt_score\<close> that is no string makes \<^verbatim>\<open>j.value\<close> throw after the device is set.\<close>

definition find_device :: "(string \<Rightarrow> json option) \<Rightarrow> (json \<Rightarrow> string option) \<Rightarrow> string \<Rightarrow> string \<times> string" where
  "find_device parse dump output =
     (case parse output of
        None \<Rightarrow> ([], [])
      | Some j \<Rightarrow>
          (case head_text dump ''recovery_checklist'' j of
             None \<Rightarrow> ([], [])
           | Some s \<Rightarrow>
               (case rx_first mac_re s of
                  Some m \<Rightarrow> (m, [])
                | None \<Rightarrow>
                    (case json_field ''zt_score'' j of
                       None \<Rightarrow> ([], [])
                     | Some (JString r) \<Rightarrow> (''device_ai_flagged'', r)
                     | Some _ \<Rightarrow> (''device_ai_flagged'', [])))))"

section \<open>Dispatch\<close>

record dispatch_result =
  dr_action_taken :: bool
  dr_action_type :: string
  dr_target :: string
  dr_audit_entry_id :: string
  dr_error_message :: string

text \<open>What the dispatcher acts on besides the chain, the environment it runs in and the readings of one call.\<close>

record 'f guarded =
  gd_fw :: firewall_blocker
  gd_os :: 'f
  gd_qtn :: quarantine
  gd_files :: files
  gd_ar :: active_response

record 'f dispatcher_env =
  dv_netsh :: "'f netsh"
  dv_sha :: "string \<Rightarrow> string"
  dv_absolute :: "string \<Rightarrow> string"
  dv_parse :: "string \<Rightarrow> json option"
  dv_dump :: "json \<Rightarrow> string option"

record dispatch_call =
  dl_stem_now :: int
  dl_now :: int
  dl_quarantine :: quarantine_call
  dl_serve_now :: int

definition try_firewall_block ::
    "'w audit_adder \<Rightarrow> 'f dispatcher_env \<Rightarrow> dispatch_call \<Rightarrow> string \<Rightarrow> string \<Rightarrow> dispatch_result \<Rightarrow> 'f guarded \<times> 'w
       \<Rightarrow> bool \<times> dispatch_result \<times> 'f guarded \<times> 'w" where
  "try_firewall_block add v k output agent out = (\<lambda>(g, w).
     if \<not> can_block_firewall agent then (False, out, g, w)
     else
       let ip = find_target (dv_parse v) (dv_dump v) extract_ipv4 ''containment_actions'' ''iocs_found'' output in
       if ip = [] then (False, out, g, w)
       else
         let (br, fw, os, w1) = block_ip add (dv_netsh v) (dl_stem_now k) (dl_now k) ip 900 (gd_fw g, gd_os g, w);
             (eid, w2) = add ''action_dispatcher_firewall''
               (''agent='' @ agent @ '' ip='' @ ip @ '' blocked='' @ str_of_bool (bk_blocked br)
                  @ '' reason='' @ bk_reason br) w1
         in (bk_blocked br,
             \<lparr>dr_action_taken = bk_blocked br, dr_action_type = ''firewall_block'', dr_target = ip,
              dr_audit_entry_id = eid, dr_error_message = (if bk_blocked br then [] else bk_reason br)\<rparr>,
             g\<lparr>gd_fw := fw, gd_os := os\<rparr>, w2))"

definition try_quarantine ::
    "'w audit_adder \<Rightarrow> 'f dispatcher_env \<Rightarrow> dispatch_call \<Rightarrow> string \<Rightarrow> string \<Rightarrow> dispatch_result \<Rightarrow> 'f guarded \<times> 'w
       \<Rightarrow> bool \<times> dispatch_result \<times> 'f guarded \<times> 'w" where
  "try_quarantine add v k output agent out = (\<lambda>(g, w).
     if \<not> can_quarantine agent then (False, out, g, w)
     else
       let path = find_target (dv_parse v) (dv_dump v) extract_filepath ''recommended_detections''
             ''eradication_steps'' output in
       if path = [] then (False, out, g, w)
       else
         let (entry, q, files, w1) = quarantine_file (dv_sha v) (dv_absolute v) add (dl_quarantine k) path
               (''AI-flagged by '' @ agent) (gd_qtn g, gd_files g, w);
             success = (qe_entry_id entry \<noteq> []);
             (eid, w2) = add ''action_dispatcher_quarantine''
               (''agent='' @ agent @ '' path='' @ path @ '' ok='' @ str_of_bool success) w1
         in (success,
             \<lparr>dr_action_taken = success, dr_action_type = ''quarantine'', dr_target = path,
              dr_audit_entry_id = eid,
              dr_error_message = (if success then [] else ''Quarantine failed (file may not exist)'')\<rparr>,
             g\<lparr>gd_qtn := q, gd_files := files\<rparr>, w2))"

definition try_deception ::
    "'w audit_adder \<Rightarrow> 'f dispatcher_env \<Rightarrow> dispatch_call \<Rightarrow> string \<Rightarrow> string \<Rightarrow> dispatch_result \<Rightarrow> 'f guarded \<times> 'w
       \<Rightarrow> bool \<times> dispatch_result \<times> 'f guarded \<times> 'w" where
  "try_deception add v k output agent out = (\<lambda>(g, w).
     if \<not> can_deceive agent then (False, out, g, w)
     else
       let found = find_session (dv_parse v) (dv_dump v) output;
           session = (if found = [] then ''session_ai_'' @ agent else found);
           (ev, ar, w1) = serve add (dl_serve_now k) session ''/ai_triggered'' agent (gd_ar g, w);
           (eid, w2) = add ''action_dispatcher_deception''
             (''agent='' @ agent @ '' session='' @ session @ '' tier='' @ str_of_int (rs_response_tier ev)) w1
       in (True,
           \<lparr>dr_action_taken = True, dr_action_type = ''deception'', dr_target = session,
            dr_audit_entry_id = eid, dr_error_message = []\<rparr>,
           g\<lparr>gd_ar := ar\<rparr>, w2))"

definition ai_context :: "string \<Rightarrow> string \<Rightarrow> string \<Rightarrow> access_context" where
  "ai_context agent device resource =
     \<lparr>ac_user_id = agent @ ''_assessment'', ac_device_id = device, ac_source_ip = ''0.0.0.0'',
      ac_destination_ip = ''10.0.200.1'',
      ac_requested_resource = (if resource = [] then ''/ai_flagged_resource'' else resource),
      ac_ssid_name = ''ENTERPRISE'', ac_trust_score = 0\<rparr>"

definition try_zerotrust_deny ::
    "'w audit_adder \<Rightarrow> 'f dispatcher_env \<Rightarrow> dispatch_call \<Rightarrow> string \<Rightarrow> string \<Rightarrow> dispatch_result \<Rightarrow> 'f guarded \<times> 'w
       \<Rightarrow> bool \<times> dispatch_result \<times> 'f guarded \<times> 'w" where
  "try_zerotrust_deny add v k output agent out = (\<lambda>(g, w).
     if \<not> can_zerotrust_deny agent then (False, out, g, w)
     else
       let (found, resource) = find_device (dv_parse v) (dv_dump v) output;
           device = (if found = [] then ''device_ai_'' @ agent else found);
           (d, w1) = zt_evaluate add (ai_context agent device resource) w;
           denied = (d = DENY \<or> d = trust_decision.QUARANTINE);
           (eid, w2) = add ''action_dispatcher_zerotrust''
             (''agent='' @ agent @ '' device='' @ device @ '' decision='' @ decision_str d) w1
       in (denied,
           \<lparr>dr_action_taken = denied, dr_action_type = ''zerotrust_deny'', dr_target = device,
            dr_audit_entry_id = eid,
            dr_error_message = (if denied then [] else
              ''ZeroTrust did not DENY (decision: '' @ decision_str d @ '')'')\<rparr>,
           g, w2))"

definition dispatch_advisory :: dispatch_result where
  "dispatch_advisory = \<lparr>dr_action_taken = False, dr_action_type = ''advisory'', dr_target = [],
     dr_audit_entry_id = [], dr_error_message = []\<rparr>"

definition dispatch ::
    "'w audit_adder \<Rightarrow> 'f dispatcher_env \<Rightarrow> dispatch_call \<Rightarrow> string \<Rightarrow> string \<Rightarrow> 'f guarded \<times> 'w
       \<Rightarrow> dispatch_result \<times> 'f guarded \<times> 'w" where
  "dispatch add v k agent output = (\<lambda>(g, w).
     if output = [] then (dispatch_advisory\<lparr>dr_error_message := ''empty agent output''\<rparr>, g, w)
     else
       let (done1, r1, g1, w1) = try_firewall_block add v k output agent dispatch_advisory (g, w) in
       if done1 then (r1, g1, w1)
       else let (done2, r2, g2, w2) = try_quarantine add v k output agent r1 (g1, w1) in
       if done2 then (r2, g2, w2)
       else let (done3, r3, g3, w3) = try_deception add v k output agent r2 (g2, w2) in
       if done3 then (r3, g3, w3)
       else let (done4, r4, g4, w4) = try_zerotrust_deny add v k output agent r3 (g3, w3) in
       if done4 then (r4, g4, w4)
       else let (eid, w5) = add ''action_dispatcher_advisory'' (''agent='' @ agent @ '' reason=no_actionable_output'') w4
       in (r4\<lparr>dr_audit_entry_id := eid\<rparr>, g4, w5))"

section \<open>Lemmas\<close>

definition ip_char :: "char \<Rightarrow> bool" where
  "ip_char c = (is_digit c \<or> c = CHR ''.'')"

lemma extract_ipv4_result:
  "extract_ipv4 t = [] \<or> \<not> is_safe_ip (extract_ipv4 t) \<and> list_all ip_char (extract_ipv4 t)"
proof (cases "List.find (\<lambda>ip. \<not> is_safe_ip ip) (rx_iter ip_re t 0)")
  case (Some ip)
  then have "\<not> is_safe_ip ip" "ip \<in> set (rx_iter ip_re t 0)" by (auto simp: find_Some_iff)
  moreover have "rx_over ip_char ip_re" by (simp add: ip_re_def ip_char_def)
  ultimately show ?thesis using rx_iter_chars by (auto simp: extract_ipv4_def Some)
qed (simp add: extract_ipv4_def)

lemma first_hit_extract: "first_hit dump extract xs = Some t \<Longrightarrow> t = [] \<or> (\<exists>s. t = extract s)"
  by (induction xs) (auto split: option.splits if_splits)

lemma structured_target_extract:
  "structured_target parse dump extract f1 f2 output = [] \<or> (\<exists>s. structured_target parse dump extract f1 f2 output = extract s)"
  by (auto simp: structured_target_def split: option.splits json.splits dest: first_hit_extract)

lemma find_target_extract: "\<exists>s. find_target parse dump extract f1 f2 output = extract s"
  using structured_target_extract [of parse dump "extract" f1 f2 "output"] by (auto simp: find_target_def Let_def)

text \<open>The lists of the policy engine do not overlap, so an agent has at most one kind of action.\<close>

lemma policies_disjoint:
  "can_block_firewall a \<Longrightarrow> \<not> can_quarantine a \<and> \<not> can_deceive a \<and> \<not> can_zerotrust_deny a"
  "can_quarantine a \<Longrightarrow> \<not> can_deceive a \<and> \<not> can_zerotrust_deny a"
  "can_deceive a \<Longrightarrow> \<not> can_zerotrust_deny a"
  by (auto simp: can_block_firewall_def can_quarantine_def can_deceive_def can_zerotrust_deny_def
      FIREWALL_BLOCK_AGENTS_def QUARANTINE_AGENTS_def DECEPTION_AGENTS_def ZEROTRUST_DENY_AGENTS_def split: if_splits)

definition public_block :: "string \<Rightarrow> bool" where
  "public_block ip = (list_all ip_char ip \<and> \<not> is_safe_ip ip)"

definition adds_public :: "firewall_blocker \<Rightarrow> firewall_blocker \<Rightarrow> bool" where
  "adds_public b b' \<longleftrightarrow> (\<forall>ip. sm_has ip (fb_blocks b') \<longrightarrow> sm_has ip (fb_blocks b) \<or> public_block ip)"

lemma adds_public_refl [simp]: "adds_public b b"
  by (simp add: adds_public_def)

lemma adds_public_trans: "adds_public a b \<Longrightarrow> adds_public b c \<Longrightarrow> adds_public a c"
  by (auto simp: adds_public_def)

text \<open>An attempt of a kind of action: what it may change, and that it is logged when it is made.\<close>

definition attempt_ok ::
    "('w \<Rightarrow> audit_event list) \<Rightarrow> bool \<Rightarrow> dispatch_result \<Rightarrow> 'f guarded \<times> 'w
       \<Rightarrow> bool \<times> dispatch_result \<times> 'f guarded \<times> 'w \<Rightarrow> bool" where
  "attempt_ok events allowed out s a \<longleftrightarrow>
     (\<not> allowed \<longrightarrow> a = (False, out, s)) \<and>
     (fst a \<longrightarrow> dr_action_taken (fst (snd a))) \<and>
     (\<not> fst a \<longrightarrow> \<not> dr_action_taken out \<longrightarrow> \<not> dr_action_taken (fst (snd a))) \<and>
     extends (events (snd s)) (events (snd (snd (snd a)))) \<and>
     (fst a \<longrightarrow> (\<exists>es t p. events (snd (snd (snd a))) = events (snd s) @ es @ [(t, p)] \<and> starts_with ''action_dispatcher_'' t)) \<and>
     adds_public (gd_fw (fst s)) (gd_fw (fst (snd (snd a))))"

definition logged :: "('w \<Rightarrow> audit_event list) \<Rightarrow> 'w \<Rightarrow> 'w \<Rightarrow> bool" where
  "logged ev w w' \<longleftrightarrow> (\<exists>es t p. ev w' = ev w @ es @ [(t, p)] \<and> starts_with ''action_dispatcher_'' t)"

text \<open>The frame of each attempt: the components it does not touch.\<close>

lemma attempt_frames:
  "gd_qtn (fst (snd (snd (try_firewall_block add v k output agent out (g, w))))) = gd_qtn g"
  "gd_files (fst (snd (snd (try_firewall_block add v k output agent out (g, w))))) = gd_files g"
  "gd_ar (fst (snd (snd (try_firewall_block add v k output agent out (g, w))))) = gd_ar g"
  "gd_fw (fst (snd (snd (try_quarantine add v k output agent out (g, w))))) = gd_fw g"
  "gd_os (fst (snd (snd (try_quarantine add v k output agent out (g, w))))) = gd_os g"
  "gd_ar (fst (snd (snd (try_quarantine add v k output agent out (g, w))))) = gd_ar g"
  "gd_fw (fst (snd (snd (try_deception add v k output agent out (g, w))))) = gd_fw g"
  "gd_os (fst (snd (snd (try_deception add v k output agent out (g, w))))) = gd_os g"
  "gd_qtn (fst (snd (snd (try_deception add v k output agent out (g, w))))) = gd_qtn g"
  "gd_files (fst (snd (snd (try_deception add v k output agent out (g, w))))) = gd_files g"
  "fst (snd (snd (try_zerotrust_deny add v k output agent out (g, w)))) = g"
  by (simp_all add: try_firewall_block_def try_quarantine_def try_deception_def try_zerotrust_deny_def
      Let_def case_prod_beta)

context audit_sink
begin

lemma block_ip_extends: "extends (events w) (events (snd (snd (snd (block_ip add netsh sn now ip ttl (b, f, w))))))"
proof (cases "bk_blocked (fst (block_ip add netsh sn now ip ttl (b, f, w)))")
  case True
  from block_accepted [OF True] show ?thesis by (auto simp: events_add)
next
  case False
  from block_refused_cases [OF this] show ?thesis by auto
qed

lemma block_ip_adds:
  assumes "sm_has j (fb_blocks (fst (snd (block_ip add netsh sn now ip ttl (b, f, w)))))"
  shows "sm_has j (fb_blocks b) \<or> j = ip"
proof (cases "bk_blocked (fst (block_ip add netsh sn now ip ttl (b, f, w)))")
  case True
  from block_accepted [OF True] assms show ?thesis
    by (auto simp: sm_has_def map_of_sm_assign split: if_splits)
next
  case False
  from block_refused_cases [OF this] assms show ?thesis by auto
qed

lemma quarantine_file_extends:
  "extends (events w) (events (snd (snd (snd (quarantine_file sha absolute add k src virus (q, files, w))))))"
  by (auto simp: quarantine_file_def Let_def events_emit split: option.splits)

lemma serve_extends: "extends (events w) (events (snd (snd (serve add now sid res hint (a, w)))))"
  by (auto simp: serve_def Let_def events_emit split: option.splits)

lemma try_firewall_ok: "attempt_ok events (can_block_firewall agent) out s (try_firewall_block add v k output agent out s)"
proof -
  obtain g w where s: "s = (g, w)" by (cases s)
  define ip where "ip = find_target (dv_parse v) (dv_dump v) extract_ipv4 ''containment_actions'' ''iocs_found'' output"
  obtain br fw os w1 where b: "block_ip add (dv_netsh v) (dl_stem_now k) (dl_now k) ip 900 (gd_fw g, gd_os g, w) = (br, fw, os, w1)"
    by (metis prod_cases4)
  from find_target_extract [of "dv_parse v" "dv_dump v" extract_ipv4 "''containment_actions''" "''iocs_found''" "output"]
  have "ip = [] \<or> public_block ip" using extract_ipv4_result by (auto simp: ip_def [symmetric] public_block_def)
  moreover have "sm_has j (fb_blocks fw) \<Longrightarrow> sm_has j (fb_blocks (gd_fw g)) \<or> j = ip" for j
    using block_ip_adds [where netsh = "dv_netsh v" and sn = "dl_stem_now k" and now = "dl_now k" and ip = ip
        and ttl = 900 and b = "gd_fw g" and f = "gd_os g" and w = w and j = j] by (simp add: b)
  moreover have "extends (events w) (events w1)"
    using block_ip_extends [of w "dv_netsh v" "dl_stem_now k" "dl_now k" ip 900 "gd_fw g" "gd_os g"] by (simp add: b)
  ultimately show ?thesis
    unfolding s try_firewall_block_def case_prod_conv ip_def [symmetric] b Let_def
    by (auto simp: attempt_ok_def case_prod_beta events_add extends_iff adds_public_def Let_def b)
qed

lemma try_quarantine_ok: "attempt_ok events (can_quarantine agent) out s (try_quarantine add v k output agent out s)"
proof -
  obtain g w where s: "s = (g, w)" by (cases s)
  define path where "path = find_target (dv_parse v) (dv_dump v) extract_filepath ''recommended_detections''
             ''eradication_steps'' output"
  obtain e q files w1 where b: "quarantine_file (dv_sha v) (dv_absolute v) add (dl_quarantine k) path
               (''AI-flagged by '' @ agent) (gd_qtn g, gd_files g, w) = (e, q, files, w1)"
    by (metis prod_cases4)
  have "extends (events w) (events w1)"
    using quarantine_file_extends [of w "dv_sha v" "dv_absolute v" "dl_quarantine k" path "''AI-flagged by '' @ agent"
        "gd_qtn g" "gd_files g"] by (simp only: b snd_conv)
  then show ?thesis
    unfolding s try_quarantine_def case_prod_conv path_def [symmetric] Let_def b
    by (auto simp: attempt_ok_def case_prod_beta events_add extends_iff)
qed

lemma try_deception_ok: "attempt_ok events (can_deceive agent) out s (try_deception add v k output agent out s)"
proof -
  obtain g w where s: "s = (g, w)" by (cases s)
  define session where "session = (if find_session (dv_parse v) (dv_dump v) output = [] then ''session_ai_'' @ agent
    else find_session (dv_parse v) (dv_dump v) output)"
  obtain ev ar w1 where b: "serve add (dl_serve_now k) session ''/ai_triggered'' agent (gd_ar g, w) = (ev, ar, w1)"
    by (metis prod_cases3)
  have "extends (events w) (events w1)"
    using serve_extends [of w "dl_serve_now k" session "''/ai_triggered''" agent "gd_ar g"] by (simp only: b snd_conv)
  then show ?thesis
    unfolding s try_deception_def case_prod_conv Let_def session_def [symmetric] b
    by (auto simp: attempt_ok_def case_prod_beta events_add extends_iff)
qed

lemma try_zerotrust_ok: "attempt_ok events (can_zerotrust_deny agent) out s (try_zerotrust_deny add v k output agent out s)"
proof -
  obtain g w where s: "s = (g, w)" by (cases s)
  show ?thesis
    unfolding s try_zerotrust_deny_def case_prod_conv Let_def
    by (auto simp: attempt_ok_def case_prod_beta events_add extends_iff zt_evaluate_def log_decision_def events_emit Let_def)
qed

lemma logged_trans: "extends (events w) (events w1) \<Longrightarrow> logged events w1 w2 \<Longrightarrow> logged events w w2"
  by (auto simp: logged_def extends_iff)

lemma dispatch_ok:
  assumes "output \<noteq> []" and "dispatch add v k agent output (g, w) = (r, g', w')"
  shows "logged events w w'" and "adds_public (gd_fw g) (gd_fw g')"
    and "dr_action_taken r \<Longrightarrow> can_block_firewall agent \<or> can_quarantine agent \<or> can_deceive agent \<or> can_zerotrust_deny agent"
    and "can_block_firewall agent \<or> gd_fw g' = gd_fw g \<and> gd_os g' = gd_os g"
    and "can_quarantine agent \<or> gd_qtn g' = gd_qtn g \<and> gd_files g' = gd_files g"
    and "can_deceive agent \<or> gd_ar g' = gd_ar g"
proof -
  obtain d1 r1 g1 w1 where a1: "try_firewall_block add v k output agent dispatch_advisory (g, w) = (d1, r1, g1, w1)"
    by (metis prod_cases4)
  obtain d2 r2 g2 w2 where a2: "try_quarantine add v k output agent r1 (g1, w1) = (d2, r2, g2, w2)"
    by (metis prod_cases4)
  obtain d3 r3 g3 w3 where a3: "try_deception add v k output agent r2 (g2, w2) = (d3, r3, g3, w3)"
    by (metis prod_cases4)
  obtain d4 r4 g4 w4 where a4: "try_zerotrust_deny add v k output agent r3 (g3, w3) = (d4, r4, g4, w4)"
    by (metis prod_cases4)
  obtain eid w5 where a5: "add ''action_dispatcher_advisory'' (''agent='' @ agent @ '' reason=no_actionable_output'') w4 = (eid, w5)"
    by (metis prod.exhaust)
  have fin: "(r, g', w') = (if d1 then (r1, g1, w1) else if d2 then (r2, g2, w2) else if d3 then (r3, g3, w3)
      else if d4 then (r4, g4, w4) else (r4\<lparr>dr_audit_entry_id := eid\<rparr>, g4, w5))"
    using assms(2) unfolding dispatch_def case_prod_conv Let_def a1 a2 a3 a4 a5 using assms(1) by simp
  have t: "attempt_ok events (can_block_firewall agent) dispatch_advisory (g, w) (d1, r1, g1, w1)"
      "attempt_ok events (can_quarantine agent) r1 (g1, w1) (d2, r2, g2, w2)"
      "attempt_ok events (can_deceive agent) r2 (g2, w2) (d3, r3, g3, w3)"
      "attempt_ok events (can_zerotrust_deny agent) r3 (g3, w3) (d4, r4, g4, w4)"
    by (metis a1 try_firewall_ok) (metis a2 try_quarantine_ok, metis a3 try_deception_ok, metis a4 try_zerotrust_ok)
  have frames: "gd_qtn g1 = gd_qtn g" "gd_files g1 = gd_files g" "gd_ar g1 = gd_ar g"
      "gd_fw g2 = gd_fw g1" "gd_os g2 = gd_os g1" "gd_ar g2 = gd_ar g1"
      "gd_fw g3 = gd_fw g2" "gd_os g3 = gd_os g2" "gd_qtn g3 = gd_qtn g2" "gd_files g3 = gd_files g2" "g4 = g3"
    by (metis a1 a2 a3 a4 attempt_frames fst_conv snd_conv)+
  have kept: "can_block_firewall agent \<or> g1 = g" "can_quarantine agent \<or> g2 = g1" "can_deceive agent \<or> g3 = g2"
    using t by (auto simp: attempt_ok_def)
  show "can_block_firewall agent \<or> gd_fw g' = gd_fw g \<and> gd_os g' = gd_os g"
    "can_quarantine agent \<or> gd_qtn g' = gd_qtn g \<and> gd_files g' = gd_files g"
    "can_deceive agent \<or> gd_ar g' = gd_ar g"
    using fin frames kept by (auto split: if_splits)
  have pub: "adds_public (gd_fw g) (gd_fw g1)" using t(1) by (simp add: attempt_ok_def)
  then show "adds_public (gd_fw g) (gd_fw g')" using fin frames by (auto split: if_splits)
  have ext: "extends (events w) (events w1)" "extends (events w1) (events w2)" "extends (events w2) (events w3)"
      "extends (events w3) (events w4)"
    using t by (simp_all add: attempt_ok_def)
  note chain = extends_trans [OF ext(1,2)] extends_trans [OF extends_trans [OF ext(1,2)] ext(3)]
    extends_trans [OF extends_trans [OF extends_trans [OF ext(1,2)] ext(3)] ext(4)]
  have made: "d1 \<Longrightarrow> logged events w w1" "d2 \<Longrightarrow> logged events w1 w2" "d3 \<Longrightarrow> logged events w2 w3" "d4 \<Longrightarrow> logged events w3 w4"
    using t by (simp_all add: attempt_ok_def logged_def)
  have "events w5 = events w4 @ [(''action_dispatcher_advisory'', ''agent='' @ agent @ '' reason=no_actionable_output'')]"
    using events_add [where w = w4 and t = "''action_dispatcher_advisory''"] a5 by (metis snd_conv)
  then have "logged events w4 w5" by (simp add: logged_def)
  with made chain ext(1) show "logged events w w'"
    using fin by (auto split: if_splits intro: logged_trans)
  have not_taken: "\<not> d1 \<Longrightarrow> \<not> dr_action_taken r1" "\<not> d1 \<Longrightarrow> \<not> d2 \<Longrightarrow> \<not> dr_action_taken r2"
      "\<not> d1 \<Longrightarrow> \<not> d2 \<Longrightarrow> \<not> d3 \<Longrightarrow> \<not> dr_action_taken r3"
      "\<not> d1 \<Longrightarrow> \<not> d2 \<Longrightarrow> \<not> d3 \<Longrightarrow> \<not> d4 \<Longrightarrow> \<not> dr_action_taken r4"
    using t by (simp_all add: attempt_ok_def dispatch_advisory_def)
  have allowed: "d1 \<Longrightarrow> can_block_firewall agent" "d2 \<Longrightarrow> can_quarantine agent" "d3 \<Longrightarrow> can_deceive agent"
      "d4 \<Longrightarrow> can_zerotrust_deny agent"
    using t by (auto simp: attempt_ok_def)
  show "can_block_firewall agent \<or> can_quarantine agent \<or> can_deceive agent \<or> can_zerotrust_deny agent" if "dr_action_taken r"
    using that fin not_taken allowed by (auto split: if_splits)
qed

end

section \<open>Properties\<close>

text \<open>C30. The dispatcher obeys the policy: an agent on none of the lists takes no action, each of the protected
  components changes only for an agent that is listed for it, and every dispatch of a non-empty output
  ends in an entry of the dispatcher in the chain. An empty output is not logged.\<close>

theorem dispatch_policy:
  "let (r, g', w') = dispatch (audit_add sha env) v k agent output (g, w) in
   (if dr_action_taken r
    then can_block_firewall agent \<or> can_quarantine agent \<or> can_deceive agent \<or> can_zerotrust_deny agent else True) \<and>
   (can_block_firewall agent \<or> gd_fw g' = gd_fw g \<and> gd_os g' = gd_os g) \<and>
   (can_quarantine agent \<or> gd_qtn g' = gd_qtn g \<and> gd_files g' = gd_files g) \<and>
   (can_deceive agent \<or> gd_ar g' = gd_ar g) \<and>
   (if output = [] then g' = g \<and> w' = w
    else \<exists>es t p. trail w' = trail w @ es @ [(t, p)] \<and> starts_with ''action_dispatcher_'' t)"
proof -
  obtain r g' w' where d: "dispatch (audit_add sha env) v k agent output (g, w) = (r, g', w')" by (metis prod_cases3)
  show ?thesis
  proof (cases "output = []")
    case True
    with d show ?thesis by (auto simp: dispatch_def dispatch_advisory_def)
  next
    case False
    note ok = chain.dispatch_ok [OF False d]
    from ok(1) ok(3-6) False show ?thesis unfolding d Let_def case_prod_conv logged_def by simp
  qed
qed

text \<open>The loopback address, the null address and the private networks 10/8, 192.168/16 and 172.16/12, as texts.\<close>

definition private_address :: "string \<Rightarrow> bool" where
  "private_address ip =
     (ip = ''127.0.0.1'' \<or> ip = ''0.0.0.0'' \<or> starts_with ''10.'' ip \<or> starts_with ''192.168.'' ip
      \<or> list_ex (\<lambda>n. starts_with (''172.'' @ str_of_nat n @ ''.'') ip) [16..<32])"

lemma private_is_safe: "private_address ip \<Longrightarrow> is_safe_ip ip"
proof -
  have "map (\<lambda>n. ''172.'' @ str_of_nat n @ ''.'') [16..<32] = drop 2 private_prefixes" by code_simp
  moreover have "list_ex (\<lambda>n. starts_with (f n) ip) ns = list_ex (\<lambda>p. starts_with p ip) (map f ns)" for f and ns :: "nat list"
    by (induction ns) simp_all
  ultimately have "list_ex (\<lambda>n. starts_with (''172.'' @ str_of_nat n @ ''.'') ip) [16..<32] =
      list_ex (\<lambda>p. starts_with p ip) (drop 2 private_prefixes)"
    by (simp only:)
  then show "private_address ip \<Longrightarrow> is_safe_ip ip"
    by (auto simp: private_address_def is_safe_ip_def private_prefixes_def)
qed

text \<open>C32. Whatever an agent prints, the dispatcher blocks only public addresses: after any dispatches on a fresh
  firewall every blocked address consists of digits and dots, so that it cannot extend the \<^verbatim>\<open>netsh\<close> command
  it is put into, and is not a loopback or private address, as \<^verbatim>\<open>is_safe_ip\<close> recognises them and as
  \<open>private_address\<close> lists them.\<close>

theorem dispatched_blocks_public:
  "let (g', w') = fold (\<lambda>(k, agent, output) s. snd (dispatch (audit_add sha env) v k agent output s)) calls
       (g\<lparr>gd_fw := new_firewall_blocker adapters dns ttl extra\<rparr>, w) in
   list_all (\<lambda>(ip, ab). list_all (\<lambda>c. is_digit c \<or> c = CHR ''.'') ip \<and> \<not> is_safe_ip ip
     \<and> \<not> private_address ip) (fb_blocks (gd_fw g'))"
proof -
  have step: "adds_public b (gd_fw (fst (snd (dispatch (audit_add sha env) v k agent output (g, w)))))"
    if "adds_public b (gd_fw g)" for b k agent "output" g w
  proof (cases "output = []")
    case False
    obtain r g' w' where d: "dispatch (audit_add sha env) v k agent output (g, w) = (r, g', w')" by (metis prod_cases3)
    from chain.dispatch_ok(2) [OF False d] that show ?thesis by (auto simp: d intro: adds_public_trans)
  qed (simp add: that dispatch_def)
  have run: "adds_public b (gd_fw (fst (fold (\<lambda>(k, agent, output) s. snd (dispatch (audit_add sha env) v k agent output s)) calls s)))"
    if "adds_public b (gd_fw (fst s))" for b s calls
    using that
  proof (induction calls arbitrary: s)
    case (Cons c calls)
    obtain k agent out g w where "c = (k, agent, out)" "s = (g, w)" by (metis prod_cases3 prod.exhaust)
    with Cons step show ?case by auto
  qed simp
  let ?s = "(g\<lparr>gd_fw := new_firewall_blocker adapters dns ttl extra\<rparr>, w)"
  from run [of "gd_fw (fst ?s)" ?s calls] private_is_safe show ?thesis
    by (fastforce simp: adds_public_def public_block_def ip_char_def new_firewall_blocker_def sm_has_def
        list_all_iff case_prod_beta Let_def map_of_eq_None_iff image_iff)
qed

end
