(* ===== verification/Pipeline.thy ===== *)
theory Pipeline
  imports AuditChain Cxx_Strings
begin

text \<open>
  \<^verbatim>\<open>pipeline/self_healing_pipeline\<close>: a fixed sequence of stages; a failed stage is handed to the agent
  that the first matching healing rule names. The stages themselves are simulated in the source
  (\<open>run_stage\<close>), so the run takes the stage function as an argument and the class is its instance. The
  agent dispatcher, which may be absent, acts on a state \<open>'a\<close> of its own.
\<close>

section \<open>Model\<close>

datatype stage = CODE_COMMIT | STATIC_ANALYSIS | UNIT_TESTS | INTEGRATION_TESTS | SECURITY_SCAN | BUILD
  | DEPLOY_STAGING | E2E_TESTS | DEPLOY_PRODUCTION | MONITOR

datatype stage_status = PASSED | FAILED | SKIPPED | AUTO_FIXED

record stage_result =
  sg_stage :: stage
  sg_status :: stage_status
  sg_detail :: string
  sg_auto_fix_agent :: string
  sg_auto_fix_result :: string

record commit =
  cm_id :: string
  cm_author :: string
  cm_message :: string
  cm_timestamp :: string

record pipeline_result =
  pl_commit_id :: string
  pl_passed :: bool
  pl_stage_results :: "stage_result list"
  pl_auto_fixes_applied :: int

record healing_rule =
  hr_failure_keyword :: string
  hr_target_agent :: string
  hr_description :: string

type_synonym 'a agent_dispatch = "string \<Rightarrow> string \<Rightarrow> 'a \<Rightarrow> string \<times> 'a"

definition rule :: "string \<Rightarrow> string \<Rightarrow> string \<Rightarrow> healing_rule" where
  "rule k a d = \<lparr>hr_failure_keyword = k, hr_target_agent = a, hr_description = d\<rparr>"

definition DEFAULT_RULES :: "healing_rule list" where
  "DEFAULT_RULES =
     [rule ''compile error'' ''bug_hunter'' ''Auto-fix compile error'',
      rule ''link error'' ''bug_hunter'' ''Auto-fix linker error'',
      rule ''test failure'' ''test_writer'' ''Auto-generate missing tests'',
      rule ''assertion failed'' ''bug_hunter'' ''Analyze assertion failure'',
      rule ''vulnerability'' ''security_reviewer'' ''Patch security vulnerability'',
      rule ''CVE'' ''dependency_mgr'' ''Update vulnerable dependency'',
      rule ''coverage drop'' ''test_writer'' ''Generate coverage-boosting tests'',
      rule ''lint'' ''refact_engine'' ''Auto-apply lint fixes'',
      rule ''performance regression'' ''performance_opt'' ''Optimize performance bottleneck'',
      rule ''deployment failed'' ''sre_engineer'' ''Auto-rollback and diagnose'',
      rule ''memory leak'' ''security_reviewer'' ''Fix memory safety issue'',
      rule ''data race'' ''security_reviewer'' ''Fix thread safety issue'']"

definition add_healing_rule :: "healing_rule \<Rightarrow> healing_rule list \<Rightarrow> healing_rule list" where
  "add_healing_rule r rules = rules @ [r]"

fun stage_name :: "stage \<Rightarrow> string" where
  "stage_name CODE_COMMIT = ''code_commit''"
| "stage_name STATIC_ANALYSIS = ''static_analysis''"
| "stage_name UNIT_TESTS = ''unit_tests''"
| "stage_name INTEGRATION_TESTS = ''integration_tests''"
| "stage_name SECURITY_SCAN = ''security_scan''"
| "stage_name BUILD = ''build''"
| "stage_name DEPLOY_STAGING = ''deploy_staging''"
| "stage_name E2E_TESTS = ''e2e_tests''"
| "stage_name DEPLOY_PRODUCTION = ''deploy_production''"
| "stage_name MONITOR = ''monitor''"

definition run_stage :: "stage \<Rightarrow> commit \<Rightarrow> stage_result" where
  "run_stage st c = \<lparr>sg_stage = st, sg_status = PASSED,
     sg_detail = ''Stage '' @ stage_name st @ '' simulated PASS for commit '' @ cm_id c,
     sg_auto_fix_agent = [], sg_auto_fix_result = []\<rparr>"

definition matching_rule :: "healing_rule list \<Rightarrow> string \<Rightarrow> healing_rule option" where
  "matching_rule rules detail = find (\<lambda>r. contains (tolower (hr_failure_keyword r)) (tolower detail)) rules"

definition fix_task :: "stage_result \<Rightarrow> string" where
  "fix_task r = ''Fix this pipeline failure.'' @ nl @ ''Stage: '' @ stage_name (sg_stage r) @ nl
     @ ''Detail: '' @ sg_detail r"

definition attempt_auto_fix ::
    "healing_rule list \<Rightarrow> 'a agent_dispatch option \<Rightarrow> stage_result \<Rightarrow> 'a \<Rightarrow> bool \<times> stage_result \<times> 'a" where
  "attempt_auto_fix rules dispatch r a =
     (case matching_rule rules (sg_detail r) of
        None \<Rightarrow> (False, r, a)
      | Some hr \<Rightarrow>
          let (reply, a') = (case dispatch of
                Some f \<Rightarrow> f (hr_target_agent hr) (fix_task r) a
              | None \<Rightarrow> (''dispatch_not_available'', a))
          in (True, r\<lparr>sg_auto_fix_agent := hr_target_agent hr, sg_auto_fix_result := reply,
                sg_status := AUTO_FIXED\<rparr>, a'))"

definition run_order :: "stage list" where
  "run_order = [STATIC_ANALYSIS, UNIT_TESTS, SECURITY_SCAN, BUILD, INTEGRATION_TESTS, DEPLOY_STAGING, E2E_TESTS]"

fun run_stages ::
    "'w audit_adder \<Rightarrow> 'a agent_dispatch option \<Rightarrow> healing_rule list \<Rightarrow> (stage \<Rightarrow> commit \<Rightarrow> stage_result)
       \<Rightarrow> commit \<Rightarrow> stage list \<Rightarrow> pipeline_result \<times> 'a \<times> 'w \<Rightarrow> pipeline_result \<times> 'a \<times> 'w" where
  "run_stages add dispatch rules stage_fn c [] s = s"
| "run_stages add dispatch rules stage_fn c (st # sts) (res, a, w) =
     (let sr = stage_fn st c;
          (res1, sr1, a1) =
            (if sg_status sr = FAILED then
               let (fixed, sr', a') = attempt_auto_fix rules dispatch sr a in
               (if fixed then res\<lparr>pl_auto_fixes_applied := pl_auto_fixes_applied res + 1\<rparr>
                else res\<lparr>pl_passed := False\<rparr>, sr', a')
             else (res, sr, a));
          res2 = res1\<lparr>pl_stage_results := pl_stage_results res1 @ [sr1]\<rparr>
      in if \<not> pl_passed res2 \<and> sg_status sr1 = FAILED then
           (res2, a1, emit add ''pipeline_blocked'' (''commit='' @ cm_id c @ '' stage='' @ stage_name st) w)
         else run_stages add dispatch rules stage_fn c sts (res2, a1, w))"

definition run_with ::
    "'w audit_adder \<Rightarrow> 'a agent_dispatch option \<Rightarrow> healing_rule list \<Rightarrow> (stage \<Rightarrow> commit \<Rightarrow> stage_result)
       \<Rightarrow> commit \<Rightarrow> 'a \<times> 'w \<Rightarrow> pipeline_result \<times> 'a \<times> 'w" where
  "run_with add dispatch rules stage_fn c = (\<lambda>(a, w).
     let w1 = emit add ''pipeline_started'' (''commit='' @ cm_id c @ '' author='' @ cm_author c) w;
         (res, a', w2) = run_stages add dispatch rules stage_fn c run_order
           (\<lparr>pl_commit_id = cm_id c, pl_passed = True, pl_stage_results = [], pl_auto_fixes_applied = 0\<rparr>, a, w1)
     in (res, a', emit add ''pipeline_completed''
           (''commit='' @ cm_id c @ '' outcome='' @ (if pl_passed res then ''passed'' else ''failed'')
              @ '' auto_fixes='' @ str_of_int (pl_auto_fixes_applied res)) w2))"

definition run_pipeline ::
    "'w audit_adder \<Rightarrow> 'a agent_dispatch option \<Rightarrow> healing_rule list \<Rightarrow> commit \<Rightarrow> 'a \<times> 'w
       \<Rightarrow> pipeline_result \<times> 'a \<times> 'w" where
  "run_pipeline add dispatch rules = run_with add dispatch rules run_stage"

section \<open>Lemmas\<close>

text \<open>A stage stops the run when it failed and no rule matches its detail.\<close>

definition stops :: "healing_rule list \<Rightarrow> (stage \<Rightarrow> commit \<Rightarrow> stage_result) \<Rightarrow> commit \<Rightarrow> stage \<Rightarrow> bool" where
  "stops rules stage_fn c st \<longleftrightarrow>
     sg_status (stage_fn st c) = FAILED \<and> matching_rule rules (sg_detail (stage_fn st c)) = None"

definition final_status :: "healing_rule list \<Rightarrow> stage_result \<Rightarrow> stage_status" where
  "final_status rules sr =
     (if sg_status sr = FAILED \<and> matching_rule rules (sg_detail sr) \<noteq> None then AUTO_FIXED else sg_status sr)"

text \<open>The stages that are run: up to and including the first that stops the run.\<close>

definition executed :: "('s \<Rightarrow> bool) \<Rightarrow> 's list \<Rightarrow> 's list" where
  "executed p xs = takeWhile (\<lambda>x. \<not> p x) xs @ take 1 (dropWhile (\<lambda>x. \<not> p x) xs)"

lemma executed_simps [simp]:
  "executed p [] = []" "executed p (x # xs) = (if p x then [x] else x # executed p xs)"
  by (simp_all add: executed_def)

lemma attempt_fields:
  assumes "attempt_auto_fix rules dispatch r a = (fixed, r', a')"
  shows "fixed = (matching_rule rules (sg_detail r) \<noteq> None)"
    and "sg_status r' = (if fixed then AUTO_FIXED else sg_status r)"
    and "fixed \<or> r' = r"
  using assms by (auto simp: attempt_auto_fix_def case_prod_beta Let_def split: option.splits)

lemma run_stages_stop:
  assumes "stops rules stage_fn c st"
  shows "run_stages add dispatch rules stage_fn c (st # sts) (res, a, w) =
    (res\<lparr>pl_passed := False, pl_stage_results := pl_stage_results res @ [stage_fn st c]\<rparr>, a,
     emit add ''pipeline_blocked'' (''commit='' @ cm_id c @ '' stage='' @ stage_name st) w)"
proof -
  have "attempt_auto_fix rules dispatch (stage_fn st c) a = (False, stage_fn st c, a)"
    using assms by (simp add: stops_def attempt_auto_fix_def)
  with assms show ?thesis by (simp add: stops_def Let_def)
qed

lemma run_stages_go:
  assumes "pl_passed res" and "\<not> stops rules stage_fn c st"
  shows "\<exists>s1 a1. run_stages add dispatch rules stage_fn c (st # sts) (res, a, w) =
      run_stages add dispatch rules stage_fn c sts
        (res\<lparr>pl_auto_fixes_applied := pl_auto_fixes_applied res + (if sg_status (stage_fn st c) = FAILED then 1 else 0),
             pl_stage_results := pl_stage_results res @ [s1]\<rparr>, a1, w) \<and>
    sg_status s1 = final_status rules (stage_fn st c)"
proof -
  obtain fixed sr1 a1 where att: "attempt_auto_fix rules dispatch (stage_fn st c) a = (fixed, sr1, a1)"
    by (metis prod_cases3)
  note f = attempt_fields [OF att]
  show ?thesis
  proof (cases "sg_status (stage_fn st c) = FAILED")
    case True
    with assms f have "fixed" "sg_status sr1 = AUTO_FIXED" by (auto simp: stops_def)
    with assms True f show ?thesis
      by (intro exI [of _ sr1] exI [of _ a1]) (simp add: att Let_def final_status_def)
  next
    case False
    with assms show ?thesis
      by (intro exI [of _ "stage_fn st c"] exI [of _ a]) (simp add: Let_def final_status_def)
  qed
qed

context audit_sink
begin

lemma run_stages_outcome:
  assumes "pl_passed res" and "run_stages add dispatch rules stage_fn c sts (res, a, w) = (res', a', w')"
  shows "pl_passed res' = (\<not> list_ex (stops rules stage_fn c) sts) \<and>
    map sg_status (pl_stage_results res') = map sg_status (pl_stage_results res) @
      map (\<lambda>st. final_status rules (stage_fn st c)) (executed (stops rules stage_fn c) sts) \<and>
    pl_auto_fixes_applied res' = pl_auto_fixes_applied res + int (length (filter
      (\<lambda>st. sg_status (stage_fn st c) = FAILED \<and> \<not> stops rules stage_fn c st) (executed (stops rules stage_fn c) sts))) \<and>
    map fst (events w') = map fst (events w) @
      (if list_ex (stops rules stage_fn c) sts then [''pipeline_blocked''] else [])"
  using assms
proof (induction sts arbitrary: res a w)
  case Nil
  then show ?case by simp
next
  case (Cons st sts)
  show ?case
  proof (cases "stops rules stage_fn c st")
    case True
    from Cons.prems(2) show ?thesis
      unfolding run_stages_stop [OF True] using True by (auto simp: events_emit final_status_def stops_def)
  next
    case False
    from run_stages_go [OF Cons.prems(1) False, of add dispatch sts a w] Cons.prems(2)
    obtain s1 a1 where run: "run_stages add dispatch rules stage_fn c sts
        (res\<lparr>pl_auto_fixes_applied := pl_auto_fixes_applied res + (if sg_status (stage_fn st c) = FAILED then 1 else 0),
             pl_stage_results := pl_stage_results res @ [s1]\<rparr>, a1, w) = (res', a', w')"
      and s1: "sg_status s1 = final_status rules (stage_fn st c)" by auto
    from Cons.IH [OF _ run] Cons.prems(1) False s1 show ?thesis by simp
  qed
qed

end

section \<open>Properties\<close>

text \<open>C27. The pipeline, for any behaviour of its stages: it passes exactly when every failed stage matches a healing
  rule, it runs the stages in order up to the first one that does not, it counts one fix for each healed
  stage, whatever the agent replied, and the chain brackets the run with a block entry exactly on failure.\<close>

theorem pipeline_outcome:
  "let (res, a', w') = run_with (audit_add sha env) dispatch rules stage_fn c (a, w);
       stop = stops rules stage_fn c; run = executed stop run_order in
   pl_passed res = list_all (\<lambda>st. \<not> stop st) run_order \<and>
   map sg_status (pl_stage_results res) = map (\<lambda>st. final_status rules (stage_fn st c)) run \<and>
   pl_auto_fixes_applied res =
     int (length (filter (\<lambda>st. sg_status (stage_fn st c) = FAILED \<and> \<not> stop st) run)) \<and>
   map fst (trail w') = map fst (trail w) @ [''pipeline_started''] @
     (if pl_passed res then [] else [''pipeline_blocked'']) @ [''pipeline_completed'']"
proof -
  define w1 where "w1 = emit (audit_add sha env) ''pipeline_started'' (''commit='' @ cm_id c @ '' author='' @ cm_author c) w"
  obtain res a' w2 where run: "run_stages (audit_add sha env) dispatch rules stage_fn c run_order
      (\<lparr>pl_commit_id = cm_id c, pl_passed = True, pl_stage_results = [], pl_auto_fixes_applied = 0\<rparr>, a, w1) = (res, a', w2)"
    by (metis prod_cases3)
  have start: "map fst (trail w1) = map fst (trail w) @ [''pipeline_started'']"
    by (simp add: w1_def chain.events_emit)
  from chain.run_stages_outcome [OF _ run] start
  show ?thesis
    unfolding run_with_def case_prod_conv w1_def [symmetric] Let_def run
    by (simp add: chain.events_emit list_ex_iff list_all_iff)
qed

text \<open>With the stages of the source, which are simulated, every run of the pipeline passes its seven stages
  without calling an agent.\<close>

theorem run_pipeline_passes:
  "let (res, a', w') = run_pipeline (audit_add sha env) dispatch rules c (a, w) in
   pl_passed res \<and> map sg_stage (pl_stage_results res) = run_order \<and>
   list_all (\<lambda>r. sg_status r = PASSED) (pl_stage_results res) \<and> pl_auto_fixes_applied res = 0 \<and> a' = a"
  by (simp add: run_pipeline_def run_with_def run_order_def run_stage_def Let_def)

end
