(* ===== verification/Rank_Buffer.thy ===== *)
theory Rank_Buffer
  imports Main "HOL-Library.Multiset"
begin

text \<open>
  A contract of the task queue, and what a client that drains it may conclude.
  A buffer of entries with a rank: pushing adds an entry, popping takes one of least rank and returns \<open>None\<close>
  exactly when the buffer is empty. The number passed to \<open>pop\<close> resolves the choice among equal ranks.
\<close>

locale rank_buffer =
  fixes contents :: "'q \<Rightarrow> 'e multiset"
    and rank :: "'e \<Rightarrow> nat"
    and push :: "'e \<Rightarrow> 'q \<Rightarrow> 'q"
    and pop :: "nat \<Rightarrow> 'q \<Rightarrow> ('e \<times> 'q) option"
  assumes contents_push: "contents (push e q) = add_mset e (contents q)"
    and pop_empty: "pop n q = None \<longleftrightarrow> contents q = {#}"
    and pop_takes: "pop n q = Some (e, q') \<Longrightarrow> contents q = add_mset e (contents q')"
    and pop_least: "pop n q = Some (e, q') \<Longrightarrow> f \<in># contents q \<Longrightarrow> rank e \<le> rank f"

fun drain :: "(nat \<Rightarrow> 'q \<Rightarrow> ('e \<times> 'q) option) \<Rightarrow> nat list \<Rightarrow> 'q \<Rightarrow> 'e list \<times> 'q" where
  "drain pop [] q = ([], q)"
| "drain pop (n # ns) q =
     (case pop n q of
        None \<Rightarrow> ([], q)
      | Some (e, q') \<Rightarrow> let (es, q'') = drain pop ns q' in (e # es, q''))"

context rank_buffer
begin

lemma drain_contents: "drain pop ns q = (es, q') \<Longrightarrow> contents q = mset es + contents q'"
proof (induction ns arbitrary: q es q')
  case (Cons n ns)
  then show ?case
    using pop_takes by (fastforce split: option.splits prod.splits)
qed simp

lemma drain_least: "drain pop ns q = (es, q') \<Longrightarrow> e \<in> set es \<Longrightarrow> f \<in># contents q' \<Longrightarrow> rank e \<le> rank f"
proof (induction ns arbitrary: q es q')
  case (Cons n ns)
  from Cons.prems(1, 2) obtain x q1 es1 where p: "pop n q = Some (x, q1)" and d: "drain pop ns q1 = (es1, q')"
    and es: "es = x # es1"
    by (auto split: option.splits prod.splits)
  have "f \<in># contents q" using drain_contents [OF Cons.prems(1)] Cons.prems(3) by simp
  with p have "rank x \<le> rank f" by (rule pop_least)
  with Cons.IH [OF d] Cons.prems(2, 3) es show ?case by auto
qed simp

lemma drain_sorted: "drain pop ns q = (es, q') \<Longrightarrow> sorted (map rank es)"
proof (induction ns arbitrary: q es q')
  case (Cons n ns)
  show ?case
  proof (cases "pop n q")
    case (Some xq)
    obtain x q1 where p: "pop n q = Some (x, q1)" using Some by (cases xq) simp
    obtain es1 q2 where d: "drain pop ns q1 = (es1, q2)" by fastforce
    with Cons.prems p have es: "es = x # es1" by simp
    have "rank x \<le> rank f" if "f \<in> set es1" for f
    proof -
      have "f \<in># contents q1" using drain_contents [OF d] that by simp
      then have "f \<in># contents q" using pop_takes [OF p] by simp
      with p show ?thesis by (rule pop_least)
    qed
    with es Cons.IH [OF d] show ?thesis by auto
  qed (use Cons.prems in simp)
qed simp

lemma drain_empties: "drain pop ns q = (es, q') \<Longrightarrow> size (contents q) \<le> length ns \<Longrightarrow> contents q' = {#}"
proof (induction ns arbitrary: q es q')
  case (Cons n ns)
  show ?case
  proof (cases "pop n q")
    case None
    with Cons.prems show ?thesis using pop_empty [of n q] by simp
  next
    case (Some xq)
    obtain x q1 where p: "pop n q = Some (x, q1)" using Some by (cases xq) simp
    obtain es1 q2 where d: "drain pop ns q1 = (es1, q2)" by fastforce
    from Cons.prems p d have "q2 = q'" by simp
    with Cons.IH [OF d] Cons.prems(2) pop_takes [OF p] show ?thesis by simp
  qed
qed simp

end

end
