(* ===== verification/AgentController.thy ===== *)
theory AgentController
  imports ActionDispatcher AutonomyLoop Rank_Buffer
begin

text \<open>
  \<^verbatim>\<open>agents/controller/agent_controller\<close>: the task queue and the worker threads that run agents on the
  language model. A worker is a state machine whose steps are the sections that the code runs under the mutex
  or without it; a schedule is a list of operations, so every interleaving of the workers with submissions,
  loads, start and stop is a run. Running a task may throw, and an exception that leaves a thread ends the
  process (\<open>sw_dead\<close>).
\<close>

section \<open>Data\<close>

record task_entry =
  te_task_id :: string
  te_agent_name :: string
  te_input :: string
  te_priority :: task_priority
  te_enqueued_at_ms :: int

record task_result =
  tz_task_id :: string
  tz_agent_name :: string
  tz_ok :: bool
  tz_output :: string
  tz_model_used :: string
  tz_completed_at_ms :: int
  tz_action_taken :: bool
  tz_action_type :: string
  tz_action_target :: string

datatype agent_state = IDLE | RUNNING | COMPLETED | FAILED

record agent_status =
  as_name :: string
  as_category :: string
  as_tier :: string
  as_state :: agent_state
  as_last_task_id :: string
  as_last_result_snippet :: string
  as_last_run_at_ms :: int
  as_tasks_completed :: int
  as_tasks_failed :: int
  as_last_active :: string

record agent_controller =
  ct_personas :: "(string, agent_persona) std_map"
  ct_statuses :: "(string, agent_status) std_map"
  ct_queue :: "task_entry list"
  ct_next_task_id :: u64
  ct_running :: bool
  ct_worker_count :: int
  ct_cached_personas_bytes :: nat

definition new_agent_controller :: "int \<Rightarrow> agent_controller" where
  "new_agent_controller worker_count = \<lparr>ct_personas = [], ct_statuses = [], ct_queue = [], ct_next_task_id = 1,
     ct_running = False, ct_worker_count = (if worker_count > 0 then worker_count else 1),
     ct_cached_personas_bytes = 0\<rparr>"

text \<open>The file system and the parsers: \<^verbatim>\<open>f >> j\<close> stops after one value, \<^verbatim>\<open>json::parse\<close> reads the whole file.\<close>

record controller_env =
  ce_exists :: "string \<Rightarrow> bool"
  ce_read :: "string \<Rightarrow> string option"
  ce_list :: "string \<Rightarrow> string list"
  ce_stream :: "string \<Rightarrow> string + json"
  ce_parse :: "string \<Rightarrow> json option"
  ce_search_dirs :: "string list"
  ce_sizeof_persona :: nat
  ce_sizeof_task :: nat
  ce_sizeof_status :: nat

fun model_to_tier :: "granite_model \<Rightarrow> string" where
  "model_to_tier FAST = ''FAST''"
| "model_to_tier HEAVY = ''HEAVY''"
| "model_to_tier ACCURACY = ''ACCURACY''"
| "model_to_tier ORCHESTRATOR = ''ORCHESTRATOR''"

section \<open>Loading personas\<close>

definition idle_status :: "agent_persona \<Rightarrow> agent_status" where
  "idle_status p = \<lparr>as_name = ap_name p, as_category = ap_category p, as_tier = model_to_tier (ap_preferred_model p),
     as_state = IDLE, as_last_task_id = [], as_last_result_snippet = [], as_last_run_at_ms = 0,
     as_tasks_completed = 0, as_tasks_failed = 0, as_last_active = []\<rparr>"

definition register_persona :: "agent_persona \<Rightarrow> agent_controller \<Rightarrow> agent_controller" where
  "register_persona p c = c\<lparr>ct_personas := sm_assign (ap_name p) p (ct_personas c),
     ct_statuses := sm_assign (ap_name p) (idle_status p) (ct_statuses c)\<rparr>"

definition persona_bytes :: "controller_env \<Rightarrow> agent_persona \<Rightarrow> nat" where
  "persona_bytes env p = length (ap_name p) + length (ap_description p) + length (ap_category p)
     + length (ap_system_prompt p) + length (ap_input_schema p) + length (ap_output_schema p)
     + ce_sizeof_persona env + sum_list (map length (ap_skills p))"

definition load_persona ::
    "'w audit_adder \<Rightarrow> controller_env \<Rightarrow> string \<Rightarrow> agent_controller \<times> 'w \<Rightarrow> bool \<times> agent_controller \<times> 'w" where
  "load_persona add env path = (\<lambda>(c, w).
     case load_from_json (ce_stream env) (ce_read env) path of
       Inl _ \<Rightarrow> (False, c, w)
     | Inr p \<Rightarrow>
         if \<not> validate_persona p then (False, c, w)
         else if \<not> is_granite_only p then
           (False, c, emit add ''persona_rejected'' (''name='' @ ap_name p @ '' reason=non_granite_model'') w)
         else
           let c1 = register_persona p c in
           (True, c1\<lparr>ct_cached_personas_bytes := ct_cached_personas_bytes c1 + persona_bytes env p\<rparr>, w))"

text \<open>The loop over directory entries: those that pass the filter are loaded and the successes counted.\<close>

fun load_each ::
    "(string \<Rightarrow> 's \<Rightarrow> bool \<times> 's) \<Rightarrow> (string \<Rightarrow> bool) \<Rightarrow> string list \<Rightarrow> nat \<times> 's \<Rightarrow> nat \<times> 's" where
  "load_each load keep [] s = s"
| "load_each load keep (path # paths) (n, s) =
     (if keep path then
        let (ok, s') = load path s in load_each load keep paths (if ok then n + 1 else n, s')
      else load_each load keep paths (n, s))"

definition is_definition :: "string \<Rightarrow> bool" where
  "is_definition path = (path_extension path = ''.json'')"

definition load_all_personas ::
    "'w audit_adder \<Rightarrow> controller_env \<Rightarrow> string \<Rightarrow> agent_controller \<times> 'w \<Rightarrow> nat \<times> agent_controller \<times> 'w" where
  "load_all_personas add env dir s =
     (if \<not> ce_exists env dir then (0, s)
      else load_each (load_persona add env) is_definition (ce_list env dir) (0, s))"

text \<open>The allow-list of the configuration; \<open>None\<close> when the file cannot be read or parsed.\<close>

definition read_allowlist :: "controller_env \<Rightarrow> string \<Rightarrow> string list option" where
  "read_allowlist env path =
     (case ce_read env path of
        None \<Rightarrow> None
      | Some content \<Rightarrow>
          (case ce_parse env content of
             None \<Rightarrow> None
           | Some j \<Rightarrow> Some (case json_field ''agent_allowlist'' j of Some a \<Rightarrow> json_strings a | None \<Rightarrow> [])))"

definition load_allowed_personas ::
    "'w audit_adder \<Rightarrow> controller_env \<Rightarrow> string \<Rightarrow> string \<Rightarrow> agent_controller \<times> 'w \<Rightarrow> nat \<times> agent_controller \<times> 'w" where
  "load_allowed_personas add env dir config s =
     (if config = [] \<or> \<not> ce_exists env config then load_all_personas add env dir s
      else (case read_allowlist env config of
              None \<Rightarrow> load_all_personas add env dir s
            | Some allowlist \<Rightarrow>
                if allowlist = [] then load_all_personas add env dir s
                else if \<not> ce_exists env dir then (0, s)
                else load_each (load_persona add env) (\<lambda>p. is_definition p \<and> path_stem p \<in> set allowlist)
                       (ce_list env dir) (0, s)))"

definition load_ecc ::
    "'w audit_adder \<Rightarrow> controller_env \<Rightarrow> string \<Rightarrow> agent_controller \<times> 'w \<Rightarrow> bool \<times> agent_controller \<times> 'w" where
  "load_ecc add env path = (\<lambda>(c, w).
     case load_from_md (ce_read env) path of
       (Some p, True) \<Rightarrow>
         if \<not> is_granite_only p then
           (False, c, emit add ''ecc_persona_rejected'' (''name='' @ ap_name p @ '' reason=non_granite_model'') w)
         else (True, register_persona p c, w)
     | _ \<Rightarrow> (False, c, w))"

definition load_ecc_personas ::
    "'w audit_adder \<Rightarrow> controller_env \<Rightarrow> string \<Rightarrow> agent_controller \<times> 'w \<Rightarrow> nat \<times> agent_controller \<times> 'w" where
  "load_ecc_personas add env dir s =
     (if \<not> ce_exists env dir then (0, s)
      else load_each (load_ecc add env) (\<lambda>p. path_extension p = ''.md'' \<and> is_ecc_file (ce_read env) p)
             (ce_list env dir) (0, s))"

section \<open>The task queue\<close>

definition submit_entry :: "string \<Rightarrow> string \<Rightarrow> task_priority \<Rightarrow> int \<Rightarrow> agent_controller \<Rightarrow> task_entry" where
  "submit_entry agent input prio now c = \<lparr>te_task_id = ''task_'' @ str_of_u64 (ct_next_task_id c),
     te_agent_name = agent, te_input = input, te_priority = prio, te_enqueued_at_ms = now\<rparr>"

definition submit_task :: "string \<Rightarrow> string \<Rightarrow> task_priority \<Rightarrow> int \<Rightarrow> agent_controller \<Rightarrow> string \<times> agent_controller" where
  "submit_task agent input prio now c =
     (if map_of (ct_personas c) agent = None then ([], c)
      else
        let e = submit_entry agent input prio now c in
        (te_task_id e, c\<lparr>ct_next_task_id := ct_next_task_id c + 1, ct_queue := ct_queue c @ [e]\<rparr>))"

text \<open>The values of \<^verbatim>\<open>enum class Priority : int\<close>, and \<^verbatim>\<open>TaskEntry::operator>\<close>.\<close>

fun prio_value :: "task_priority \<Rightarrow> nat" where
  "prio_value PRIO_HIGH = 0"
| "prio_value PRIO_NORMAL = 1"
| "prio_value PRIO_LOW = 2"

definition task_greater :: "task_entry \<Rightarrow> task_entry \<Rightarrow> bool" where
  "task_greater e f = (prio_value (te_priority e) > prio_value (te_priority f))"

text \<open>
  The queue is a \<^verbatim>\<open>std::priority_queue\<close> ordered by \<^verbatim>\<open>std::greater\<close>. By the library's contract its top is an
  entry that is greater than no other; which of several such entries it is depends on the implementation, so
  the choice is an argument.
\<close>

definition top_candidates :: "task_entry list \<Rightarrow> task_entry list" where
  "top_candidates q = filter (\<lambda>e. list_all (\<lambda>f. \<not> task_greater e f) q) q"

definition pop_task :: "nat \<Rightarrow> task_entry list \<Rightarrow> (task_entry \<times> task_entry list) option" where
  "pop_task pick q =
     (case top_candidates q of
        [] \<Rightarrow> None
      | e # es \<Rightarrow> let x = (e # es) ! (pick mod length (e # es)) in Some (x, remove1 x q))"

section \<open>Running a task\<close>

text \<open>What a task acts on besides the controller: the skill cache of the process, the counter of the memory log,
  the model client, the guarded components of the dispatcher and the audit world.\<close>

record ('f, 'w) exec_world =
  xw_skill_cache :: "(string, string) std_map"
  xw_tasks_since_mem_log :: u64
  xw_granite :: granite_client
  xw_guarded :: "'f guarded"
  xw_audit :: 'w

record exec_call =
  xc_now :: int
  xc_io :: ollama_io
  xc_dispatch :: dispatch_call

fun search_skill :: "controller_env \<Rightarrow> string \<Rightarrow> string list \<Rightarrow> string option" where
  "search_skill env skill [] = None"
| "search_skill env skill (dir # dirs) =
     (let path = path_join dir (skill @ ''.json'') in
      if \<not> ce_exists env path then search_skill env skill dirs
      else (case ce_read env path of
              None \<Rightarrow> search_skill env skill dirs
            | Some content \<Rightarrow>
                (case ce_stream env content of
                   Inl _ \<Rightarrow> search_skill env skill dirs
                 | Inr j \<Rightarrow>
                     (case json_value get_string ''prompt_fragment'' skill j of
                        Inl _ \<Rightarrow> search_skill env skill dirs
                      | Inr fragment \<Rightarrow> Some fragment))))"

definition load_skill_fragment ::
    "controller_env \<Rightarrow> string \<Rightarrow> (string, string) std_map \<Rightarrow> string \<times> (string, string) std_map" where
  "load_skill_fragment env skill cache =
     (case map_of cache skill of
        Some fragment \<Rightarrow> (fragment, cache)
      | None \<Rightarrow>
          let fragment = (case search_skill env skill (ce_search_dirs env) of Some f \<Rightarrow> f | None \<Rightarrow> skill)
          in (fragment, sm_assign skill fragment cache))"

fun skill_prompts :: "controller_env \<Rightarrow> string list \<Rightarrow> (string, string) std_map \<Rightarrow> string \<times> (string, string) std_map" where
  "skill_prompts env [] cache = ([], cache)"
| "skill_prompts env (skill # skills) cache =
     (let (fragment, cache1) = load_skill_fragment env skill cache;
          (rest, cache2) = skill_prompts env skills cache1
      in (nl @ ''['' @ skill @ ''] '' @ fragment @ rest, cache2))"

definition full_prompt :: "controller_env \<Rightarrow> agent_persona \<Rightarrow> (string, string) std_map \<Rightarrow> string \<times> (string, string) std_map" where
  "full_prompt env p cache =
     (if ap_skills p = [] then (ap_system_prompt p, cache)
      else
        let (text, cache') = skill_prompts env (ap_skills p) cache
        in (ap_system_prompt p @ nl @ nl @ ''--- Skills ---'' @ text, cache'))"

definition empty_result :: "task_entry \<Rightarrow> task_result" where
  "empty_result e = \<lparr>tz_task_id = te_task_id e, tz_agent_name = te_agent_name e, tz_ok = False, tz_output = [],
     tz_model_used = [], tz_completed_at_ms = 0, tz_action_taken = False, tz_action_type = [], tz_action_target = []\<rparr>"

text \<open>The dispatcher is optional; \<open>None\<close> as the result is an exception.\<close>

definition execute_task ::
    "'w audit_adder \<Rightarrow> controller_env \<Rightarrow> granite_env \<Rightarrow> 'f dispatcher_env option \<Rightarrow> exec_call \<Rightarrow> agent_controller
       \<Rightarrow> task_entry \<Rightarrow> ('f, 'w) exec_world \<Rightarrow> task_result option \<times> ('f, 'w) exec_world" where
  "execute_task add env ge disp k c e x =
     (case map_of (ct_personas c) (te_agent_name e) of
        None \<Rightarrow> (Some ((empty_result e)\<lparr>tz_completed_at_ms := xc_now k\<rparr>), x)
      | Some p \<Rightarrow>
          let (prompt, cache) = full_prompt env p (xw_skill_cache x);
              (resp, g, w) = generate add ge (xc_io k) (ap_preferred_model p) prompt (te_input e)
                (ap_max_tokens p) (ap_temperature p) (xw_granite x, xw_audit x);
              x1 = x\<lparr>xw_skill_cache := cache, xw_granite := g, xw_audit := w\<rparr>
          in (case resp of
                None \<Rightarrow> (None, x1)
              | Some r \<Rightarrow>
                  let res = (empty_result e)\<lparr>tz_ok := gr_ok r, tz_output := gr_text r, tz_model_used := gr_model_used r,
                              tz_completed_at_ms := xc_now k\<rparr>;
                      (res1, x2) =
                        (case disp of
                           Some v \<Rightarrow>
                             if gr_ok r \<and> gr_text r \<noteq> [] then
                               let (dr, gd, w1) = dispatch add v (xc_dispatch k) (ap_name p) (gr_text r) (xw_guarded x1, xw_audit x1)
                               in ((if dr_action_taken dr
                                    then res\<lparr>tz_action_taken := True, tz_action_type := dr_action_type dr,
                                             tz_action_target := dr_target dr\<rparr>
                                    else res),
                                   x1\<lparr>xw_guarded := gd, xw_audit := w1\<rparr>)
                             else (res, x1)
                         | None \<Rightarrow> (res, x1))
                  in (Some res1, x2\<lparr>xw_tasks_since_mem_log := xw_tasks_since_mem_log x2 + 1\<rparr>)))"

section \<open>Workers\<close>

text \<open>Where a worker thread is: at the head of its loop, waiting, or inside the processing of one task.\<close>

datatype worker = Head | Waiting | Taken task_entry | Marked task_entry | Executed task_entry task_result
  | Recorded task_entry task_result | Notified task_entry task_result | Exited

definition default_status :: agent_status where
  "default_status = \<lparr>as_name = [], as_category = [], as_tier = [], as_state = IDLE, as_last_task_id = [],
     as_last_result_snippet = [], as_last_run_at_ms = 0, as_tasks_completed = 0, as_tasks_failed = 0,
     as_last_active = []\<rparr>"

definition mark_running :: "task_entry \<Rightarrow> agent_controller \<Rightarrow> agent_controller" where
  "mark_running e c =
     (case map_of (ct_statuses c) (te_agent_name e) of
        None \<Rightarrow> c
      | Some st \<Rightarrow> c\<lparr>ct_statuses := sm_assign (te_agent_name e) (st\<lparr>as_state := RUNNING\<rparr>) (ct_statuses c)\<rparr>)"

definition record_result :: "string \<Rightarrow> task_entry \<Rightarrow> task_result \<Rightarrow> agent_controller \<Rightarrow> agent_controller" where
  "record_result stamp e r c =
     (let st = sm_get_or default_status (te_agent_name e) (ct_statuses c);
          st1 = st\<lparr>as_state := (if tz_ok r then COMPLETED else FAILED), as_last_task_id := tz_task_id r,
                   as_last_run_at_ms := tz_completed_at_ms r, as_last_result_snippet := take 100 (tz_output r),
                   as_last_active := stamp\<rparr>;
          st2 = (if tz_ok r then st1\<lparr>as_tasks_completed := as_tasks_completed st1 + 1\<rparr>
                 else st1\<lparr>as_tasks_failed := as_tasks_failed st1 + 1\<rparr>)
      in c\<lparr>ct_statuses := sm_assign (te_agent_name e) st2 (ct_statuses c)\<rparr>)"

definition completed_payload :: "task_entry \<Rightarrow> task_result \<Rightarrow> string" where
  "completed_payload e r = ''agent='' @ te_agent_name e @ '' task='' @ te_task_id e @ '' ok='' @ str_of_bool (tz_ok r)
     @ '' model='' @ tz_model_used r"

type_synonym ('r, 'x) executor = "'r \<Rightarrow> agent_controller \<Rightarrow> task_entry \<Rightarrow> 'x \<Rightarrow> task_result option \<times> 'x"

text \<open>One step of a worker; a worker that waits on an empty queue does not move. \<open>None\<close>: the process died. Running the
  task is one step, for any executor; the properties that depend on it take \<open>execute_task\<close>.\<close>

fun worker_step ::
    "'x audit_adder \<Rightarrow> ('r, 'x) executor \<Rightarrow> (task_result \<Rightarrow> 'x \<Rightarrow> 'x) \<Rightarrow> nat \<Rightarrow> string \<Rightarrow> 'r \<Rightarrow> worker
       \<Rightarrow> agent_controller \<times> 'x \<Rightarrow> worker option \<times> agent_controller \<times> 'x" where
  "worker_step add exec cb pick stamp r Head (c, x) = (Some (if ct_running c then Waiting else Exited), c, x)"
| "worker_step add exec cb pick stamp r Waiting (c, x) =
     (case pop_task pick (ct_queue c) of
        None \<Rightarrow> (Some (if ct_running c then Waiting else Exited), c, x)
      | Some (e, q) \<Rightarrow> (Some (Taken e), c\<lparr>ct_queue := q\<rparr>, x))"
| "worker_step add exec cb pick stamp r (Taken e) (c, x) = (Some (Marked e), mark_running e c, x)"
| "worker_step add exec cb pick stamp r (Marked e) (c, x) =
     (case exec r c e x of (None, x') \<Rightarrow> (None, c, x') | (Some res, x') \<Rightarrow> (Some (Executed e res), c, x'))"
| "worker_step add exec cb pick stamp r (Executed e res) (c, x) = (Some (Recorded e res), record_result stamp e res c, x)"
| "worker_step add exec cb pick stamp r (Recorded e res) (c, x) = (Some (Notified e res), c, cb res x)"
| "worker_step add exec cb pick stamp r (Notified e res) (c, x) =
     (Some Head, c, emit add ''agent_task_completed'' (completed_payload e res) x)"
| "worker_step add exec cb pick stamp r Exited (c, x) = (Some Exited, c, x)"

section \<open>The swarm\<close>

record 'x swarm =
  sw_ctl :: agent_controller
  sw_workers :: "worker list"
  sw_world :: 'x
  sw_dead :: bool

definition new_swarm :: "int \<Rightarrow> 'x \<Rightarrow> 'x swarm" where
  "new_swarm worker_count x = \<lparr>sw_ctl = new_agent_controller worker_count, sw_workers = [], sw_world = x, sw_dead = False\<rparr>"

text \<open>\<^verbatim>\<open>start\<close> does nothing when already running; \<^verbatim>\<open>stop\<close> clears the flag, then joins the workers.\<close>

definition start_swarm :: "'x swarm \<Rightarrow> 'x swarm" where
  "start_swarm s =
     (if ct_running (sw_ctl s) then s
      else s\<lparr>sw_ctl := (sw_ctl s)\<lparr>ct_running := True\<rparr>,
             sw_workers := sw_workers s @ replicate (nat (ct_worker_count (sw_ctl s))) Head\<rparr>)"

definition stop_swarm :: "'x swarm \<Rightarrow> 'x swarm" where
  "stop_swarm s = s\<lparr>sw_ctl := (sw_ctl s)\<lparr>ct_running := False\<rparr>\<rparr>"

definition join_workers :: "'x swarm \<Rightarrow> 'x swarm" where
  "join_workers s =
     (if \<not> ct_running (sw_ctl s) \<and> list_all (\<lambda>p. p = Exited) (sw_workers s) then s\<lparr>sw_workers := []\<rparr> else s)"

datatype 'r swarm_op = Load string | Load_ecc string | Submit string string task_priority int | Start | Stop | Join
  | Work nat nat string 'r

fun swarm_step ::
    "'x audit_adder \<Rightarrow> controller_env \<Rightarrow> ('r, 'x) executor \<Rightarrow> (task_result \<Rightarrow> 'x \<Rightarrow> 'x) \<Rightarrow> 'r swarm_op \<Rightarrow> 'x swarm \<Rightarrow> 'x swarm" where
  "swarm_step add env exec cb (Load path) s =
     (let (_, c, x) = load_persona add env path (sw_ctl s, sw_world s) in s\<lparr>sw_ctl := c, sw_world := x\<rparr>)"
| "swarm_step add env exec cb (Load_ecc path) s =
     (let (_, c, x) = load_ecc add env path (sw_ctl s, sw_world s) in s\<lparr>sw_ctl := c, sw_world := x\<rparr>)"
| "swarm_step add env exec cb (Submit agent input prio now) s =
     s\<lparr>sw_ctl := snd (submit_task agent input prio now (sw_ctl s))\<rparr>"
| "swarm_step add env exec cb Start s = start_swarm s"
| "swarm_step add env exec cb Stop s = stop_swarm s"
| "swarm_step add env exec cb Join s = join_workers s"
| "swarm_step add env exec cb (Work i pick stamp r) s =
     (if length (sw_workers s) \<le> i then s
      else (case worker_step add exec cb pick stamp r (sw_workers s ! i) (sw_ctl s, sw_world s) of
              (None, c, x) \<Rightarrow> s\<lparr>sw_ctl := c, sw_world := x, sw_dead := True\<rparr>
            | (Some p, c, x) \<Rightarrow> s\<lparr>sw_ctl := c, sw_workers := (sw_workers s)[i := p], sw_world := x\<rparr>))"

text \<open>Nothing runs after the process has died.\<close>

definition live_step ::
    "'x audit_adder \<Rightarrow> controller_env \<Rightarrow> ('r, 'x) executor \<Rightarrow> (task_result \<Rightarrow> 'x \<Rightarrow> 'x) \<Rightarrow> 'r swarm_op \<Rightarrow> 'x swarm \<Rightarrow> 'x swarm" where
  "live_step add env exec cb op s = (if sw_dead s then s else swarm_step add env exec cb op s)"

definition swarm_run ::
    "'x audit_adder \<Rightarrow> controller_env \<Rightarrow> ('r, 'x) executor \<Rightarrow> (task_result \<Rightarrow> 'x \<Rightarrow> 'x) \<Rightarrow> 'r swarm_op list \<Rightarrow> 'x swarm \<Rightarrow> 'x swarm" where
  "swarm_run add env exec cb ops s = fold (live_step add env exec cb) ops s"

section \<open>Readings\<close>

definition get_statuses :: "agent_controller \<Rightarrow> agent_status list" where
  "get_statuses c = sm_values (ct_statuses c)"

definition queue_depth :: "agent_controller \<Rightarrow> nat" where
  "queue_depth c = length (ct_queue c)"

definition persona_count :: "agent_controller \<Rightarrow> nat" where
  "persona_count c = length (ct_personas c)"

record memory_snapshot =
  ms_personas_bytes :: nat
  ms_queue_bytes :: nat
  ms_statuses_bytes :: nat
  ms_total_estimated_mb :: nat

definition total_mb :: "nat \<Rightarrow> nat" where
  "total_mb heap = (let mb = heap div (1024 * 1024) in if mb < 1 then 1 else mb)"

definition get_memory_usage :: "controller_env \<Rightarrow> agent_controller \<Rightarrow> memory_snapshot" where
  "get_memory_usage env c =
     (let pb = sum_list (map (\<lambda>(name, p). length name + persona_bytes env p) (ct_personas c));
          qb = length (ct_queue c) * (ce_sizeof_task env + 128);
          sb = sum_list (map (\<lambda>(name, st). length name + length (as_name st) + length (as_category st)
                 + length (as_last_task_id st) + length (as_last_result_snippet st) + ce_sizeof_status env) (ct_statuses c))
      in \<lparr>ms_personas_bytes = pb, ms_queue_bytes = qb, ms_statuses_bytes = sb,
          ms_total_estimated_mb = total_mb (pb + qb + sb + 2 * 1024 * 1024)\<rparr>)"

section \<open>The queue\<close>

lemma top_candidates_least:
  "e \<in> set (top_candidates q) \<Longrightarrow> e \<in> set q \<and> (\<forall>f\<in>set q. prio_value (te_priority e) \<le> prio_value (te_priority f))"
  by (auto simp: top_candidates_def task_greater_def list_all_iff not_less)

lemma top_candidates_Nil [simp]: "top_candidates q = [] \<longleftrightarrow> q = []"
proof
  assume none: "top_candidates q = []"
  show "q = []"
  proof (rule ccontr)
    assume "q \<noteq> []"
    then obtain e where "e \<in> set q" "\<And>f. f \<in> set q \<Longrightarrow> prio_value (te_priority e) \<le> prio_value (te_priority f)"
      using ex_has_least_nat [of "\<lambda>e. e \<in> set q" _ "\<lambda>e. prio_value (te_priority e)"]
      by (metis list.set_sel(1))
    with none show False
      by (auto simp: top_candidates_def task_greater_def filter_empty_conv list_all_iff not_less)
  qed
qed (simp add: top_candidates_def)

lemma pop_task_None [simp]: "pop_task pick q = None \<longleftrightarrow> q = []"
  by (simp add: pop_task_def Let_def split: list.split) (metis top_candidates_Nil list.distinct(1))

lemma pop_task_Nil [simp]: "pop_task pick [] = None"
  by simp

lemma pop_task_Some:
  "pop_task pick q = Some (e, q') \<Longrightarrow> e \<in> set (top_candidates q) \<and> q' = remove1 e q"
proof -
  assume "pop_task pick q = Some (e, q')"
  then obtain x xs where c: "top_candidates q = x # xs" and e: "e = (x # xs) ! (pick mod length (x # xs))"
    and q': "q' = remove1 e q"
    by (auto simp: pop_task_def Let_def split: list.splits)
  have "e \<in> set (x # xs)" unfolding e by (rule nth_mem) (simp del: length_Cons add: length_greater_0_conv)
  with c q' show ?thesis by simp
qed

lemma pop_task_contents: "pop_task pick q = Some (e, q') \<Longrightarrow> mset q = add_mset e (mset q')"
  using pop_task_Some top_candidates_least by (metis insert_DiffM mset_remove1 set_mset_mset)

lemma pop_task_length: "pop_task pick q = Some (e, q') \<Longrightarrow> length q = Suc (length q')"
  by (metis pop_task_contents size_add_mset size_mset)

interpretation task_queue: rank_buffer mset "prio_value \<circ> te_priority" "\<lambda>e q. q @ [e]" pop_task
proof unfold_locales
  show "pop_task n q = Some (e, q') \<Longrightarrow> f \<in># mset q \<Longrightarrow> (prio_value \<circ> te_priority) e \<le> (prio_value \<circ> te_priority) f"
    for n e q q' f using pop_task_Some top_candidates_least by fastforce
qed (auto dest: pop_task_contents)

section \<open>Conservation of tasks\<close>

fun in_flight :: "worker \<Rightarrow> task_entry list" where
  "in_flight (Taken e) = [e]"
| "in_flight (Marked e) = [e]"
| "in_flight (Executed e r) = [e]"
| "in_flight (Recorded e r) = [e]"
| "in_flight (Notified e r) = [e]"
| "in_flight p = []"

definition pending :: "'x swarm \<Rightarrow> task_entry multiset" where
  "pending s = mset (ct_queue (sw_ctl s)) + mset (concat (map in_flight (sw_workers s)))"

text \<open>The task that a submission adds, and the task whose processing an operation ends.\<close>

fun accepts :: "'r swarm_op \<Rightarrow> 'x swarm \<Rightarrow> task_entry list" where
  "accepts (Submit agent input prio now) s =
     (if map_of (ct_personas (sw_ctl s)) agent = None then [] else [submit_entry agent input prio now (sw_ctl s)])"
| "accepts op s = []"

fun finishes :: "'r swarm_op \<Rightarrow> 'x swarm \<Rightarrow> task_entry list" where
  "finishes (Work i pick stamp r) s =
     (if length (sw_workers s) \<le> i then []
      else (case sw_workers s ! i of Notified e res \<Rightarrow> [e] | _ \<Rightarrow> []))"
| "finishes op s = []"

fun along_run ::
    "'x audit_adder \<Rightarrow> controller_env \<Rightarrow> ('r, 'x) executor \<Rightarrow> (task_result \<Rightarrow> 'x \<Rightarrow> 'x)
       \<Rightarrow> ('r swarm_op \<Rightarrow> 'x swarm \<Rightarrow> 'b list) \<Rightarrow> 'r swarm_op list \<Rightarrow> 'x swarm \<Rightarrow> 'b list" where
  "along_run add env exec cb f [] s = []"
| "along_run add env exec cb f (op # ops) s =
     (if sw_dead s then [] else f op s) @ along_run add env exec cb f ops (live_step add env exec cb op s)"

lemma concat_update:
  "i < length ws \<Longrightarrow> mset (concat (map f (ws[i := p]))) + mset (f (ws ! i)) = mset (concat (map f ws)) + mset (f p)"
proof (induction ws arbitrary: i)
  case (Cons w ws)
  then show ?case by (cases i) (auto simp: ac_simps)
qed simp

lemma mset_exchange:
  "u + fi = c + fp \<Longrightarrow> qc + fp + fin = q0 + fi \<Longrightarrow> qc + u + fin = q0 + c" for c :: "'a multiset"
proof -
  assume a: "u + fi = c + fp" and b: "qc + fp + fin = q0 + fi"
  have "qc + u + fin + fi = qc + (u + fi) + fin" by (simp add: ac_simps)
  also have "\<dots> = c + (qc + fp + fin)" unfolding a by (simp add: ac_simps)
  also have "\<dots> = q0 + c + fi" unfolding b by (simp add: ac_simps)
  finally show ?thesis by simp
qed

lemma mset_chain:
  "p' + f' = q + a' \<Longrightarrow> q + f = p + a \<Longrightarrow> p' + (f + f') = p + (a + a')" for p :: "'a multiset"
proof -
  assume a: "p' + f' = q + a'" and b: "q + f = p + a"
  have "p' + (f + f') = (p' + f') + f" by (simp add: ac_simps)
  also have "\<dots> = (q + f) + a'" unfolding a by (simp add: ac_simps)
  also have "\<dots> = p + (a + a')" unfolding b by (simp add: ac_simps)
  finally show ?thesis .
qed

lemma load_keeps_queue:
  "load_persona add env path (c, x) = (b, c', x') \<Longrightarrow> ct_queue c' = ct_queue c \<and> ct_next_task_id c' = ct_next_task_id c"
  "load_ecc add env path (c, x) = (b, c', x') \<Longrightarrow> ct_queue c' = ct_queue c \<and> ct_next_task_id c' = ct_next_task_id c"
  by (auto simp: load_persona_def load_ecc_def register_persona_def Let_def split: sum.splits if_splits option.splits bool.splits prod.splits)

lemma mark_keeps_queue [simp]:
  "ct_queue (mark_running e c) = ct_queue c" "ct_next_task_id (mark_running e c) = ct_next_task_id c"
  "ct_running (mark_running e c) = ct_running c"
  by (simp_all add: mark_running_def split: option.split)

lemma record_keeps_queue [simp]:
  "ct_queue (record_result t e r c) = ct_queue c" "ct_next_task_id (record_result t e r c) = ct_next_task_id c"
  "ct_running (record_result t e r c) = ct_running c"
  by (simp_all add: record_result_def Let_def)

lemma worker_step_pending:
  assumes "worker_step add exec cb pick stamp r p (c, x) = (Some p', c', x')"
  shows "mset (ct_queue c') + mset (in_flight p') + mset (case p of Notified e res \<Rightarrow> [e] | _ \<Rightarrow> [])
      = mset (ct_queue c) + mset (in_flight p)"
proof (cases p)
  case Waiting
  with assms show ?thesis
    using pop_task_contents by (fastforce split: option.splits prod.splits if_splits)
qed (use assms in \<open>auto split: option.splits prod.splits if_splits\<close>)

lemma worker_step_dead:
  "worker_step add exec cb pick stamp r p (c, x) = (None, c', x') \<Longrightarrow> c' = c \<and> (\<exists>e. p = Marked e)"
  by (cases p) (auto split: option.splits prod.splits)

lemma worker_step_next_id:
  "worker_step add exec cb pick stamp r p (c, x) = (po, c', x') \<Longrightarrow> ct_next_task_id c' = ct_next_task_id c"
  by (cases p) (auto split: option.splits prod.splits)

lemma live_step_pending:
  assumes "\<not> sw_dead s"
  shows "pending (live_step add env exec cb op s) + mset (finishes op s) = pending s + mset (accepts op s)"
proof (cases op)
  case (Work i pick stamp r)
  show ?thesis
  proof (cases "i < length (sw_workers s)")
    case True
    obtain po c x where w: "worker_step add exec cb pick stamp r (sw_workers s ! i) (sw_ctl s, sw_world s) = (po, c, x)"
      by (metis prod_cases3)
    show ?thesis
    proof (cases po)
      case None
      with w worker_step_dead [OF w [unfolded None]] Work True assms show ?thesis
        by (auto simp: live_step_def pending_def)
    next
      case (Some p)
      have "mset (ct_queue c) + mset (in_flight p) + mset (finishes op s)
          = mset (ct_queue (sw_ctl s)) + mset (in_flight (sw_workers s ! i))"
        using worker_step_pending [OF w [unfolded Some]] Work True by simp
      from mset_exchange [OF concat_update [OF True, of in_flight p] this] w Some Work True assms show ?thesis
        by (simp add: live_step_def pending_def)
    qed
  qed (use Work assms in \<open>simp add: live_step_def\<close>)
next
  case (Load path)
  with assms load_keeps_queue(1) show ?thesis
    by (fastforce simp: live_step_def pending_def split: prod.splits)
next
  case (Load_ecc path)
  with assms load_keeps_queue(2) show ?thesis
    by (fastforce simp: live_step_def pending_def split: prod.splits)
next
  case Join
  with assms show ?thesis by (auto simp: live_step_def pending_def join_workers_def list_all_iff)
next
  case Start
  have "concat (map in_flight (replicate n Head)) = []" for n by (induction n) auto
  with Start assms show ?thesis by (simp add: live_step_def pending_def start_swarm_def)
qed (use assms in \<open>simp_all add: live_step_def pending_def stop_swarm_def submit_task_def Let_def\<close>)

lemma dead_stays: "sw_dead s \<Longrightarrow> live_step add env exec cb op s = s"
  by (simp add: live_step_def)

lemma run_pending:
  "pending (swarm_run add env exec cb ops s) + mset (along_run add env exec cb finishes ops s)
     = pending s + mset (along_run add env exec cb accepts ops s)"
proof (induction ops arbitrary: s)
  case (Cons op ops)
  show ?case
  proof (cases "sw_dead s")
    case True
    with Cons [of s] show ?thesis by (simp add: swarm_run_def dead_stays)
  next
    case False
    have "pending (swarm_run add env exec cb ops (live_step add env exec cb op s))
        + (mset (finishes op s) + mset (along_run add env exec cb finishes ops (live_step add env exec cb op s)))
        = pending s + (mset (accepts op s) + mset (along_run add env exec cb accepts ops (live_step add env exec cb op s)))"
      using Cons live_step_pending [OF False] by (rule mset_chain)
    with False show ?thesis by (simp add: swarm_run_def)
  qed
qed (simp add: swarm_run_def)

text \<open>The ids of accepted tasks count up.\<close>

lemma live_step_next_id:
  assumes "\<not> sw_dead s"
  shows "map te_task_id (accepts op s) = map (\<lambda>k. ''task_'' @ str_of_u64 (ct_next_task_id (sw_ctl s) + of_nat k)) [0..<length (accepts op s)]
    \<and> ct_next_task_id (sw_ctl (live_step add env exec cb op s)) = ct_next_task_id (sw_ctl s) + of_nat (length (accepts op s))"
proof (cases op)
  case (Work i pick stamp r)
  obtain po c x where w: "worker_step add exec cb pick stamp r (sw_workers s ! i) (sw_ctl s, sw_world s) = (po, c, x)"
    by (metis prod_cases3)
  with worker_step_next_id [OF w] Work assms show ?thesis
    by (cases po) (simp_all add: live_step_def)
next
  case (Load path)
  obtain b c x where l: "load_persona add env path (sw_ctl s, sw_world s) = (b, c, x)" by (metis prod_cases3)
  with load_keeps_queue(1) [OF l] Load assms show ?thesis by (simp add: live_step_def)
next
  case (Load_ecc path)
  obtain b c x where l: "load_ecc add env path (sw_ctl s, sw_world s) = (b, c, x)" by (metis prod_cases3)
  with load_keeps_queue(2) [OF l] Load_ecc assms show ?thesis by (simp add: live_step_def)
qed (use assms in \<open>simp_all add: live_step_def stop_swarm_def start_swarm_def join_workers_def submit_task_def
    submit_entry_def Let_def\<close>)

lemma along_run_ids:
  "map te_task_id (along_run add env exec cb accepts ops s) =
   map (\<lambda>k. ''task_'' @ str_of_u64 (ct_next_task_id (sw_ctl s) + of_nat k)) [0..<length (along_run add env exec cb accepts ops s)]"
proof (induction ops arbitrary: s)
  case (Cons op ops)
  show ?case
  proof (cases "sw_dead s")
    case True
    then show ?thesis using Cons [of s] by (simp add: dead_stays)
  next
    case False
    define t where "t = live_step add env exec cb op s"
    define n where "n = length (accepts op s)"
    have id: "ct_next_task_id (sw_ctl t) = ct_next_task_id (sw_ctl s) + of_nat n"
      and here: "map te_task_id (accepts op s) = map (\<lambda>k. ''task_'' @ str_of_u64 (ct_next_task_id (sw_ctl s) + of_nat k)) [0..<n]"
      using live_step_next_id [OF False] unfolding t_def n_def by blast+
    let ?l = "length (along_run add env exec cb accepts ops t)"
    have "map (\<lambda>k. ''task_'' @ str_of_u64 (ct_next_task_id (sw_ctl s) + of_nat k)) [n..<n + ?l]
        = map (\<lambda>k. ''task_'' @ str_of_u64 (ct_next_task_id (sw_ctl t) + of_nat k)) [0..<?l]"
      unfolding id by (rule nth_equalityI) (simp_all add: algebra_simps)
    with here Cons [of t] False show ?thesis
      by (simp add: t_def [symmetric] n_def [symmetric] upt_add_eq_append [of 0 n])
  qed
qed simp

section \<open>Progress\<close>

fun phase_weight :: "worker \<Rightarrow> nat" where
  "phase_weight Head = 1"
| "phase_weight Waiting = 0"
| "phase_weight (Taken e) = 6"
| "phase_weight (Marked e) = 5"
| "phase_weight (Executed e r) = 4"
| "phase_weight (Recorded e r) = 3"
| "phase_weight (Notified e r) = 2"
| "phase_weight Exited = 0"

text \<open>How many steps of its workers a running swarm can make without new submissions.\<close>

definition work_left :: "'x swarm \<Rightarrow> nat" where
  "work_left s = 7 * length (ct_queue (sw_ctl s)) + sum_list (map phase_weight (sw_workers s))"

fun steps_of :: "nat \<Rightarrow> 'r swarm_op list \<Rightarrow> nat" where
  "steps_of i [] = 0"
| "steps_of i (Work j pick stamp r # ops) = (if j = i then 1 else 0) + steps_of i ops"
| "steps_of i (op # ops) = steps_of i ops"

fun is_work :: "'r swarm_op \<Rightarrow> bool" where
  "is_work (Work i pick stamp r) = True"
| "is_work op = False"

lemma worker_step_progress:
  assumes "worker_step add exec cb pick stamp r p (c, x) = (Some p', c', x')" and "ct_running c"
  shows "ct_running c' \<and> (p' = Exited) = (p = Exited) \<and>
    (if p = Exited \<or> p = Waiting \<and> ct_queue c = [] then p' = p \<and> c' = c
     else Suc (7 * length (ct_queue c') + phase_weight p') = 7 * length (ct_queue c) + phase_weight p)
    \<and> (if ct_queue c = [] then ct_queue c' = [] else True)"
proof (cases p)
  case Waiting
  show ?thesis
  proof (cases "pop_task pick (ct_queue c)")
    case (Some eq)
    then obtain e q where eq: "pop_task pick (ct_queue c) = Some (e, q)" by (cases eq) simp
    with assms(1) Waiting pop_task_length [OF eq] assms(2) show ?thesis by auto
  qed (use assms Waiting in auto)
qed (use assms in \<open>auto split: option.splits prod.splits\<close>)

lemma sum_list_update_nat:
  "i < length ws \<Longrightarrow> sum_list (map f (ws[i := p])) + f (ws ! i) = sum_list (map f ws) + (f p :: nat)"
proof (induction ws arbitrary: i)
  case (Cons w ws)
  then show ?case by (cases i) auto
qed simp

text \<open>A worker is settled when it waits on an empty queue.\<close>

definition settled :: "nat \<Rightarrow> 'x swarm \<Rightarrow> bool" where
  "settled i s = (ct_queue (sw_ctl s) = [] \<and> sw_workers s ! i = Waiting)"

definition alive :: "nat \<Rightarrow> 'x swarm \<Rightarrow> bool" where
  "alive i s = (ct_running (sw_ctl s) \<and> \<not> sw_dead s \<and> i < length (sw_workers s) \<and> sw_workers s ! i \<noteq> Exited)"

text \<open>The process died while running the task of a worker.\<close>

definition task_threw :: "('r, 'x) executor \<Rightarrow> 'x swarm \<Rightarrow> bool" where
  "task_threw exec s = (sw_dead s \<and> (\<exists>e r x. Marked e \<in> set (sw_workers s) \<and> fst (exec r (sw_ctl s) e x) = None))"

lemma work_step_progress:
  assumes alive: "alive i s" and op: "op = Work j pick stamp r" and t_def: "t = live_step add env exec cb op s"
  shows "task_threw exec t \<or> alive i t \<and> (if settled i s then settled i t else True) \<and> work_left t \<le> work_left s
    \<and> (if j = i \<and> \<not> settled i s then Suc (work_left t) = work_left s else True)"
proof (cases "j < length (sw_workers s)")
  case False
  then show ?thesis using alive by (auto simp: t_def op live_step_def alive_def)
next
  case True
  let ?p = "sw_workers s ! j" and ?c = "sw_ctl s"
  have run: "ct_running ?c" "\<not> sw_dead s" "i < length (sw_workers s)" "sw_workers s ! i \<noteq> Exited"
    using alive by (simp_all add: alive_def)
  obtain po c x where w: "worker_step add exec cb pick stamp r ?p (?c, sw_world s) = (po, c, x)" by (metis prod_cases3)
  show ?thesis
  proof (cases po)
    case None
    note w' = w [unfolded None]
    obtain e where e: "c = ?c" "?p = Marked e" using worker_step_dead [OF w'] by blast
    have t: "t = s\<lparr>sw_world := x, sw_dead := True\<rparr>" using True w' e run(2) by (simp add: t_def op live_step_def)
    have "fst (exec r ?c e (sw_world s)) = None" using w' e(2) by (auto split: prod.splits option.splits)
    moreover have "Marked e \<in> set (sw_workers s)" using True e(2) by (metis nth_mem)
    ultimately have "task_threw exec t" by (auto simp: task_threw_def t)
    then show ?thesis ..
  next
    case (Some p)
    from worker_step_progress [OF w [unfolded Some] run(1)] have c: "ct_running c"
      and ex: "(p = Exited) = (?p = Exited)"
      and wt: "if ?p = Exited \<or> ?p = Waiting \<and> ct_queue ?c = [] then p = ?p \<and> c = ?c
        else Suc (7 * length (ct_queue c) + phase_weight p) = 7 * length (ct_queue ?c) + phase_weight ?p"
      and q: "if ct_queue ?c = [] then ct_queue c = [] else True" by blast+
    have t: "t = s\<lparr>sw_ctl := c, sw_workers := (sw_workers s)[j := p], sw_world := x\<rparr>"
      using True w Some run(2) by (simp add: t_def op live_step_def)
    have sum: "sum_list (map phase_weight ((sw_workers s)[j := p])) + phase_weight ?p
        = sum_list (map phase_weight (sw_workers s)) + phase_weight p"
      using True by (rule sum_list_update_nat)
    have "alive i t" using t c run ex by (cases "i = j") (auto simp: alive_def)
    moreover have "if settled i s then settled i t else True"
      using t q wt run(3) by (cases "i = j") (auto simp: settled_def)
    moreover have "work_left t \<le> work_left s" using t sum wt by (auto simp: work_left_def split: if_splits)
    moreover have "if j = i \<and> \<not> settled i s then Suc (work_left t) = work_left s else True"
      using t sum wt run(4) by (auto simp: work_left_def settled_def split: if_splits)
    ultimately show ?thesis by simp
  qed
qed

lemma idle_is_settled:
  assumes "alive i s" and "work_left s = 0"
  shows "settled i s"
proof -
  have "\<forall>p\<in>set (sw_workers s). phase_weight p = 0" using assms(2) by (simp add: work_left_def)
  with assms(1) have "phase_weight (sw_workers s ! i) = 0" "sw_workers s ! i \<noteq> Exited"
    by (simp_all add: alive_def)
  then have "sw_workers s ! i = Waiting" by (cases "sw_workers s ! i") simp_all
  with assms(2) show ?thesis by (simp add: settled_def work_left_def)
qed

lemma dead_run: "sw_dead s \<Longrightarrow> swarm_run add env exec cb ops s = s"
  by (induction ops) (simp_all add: swarm_run_def dead_stays)

lemma run_settles:
  "alive i s \<Longrightarrow> list_all is_work ops \<Longrightarrow> settled i s \<or> work_left s \<le> steps_of i ops \<Longrightarrow>
   task_threw exec (swarm_run add env exec cb ops s)
   \<or> \<not> sw_dead (swarm_run add env exec cb ops s) \<and> settled i (swarm_run add env exec cb ops s)"
proof (induction ops arbitrary: s)
  case Nil
  then show ?case using idle_is_settled by (auto simp: swarm_run_def alive_def)
next
  case (Cons op ops)
  from Cons.prems(2) obtain j pick stamp r where op: "op = Work j pick stamp r" by (cases op) auto
  let ?t = "live_step add env exec cb op s"
  have run: "swarm_run add env exec cb (op # ops) s = swarm_run add env exec cb ops ?t" by (simp add: swarm_run_def)
  show ?case
  proof (cases "task_threw exec ?t")
    case True
    then have "swarm_run add env exec cb ops ?t = ?t" by (simp add: task_threw_def dead_run)
    with True show ?thesis by (simp add: run)
  next
    case False
    with work_step_progress [where exec = exec and t = ?t and add = add and env = env and cb = cb, OF Cons.prems(1) op refl]
    have t: "alive i ?t" and keep: "if settled i s then settled i ?t else True" and le: "work_left ?t \<le> work_left s"
      and dec: "if j = i \<and> \<not> settled i s then Suc (work_left ?t) = work_left s else True" by blast+
    have "settled i ?t \<or> work_left ?t \<le> steps_of i ops"
      using Cons.prems(3) keep le dec op by (cases "settled i s"; cases "j = i") auto
    with Cons.IH [OF t] Cons.prems(2) show ?thesis by (simp add: run)
  qed
qed

section \<open>The order of service\<close>

text \<open>What a worker takes from the queue in a step, with the queue it was taken from.\<close>

fun taking ::
    "'x audit_adder \<Rightarrow> controller_env \<Rightarrow> ('r, 'x) executor \<Rightarrow> (task_result \<Rightarrow> 'x \<Rightarrow> 'x)
       \<Rightarrow> 'r swarm_op \<Rightarrow> 'x swarm \<Rightarrow> (task_entry \<times> task_entry list) list" where
  "taking add env exec cb (Work i pick stamp r) s =
     (if length (sw_workers s) \<le> i then []
      else (case (sw_workers s ! i, sw_workers (live_step add env exec cb (Work i pick stamp r) s) ! i) of
              (Waiting, Taken e) \<Rightarrow> [(e, ct_queue (sw_ctl s))]
            | _ \<Rightarrow> []))"
| "taking add env exec cb op s = []"

fun more_urgent :: "task_priority \<Rightarrow> task_priority \<Rightarrow> bool" where
  "more_urgent PRIO_HIGH p = (p \<noteq> PRIO_HIGH)"
| "more_urgent PRIO_NORMAL p = (p = PRIO_LOW)"
| "more_urgent PRIO_LOW p = False"

definition none_more_urgent :: "task_entry list \<Rightarrow> task_entry \<Rightarrow> bool" where
  "none_more_urgent q e = list_all (\<lambda>f. \<not> more_urgent (te_priority f) (te_priority e)) q"

lemma more_urgent_value: "more_urgent p p' = (prio_value p < prio_value p')"
  by (cases p; cases p') simp_all

lemma none_more_urgent_value:
  "none_more_urgent q e = (\<forall>f\<in>set q. prio_value (te_priority e) \<le> prio_value (te_priority f))"
  by (simp add: none_more_urgent_def list_all_iff more_urgent_value not_less)

lemma taking_step:
  assumes "\<not> sw_dead s" and op: "op = Work i pick stamp r" and t: "t = live_step add env exec cb op s"
  shows "taking add env exec cb op s = [] \<and> ct_queue (sw_ctl t) = ct_queue (sw_ctl s)
    \<or> (\<exists>e. taking add env exec cb op s = [(e, ct_queue (sw_ctl s))]
        \<and> pop_task pick (ct_queue (sw_ctl s)) = Some (e, ct_queue (sw_ctl t)))"
proof (cases "i < length (sw_workers s)")
  case True
  obtain po c x where w: "worker_step add exec cb pick stamp r (sw_workers s ! i) (sw_ctl s, sw_world s) = (po, c, x)"
    by (metis prod_cases3)
  note step = t op w True assms(1) live_step_def
  show ?thesis
  proof (cases "sw_workers s ! i")
    case Waiting
    show ?thesis
    proof (cases "pop_task pick (ct_queue (sw_ctl s))")
      case (Some eq)
      with Waiting w show ?thesis by (cases eq) (auto simp: step)
    qed (use Waiting w in \<open>auto simp: step\<close>)
  qed (use w in \<open>auto simp: step split: option.splits prod.splits\<close>)
qed (simp add: t op live_step_def)

lemma taking_urgent:
  "list_all (\<lambda>(e, q). e \<in> set q \<and> none_more_urgent q e) (along_run add env exec cb (taking add env exec cb) ops s)"
proof (induction ops arbitrary: s)
  case (Cons op ops)
  have "list_all (\<lambda>(e, q). e \<in> set q \<and> none_more_urgent q e) (taking add env exec cb op s)" if "\<not> sw_dead s"
  proof (cases op)
    case (Work i pick stamp r)
    from taking_step [OF that Work refl, of add env exec cb] show ?thesis
      using pop_task_Some top_candidates_least by (fastforce simp: none_more_urgent_value)
  qed simp_all
  with Cons show ?case by simp
qed simp

lemma work_drains:
  "list_all is_work ops \<Longrightarrow> \<exists>picks. drain pop_task picks (ct_queue (sw_ctl s)) =
     (map fst (along_run add env exec cb (taking add env exec cb) ops s), ct_queue (sw_ctl (swarm_run add env exec cb ops s)))"
proof (induction ops arbitrary: s)
  case Nil
  have "drain pop_task [] (ct_queue (sw_ctl s)) = ([], ct_queue (sw_ctl s))" by simp
  then have "\<exists>picks. drain pop_task picks (ct_queue (sw_ctl s)) = ([], ct_queue (sw_ctl s))" ..
  then show ?case by (simp add: swarm_run_def)
next
  case (Cons op ops)
  let ?t = "live_step add env exec cb op s"
  have run: "swarm_run add env exec cb (op # ops) s = swarm_run add env exec cb ops ?t" by (simp add: swarm_run_def)
  from Cons obtain picks where d: "drain pop_task picks (ct_queue (sw_ctl ?t)) =
      (map fst (along_run add env exec cb (taking add env exec cb) ops ?t), ct_queue (sw_ctl (swarm_run add env exec cb ops ?t)))"
    by fastforce
  show ?case
  proof (cases "sw_dead s")
    case True
    with d show ?thesis by (auto simp: run dead_stays)
  next
    case False
    from Cons.prems obtain i pick stamp r where op: "op = Work i pick stamp r" by (cases op) auto
    from taking_step [OF False op refl, of add env exec cb] show ?thesis
    proof (elim disjE exE conjE)
      assume "taking add env exec cb op s = []" "ct_queue (sw_ctl ?t) = ct_queue (sw_ctl s)"
      with d show ?thesis by (auto simp: run)
    next
      fix e
      assume "taking add env exec cb op s = [(e, ct_queue (sw_ctl s))]"
        and "pop_task pick (ct_queue (sw_ctl s)) = Some (e, ct_queue (sw_ctl ?t))"
      with d False have "drain pop_task (pick # picks) (ct_queue (sw_ctl s)) =
          (map fst (along_run add env exec cb (taking add env exec cb) (op # ops) s),
           ct_queue (sw_ctl (swarm_run add env exec cb (op # ops) s)))"
        by (simp add: run)
      then show ?thesis ..
    qed
  qed
qed

definition of_priority :: "task_priority \<Rightarrow> task_entry list \<Rightarrow> task_entry list" where
  "of_priority p es = filter (\<lambda>e. te_priority e = p) es"

lemma sorted_by_priority:
  "sorted (map (prio_value \<circ> te_priority) es) \<Longrightarrow>
   es = of_priority PRIO_HIGH es @ of_priority PRIO_NORMAL es @ of_priority PRIO_LOW es"
proof (induction es)
  case (Cons e es)
  then have es: "es = of_priority PRIO_HIGH es @ of_priority PRIO_NORMAL es @ of_priority PRIO_LOW es"
    and le: "\<And>f. f \<in> set es \<Longrightarrow> prio_value (te_priority e) \<le> prio_value (te_priority f)" by simp_all
  have none: "of_priority p es = []" if "prio_value p < prio_value (te_priority e)" for p
    using le that by (fastforce simp: of_priority_def filter_empty_conv)
  show ?case
    using es none [of PRIO_HIGH] none [of PRIO_NORMAL] by (cases "te_priority e") (simp_all add: of_priority_def)
qed (simp add: of_priority_def)

section \<open>Well-formed controllers\<close>

definition controller_ok :: "agent_controller \<Rightarrow> bool" where
  "controller_ok c = (sm_ok (ct_personas c) \<and> list_all (\<lambda>(k, p). k = ap_name p \<and> validate_persona p) (ct_personas c)
     \<and> map fst (ct_statuses c) = map fst (ct_personas c) \<and> list_all (\<lambda>(k, st). as_name st = k) (ct_statuses c))"

lemma sm_assign_keys_eq: "map fst m = map fst m' \<Longrightarrow> map fst (sm_assign k v m) = map fst (sm_assign k v' m')"
proof (induction m arbitrary: m')
  case (Cons a m)
  then obtain b l where "m' = b # l" by (cases m') auto
  with Cons show ?case by (cases a; cases b) auto
qed simp

lemma sm_assign_keys_same: "sm_ok m \<Longrightarrow> map_of m k = Some u \<Longrightarrow> map fst (sm_assign k v m) = map fst m"
proof (induction m)
  case (Cons a m)
  obtain k' v' where a: "a = (k', v')" by (cases a)
  show ?case
  proof (cases "k = k'")
    case False
    with Cons.prems a have "k \<in> fst ` set m" by (metis domI dom_map_of_conv_image_fst map_of_Cons_code(2))
    with Cons.prems a have "k' < k" by (auto simp: sm_ok_def)
    with Cons a False show ?thesis by (auto simp: sm_ok_def)
  qed (simp add: a)
qed simp

lemma list_all_sm_assign: "list_all P m \<Longrightarrow> P (k, v) \<Longrightarrow> list_all P (sm_assign k v m)"
  using set_sm_assign [of k v m] by (auto simp: list_all_iff)

lemma sm_ok_keys: "map fst m = map fst m' \<Longrightarrow> sm_ok m = sm_ok m'"
  by (simp add: sm_ok_def)

lemma registered_ok: "controller_ok c \<Longrightarrow> validate_persona p \<Longrightarrow> controller_ok (register_persona p c)"
  by (auto simp: controller_ok_def register_persona_def idle_status_def intro!: list_all_sm_assign sm_assign_keys_eq)

lemma register_keys: "fst ` set (ct_personas c) \<subseteq> fst ` set (ct_personas (register_persona p c))"
  by (simp add: register_persona_def subset_insertI)

lemma controller_ok_bytes [simp]: "controller_ok (c\<lparr>ct_cached_personas_bytes := n\<rparr>) = controller_ok c"
  by (simp add: controller_ok_def)

lemma load_ok:
  "controller_ok c \<Longrightarrow> load_persona add env path (c, x) = (b, c', x') \<Longrightarrow>
     controller_ok c' \<and> fst ` set (ct_personas c) \<subseteq> fst ` set (ct_personas c')"
  "controller_ok c \<Longrightarrow> load_ecc add env path (c, x) = (b, c', x') \<Longrightarrow>
     controller_ok c' \<and> fst ` set (ct_personas c) \<subseteq> fst ` set (ct_personas c')"
proof -
  assume c: "controller_ok c"
  show "load_persona add env path (c, x) = (b, c', x') \<Longrightarrow>
     controller_ok c' \<and> fst ` set (ct_personas c) \<subseteq> fst ` set (ct_personas c')"
  proof (cases "load_from_json (ce_stream env) (ce_read env) path")
    case (Inr p)
    assume "load_persona add env path (c, x) = (b, c', x')"
    with Inr registered_ok [OF c] register_keys [of c p] c show ?thesis
      by (simp add: load_persona_def Let_def split: if_splits) (metis controller_ok_bytes agent_controller.select_convs(1)
          agent_controller.update_convs(7) agent_controller.surjective)
  qed (use c in \<open>simp add: load_persona_def\<close>)
  show "load_ecc add env path (c, x) = (b, c', x') \<Longrightarrow>
     controller_ok c' \<and> fst ` set (ct_personas c) \<subseteq> fst ` set (ct_personas c')"
  proof (cases "load_from_md (ce_read env) path")
    case (Pair po ok)
    assume l: "load_ecc add env path (c, x) = (b, c', x')"
    show ?thesis
    proof (cases "\<exists>p. po = Some p \<and> ok")
      case True
      then obtain p where p: "load_from_md (ce_read env) path = (Some p, True)" using Pair by auto
      with l have "c' = register_persona p c" by (simp add: load_ecc_def)
      with registered_ok [OF c load_from_md_valid [OF p]] register_keys show ?thesis by simp
    next
      case False
      with l Pair c show ?thesis by (auto simp: load_ecc_def split: option.splits bool.splits)
    qed
  qed
qed

lemma status_update_ok:
  assumes "controller_ok c" and "map_of (ct_statuses c) k = Some u" and "as_name st = k"
  shows "controller_ok (c\<lparr>ct_statuses := sm_assign k st (ct_statuses c)\<rparr>)"
proof -
  have "sm_ok (ct_statuses c)" using assms(1) sm_ok_keys unfolding controller_ok_def by metis
  from sm_assign_keys_same [OF this assms(2)] show ?thesis
    using assms(1, 3) by (auto simp: controller_ok_def intro: list_all_sm_assign)
qed

lemma known_status:
  assumes "controller_ok c" and "k \<in> fst ` set (ct_personas c)"
  obtains st where "map_of (ct_statuses c) k = Some st" and "as_name st = k"
proof -
  from assms have "k \<in> fst ` set (ct_statuses c)"
    unfolding controller_ok_def by (metis list.set_map)
  then obtain st where st: "map_of (ct_statuses c) k = Some st"
    by (metis domD dom_map_of_conv_image_fst)
  moreover have "as_name st = k"
    using assms(1) map_of_SomeD [OF st] by (auto simp: controller_ok_def list_all_iff)
  ultimately show thesis by (rule that)
qed

lemma worker_step_ok:
  assumes ok: "controller_ok c" and known: "te_agent_name ` set (in_flight p) \<subseteq> fst ` set (ct_personas c)"
    and w: "worker_step add exec cb pick stamp r p (c, x) = (po, c', x')"
  shows "controller_ok c' \<and> ct_personas c' = ct_personas c"
proof (cases p)
  case (Taken e)
  then obtain st where "map_of (ct_statuses c) (te_agent_name e) = Some st" "as_name st = te_agent_name e"
    using known known_status [OF ok, of "te_agent_name e"] by auto
  with status_update_ok [OF ok] Taken w show ?thesis by (auto simp: mark_running_def)
next
  case (Executed e res)
  then obtain st where st: "map_of (ct_statuses c) (te_agent_name e) = Some st" "as_name st = te_agent_name e"
    using known known_status [OF ok, of "te_agent_name e"] by auto
  have "controller_ok (record_result stamp e res c)"
    unfolding record_result_def Let_def by (rule status_update_ok [OF ok st(1)]) (simp add: sm_get_or_def st)
  with Executed w show ?thesis by (auto simp: record_result_def Let_def)
next
  case Waiting
  have "controller_ok (c\<lparr>ct_queue := q\<rparr>)" for q using ok by (simp add: controller_ok_def)
  with Waiting w ok show ?thesis by (auto split: option.splits prod.splits)
qed (use w ok in \<open>auto split: option.splits prod.splits\<close>)

definition known_agents :: "'x swarm \<Rightarrow> bool" where
  "known_agents s = (te_agent_name ` set_mset (pending s) \<subseteq> fst ` set (ct_personas (sw_ctl s)))"

lemma live_step_ok:
  assumes ok: "controller_ok (sw_ctl s)" and known: "known_agents s" and live: "\<not> sw_dead s"
  shows "controller_ok (sw_ctl (live_step add env exec cb op s)) \<and> known_agents (live_step add env exec cb op s)"
proof -
  let ?t = "live_step add env exec cb op s"
  have c: "controller_ok (sw_ctl ?t) \<and> fst ` set (ct_personas (sw_ctl s)) \<subseteq> fst ` set (ct_personas (sw_ctl ?t))"
  proof (cases op)
    case (Load path)
    obtain b c x where "load_persona add env path (sw_ctl s, sw_world s) = (b, c, x)" by (metis prod_cases3)
    with load_ok(1) [OF ok this] Load live show ?thesis by (simp add: live_step_def)
  next
    case (Load_ecc path)
    obtain b c x where "load_ecc add env path (sw_ctl s, sw_world s) = (b, c, x)" by (metis prod_cases3)
    with load_ok(2) [OF ok this] Load_ecc live show ?thesis by (simp add: live_step_def)
  next
    case (Work i pick stamp r)
    show ?thesis
    proof (cases "i < length (sw_workers s)")
      case True
      then have "set (in_flight (sw_workers s ! i)) \<subseteq> set_mset (pending s)"
        by (auto simp: pending_def intro: nth_mem)
      with known have f: "te_agent_name ` set (in_flight (sw_workers s ! i)) \<subseteq> fst ` set (ct_personas (sw_ctl s))"
        unfolding known_agents_def by blast
      obtain po c x where w: "worker_step add exec cb pick stamp r (sw_workers s ! i) (sw_ctl s, sw_world s) = (po, c, x)"
        by (metis prod_cases3)
      from worker_step_ok [OF ok f w] w Work True live show ?thesis
        by (cases po) (simp_all add: live_step_def)
    qed (use Work live ok in \<open>simp add: live_step_def\<close>)
  qed (use ok live in \<open>simp_all add: live_step_def controller_ok_def start_swarm_def stop_swarm_def join_workers_def
      submit_task_def Let_def\<close>)
  have acc: "te_agent_name ` set (accepts op s) \<subseteq> fst ` set (ct_personas (sw_ctl s))"
    by (cases op) (auto simp: submit_entry_def map_of_eq_None_iff)
  have sub: "set_mset (pending ?t) \<subseteq> set_mset (pending s) \<union> set (accepts op s)"
  proof -
    have "set_mset (pending ?t) \<subseteq> set_mset (pending ?t + mset (finishes op s))" by simp
    also have "\<dots> = set_mset (pending s + mset (accepts op s))" by (simp only: live_step_pending [OF live])
    finally show ?thesis by simp
  qed
  from known have old: "te_agent_name ` set_mset (pending s) \<subseteq> fst ` set (ct_personas (sw_ctl s))"
    by (simp only: known_agents_def)
  have "te_agent_name ` set_mset (pending ?t) \<subseteq> te_agent_name ` (set_mset (pending s) \<union> set (accepts op s))"
    using sub by (rule image_mono)
  also have "\<dots> \<subseteq> fst ` set (ct_personas (sw_ctl s))"
    unfolding image_Un using old acc by (rule Un_least)
  also have "\<dots> \<subseteq> fst ` set (ct_personas (sw_ctl ?t))" using c by (rule conjunct2)
  finally have "known_agents ?t" by (simp only: known_agents_def)
  with c show ?thesis by (simp only: simp_thms)
qed

lemma run_ok:
  "controller_ok (sw_ctl s) \<Longrightarrow> known_agents s \<Longrightarrow>
   controller_ok (sw_ctl (swarm_run add env exec cb ops s)) \<and> known_agents (swarm_run add env exec cb ops s)"
proof (induction ops arbitrary: s)
  case (Cons op ops)
  then show ?case
  proof (cases "sw_dead s")
    case False
    then have "controller_ok (sw_ctl (live_step add env exec cb op s))" "known_agents (live_step add env exec cb op s)"
      using live_step_ok [OF Cons.prems] by blast+
    from Cons.IH [OF this] show ?thesis by (simp add: swarm_run_def)
  qed (simp add: swarm_run_def dead_stays)
qed (simp add: swarm_run_def)

section \<open>The swarm on the model client\<close>

lemma granite_responses:
  "generate add ge io m system user k t (g, w) = (r, g', w') \<Longrightarrow>
     r = None \<or> (\<exists>resp. r = Some resp \<and> \<not> gr_ok resp \<and> gr_text resp = [])"
  using generate_response [of add ge io m system user k t g w] by (auto simp: failed_response_def)

lemma execute_task_inert:
  "(case execute_task add env ge disp k c e x of (r, x') \<Rightarrow> xw_guarded x' = xw_guarded x \<and>
      (case r of None \<Rightarrow> True
       | Some res \<Rightarrow> \<not> tz_ok res \<and> \<not> tz_action_taken res \<and> tz_output res = [] \<and> tz_task_id res = te_task_id e))"
proof (cases "map_of (ct_personas c) (te_agent_name e)")
  case (Some p)
  obtain prompt cache where f: "full_prompt env p (xw_skill_cache x) = (prompt, cache)" by fastforce
  obtain r g w where gen: "generate add ge (xc_io k) (ap_preferred_model p) prompt (te_input e) (ap_max_tokens p)
      (ap_temperature p) (xw_granite x, xw_audit x) = (r, g, w)" by (metis prod_cases3)
  note unfold = execute_task_def Some f gen Let_def empty_result_def
  from granite_responses [OF gen] show ?thesis
  proof
    assume "r = None"
    then show ?thesis by (simp add: unfold)
  next
    assume "\<exists>resp. r = Some resp \<and> \<not> gr_ok resp \<and> gr_text resp = []"
    then obtain resp where "r = Some resp" "\<not> gr_ok resp" "gr_text resp = []" by blast
    then show ?thesis by (cases disp) (simp_all add: unfold)
  qed
qed (simp add: execute_task_def empty_result_def)

text \<open>The audit adder of the controller writes to the audit part of the world.\<close>

definition lift_audit :: "'w audit_adder \<Rightarrow> ('f, 'w) exec_world audit_adder" where
  "lift_audit add t p x = (let (eid, w) = add t p (xw_audit x) in (eid, x\<lparr>xw_audit := w\<rparr>))"

lemma guarded_lift [simp]: "xw_guarded (emit (lift_audit add) t p x) = xw_guarded x"
  by (simp add: emit_def lift_audit_def case_prod_beta Let_def)

fun failed_phase :: "worker \<Rightarrow> bool" where
  "failed_phase (Executed e r) = (\<not> tz_ok r)"
| "failed_phase (Recorded e r) = (\<not> tz_ok r)"
| "failed_phase (Notified e r) = (\<not> tz_ok r)"
| "failed_phase p = True"

definition none_completed :: "agent_controller \<Rightarrow> bool" where
  "none_completed c = list_all (\<lambda>st. as_tasks_completed (snd st) = 0) (ct_statuses c)"

definition inert :: "'f guarded \<Rightarrow> ('f, 'w) exec_world swarm \<Rightarrow> bool" where
  "inert g s = (xw_guarded (sw_world s) = g \<and> none_completed (sw_ctl s) \<and> list_all failed_phase (sw_workers s))"

lemma none_completed_assign:
  "none_completed c \<Longrightarrow> as_tasks_completed st = 0 \<Longrightarrow> none_completed (c\<lparr>ct_statuses := sm_assign k st (ct_statuses c)\<rparr>)"
  by (simp add: none_completed_def list_all_sm_assign)

lemma none_completed_get:
  "none_completed c \<Longrightarrow> as_tasks_completed (sm_get_or default_status k (ct_statuses c)) = 0"
  using map_of_SomeD [of "ct_statuses c" k]
  by (fastforce simp: none_completed_def sm_get_or_def default_status_def list_all_iff split: option.split)

lemma none_completed_register: "none_completed c \<Longrightarrow> none_completed (register_persona p c)"
  by (simp add: none_completed_def register_persona_def list_all_sm_assign idle_status_def)

lemma none_completed_load:
  assumes "none_completed c"
  shows "load_persona (lift_audit add) env path (c, x) = (b, c', x') \<Longrightarrow> none_completed c' \<and> xw_guarded x' = xw_guarded x"
    and "load_ecc (lift_audit add) env path (c, x) = (b, c', x') \<Longrightarrow> none_completed c' \<and> xw_guarded x' = xw_guarded x"
proof -
  have bytes: "none_completed (d\<lparr>ct_cached_personas_bytes := n\<rparr>) = none_completed d" for d n
    by (simp add: none_completed_def)
  show "load_persona (lift_audit add) env path (c, x) = (b, c', x') \<Longrightarrow> none_completed c' \<and> xw_guarded x' = xw_guarded x"
    using assms none_completed_register [OF assms]
    by (auto simp: load_persona_def Let_def bytes split: sum.splits if_splits)
  show "load_ecc (lift_audit add) env path (c, x) = (b, c', x') \<Longrightarrow> none_completed c' \<and> xw_guarded x' = xw_guarded x"
    using assms none_completed_register [OF assms]
    by (cases "load_from_md (ce_read env) path") (auto simp: load_ecc_def split: option.splits bool.splits)
qed

lemma worker_step_inert:
  assumes "none_completed c" and "failed_phase p"
    and "worker_step (lift_audit add) (execute_task add env ge disp) (\<lambda>_ x. x) pick stamp r p (c, x) = (po, c', x')"
  shows "none_completed c' \<and> xw_guarded x' = xw_guarded x \<and> (case po of None \<Rightarrow> True | Some p' \<Rightarrow> failed_phase p')"
proof (cases p)
  case (Marked e)
  obtain ro x1 where e: "execute_task add env ge disp r c e x = (ro, x1)" by fastforce
  from execute_task_inert [where add = add and env = env and ge = ge and disp = disp and k = r and c = c and e = e and x = x] e Marked assms show ?thesis
    by (auto split: option.splits)
next
  case (Taken e)
  from none_completed_get [OF assms(1), of "te_agent_name e"] Taken assms show ?thesis
    by (auto simp: mark_running_def sm_get_or_def none_completed_assign split: option.splits)
next
  case (Executed e res)
  with assms have "c' = record_result stamp e res c" "\<not> tz_ok res" "x' = x" "po = Some (Recorded e res)" by simp_all
  with none_completed_get [OF assms(1)] assms(1) show ?thesis
    by (simp add: record_result_def Let_def none_completed_assign)
next
  case Waiting
  have "none_completed (c\<lparr>ct_queue := q\<rparr>)" for q using assms(1) by (simp add: none_completed_def)
  with Waiting assms show ?thesis by (auto split: option.splits prod.splits)
qed (use assms in auto)

lemma live_step_inert:
  assumes i: "inert g s" and live: "\<not> sw_dead s"
  shows "inert g (live_step (lift_audit add) env (execute_task add env ge disp) (\<lambda>_ x. x) op s)"
proof (cases op)
  case (Load path)
  obtain b c x where l: "load_persona (lift_audit add) env path (sw_ctl s, sw_world s) = (b, c, x)" by (metis prod_cases3)
  with none_completed_load(1) [OF _ l] i Load live show ?thesis by (simp add: live_step_def inert_def)
next
  case (Load_ecc path)
  obtain b c x where l: "load_ecc (lift_audit add) env path (sw_ctl s, sw_world s) = (b, c, x)" by (metis prod_cases3)
  with none_completed_load(2) [OF _ l] i Load_ecc live show ?thesis by (simp add: live_step_def inert_def)
next
  case (Work j pick stamp r)
  show ?thesis
  proof (cases "j < length (sw_workers s)")
    case True
    obtain po c x where w: "worker_step (lift_audit add) (execute_task add env ge disp) (\<lambda>_ x. x) pick stamp r
        (sw_workers s ! j) (sw_ctl s, sw_world s) = (po, c, x)" by (metis prod_cases3)
    have "failed_phase (sw_workers s ! j)" using i True by (simp add: inert_def list_all_iff)
    with i have "none_completed c \<and> xw_guarded x = g \<and> (case po of None \<Rightarrow> True | Some p' \<Rightarrow> failed_phase p')"
      using worker_step_inert [OF _ _ w] by (simp add: inert_def)
    moreover have "list_all failed_phase ((sw_workers s)[j := p])" if "failed_phase p" for p
      using i that set_update_subset_insert [of "sw_workers s" j p] by (auto simp: inert_def list_all_iff)
    ultimately show ?thesis using w Work True live i
      by (cases po) (simp_all add: live_step_def inert_def)
  qed (use Work live i in \<open>simp add: live_step_def\<close>)
qed (use i live in \<open>auto simp: live_step_def inert_def none_completed_def start_swarm_def stop_swarm_def join_workers_def
    submit_task_def Let_def list_all_iff\<close>)

section \<open>After a stop\<close>

definition is_waiting :: "worker \<Rightarrow> nat" where
  "is_waiting p = (if p = Waiting then 1 else 0)"

lemma worker_step_stopped:
  assumes "worker_step add exec cb pick stamp r p (c, x) = (po, c', x')" and "\<not> ct_running c"
  shows "\<not> ct_running c' \<and> length (ct_queue c) + is_waiting (case po of None \<Rightarrow> p | Some p' \<Rightarrow> p') \<le> length (ct_queue c') + is_waiting p"
proof (cases p)
  case Waiting
  show ?thesis
  proof (cases "pop_task pick (ct_queue c)")
    case (Some eq)
    then obtain e q where eq: "pop_task pick (ct_queue c) = Some (e, q)" by (cases eq) simp
    with assms Waiting pop_task_length [OF eq] show ?thesis by (auto simp: is_waiting_def)
  qed (use assms Waiting in \<open>auto simp: is_waiting_def\<close>)
qed (use assms in \<open>auto simp: is_waiting_def split: option.splits prod.splits\<close>)

lemma stopped_step:
  assumes "\<not> ct_running (sw_ctl s)" and "op = Work i pick stamp r" and "t = live_step add env exec cb op s"
  shows "\<not> ct_running (sw_ctl t) \<and> length (ct_queue (sw_ctl s)) + sum_list (map is_waiting (sw_workers t))
    \<le> length (ct_queue (sw_ctl t)) + sum_list (map is_waiting (sw_workers s))"
proof (cases "sw_dead s \<or> length (sw_workers s) \<le> i")
  case False
  let ?p = "sw_workers s ! i"
  obtain po c x where w: "worker_step add exec cb pick stamp r ?p (sw_ctl s, sw_world s) = (po, c, x)" by (metis prod_cases3)
  note b = worker_step_stopped [OF w assms(1)]
  show ?thesis
  proof (cases po)
    case None
    with w b False assms show ?thesis by (simp add: live_step_def)
  next
    case (Some p)
    have "sum_list (map is_waiting ((sw_workers s)[i := p])) + is_waiting ?p = sum_list (map is_waiting (sw_workers s)) + is_waiting p"
      by (rule sum_list_update_nat) (use False in simp)
    with w b False assms Some show ?thesis by (simp add: live_step_def)
  qed
qed (use assms in \<open>auto simp: live_step_def\<close>)

lemma stopped_run:
  "\<not> ct_running (sw_ctl s) \<Longrightarrow> list_all is_work ops \<Longrightarrow>
   length (ct_queue (sw_ctl s)) \<le> length (ct_queue (sw_ctl (swarm_run add env exec cb ops s))) + sum_list (map is_waiting (sw_workers s))"
proof -
  have "length (ct_queue (sw_ctl s)) + sum_list (map is_waiting (sw_workers (swarm_run add env exec cb ops s)))
     \<le> length (ct_queue (sw_ctl (swarm_run add env exec cb ops s))) + sum_list (map is_waiting (sw_workers s))"
    if "\<not> ct_running (sw_ctl s)" "list_all is_work ops"
    using that
  proof (induction ops arbitrary: s)
    case (Cons op ops)
    then obtain i pick stamp r where op: "op = Work i pick stamp r" by (cases op) auto
    from stopped_step [OF Cons.prems(1) op refl, of add env exec cb] Cons.IH [of "live_step add env exec cb op s"] Cons.prems(2)
    show ?case by (simp add: swarm_run_def)
  qed (simp add: swarm_run_def)
  then show "\<not> ct_running (sw_ctl s) \<Longrightarrow> list_all is_work ops \<Longrightarrow> ?thesis" by fastforce
qed

lemma waiting_count: "sum_list (map is_waiting ws) = length (filter (\<lambda>p. p = Waiting) ws)"
  by (induction ws) (simp_all add: is_waiting_def)

section \<open>Properties\<close>

text \<open>A schedule of worker steps only.\<close>

definition work_ops :: "(nat \<times> nat \<times> string \<times> 'r) list \<Rightarrow> 'r swarm_op list" where
  "work_ops ws = map (\<lambda>(i, pick, stamp, r). Work i pick stamp r) ws"

lemma work_ops_work: "list_all is_work (work_ops ws)"
  by (auto simp: work_ops_def list_all_iff)

lemma steps_of_work_ops: "steps_of i (work_ops ws) = length (filter (\<lambda>w. fst w = i) ws)"
  by (induction ws) (auto simp: work_ops_def)

text \<open>C20. No task is lost or duplicated: over any loads, submissions, starts, stops, joins and worker steps in any
  order, the accepted tasks are, as a multiset, those finished and those queued or in the hands of a worker, and
  the accepted tasks are numbered consecutively.\<close>

theorem tasks_conserved:
  "(let accepted = along_run add env exec cb accepts ops (new_swarm n x);
        finished = along_run add env exec cb finishes ops (new_swarm n x);
        s = swarm_run add env exec cb ops (new_swarm n x)
    in mset accepted = mset finished + mset (ct_queue (sw_ctl s)) + mset (concat (map in_flight (sw_workers s)))
       \<and> map te_task_id accepted = map (\<lambda>k. ''task_'' @ str_of_u64 (1 + of_nat k)) [0..<length accepted])"
proof -
  have none: "pending (new_swarm n x) = {#}" by (simp add: pending_def new_swarm_def new_agent_controller_def)
  have first: "ct_next_task_id (sw_ctl (new_swarm n x)) = 1" by (simp add: new_swarm_def new_agent_controller_def)
  have "mset (along_run add env exec cb accepts ops (new_swarm n x)) =
      mset (along_run add env exec cb finishes ops (new_swarm n x)) + pending (swarm_run add env exec cb ops (new_swarm n x))"
    using run_pending [where add = add and env = env and exec = exec and cb = cb and ops = ops and s = "new_swarm n x"]
    unfolding none by (simp add: union_commute)
  then show ?thesis
    unfolding Let_def pending_def union_assoc
    using along_run_ids [where add = add and env = env and exec = exec and cb = cb and ops = ops and s = "new_swarm n x"]
    unfolding first by (rule conjI)
qed

text \<open>C10. The queue serves by priority. Over any operations, submissions included, whenever a worker takes a task no task
  in the queue is more urgent, high before normal before low. Over any steps of the workers alone, the tasks they
  take together with those left are the queue, all high tasks are taken before all normal ones and those before all
  low ones, and no task left is more urgent than one taken.\<close>

theorem queue_serves_by_priority:
  "list_all (\<lambda>(e, q). e \<in> set q \<and> none_more_urgent q e) (along_run add env exec cb (taking add env exec cb) ops s)
   \<and> (let taken = map fst (along_run add env exec cb (taking add env exec cb) (work_ops ws) s);
          left = ct_queue (sw_ctl (swarm_run add env exec cb (work_ops ws) s))
      in mset (ct_queue (sw_ctl s)) = mset taken + mset left
         \<and> taken = of_priority PRIO_HIGH taken @ of_priority PRIO_NORMAL taken @ of_priority PRIO_LOW taken
         \<and> list_all (none_more_urgent left) taken)"
proof -
  let ?taken = "map fst (along_run add env exec cb (taking add env exec cb) (work_ops ws) s)"
    and ?left = "ct_queue (sw_ctl (swarm_run add env exec cb (work_ops ws) s))"
  obtain picks where d: "drain pop_task picks (ct_queue (sw_ctl s)) = (?taken, ?left)"
    using work_drains [OF work_ops_work] by blast
  have "list_all (none_more_urgent ?left) ?taken"
    using task_queue.drain_least [OF d] unfolding list_all_iff Ball_def none_more_urgent_value comp_apply set_mset_mset by blast
  with taking_urgent task_queue.drain_contents [OF d] sorted_by_priority [OF task_queue.drain_sorted [OF d]]
  show ?thesis unfolding Let_def by blast
qed

text \<open>When running a task throws, what could not be printed is the request made from the task and its persona.\<close>

lemma execute_task_throws:
  assumes "fst (execute_task add env ge disp k c e x) = None"
  shows "\<exists>p system. map_of (ct_personas c) (te_agent_name e) = Some p \<and>
    ge_dump ge (chat_body (model_tag (ap_preferred_model p)) system (te_input e) (ap_max_tokens p) (ap_temperature p)) = None"
proof (cases "map_of (ct_personas c) (te_agent_name e)")
  case None
  with assms show ?thesis by (simp add: execute_task_def)
next
  case (Some p)
  obtain prompt cache where f: "full_prompt env p (xw_skill_cache x) = (prompt, cache)" by fastforce
  obtain r g w where gen: "generate add ge (xc_io k) (ap_preferred_model p) prompt (te_input e) (ap_max_tokens p)
      (ap_temperature p) (xw_granite x, xw_audit x) = (r, g, w)" by (metis prod_cases3)
  have "r = None" using assms by (auto simp: execute_task_def Some f gen Let_def split: option.splits prod.splits)
  with gen have "ge_dump ge (chat_body (model_tag (ap_preferred_model p))
      (if ap_preferred_model p = ORCHESTRATOR then ORCHESTRATOR_PROMPT_PREFIX @ prompt else prompt)
      (te_input e) (ap_max_tokens p) (ap_temperature p)) = None"
    by (auto simp: generate_cases Let_def call_ollama_api_def split: option.splits if_splits)
  with Some show ?thesis by blast
qed

text \<open>C5. Progress under a fair scheduler, for the swarm that runs tasks on the model client: while it runs and no task
  is submitted, a worker that is given enough steps ends up waiting on an empty queue, whatever the other workers
  do; seven steps per queued task and per busy worker are enough. The one way this can fail is a task that throws,
  which ends the process: then a worker was running a task whose request, made from its input, its persona and the
  prompt, could not be printed as JSON.\<close>

theorem swarm_drains_queue:
  assumes "alive i s" and "work_left s \<le> length (filter (\<lambda>w. fst w = i) ws)"
  shows "let s' = swarm_run (lift_audit add) env (execute_task add env ge disp) cb (work_ops ws) s in
    if sw_dead s'
    then \<exists>e p system. Marked e \<in> set (sw_workers s') \<and> map_of (ct_personas (sw_ctl s')) (te_agent_name e) = Some p \<and>
      ge_dump ge (chat_body (model_tag (ap_preferred_model p)) system (te_input e) (ap_max_tokens p) (ap_temperature p)) = None
    else ct_queue (sw_ctl s') = [] \<and> sw_workers s' ! i = Waiting"
proof -
  let ?exec = "execute_task add env ge disp"
  let ?s = "swarm_run (lift_audit add) env ?exec cb (work_ops ws) s"
  have "settled i s \<or> work_left s \<le> steps_of i (work_ops ws)" using assms(2) by (simp add: steps_of_work_ops)
  from run_settles [OF assms(1) work_ops_work this] consider "task_threw ?exec ?s" | "\<not> sw_dead ?s" "settled i ?s"
    by blast
  then show ?thesis
  proof cases
    case 1
    then obtain e r x where "sw_dead ?s" "Marked e \<in> set (sw_workers ?s)" "fst (?exec r (sw_ctl ?s) e x) = None"
      unfolding task_threw_def by blast
    with execute_task_throws show ?thesis unfolding Let_def by (simp only: if_True) blast
  next
    case 2
    then show ?thesis by (simp only: Let_def settled_def if_False simp_thms)
  qed
qed

definition demo_controller_env :: controller_env where
  "demo_controller_env = \<lparr>ce_exists = (\<lambda>_. False), ce_read = (\<lambda>_. None), ce_list = (\<lambda>_. []), ce_stream = (\<lambda>_. Inl []),
     ce_parse = (\<lambda>_. None), ce_search_dirs = [], ce_sizeof_persona = 0, ce_sizeof_task = 0, ce_sizeof_status = 0\<rparr>"

definition demo_entry :: "task_priority \<Rightarrow> task_entry" where
  "demo_entry prio = \<lparr>te_task_id = ''task_1'', te_agent_name = ''threat_hunter'', te_input = [], te_priority = prio,
     te_enqueued_at_ms = 0\<rparr>"

definition demo_persona :: agent_persona where
  "demo_persona = \<lparr>ap_name = ''threat_hunter'', ap_description = ''hunts'', ap_category = ''soc'', ap_preferred_model = FAST,
     ap_system_prompt = ''look'', ap_skills = [], ap_max_tokens = 512, ap_temperature = 0, ap_input_schema = [],
     ap_output_schema = []\<rparr>"

definition demo_granite_env :: granite_env where
  "demo_granite_env = \<lparr>ge_dump = (\<lambda>_. Some ''{}''), ge_parse = (\<lambda>_. None), ge_host = ''127.0.0.1'', ge_port = 11434\<rparr>"

definition demo_exec_call :: exec_call where
  "demo_exec_call = \<lparr>xc_now = 0,
     xc_io = \<lparr>io_resolved = True, io_socket = True, io_selected = True, io_connected = True, io_sends = [], io_recvs = []\<rparr>,
     xc_dispatch = \<lparr>dl_stem_now = 0, dl_now = 0, dl_quarantine = \<lparr>qc_rand_a = 0, qc_rand_b = 0, qc_now = 0, qc_junk = 0,
       qc_os = open_os\<rparr>, dl_serve_now = 0\<rparr>\<rparr>"

definition demo_swarm :: "(unit, unit) exec_world swarm" where
  "demo_swarm = \<lparr>sw_ctl = (register_persona demo_persona (new_agent_controller 1))\<lparr>ct_running := True,
       ct_queue := [demo_entry PRIO_LOW, demo_entry PRIO_HIGH]\<rparr>,
     sw_workers = [Head],
     sw_world = \<lparr>xw_skill_cache = [], xw_tasks_since_mem_log = 0, xw_granite = new_granite_client,
       xw_guarded = \<lparr>gd_fw = \<lparr>fb_default_ttl_s = 900, fb_blocks = [], fb_allowlist = []\<rparr>, gd_os = (),
         gd_qtn = new_quarantine ''q'', gd_files = (\<lambda>_. None), gd_ar = new_active_response\<rparr>,
       xw_audit = ()\<rparr>,
     sw_dead = False\<rparr>"

theorem swarm_drains_queue_witness:
  "(let s' = swarm_run (lift_audit (\<lambda>_ _ w. ([], w))) demo_controller_env
      (execute_task (\<lambda>_ _ w. ([], w)) demo_controller_env demo_granite_env None) (\<lambda>_ x. x)
      (work_ops (replicate 15 (0, 0, [], demo_exec_call))) demo_swarm
    in \<not> sw_dead s' \<and> ct_queue (sw_ctl s') = [] \<and> sw_workers s' ! 0 = Waiting)"
proof -
  have "alive 0 demo_swarm" and "work_left demo_swarm \<le> length (filter (\<lambda>w. fst w = 0) (replicate 15 (0 :: nat, 0 :: nat, [] :: string, demo_exec_call)))"
    by (simp_all add: alive_def demo_swarm_def new_agent_controller_def register_persona_def work_left_def)
  from swarm_drains_queue [OF this, where add = "\<lambda>_ _ w. ([], w)" and env = demo_controller_env and ge = demo_granite_env
      and disp = None and cb = "\<lambda>_ x. x"]
  show ?thesis by (simp add: Let_def demo_granite_env_def split: if_splits)
qed

text \<open>A stop abandons the queue: after it, whatever the workers do, each worker that was waiting takes at most one
  more task, so all others stay queued and are never run.\<close>

theorem stop_abandons_queue:
  "length (ct_queue (sw_ctl s)) \<le>
     length (ct_queue (sw_ctl (swarm_run add env exec cb (work_ops ws) (stop_swarm s))))
     + length (filter (\<lambda>p. p = Waiting) (sw_workers s))"
  using stopped_run [OF _ work_ops_work [of ws], where s = "stop_swarm s" and add = add and env = env and exec = exec and cb = cb]
  by (simp add: stop_swarm_def waiting_count)

text \<open>C21. The controller is well formed after any operations: every persona is valid and stored under its name, every
  persona has exactly one status record, under the same name, and every queued or running task belongs to a known
  persona.\<close>

theorem controller_well_formed:
  "controller_ok (sw_ctl (swarm_run add env exec cb ops (new_swarm n x)))
   \<and> known_agents (swarm_run add env exec cb ops (new_swarm n x))"
  by (rule run_ok) (simp_all add: new_swarm_def new_agent_controller_def controller_ok_def known_agents_def pending_def)

text \<open>With the model client of the source the swarm never acts: over any operations, whatever the server
  answers, no agent ever completes a task and the firewall, quarantine and responder are untouched.\<close>

theorem swarm_never_acts:
  "(let s = swarm_run (lift_audit add) env (execute_task add env ge disp) (\<lambda>_ y. y) ops (new_swarm n x)
    in xw_guarded (sw_world s) = xw_guarded x
       \<and> list_all (\<lambda>st. as_tasks_completed st = 0) (get_statuses (sw_ctl s)))"
proof -
  have "inert g (swarm_run (lift_audit add) env (execute_task add env ge disp) (\<lambda>_ y. y) ops s)" if "inert g s" for g s
    using that
  proof (induction ops arbitrary: s)
    case (Cons op ops)
    then show ?case
      using live_step_inert [OF Cons.prems, of add env ge disp op] by (cases "sw_dead s") (simp_all add: swarm_run_def dead_stays)
  qed (simp add: swarm_run_def)
  moreover have "inert (xw_guarded x) (new_swarm n x)"
    by (simp add: inert_def new_swarm_def new_agent_controller_def none_completed_def)
  ultimately have "inert (xw_guarded x) (swarm_run (lift_audit add) env (execute_task add env ge disp) (\<lambda>_ y. y) ops (new_swarm n x))"
    by blast
  then show ?thesis by (simp add: inert_def none_completed_def get_statuses_def sm_values_def list_all_iff)
qed

end
