(* ===== verification/AiTriage.thy ===== *)
theory AiTriage
  imports RuleEngine GraniteClient
begin

text \<open>
  \<^verbatim>\<open>core/ai_triage\<close>: a security event is classified by a fast and, when needed, a heavy language model, and
  the suggested severity is turned into a score for the rule engine. The socket is a script, as for the model
  client; a call may throw when the prompt is not valid UTF-8, and \<open>triage\<close> is then \<open>None\<close>.
\<close>

section \<open>Model\<close>

definition FAST_MODEL :: string where
  "FAST_MODEL = ''granite3.1-moe:3b''"

definition HEAVY_MODEL :: string where
  "HEAVY_MODEL = ''granite3.1-dense:8b''"

definition ESCALATE_CONFIDENCE_THRESHOLD :: real where
  "ESCALATE_CONFIDENCE_THRESHOLD = 7 / 10"

record triage_input =
  ti_event_type :: string
  ti_source :: string
  ti_score :: int
  ti_raw_detail :: string

record fast_result =
  fr_route :: string
  fr_severity_hint :: string
  fr_confidence :: real
  fr_model_used :: string
  fr_timed_out :: bool
  fr_parse_ok :: bool

record heavy_result =
  hr_severity :: string
  hr_rationale :: string
  hr_mitre_technique :: string
  hr_model_used :: string
  hr_timed_out :: bool
  hr_parse_ok :: bool

record triage_result =
  tg_input :: triage_input
  tg_fast :: fast_result
  tg_heavy :: "heavy_result option"
  tg_model_suggested_tier :: threat_tier
  tg_final_tier :: threat_tier
  tg_rule_engine_overrode :: bool
  tg_audit_entry_id :: string

subsection \<open>The request\<close>

fun send_plain :: "int \<Rightarrow> int list \<Rightarrow> bool" where
  "send_plain remaining script =
     (if remaining \<le> 0 then True
      else (case script of
              [] \<Rightarrow> False
            | sent # rest \<Rightarrow> if sent \<le> 0 then False else send_plain (remaining - sent) rest))"

text \<open>\<^verbatim>\<open>response += buf\<close> appends up to the first NUL of a chunk.\<close>

fun recv_text :: "string list \<Rightarrow> string" where
  "recv_text [] = []"
| "recv_text (chunk # rest) = (if chunk = [] then [] else c_string chunk @ recv_text rest)"

definition generate_body :: "string \<Rightarrow> string \<Rightarrow> json" where
  "generate_body model prompt =
     JObject [(''model'', JString model), (''options'', JObject [(''num_predict'', JInt 128)]),
       (''prompt'', JString prompt), (''stream'', JBool False)]"

definition call_ollama :: "granite_env \<Rightarrow> ollama_io \<Rightarrow> string \<Rightarrow> string \<Rightarrow> string option" where
  "call_ollama g io model prompt =
     (case ge_dump g (generate_body model prompt) of
        None \<Rightarrow> None
      | Some body \<Rightarrow> Some
          (if \<not> io_resolved io \<or> \<not> io_socket io \<or> \<not> io_selected io \<or> \<not> io_connected io then []
           else if \<not> send_plain (int (length (http_request ''/api/generate'' (ge_host g) (ge_port g) body)))
                      (map snd (io_sends io)) then []
           else http_body (recv_text (map snd (io_recvs io)))))"

subsection \<open>Parsing the replies\<close>

definition extract_response :: "(string \<Rightarrow> json option) \<Rightarrow> string \<Rightarrow> string" where
  "extract_response parse raw =
     (case parse raw of
        None \<Rightarrow> []
      | Some j \<Rightarrow> (case json_value get_string ''response'' [] j of Inl _ \<Rightarrow> [] | Inr s \<Rightarrow> s))"

text \<open>From the first opening to the last closing brace; the length wraps when they are the other way round.\<close>

definition brace_span :: "string \<Rightarrow> string option" where
  "brace_span s =
     (case (find_sub ''{'' s, rfind_char (CHR ''}'') s) of
        (Some i, Some j) \<Rightarrow> Some (if i \<le> j + 1 then take (j + 1 - i) (drop i s) else drop i s)
      | _ \<Rightarrow> None)"

definition parse_fast :: "(string \<Rightarrow> json option) \<Rightarrow> string \<Rightarrow> string \<Rightarrow> bool \<Rightarrow> fast_result" where
  "parse_fast parse text model timed_out =
     (let r = \<lparr>fr_route = ''handle'', fr_severity_hint = ''LOW'', fr_confidence = 0, fr_model_used = model,
                fr_timed_out = timed_out, fr_parse_ok = False\<rparr> in
      if timed_out \<or> text = [] then
        r\<lparr>fr_model_used := (if timed_out then ''fallback_timeout'' else ''fallback_unavailable'')\<rparr>
      else (case brace_span text of
              None \<Rightarrow> r
            | Some body \<Rightarrow>
                (case parse body of
                   None \<Rightarrow> r
                 | Some j \<Rightarrow>
                     (case json_value get_string ''route'' ''handle'' j of
                        Inl _ \<Rightarrow> r
                      | Inr route \<Rightarrow>
                          let r1 = r\<lparr>fr_route := route\<rparr> in
                          (case json_value get_string ''severity_hint'' ''LOW'' j of
                             Inl _ \<Rightarrow> r1
                           | Inr hint \<Rightarrow>
                               let r2 = r1\<lparr>fr_severity_hint := hint\<rparr> in
                               (case json_value get_double ''confidence'' (1 / 2) j of
                                  Inl _ \<Rightarrow> r2
                                | Inr conf \<Rightarrow> r2\<lparr>fr_confidence := conf, fr_parse_ok := True\<rparr>))))))"

definition parse_heavy :: "(string \<Rightarrow> json option) \<Rightarrow> string \<Rightarrow> string \<Rightarrow> bool \<Rightarrow> heavy_result" where
  "parse_heavy parse text model timed_out =
     (let r = \<lparr>hr_severity = ''LOW'', hr_rationale = [], hr_mitre_technique = [], hr_model_used = model,
                hr_timed_out = timed_out, hr_parse_ok = False\<rparr> in
      if timed_out \<or> text = [] then
        r\<lparr>hr_model_used := (if timed_out then ''fallback_timeout'' else ''fallback_unavailable'')\<rparr>
      else (case brace_span text of
              None \<Rightarrow> r
            | Some body \<Rightarrow>
                (case parse body of
                   None \<Rightarrow> r
                 | Some j \<Rightarrow>
                     (case json_value get_string ''severity'' ''LOW'' j of
                        Inl _ \<Rightarrow> r
                      | Inr severity \<Rightarrow>
                          let r1 = r\<lparr>hr_severity := severity\<rparr> in
                          (case json_value get_string ''rationale'' [] j of
                             Inl _ \<Rightarrow> r1
                           | Inr rationale \<Rightarrow>
                               let r2 = r1\<lparr>hr_rationale := rationale\<rparr> in
                               (case json_value get_string ''mitre_technique'' [] j of
                                  Inl _ \<Rightarrow> r2
                                | Inr mitre \<Rightarrow> r2\<lparr>hr_mitre_technique := mitre, hr_parse_ok := True\<rparr>))))))"

definition severity_to_tier :: "string \<Rightarrow> threat_tier" where
  "severity_to_tier s =
     (if s = ''CRITICAL'' then CRITICAL else if s = ''HIGH'' then HIGH else if s = ''MEDIUM'' then MEDIUM else LOW)"

fun tier_to_score :: "threat_tier \<Rightarrow> int" where
  "tier_to_score CRITICAL = 90"
| "tier_to_score HIGH = 76"
| "tier_to_score MEDIUM = 50"
| "tier_to_score LOW = 10"

subsection \<open>Prompts\<close>

definition event_text :: "triage_input \<Rightarrow> string" where
  "event_text inp = ''Event: type='' @ ti_event_type inp @ '' source='' @ ti_source inp @ '' score='' @ str_of_int (ti_score inp)
     @ '' detail='' @ take 200 (ti_raw_detail inp)"

definition quoted_key :: "string \<Rightarrow> string \<Rightarrow> string" where
  "quoted_key k v = dquote @ k @ dquote @ '':'' @ v"

definition fast_prompt :: "triage_input \<Rightarrow> string" where
  "fast_prompt inp = ''You are a security triage classifier. ''
     @ ''Reply ONLY with a single valid JSON object, no other text. ''
     @ ''Schema: {'' @ quoted_key ''route'' (dquote @ ''handle|escalate|ignore'' @ dquote) @ '',''
     @ quoted_key ''severity_hint'' (dquote @ ''LOW|MEDIUM|HIGH|CRITICAL'' @ dquote) @ '',''
     @ quoted_key ''confidence'' ''0.0-1.0}'' @ nl @ event_text inp"

definition heavy_prompt :: "triage_input \<Rightarrow> fast_result \<Rightarrow> string" where
  "heavy_prompt inp fast = ''You are a senior security analyst. ''
     @ ''Reply ONLY with a single valid JSON object, no other text. ''
     @ ''Schema: {'' @ quoted_key ''severity'' (dquote @ ''LOW|MEDIUM|HIGH|CRITICAL'' @ dquote) @ '',''
     @ quoted_key ''rationale'' (dquote @ ''one sentence'' @ dquote) @ '',''
     @ quoted_key ''mitre_technique'' (dquote @ ''Txxxx or empty'' @ dquote) @ ''}'' @ nl @ event_text inp
     @ nl @ ''Fast-tier hint: severity='' @ fr_severity_hint fast @ '' confidence='' @ fmt_general (fr_confidence fast)"

subsection \<open>Triage\<close>

definition run_fast :: "granite_env \<Rightarrow> ollama_io \<Rightarrow> triage_input \<Rightarrow> fast_result option" where
  "run_fast g io inp =
     map_option (\<lambda>raw. parse_fast (ge_parse g) (extract_response (ge_parse g) raw) FAST_MODEL (raw = []))
       (call_ollama g io FAST_MODEL (fast_prompt inp))"

definition run_heavy :: "granite_env \<Rightarrow> ollama_io \<Rightarrow> triage_input \<Rightarrow> fast_result \<Rightarrow> heavy_result option" where
  "run_heavy g io inp fast =
     map_option (\<lambda>raw. parse_heavy (ge_parse g) (extract_response (ge_parse g) raw) HEAVY_MODEL (raw = []))
       (call_ollama g io HEAVY_MODEL (heavy_prompt inp fast))"

definition call_heavy :: "fast_result \<Rightarrow> bool" where
  "call_heavy fast = (fr_route fast = ''escalate'' \<or> fr_confidence fast < ESCALATE_CONFIDENCE_THRESHOLD
     \<or> \<not> fr_parse_ok fast)"

text \<open>Both tiers: \<open>None\<close> when a request throws.\<close>

definition consult :: "granite_env \<Rightarrow> ollama_io \<Rightarrow> ollama_io \<Rightarrow> triage_input \<Rightarrow> (fast_result \<times> heavy_result option) option" where
  "consult g io1 io2 inp =
     (case run_fast g io1 inp of
        None \<Rightarrow> None
      | Some fast \<Rightarrow>
          if call_heavy fast then
            (case run_heavy g io2 inp fast of None \<Rightarrow> None | Some heavy \<Rightarrow> Some (fast, Some heavy))
          else Some (fast, None))"

definition heavy_ok :: "heavy_result option \<Rightarrow> bool" where
  "heavy_ok heavy = (case heavy of Some h \<Rightarrow> hr_parse_ok h | None \<Rightarrow> False)"

definition model_severity :: "fast_result \<Rightarrow> heavy_result option \<Rightarrow> string" where
  "model_severity fast heavy =
     (case heavy of
        Some h \<Rightarrow> if hr_parse_ok h then hr_severity h else fr_severity_hint fast
      | None \<Rightarrow> fr_severity_hint fast)"

definition model_usable :: "fast_result \<Rightarrow> heavy_result option \<Rightarrow> bool" where
  "model_usable fast heavy = (fr_parse_ok fast \<or> heavy_ok heavy)"

definition score_for_rule_engine :: "int \<Rightarrow> fast_result \<Rightarrow> heavy_result option \<Rightarrow> int" where
  "score_for_rule_engine score fast heavy =
     (let advisory = tier_to_score (severity_to_tier (model_severity fast heavy)) in
      if \<not> model_usable fast heavy \<or> score > advisory then score else advisory)"

definition triage_payload :: "triage_result \<Rightarrow> string" where
  "triage_payload r = ''event_type='' @ ti_event_type (tg_input r) @ '' score='' @ str_of_int (ti_score (tg_input r))
     @ '' fast_route='' @ fr_route (tg_fast r) @ '' fast_severity='' @ fr_severity_hint (tg_fast r)
     @ '' fast_confidence='' @ fmt_general (fr_confidence (tg_fast r)) @ '' fast_model='' @ fr_model_used (tg_fast r)
     @ '' heavy_ran='' @ str_of_bool (tg_heavy r \<noteq> None)
     @ (case tg_heavy r of
          None \<Rightarrow> []
        | Some h \<Rightarrow> '' heavy_severity='' @ hr_severity h @ '' heavy_model='' @ hr_model_used h
            @ '' mitre='' @ hr_mitre_technique h)
     @ '' model_suggested='' @ str_of_nat (tier_int (tg_model_suggested_tier r))
     @ '' final_tier='' @ str_of_nat (tier_int (tg_final_tier r))
     @ '' overrode='' @ str_of_bool (tg_rule_engine_overrode r)"

definition triage ::
    "'w audit_adder \<Rightarrow> (string \<Rightarrow> 'w \<Rightarrow> 'w) \<Rightarrow> ('w \<Rightarrow> bool) \<Rightarrow> granite_env \<Rightarrow> ollama_io \<Rightarrow> ollama_io \<Rightarrow> triage_input
       \<Rightarrow> rule_engine \<times> threat_sm \<times> 'w \<Rightarrow> (triage_result \<times> rule_engine \<times> threat_sm \<times> 'w) option" where
  "triage add trg locked g io1 io2 inp s =
     (case consult g io1 io2 inp of
        None \<Rightarrow> None
      | Some (fast, heavy) \<Rightarrow>
          let suggested = severity_to_tier (model_severity fast heavy);
              (_, e, m, w) = evaluate_threat_score add trg locked
                (score_for_rule_engine (ti_score inp) fast heavy) ''ai_triage'' s;
              engine = ts_current_tier m;
              final = (if tier_int engine \<ge> tier_int suggested then engine else suggested);
              res = \<lparr>tg_input = inp, tg_fast = fast, tg_heavy = heavy, tg_model_suggested_tier = suggested,
                      tg_final_tier = final, tg_rule_engine_overrode = (final \<noteq> suggested), tg_audit_entry_id = []\<rparr>;
              (eid, w') = add ''ai_triage'' (triage_payload res) w
          in Some (res\<lparr>tg_audit_entry_id := eid\<rparr>, e, m, w'))"

section \<open>Lemmas\<close>

lemma score_at_least: "score \<le> score_for_rule_engine score fast heavy"
  by (simp add: score_for_rule_engine_def Let_def)

lemma advisory_at_least:
  "model_usable fast heavy \<Longrightarrow>
   tier_to_score (severity_to_tier (model_severity fast heavy)) \<le> score_for_rule_engine score fast heavy"
  by (simp add: score_for_rule_engine_def Let_def)

lemma target_tier_mono: "s \<le> t \<Longrightarrow> target_tier (clamp_score s) \<le> target_tier (clamp_score t)"
  by (auto simp: target_tier_def clamp_score_def Let_def tier_order)

text \<open>The band of a tier's score is one tier above the suggestion, up to the highest.\<close>

definition one_above :: "threat_tier \<Rightarrow> threat_tier" where
  "one_above t = (case t of LOW \<Rightarrow> LOW | MEDIUM \<Rightarrow> HIGH | HIGH \<Rightarrow> CRITICAL | CRITICAL \<Rightarrow> CRITICAL)"

lemma score_band: "target_tier (clamp_score (tier_to_score t)) = one_above t"
  by (cases t) (simp_all add: target_tier_def clamp_score_def one_above_def)

lemma consult_some:
  assumes "triage add trg locked g io1 io2 inp s = Some (res, s')"
  shows "consult g io1 io2 inp = Some (tg_fast res, tg_heavy res)"
proof (cases "consult g io1 io2 inp")
  case None
  with assms show ?thesis by (simp add: triage_def)
next
  case (Some fh)
  obtain fast heavy where fh: "fh = (fast, heavy)" by (cases fh)
  with assms Some show ?thesis
    by (auto simp: triage_def Let_def case_prod_beta)
qed

context worm_gate
begin

lemma triage_engine:
  assumes "triage add trigger locked g io1 io2 inp (e, m, w) = Some (res, e', m', w')"
  shows "ts_current_tier m' =
      next_tier (clamp_score (score_for_rule_engine (ti_score inp) (tg_fast res) (tg_heavy res))) (ts_current_tier m)"
    and "ts_current_tier m' = CRITICAL \<Longrightarrow> locked w'"
    and "tg_model_suggested_tier res = severity_to_tier (model_severity (tg_fast res) (tg_heavy res))"
    and "tg_final_tier res = max (ts_current_tier m') (tg_model_suggested_tier res)"
proof -
  obtain fast heavy where c: "consult g io1 io2 inp = Some (fast, heavy)" and fh: "tg_fast res = fast" "tg_heavy res = heavy"
    using consult_some [OF assms] by blast
  let ?s = "score_for_rule_engine (ti_score inp) fast heavy"
  obtain r e1 m1 w1 where ev: "evaluate_threat_score add trigger locked ?s ''ai_triage'' (e, m, w) = (r, e1, m1, w1)"
    by (metis prod_cases4)
  from assms have m': "m' = m1" and w': "\<exists>p. w' = snd (add ''ai_triage'' p w1)"
    and sug: "tg_model_suggested_tier res = severity_to_tier (model_severity fast heavy)"
    and fin: "tg_final_tier res = (if tier_int (ts_current_tier m1) \<ge> tier_int (tg_model_suggested_tier res)
      then ts_current_tier m1 else tg_model_suggested_tier res)"
    by (auto simp: triage_def c ev Let_def case_prod_beta)
  from threat_score_critical [where s = ?s and src = "''ai_triage''" and e = e and m = m and w = w] ev
  have "ts_current_tier m1 = next_tier (clamp_score ?s) (ts_current_tier m)"
    and lock: "ts_current_tier m1 = CRITICAL \<longrightarrow> locked w1" by simp_all
  then show "ts_current_tier m' = next_tier (clamp_score (score_for_rule_engine (ti_score inp) (tg_fast res) (tg_heavy res)))
      (ts_current_tier m)" by (simp add: m' fh)
  show "ts_current_tier m' = CRITICAL \<Longrightarrow> locked w'" using lock w' m' by (auto simp: add_keeps_lock)
  show "tg_model_suggested_tier res = severity_to_tier (model_severity (tg_fast res) (tg_heavy res))" by (simp add: sug fh)
  show "tg_final_tier res = max (ts_current_tier m') (tg_model_suggested_tier res)"
    by (cases "ts_current_tier m1"; cases "tg_model_suggested_tier res") (simp_all add: fin m' max_def tier_order)
qed

end

section \<open>Properties\<close>

text \<open>C33. The verdict has a floor that no model output can lower: after a triage the threat machine is at least in the
  band of the raw score, the reported tier is the higher of the machine's tier and the suggestion, and the machine
  is at CRITICAL only with the lock engaged.\<close>

theorem triage_floor:
  "(case triage (gate_add sha env) (gate_trigger sha env) gate_locked g io1 io2 inp (e, m, w) of
      None \<Rightarrow> True
    | Some (res, e', m', w') \<Rightarrow>
        target_tier (clamp_score (ti_score inp)) \<le> ts_current_tier m'
        \<and> tg_final_tier res = max (ts_current_tier m') (tg_model_suggested_tier res)
        \<and> (if ts_current_tier m' = CRITICAL then gate_locked w' else True))"
proof (cases "triage (gate_add sha env) (gate_trigger sha env) gate_locked g io1 io2 inp (e, m, w)")
  case (Some r)
  obtain res e' m' w' where r: "r = (res, e', m', w')" by (metis prod_cases4)
  note eng = gate.triage_engine [OF Some [unfolded r]]
  let ?s = "score_for_rule_engine (ti_score inp) (tg_fast res) (tg_heavy res)"
  have "target_tier (clamp_score (ti_score inp)) \<le> target_tier (clamp_score ?s)"
    by (rule target_tier_mono [OF score_at_least])
  also have "\<dots> \<le> ts_current_tier m'" unfolding eng(1) by (rule target_tier_le)
  finally show ?thesis using Some r eng by simp
qed simp

text \<open>The scores of the suggestions overshoot their bands: a usable reply that says MEDIUM puts the machine at HIGH
  or above, and one that says HIGH puts it at CRITICAL and engages the lock, whatever the raw score.\<close>

theorem triage_overshoots:
  "(case triage (gate_add sha env) (gate_trigger sha env) gate_locked g io1 io2 inp (e, m, w) of
      None \<Rightarrow> True
    | Some (res, e', m', w') \<Rightarrow>
        if model_usable (tg_fast res) (tg_heavy res) then
          one_above (tg_model_suggested_tier res) \<le> ts_current_tier m'
          \<and> (if HIGH \<le> tg_model_suggested_tier res then gate_locked w' else True)
        else True)"
proof (cases "triage (gate_add sha env) (gate_trigger sha env) gate_locked g io1 io2 inp (e, m, w)")
  case (Some r)
  obtain res e' m' w' where r: "r = (res, e', m', w')" by (metis prod_cases4)
  note eng = gate.triage_engine [OF Some [unfolded r]]
  let ?s = "score_for_rule_engine (ti_score inp) (tg_fast res) (tg_heavy res)" and ?t = "tg_model_suggested_tier res"
  have above: "one_above ?t \<le> ts_current_tier m'" if "model_usable (tg_fast res) (tg_heavy res)"
  proof -
    from advisory_at_least [OF that, of "ti_score inp"] have "tier_to_score ?t \<le> ?s" unfolding eng(3) .
    from target_tier_mono [OF this] have "one_above ?t \<le> target_tier (clamp_score ?s)" unfolding score_band .
    also have "\<dots> \<le> ts_current_tier m'" unfolding eng(1) by (rule target_tier_le)
    finally show ?thesis .
  qed
  have lock: "gate_locked w'" if "HIGH \<le> ?t" "one_above ?t \<le> ts_current_tier m'"
  proof -
    from that have "ts_current_tier m' = CRITICAL"
      by (cases ?t; cases "ts_current_tier m'") (simp_all add: tier_order one_above_def)
    then show ?thesis by (rule eng(2))
  qed
  with above Some r show ?thesis by simp
qed simp

text \<open>A concrete reply: a fast tier that answers HIGH to an event of score 0.\<close>

definition demo_reply :: json where
  "demo_reply = JObject [(''response'', JString ''{}''), (''route'', JString ''handle''), (''severity_hint'', JString ''HIGH''),
     (''confidence'', JReal 1)]"

definition demo_granite :: granite_env where
  "demo_granite = \<lparr>ge_dump = (\<lambda>_. Some []), ge_parse = (\<lambda>_. Some demo_reply), ge_host = [], ge_port = 0\<rparr>"

definition demo_io :: ollama_io where
  "demo_io = \<lparr>io_resolved = True, io_socket = True, io_selected = True, io_connected = True,
     io_sends = [(False, 1000)], io_recvs = [(False, crlf @ crlf @ ''x'')]\<rparr>"

definition demo_event :: triage_input where
  "demo_event = \<lparr>ti_event_type = ''test'', ti_source = ''test'', ti_score = 0, ti_raw_detail = []\<rparr>"

lemma demo_consult:
  "consult demo_granite demo_io demo_io demo_event =
     Some (\<lparr>fr_route = ''handle'', fr_severity_hint = ''HIGH'', fr_confidence = 1, fr_model_used = FAST_MODEL,
            fr_timed_out = False, fr_parse_ok = True\<rparr>, None)"
proof -
  have len: "int (length (http_request ''/api/generate'' [] 0 [])) \<le> 1000"
    by (simp add: http_request_def crlf_def str_of_int_def base_digits.simps)
  have sent: "send_plain (int (length (http_request ''/api/generate'' [] 0 []))) [1000]"
    using len by simp
  have body: "http_body (recv_text [crlf @ crlf @ ''x'']) = ''x''"
    by (simp add: http_body_def crlf_def c_string_def NUL_def)
  have "call_ollama demo_granite demo_io FAST_MODEL p = Some ''x''" for p
    using sent body by (simp add: call_ollama_def demo_granite_def demo_io_def del: send_plain.simps recv_text.simps)
  then have "run_fast demo_granite demo_io demo_event = Some \<lparr>fr_route = ''handle'', fr_severity_hint = ''HIGH'',
      fr_confidence = 1, fr_model_used = FAST_MODEL, fr_timed_out = False, fr_parse_ok = True\<rparr>"
    by (simp add: run_fast_def demo_granite_def demo_reply_def extract_response_def parse_fast_def json_value_def
        brace_span_def rfind_char_def Let_def)
  then show ?thesis
    by (simp add: consult_def call_heavy_def ESCALATE_CONFIDENCE_THRESHOLD_def)
qed

theorem triage_overshoots_witness:
  "(case triage (gate_add demo_sha demo_env) (gate_trigger demo_sha demo_env) gate_locked demo_granite demo_io demo_io demo_event
      (new_rule_engine, new_threat_sm, new_worm_lock, fresh_audit) of
      None \<Rightarrow> False
    | Some (res, e', m', w') \<Rightarrow> tg_model_suggested_tier res = HIGH \<and> ts_current_tier m' = CRITICAL \<and> gate_locked w')"
proof -
  let ?r = "triage (gate_add demo_sha demo_env) (gate_trigger demo_sha demo_env) gate_locked demo_granite demo_io demo_io
      demo_event (new_rule_engine, new_threat_sm, new_worm_lock, fresh_audit)"
  obtain res e' m' w' where r: "?r = Some (res, e', m', w')"
    by (simp add: triage_def demo_consult Let_def case_prod_beta)
  have fh: "tg_heavy res = None" "fr_parse_ok (tg_fast res)" "fr_severity_hint (tg_fast res) = ''HIGH''"
    using trans [OF consult_some [OF r, symmetric] demo_consult] by simp_all
  have t: "tg_model_suggested_tier res = HIGH"
    using gate.triage_engine(3) [OF r] fh by (simp add: model_severity_def severity_to_tier_def)
  have "model_usable (tg_fast res) (tg_heavy res)" using fh by (simp add: model_usable_def)
  with triage_overshoots [of demo_sha demo_env demo_granite demo_io demo_io demo_event new_rule_engine new_threat_sm
      "(new_worm_lock, fresh_audit)"] r t
  have "CRITICAL \<le> ts_current_tier m'" "gate_locked w'" by (simp_all add: one_above_def tier_order)
  then have "ts_current_tier m' = CRITICAL" by (cases "ts_current_tier m'") (simp_all add: tier_order)
  with r t \<open>gate_locked w'\<close> show ?thesis by simp
qed

end
