(* ===== verification/Monitors.thy ===== *)
theory Monitors
  imports Cxx_Strings Std_Map
begin

text \<open>
  \<^verbatim>\<open>core/event_log_monitor\<close> and \<^verbatim>\<open>core/fs_monitor\<close>: what the two Windows monitors make of what the system
  delivers. A wide string is a list of 16-bit units. The system calls are arguments: the rendered XML of an event
  (\<open>None\<close> when rendering fails) and the answers of one round of \<^verbatim>\<open>ReadDirectoryChangesW\<close>; the callback acts
  on the state \<open>'s\<close> and may throw (\<open>None\<close>), which the monitors swallow.
\<close>

section \<open>Wide strings\<close>

type_synonym wstring = "16 word list"

definition wide :: "string \<Rightarrow> wstring" where
  "wide s = map (\<lambda>c. of_nat (of_char c)) s"

definition narrow :: "wstring \<Rightarrow> string" where
  "narrow w = map (\<lambda>u. char_of (unat u)) w"

text \<open>\<^verbatim>\<open>s.substr(pos, end - pos)\<close>, where a length below zero wraps and reads to the end.\<close>

definition sub_until :: "nat \<Rightarrow> nat \<Rightarrow> 'a list \<Rightarrow> 'a list" where
  "sub_until pos end_pos s = (if pos \<le> end_pos then take (end_pos - pos) (drop pos s) else drop pos s)"

section \<open>Event log\<close>

record event_def =
  ed_id :: nat
  ed_score :: int
  ed_description :: string

definition edef :: "nat \<Rightarrow> int \<Rightarrow> string \<Rightarrow> event_def" where
  "edef i s d = \<lparr>ed_id = i, ed_score = s, ed_description = d\<rparr>"

definition k_event_defs :: "event_def list" where
  "k_event_defs =
    [edef 4625 40 ''Failed logon attempt'',
     edef 4648 55 ''Logon with explicit credentials'',
     edef 4688 30 ''New process created'',
     edef 4697 60 ''Service installed on system'',
     edef 4698 55 ''Scheduled task created'',
     edef 4702 45 ''Scheduled task updated'',
     edef 4720 50 ''User account created'',
     edef 4726 60 ''User account deleted'',
     edef 4728 45 ''Member added to security-enabled global group'',
     edef 4732 45 ''Member added to security-enabled local group'',
     edef 4756 45 ''Member added to security-enabled universal group'',
     edef 4768 35 ''Kerberos authentication ticket requested'',
     edef 4776 40 ''NTLM credential validation attempted'',
     edef 4946 50 ''Firewall rule added'',
     edef 4947 50 ''Firewall rule modified'',
     edef 7045 65 ''New service registered on system'',
     edef 7036 10 ''Service state changed'',
     edef 1000 25 ''Application crash'',
     edef 1002 30 ''Application hang'']"

record event_signal =
  es_channel :: string
  es_event_id :: nat
  es_score :: int
  es_source :: string
  es_description :: string
  es_timestamp_ms :: int

definition score_for_event_id :: "nat \<Rightarrow> int" where
  "score_for_event_id i = (case List.find (\<lambda>d. ed_id d = i) k_event_defs of Some d \<Rightarrow> ed_score d | None \<Rightarrow> 0)"

definition describe_event_id :: "nat \<Rightarrow> string" where
  "describe_event_id i =
     (case List.find (\<lambda>d. ed_id d = i) k_event_defs of
        Some d \<Rightarrow> ed_description d | None \<Rightarrow> ''Unknown event '' @ str_of_nat i)"

text \<open>
  \<^verbatim>\<open>std::stoul\<close>: white space, a sign, then at least one decimal digit; \<^verbatim>\<open>unsigned long\<close> has 32 bits on
  Windows, a larger number throws, and a minus sign negates modulo \<open>2 ^ 32\<close>.
\<close>

definition wide_space :: "16 word \<Rightarrow> bool" where
  "wide_space u = (u \<in> {0x20, 9, 10, 11, 12, 13})"

definition wide_digit :: "16 word \<Rightarrow> bool" where
  "wide_digit u = (0x30 \<le> u \<and> u \<le> 0x39)"

definition wide_value :: "wstring \<Rightarrow> nat" where
  "wide_value ds = foldl (\<lambda>n u. 10 * n + (unat u - 48)) 0 ds"

definition stoul :: "wstring \<Rightarrow> nat option" where
  "stoul w =
     (let s = dropWhile wide_space w;
          neg = (s \<noteq> [] \<and> hd s = 0x2D);
          t = (if s \<noteq> [] \<and> (hd s = 0x2D \<or> hd s = 0x2B) then tl s else s);
          ds = takeWhile wide_digit t;
          n = wide_value ds
      in if ds = [] \<or> n \<ge> 2 ^ 32 then None
         else Some (if neg \<and> n \<noteq> 0 then 2 ^ 32 - n else n))"

definition event_id_text :: "wstring \<Rightarrow> wstring option" where
  "event_id_text xml =
     (case (find_sub (wide ''<EventID>'') xml, find_sub (wide ''</EventID>'') xml) of
        (Some i, Some j) \<Rightarrow>
          let s = sub_until (i + 9) j xml
          in Some (case find_sub (wide ''>'') s of Some b \<Rightarrow> drop (b + 1) s | None \<Rightarrow> s)
      | _ \<Rightarrow> None)"

definition event_channel :: "wstring \<Rightarrow> string" where
  "event_channel xml =
     (case (find_sub (wide ''<Channel>'') xml, find_sub (wide ''</Channel>'') xml) of
        (Some i, Some j) \<Rightarrow> narrow (sub_until (i + 9) j xml)
      | _ \<Rightarrow> ''unknown'')"

text \<open>The signal of an event, if it is one of the monitored ones.\<close>

definition event_signal_of :: "int \<Rightarrow> wstring \<Rightarrow> event_signal option" where
  "event_signal_of now xml =
     (case event_id_text xml of
        None \<Rightarrow> None
      | Some t \<Rightarrow>
          (case stoul t of
             None \<Rightarrow> None
           | Some n \<Rightarrow>
               let i = n mod 2 ^ 16; score = score_for_event_id i in
               if score \<le> 0 then None
               else Some \<lparr>es_channel = event_channel xml, es_event_id = i, es_score = score,
                          es_source = ''event_log/'' @ event_channel xml @ ''/'' @ str_of_nat i,
                          es_description = describe_event_id i, es_timestamp_ms = now\<rparr>))"

record event_log_monitor =
  em_running :: bool
  em_subscriptions :: "(string \<times> bool) list"
  em_events_forwarded :: u64

definition channels :: "string list" where
  "channels = [''Security'', ''System'', ''Application'']"

text \<open>\<open>subscribed ch\<close>: whether the subscription of the channel succeeds.\<close>

definition start_event_log :: "(string \<Rightarrow> bool) \<Rightarrow> event_log_monitor \<Rightarrow> bool \<times> event_log_monitor" where
  "start_event_log subscribed m =
     (if em_running m then (True, m)
      else
        let m1 = m\<lparr>em_subscriptions := em_subscriptions m @ map (\<lambda>ch. (ch, subscribed ch)) channels\<rparr> in
        if length (filter subscribed channels) = 0 then (False, m1)
        else (True, m1\<lparr>em_running := True\<rparr>))"

definition stop_event_log :: "event_log_monitor \<Rightarrow> event_log_monitor" where
  "stop_event_log m = (if \<not> em_running m then m else m\<lparr>em_running := False, em_subscriptions := []\<rparr>)"

definition on_event ::
    "(event_signal \<Rightarrow> 's \<Rightarrow> 's option) \<Rightarrow> int \<Rightarrow> wstring option \<Rightarrow> event_log_monitor \<times> 's \<Rightarrow> event_log_monitor \<times> 's" where
  "on_event on_signal now rendered = (\<lambda>(m, s).
     case rendered of
       None \<Rightarrow> (m, s)
     | Some xml \<Rightarrow>
         (case event_signal_of now xml of
            None \<Rightarrow> (m, s)
          | Some sig \<Rightarrow>
              (m\<lparr>em_events_forwarded := em_events_forwarded m + 1\<rparr>,
               (case on_signal sig s of Some s' \<Rightarrow> s' | None \<Rightarrow> s))))"

definition evt_callback ::
    "(event_signal \<Rightarrow> 's \<Rightarrow> 's option) \<Rightarrow> bool \<Rightarrow> int \<Rightarrow> wstring option \<Rightarrow> event_log_monitor \<times> 's \<Rightarrow> event_log_monitor \<times> 's" where
  "evt_callback on_signal deliver now rendered = (\<lambda>(m, s).
     if \<not> deliver then (m, s)
     else if em_running m then on_event on_signal now rendered (m, s)
     else (m, s))"

section \<open>File system\<close>

datatype fs_event_type = CREATED | MODIFIED

record fs_event =
  fe_type :: fs_event_type
  fe_path :: string
  fe_filename :: string
  fe_extension :: string
  fe_timestamp_ms :: int

record fs_monitor =
  fm_ext_filter :: "string list"
  fm_running :: bool
  fm_events_forwarded :: u64

definition set_extension_filter :: "string list \<Rightarrow> fs_monitor \<Rightarrow> fs_monitor" where
  "set_extension_filter exts m = m\<lparr>fm_ext_filter := map tolower exts\<rparr>"

definition should_fire :: "string \<Rightarrow> fs_monitor \<Rightarrow> bool" where
  "should_fire ext m = (if fm_ext_filter m = [] then True else ext \<in> set (fm_ext_filter m))"

text \<open>The system folders, \<open>[]\<close> when one is unknown, and the temporary directory, \<open>None\<close> on failure.\<close>

definition default_roots :: "string \<Rightarrow> string \<Rightarrow> string option \<Rightarrow> string \<Rightarrow> string list" where
  "default_roots downloads desktop temp roaming =
     (if downloads \<noteq> [] then [downloads] else []) @ (if desktop \<noteq> [] then [desktop] else [])
     @ (case temp of Some t \<Rightarrow> [t] | None \<Rightarrow> [])
     @ [''C:'' @ [backslash] @ ''Users'' @ [backslash] @ ''Public'']
     @ (if roaming \<noteq> [] then [roaming] else [])"

definition watch_roots :: "string list \<Rightarrow> string list \<Rightarrow> string list" where
  "watch_roots given defaults = (if given = [] then defaults else given)"

text \<open>The roots whose watch thread starts: existing directories that can be opened.\<close>

definition start_fs :: "(string \<Rightarrow> bool) \<Rightarrow> (string \<Rightarrow> bool) \<Rightarrow> string list \<Rightarrow> fs_monitor \<Rightarrow> (bool \<times> string list) \<times> fs_monitor" where
  "start_fs exists opens roots m =
     (if fm_running m then ((True, []), m)
      else
        let started = filter (\<lambda>r. exists r \<and> opens r) roots in
        if started = [] then ((False, []), m\<lparr>fm_running := False\<rparr>)
        else ((True, started), m\<lparr>fm_running := True\<rparr>))"

definition stop_fs :: "fs_monitor \<Rightarrow> fs_monitor" where
  "stop_fs m = m\<lparr>fm_running := False\<rparr>"

text \<open>One record of the notification buffer at an offset.\<close>

record notify_record =
  nr_action :: nat
  nr_name :: wstring
  nr_next :: nat

definition event_type :: "nat \<Rightarrow> fs_event_type option" where
  "event_type action = (if action = 1 \<or> action = 5 then Some CREATED else if action = 3 then Some MODIFIED else None)"

definition fs_event_of :: "string \<Rightarrow> int \<Rightarrow> fs_event_type \<Rightarrow> wstring \<Rightarrow> fs_event" where
  "fs_event_of dir now t name =
     (let rel = narrow name in
      \<lparr>fe_type = t, fe_path = dir @ [backslash] @ rel, fe_filename = rel,
       fe_extension = (case rfind_char (CHR ''.'') rel of Some i \<Rightarrow> tolower (drop i rel) | None \<Rightarrow> []),
       fe_timestamp_ms = now\<rparr>)"

definition handle_record ::
    "(fs_event \<Rightarrow> 's \<Rightarrow> 's option) \<Rightarrow> string \<Rightarrow> int \<Rightarrow> notify_record \<Rightarrow> fs_monitor \<times> 's \<Rightarrow> fs_monitor \<times> 's" where
  "handle_record on_fs dir now r = (\<lambda>(m, s).
     case event_type (nr_action r) of
       None \<Rightarrow> (m, s)
     | Some t \<Rightarrow>
         let ev = fs_event_of dir now t (nr_name r) in
         if should_fire (fe_extension ev) m then
           (m\<lparr>fm_events_forwarded := fm_events_forwarded m + 1\<rparr>,
            (case on_fs ev s of Some s' \<Rightarrow> s' | None \<Rightarrow> s))
         else (m, s))"

text \<open>The loop over a buffer of \<open>bytes\<close> bytes, from an offset on.\<close>

function walk_buffer ::
    "(fs_event \<Rightarrow> 's \<Rightarrow> 's option) \<Rightarrow> string \<Rightarrow> int \<Rightarrow> (nat \<Rightarrow> notify_record) \<Rightarrow> nat \<Rightarrow> nat \<Rightarrow> fs_monitor \<times> 's \<Rightarrow> fs_monitor \<times> 's" where
  "walk_buffer on_fs dir now buf bytes offset s =
     (let r = buf offset; s' = handle_record on_fs dir now r s in
      if nr_next r = 0 then s'
      else if offset + nr_next r < bytes then walk_buffer on_fs dir now buf bytes (offset + nr_next r) s'
      else s')"
  by pat_completeness auto
termination by (relation "measure (\<lambda>(_, _, _, _, bytes, offset, _). bytes - offset)") auto

declare walk_buffer.simps [simp del]

text \<open>What one round of waiting brings.\<close>

datatype watch_answer = Read_fails | Stop_signalled | Wait_fails | No_result | Got nat int "nat \<Rightarrow> notify_record"

fun watch_round ::
    "(fs_event \<Rightarrow> 's \<Rightarrow> 's option) \<Rightarrow> string \<Rightarrow> watch_answer \<Rightarrow> fs_monitor \<times> 's \<Rightarrow> bool \<times> fs_monitor \<times> 's" where
  "watch_round on_fs dir Read_fails s = (False, s)"
| "watch_round on_fs dir Stop_signalled s = (False, s)"
| "watch_round on_fs dir Wait_fails s = (True, s)"
| "watch_round on_fs dir No_result s = (True, s)"
| "watch_round on_fs dir (Got bytes now buf) s =
     (if bytes = 0 then (True, s) else (True, walk_buffer on_fs dir now buf bytes 0 s))"

fun watch_loop ::
    "(fs_event \<Rightarrow> 's \<Rightarrow> 's option) \<Rightarrow> string \<Rightarrow> watch_answer list \<Rightarrow> fs_monitor \<times> 's \<Rightarrow> fs_monitor \<times> 's" where
  "watch_loop on_fs dir [] s = s"
| "watch_loop on_fs dir (a # as) s =
     (if \<not> fm_running (fst s) then s
      else let (go_on, s') = watch_round on_fs dir a s in
        if go_on then watch_loop on_fs dir as s' else s')"

section \<open>First occurrences\<close>

lemma starts_with_short: "c \<notin> set p \<Longrightarrow> starts_with p (u @ c # v) \<longleftrightarrow> starts_with p u"
proof (induction p arbitrary: u)
  case (Cons d p)
  then show ?case by (cases u) auto
qed simp

text \<open>A pattern whose first character occurs nowhere else in it cannot overlap another occurrence of that character.\<close>

lemma contains_sep:
  assumes "c \<notin> set p"
  shows "contains (c # p) (u @ c # v) \<longleftrightarrow> contains (c # p) u \<or> starts_with p v \<or> contains (c # p) v"
  using assms by (induction u) (auto simp: starts_with_short)

lemma find_sub_first:
  assumes "c \<notin> set p" "\<not> contains (c # p) u" "starts_with p v"
  shows "find_sub (c # p) (u @ c # v) = Some (length u)"
  using assms by (induction u) (auto simp: starts_with_short)

lemma contains_free: "c \<notin> set s \<Longrightarrow> \<not> contains (c # p) s"
  by (induction s) auto

section \<open>Wide and narrow texts\<close>

lemma wide_Nil [simp]: "wide [] = []"
  by (simp add: wide_def)

lemma wide_Cons [simp]: "wide (c # s) = of_nat (of_char c) # wide s"
  by (simp add: wide_def)

lemma wide_append [simp]: "wide (s @ t) = wide s @ wide t"
  by (simp add: wide_def)

lemma length_wide [simp]: "length (wide s) = length s"
  by (simp add: wide_def)

lemma unat_wide_char [simp]: "unat (of_nat (of_char c) :: 16 word) = of_char c"
proof -
  have "of_char c < (256::nat)" by (rule nat_of_char_less_256)
  then have "of_char c mod 65536 = (of_char c :: nat)" by (intro mod_less) linarith
  then show ?thesis by (simp add: unat_of_nat take_bit_eq_mod)
qed

lemma wide_char_inj [simp]: "(of_nat (of_char c) :: 16 word) = of_nat (of_char d) \<longleftrightarrow> c = d"
  by (metis unat_wide_char of_char_eq_iff)

lemma narrow_wide [simp]: "narrow (wide s) = s"
  by (induction s) (simp_all add: narrow_def)

lemma starts_with_wide [simp]: "starts_with (wide p) (wide s) \<longleftrightarrow> starts_with p s"
proof (induction p arbitrary: s)
  case (Cons c p)
  then show ?case by (cases s) auto
qed simp

lemma find_sub_wide: "find_sub (wide p) (wide s) = find_sub p s"
proof (induction s)
  case Nil
  then show ?case by (cases p) auto
next
  case (Cons c s)
  have "starts_with (wide p) (wide (c # s)) \<longleftrightarrow> starts_with p (c # s)" by (rule starts_with_wide)
  with Cons show ?case by simp
qed

section \<open>Reading the event id\<close>

lemma nat_digit_char: "d < 10 \<Longrightarrow> (of_char (digit_char d) :: nat) = 48 + d"
proof -
  have "\<forall>d\<in>set [0..<10]. (of_char (digit_char d) :: nat) = 48 + d"
    by (simp add: digit_char_def upt_conv_Cons)
  then show "d < 10 \<Longrightarrow> (of_char (digit_char d) :: nat) = 48 + d" by simp
qed

lemma unat_digit_char: "d < 10 \<Longrightarrow> unat (of_nat (of_char (digit_char d)) :: 16 word) = 48 + d"
  unfolding unat_wide_char by (rule nat_digit_char)

lemma wide_value_snoc: "wide_value (ds @ [u]) = 10 * wide_value ds + (unat u - 48)"
  by (simp add: wide_value_def)

lemma wide_value_wide: "wide_value (wide (str_of_nat n)) = n"
proof (induction "10::nat" n rule: base_digits.induct)
  case (1 n)
  show ?case
  proof (cases "n < 10")
    case True
    then show ?thesis by (subst base_digits.simps) (simp add: wide_value_def unat_digit_char del: unat_wide_char)
  next
    case False
    with 1 show ?thesis
      by (subst base_digits.simps) (simp add: wide_value_snoc unat_digit_char del: unat_wide_char)
  qed
qed

lemma str_of_nat_digits: "c \<in> set (str_of_nat n) \<Longrightarrow> \<exists>d<10. c = digit_char d"
proof (induction "10::nat" n rule: base_digits.induct)
  case (1 n)
  show ?case
  proof (cases "n < 10")
    case True
    with "1.prems" show ?thesis by (subst (asm) base_digits.simps) auto
  next
    case False
    then have "c \<in> set (str_of_nat (n div 10)) \<or> c = digit_char (n mod 10)"
      using "1.prems" by (subst (asm) base_digits.simps) auto
    then show ?thesis
    proof
      assume "c \<in> set (str_of_nat (n div 10))"
      with "1.hyps" False show ?thesis by simp
    next
      assume "c = digit_char (n mod 10)"
      then show ?thesis by (intro exI [of _ "n mod 10"]) simp
    qed
  qed
qed

lemma wide_digit_char: "d < 10 \<Longrightarrow> wide_digit (of_nat (of_char (digit_char d)))"
proof -
  have "\<forall>d\<in>set [0..<10]. wide_digit (of_nat (of_char (digit_char d)))"
    by (simp add: digit_char_def wide_digit_def upt_conv_Cons)
  then show "d < 10 \<Longrightarrow> wide_digit (of_nat (of_char (digit_char d)))" by simp
qed

lemma wide_digit_not_special: "wide_digit u \<Longrightarrow> \<not> wide_space u \<and> u \<noteq> 0x2D \<and> u \<noteq> 0x2B"
  by (auto simp: wide_digit_def wide_space_def)

lemma str_of_nat_wide_digits: "u \<in> set (wide (str_of_nat n)) \<Longrightarrow> wide_digit u"
  unfolding wide_def using str_of_nat_digits wide_digit_char by fastforce

lemma stoul_str_of_nat:
  assumes "n < 2 ^ 32"
  shows "stoul (wide (str_of_nat n)) = Some n"
proof -
  let ?w = "wide (str_of_nat n)"
  have ne: "?w \<noteq> []" using base_digits_not_Nil by (cases "str_of_nat n") auto
  then have hd: "hd ?w \<in> set ?w" by simp
  have first: "\<not> wide_space (hd ?w)" "hd ?w \<noteq> 0x2D" "hd ?w \<noteq> 0x2B"
    using wide_digit_not_special [OF str_of_nat_wide_digits [OF hd]] by auto
  have dw: "dropWhile wide_space ?w = ?w" using ne first by (cases ?w) auto
  have tw: "takeWhile wide_digit ?w = ?w" using str_of_nat_wide_digits takeWhile_eq_all_conv by blast
  show ?thesis
    unfolding stoul_def Let_def dw using ne first assms by (simp add: tw wide_value_wide del: takeWhile_eq_all_conv)
qed

lemma lt_not_in_tags: "CHR ''<'' \<notin> set ''EventID>''" "CHR ''<'' \<notin> set ''/EventID>''"
  by simp_all

lemma str_of_nat_free: "c \<notin> set ''0123456789'' \<Longrightarrow> c \<notin> set (str_of_nat n)"
proof
  assume c: "c \<notin> set ''0123456789''" and "c \<in> set (str_of_nat n)"
  then obtain d where d: "d < 10" "c = digit_char d" using str_of_nat_digits by blast
  have "\<forall>d\<in>set [0..<10]. digit_char d \<in> set ''0123456789''" by (simp add: digit_char_def upt_conv_Cons)
  moreover from d have "d \<in> set [0..<10]" by simp
  ultimately have "c \<in> set ''0123456789''" using d(2) by blast
  with c show False by contradiction
qed

lemma event_id_text_plain:
  assumes "\<not> contains ''<EventID>'' pre" "\<not> contains ''</EventID>'' pre"
  shows "event_id_text (wide (pre @ ''<EventID>'' @ str_of_nat n @ ''</EventID>'' @ post)) = Some (wide (str_of_nat n))"
proof -
  let ?n = "str_of_nat n" and ?t = "pre @ ''<EventID>'' @ str_of_nat n @ ''</EventID>'' @ post"
  have i: "find_sub ''<EventID>'' ?t = Some (length pre)"
    using find_sub_first [OF lt_not_in_tags(1) assms(1)] by simp
  have "\<not> contains ''</EventID>'' (pre @ CHR ''<'' # ''EventID>'' @ ?n)"
    using assms(2) contains_free [of "CHR ''<''" "''EventID>'' @ ?n" "''/EventID>''"] str_of_nat_free [of "CHR ''<''" n]
    by (simp add: contains_sep [OF lt_not_in_tags(2)])
  from find_sub_first [OF lt_not_in_tags(2) this, of "''/EventID>'' @ post"]
  have j: "find_sub ''</EventID>'' ?t = Some (length pre + (9 + length ?n))" by simp
  have mid: "sub_until (length pre + 9) (length pre + (9 + length ?n)) (wide ?t) = wide ?n"
    by (simp add: sub_until_def)
  have "find_sub ''>'' ?n = None"
    using contains_free [of "CHR ''>''" ?n "[]"] str_of_nat_free [of "CHR ''>''" n]
    unfolding contains_def by simp
  with mid show ?thesis
    unfolding event_id_text_def find_sub_wide i j by (simp only: Let_def option.case prod.case find_sub_wide)
qed

text \<open>A monitored event in the plain form is forwarded, once, with the score of its id modulo \<open>2 ^ 16\<close>.\<close>

theorem event_log_forwards:
  fixes pre post :: string and n :: nat
  assumes "\<not> contains ''<EventID>'' pre" "\<not> contains ''</EventID>'' pre" "n < 2 ^ 32"
  defines "xml \<equiv> wide (pre @ ''<EventID>'' @ str_of_nat n @ ''</EventID>'' @ post)"
  shows "evt_callback on_signal deliver now (Some xml) (m, s) =
    (if deliver \<and> em_running m \<and> 0 < score_for_event_id (n mod 2 ^ 16) then
       (m\<lparr>em_events_forwarded := em_events_forwarded m + 1\<rparr>,
        (let ch = event_channel xml; i = n mod 2 ^ 16;
             sig = \<lparr>es_channel = ch, es_event_id = i, es_score = score_for_event_id i,
                    es_source = ''event_log/'' @ ch @ ''/'' @ str_of_nat i,
                    es_description = describe_event_id i, es_timestamp_ms = now\<rparr>
         in case on_signal sig s of Some s' \<Rightarrow> s' | None \<Rightarrow> s))
     else (m, s))"
proof -
  have "event_id_text xml = Some (wide (str_of_nat n))"
    unfolding xml_def by (rule event_id_text_plain [OF assms(1,2)])
  then show ?thesis
    by (simp add: evt_callback_def on_event_def event_signal_of_def stoul_str_of_nat [OF assms(3)] Let_def not_le)
qed

text \<open>
  Windows writes the id of classic events as \<^verbatim>\<open><EventID Qualifiers='16384'>7045</EventID>\<close>; the search for
  \<^verbatim>\<open><EventID>\<close> does not find it, so such an event is never forwarded.
\<close>

theorem qualified_event_dropped:
  assumes "\<not> contains ''<EventID>'' pre" "CHR ''<'' \<notin> set q" "CHR ''<'' \<notin> set i" "\<not> contains ''<EventID>'' post"
  shows "evt_callback on_signal deliver now
    (Some (wide (pre @ ''<EventID Qualifiers='' @ q @ ''>'' @ i @ ''</EventID>'' @ post))) (m, s) = (m, s)"
proof -
  let ?t = "pre @ ''<EventID Qualifiers='' @ q @ ''>'' @ i @ ''</EventID>'' @ post"
  have "\<not> contains ''<EventID>'' (''/EventID>'' @ post)" using assms(4) by simp
  moreover have "\<not> contains ''<EventID>'' (''EventID Qualifiers='' @ q @ ''>'' @ i)"
    using assms(2,3) by (intro contains_free) simp
  ultimately have "\<not> contains ''<EventID>'' ((''EventID Qualifiers='' @ q @ ''>'' @ i) @ CHR ''<'' # (''/EventID>'' @ post))"
    unfolding contains_sep [OF lt_not_in_tags(1)] by simp
  then have "\<not> contains ''<EventID>'' ?t"
    using assms(1) contains_sep [OF lt_not_in_tags(1), of pre "(''EventID Qualifiers='' @ q @ ''>'' @ i) @ CHR ''<'' # (''/EventID>'' @ post)"]
    by simp
  then have "find_sub ''<EventID>'' ?t = None" unfolding contains_def by blast
  then have "event_id_text (wide ?t) = None" unfolding event_id_text_def find_sub_wide by simp
  then show ?thesis
    by (simp add: evt_callback_def on_event_def event_signal_of_def del: wide_append wide_Cons)
qed

section \<open>Delivering a buffer\<close>

text \<open>The records the loop visits.\<close>

function chained_records :: "(nat \<Rightarrow> notify_record) \<Rightarrow> nat \<Rightarrow> nat \<Rightarrow> notify_record list" where
  "chained_records buf bytes offset =
     (let n = nr_next (buf offset) in
      buf offset # (if n = 0 \<or> bytes \<le> offset + n then [] else chained_records buf bytes (offset + n)))"
  by pat_completeness auto
termination by (relation "measure (\<lambda>(_, bytes, offset). bytes - offset)") auto

declare chained_records.simps [simp del]

text \<open>What the records are meant to bring: a file that was added (action 1) or has a new name (5) was created, one that was
  modified (3) was modified; a removal (2) and the old name of a file (4) bring no event. Without a list of
  extensions every event passes, otherwise those whose extension is on it.\<close>

definition reported_actions :: "(nat \<times> fs_event_type) list" where
  "reported_actions = [(1, CREATED), (3, MODIFIED), (5, CREATED)]"

definition record_event :: "string \<Rightarrow> int \<Rightarrow> notify_record \<Rightarrow> fs_event option" where
  "record_event dir now r = map_option (\<lambda>t. fs_event_of dir now t (nr_name r)) (map_of reported_actions (nr_action r))"

definition fired_events :: "string \<Rightarrow> int \<Rightarrow> fs_monitor \<Rightarrow> notify_record list \<Rightarrow> fs_event list" where
  "fired_events dir now m rs = filter (\<lambda>ev. fm_ext_filter m = [] \<or> fe_extension ev \<in> set (fm_ext_filter m))
     (List.map_filter (record_event dir now) rs)"

lemma event_type_reported: "event_type action = map_of reported_actions action"
  by (simp add: event_type_def reported_actions_def)

definition deliver_all :: "('e \<Rightarrow> 's \<Rightarrow> 's option) \<Rightarrow> 'e list \<Rightarrow> 's \<Rightarrow> 's" where
  "deliver_all h evs s = foldl (\<lambda>s ev. case h ev s of Some s' \<Rightarrow> s' | None \<Rightarrow> s) s evs"

lemma fired_events_forwarded [simp]: "fired_events dir now (m\<lparr>fm_events_forwarded := k\<rparr>) rs = fired_events dir now m rs"
  by (simp add: fired_events_def)

lemma handle_record_fires:
  "handle_record on_fs dir now r (m, s) =
     (let evs = fired_events dir now m [r]
      in (m\<lparr>fm_events_forwarded := fm_events_forwarded m + of_nat (length evs)\<rparr>, deliver_all on_fs evs s))"
  by (auto simp: handle_record_def fired_events_def record_event_def event_type_reported should_fire_def
      List.map_filter_def deliver_all_def Let_def split: option.splits)

lemma fired_events_Cons: "fired_events dir now m (r # rs) = fired_events dir now m [r] @ fired_events dir now m rs"
  by (simp add: fired_events_def List.map_filter_def)

lemma deliver_all_append: "deliver_all h (xs @ ys) s = deliver_all h ys (deliver_all h xs s)"
  by (simp add: deliver_all_def)

text \<open>
  C39. One buffer of notifications: the events of exactly its chained records that pass the filter reach the
  callback, in their order, and are counted; a callback that throws loses no later event. Which actions of the
  system bring which event, and what the filter passes, is that of \<open>reported_actions\<close> and \<open>fired_events\<close>.
\<close>

theorem buffer_delivered:
  "walk_buffer on_fs dir now buf bytes offset (m, s) =
     (let evs = fired_events dir now m (chained_records buf bytes offset)
      in (m\<lparr>fm_events_forwarded := fm_events_forwarded m + of_nat (length evs)\<rparr>, deliver_all on_fs evs s))"
proof (induction buf bytes offset arbitrary: m s rule: chained_records.induct)
  case (1 buf bytes offset)
  let ?e = "fired_events dir now m [buf offset]"
  show ?case
  proof (cases "nr_next (buf offset) = 0 \<or> bytes \<le> offset + nr_next (buf offset)")
    case True
    then show ?thesis
      by (subst walk_buffer.simps, subst chained_records.simps)
        (auto simp: handle_record_fires Let_def)
  next
    case False
    have "chained_records buf bytes offset = buf offset # chained_records buf bytes (offset + nr_next (buf offset))"
      using False by (subst chained_records.simps) (simp add: Let_def)
    then have "fired_events dir now m (chained_records buf bytes offset)
        = ?e @ fired_events dir now m (chained_records buf bytes (offset + nr_next (buf offset)))"
      by (simp only:) (rule fired_events_Cons)
    moreover have "walk_buffer on_fs dir now buf bytes offset (m, s)
        = walk_buffer on_fs dir now buf bytes (offset + nr_next (buf offset)) (handle_record on_fs dir now (buf offset) (m, s))"
      using False by (subst walk_buffer.simps) (simp add: Let_def)
    moreover have "\<not> (nr_next (buf offset) = 0 \<or> bytes \<le> offset + nr_next (buf offset))" by (rule False)
    note IH = "1.IH" [OF refl this]
    ultimately show ?thesis
      by (simp only: handle_record_fires Let_def IH fired_events_forwarded deliver_all_append)
        (simp add: add.assoc)
  qed
qed

section \<open>The extension filter\<close>

lemma rfind_char_last: "c \<notin> set v \<Longrightarrow> rfind_char c (u @ c # v) = Some (length u)"
proof -
  assume "c \<notin> set v"
  then have "takeWhile (\<lambda>d. d \<noteq> c) (rev v @ c # rev u) = rev v"
    by (metis (mono_tags, lifting) set_rev takeWhile_append2 takeWhile.simps(2) append_Nil2)
  then show ?thesis by (simp add: rfind_char_def)
qed

text \<open>
  A file passes the filter exactly when its text from the last dot on is one of the configured extensions,
  in any mixture of cases. The last dot is looked for in the path below the root, so a file without an extension
  has the one of its nearest dotted directory, separator and name included.
\<close>

theorem filter_ignores_case:
  assumes "CHR ''.'' \<notin> set ext"
  shows "should_fire (fe_extension (fs_event_of dir now t (wide (stem @ ''.'' @ ext)))) (set_extension_filter exts m)
    = (exts = [] \<or> tolower (''.'' @ ext) \<in> tolower ` set exts)"
  using rfind_char_last [OF assms, of stem]
  by (auto simp: should_fire_def fs_event_of_def set_extension_filter_def Let_def simp del: wide_append wide_Cons)

text \<open>Witnesses.\<close>

lemma event_log_forwards_witness:
  "evt_callback (\<lambda>sig l. Some (l @ [es_score sig])) True 7
     (Some (wide ([] @ ''<EventID>'' @ str_of_nat 70161 @ ''</EventID>'' @ [])))
     (\<lparr>em_running = True, em_subscriptions = [], em_events_forwarded = 0\<rparr>, [])
   = (\<lparr>em_running = True, em_subscriptions = [], em_events_forwarded = 1\<rparr>, [40])"
proof -
  show ?thesis
    by (subst event_log_forwards) (simp_all add: score_for_event_id_def k_event_defs_def edef_def Let_def)
qed

lemma qualified_event_dropped_witness:
  "evt_callback (\<lambda>sig l. Some (l @ [es_score sig])) True 7
     (Some (wide ([] @ ''<EventID Qualifiers='' @ (squote @ ''16384'' @ squote) @ ''>'' @ ''7045'' @ ''</EventID>'' @ [])))
     (\<lparr>em_running = True, em_subscriptions = [], em_events_forwarded = 0\<rparr>, [])
   = (\<lparr>em_running = True, em_subscriptions = [], em_events_forwarded = 0\<rparr>, [])"
  by (rule qualified_event_dropped) (simp_all add: squote_def)

lemma filter_ignores_case_witness:
  "should_fire (fe_extension (fs_event_of ''C:'' 7 CREATED (wide (''Setup'' @ ''.'' @ ''EXE''))))
     (set_extension_filter [''.exe'', ''.Dll''] \<lparr>fm_ext_filter = [], fm_running = True, fm_events_forwarded = 0\<rparr>)"
  by (subst filter_ignores_case) (simp_all add: tolower_def tolower_char_def)

end
