(* ===== verification/EventBus.thy ===== *)
theory EventBus
  imports Std_Map "HOL-Library.AList"
begin

text \<open>
  \<^verbatim>\<open>core/event_bus/event_bus.h\<close>: the publish/subscribe bus. Handlers may themselves use the bus and several
  threads share it, so the model is a step relation in which every critical section of the source is one step:
  subscribing, cancelling, taking the snapshot of the handlers, queueing an event, taking one off the queue.
  A call of a handler is a step too; what the handler does to the bus are further steps.
\<close>

section \<open>State and critical sections\<close>

record ('h, 'e) event_bus =
  eb_handlers :: "(u64, 'h) std_map"
  eb_next_id :: u64
  eb_queue :: "'e list"
  eb_worker_started :: bool
  eb_stop_worker :: bool

definition new_event_bus :: "('h, 'e) event_bus" where
  "new_event_bus = \<lparr>eb_handlers = [], eb_next_id = 1, eb_queue = [], eb_worker_started = False, eb_stop_worker = False\<rparr>"

text \<open>A subscription handle; \<open>None\<close> once cancelled.\<close>

type_synonym subscription_handle = "u64 option"

definition subscribe :: "'h \<Rightarrow> ('h, 'e) event_bus \<Rightarrow> subscription_handle \<times> ('h, 'e) event_bus" where
  "subscribe h b =
     (Some (eb_next_id b), b\<lparr>eb_next_id := eb_next_id b + 1, eb_handlers := sm_assign (eb_next_id b) h (eb_handlers b)\<rparr>)"

definition unsubscribe :: "u64 \<Rightarrow> ('h, 'e) event_bus \<Rightarrow> ('h, 'e) event_bus" where
  "unsubscribe i b = b\<lparr>eb_handlers := sm_erase i (eb_handlers b)\<rparr>"

definition cancel :: "subscription_handle \<Rightarrow> ('h, 'e) event_bus \<Rightarrow> subscription_handle \<times> ('h, 'e) event_bus" where
  "cancel sub b = (None, case sub of Some i \<Rightarrow> unsubscribe i b | None \<Rightarrow> b)"

definition subscriber_count :: "('h, 'e) event_bus \<Rightarrow> nat" where
  "subscriber_count b = length (eb_handlers b)"

definition ensure_worker_running :: "('h, 'e) event_bus \<Rightarrow> bool \<times> ('h, 'e) event_bus" where
  "ensure_worker_running b =
     (if \<not> eb_worker_started b then (True, b\<lparr>eb_worker_started := True\<rparr>) else (False, b))"

definition push_event :: "'e \<Rightarrow> ('h, 'e) event_bus \<Rightarrow> ('h, 'e) event_bus" where
  "push_event e b = b\<lparr>eb_queue := eb_queue b @ [e]\<rparr>"

definition destroy_signal :: "('h, 'e) event_bus \<Rightarrow> ('h, 'e) event_bus" where
  "destroy_signal b = (if eb_worker_started b then b\<lparr>eb_stop_worker := True\<rparr> else b)"

text \<open>One wake-up of the worker: it sleeps on, leaves its loop, or takes the front event.\<close>

datatype 'e wakeup = Sleeps | Leaves | Takes 'e

definition worker_wakeup :: "('h, 'e) event_bus \<Rightarrow> 'e wakeup \<times> ('h, 'e) event_bus" where
  "worker_wakeup b =
     (if \<not> (eb_queue b \<noteq> [] \<or> eb_stop_worker b) then (Sleeps, b)
      else if eb_stop_worker b \<and> eb_queue b = [] then (Leaves, b)
      else (Takes (hd (eb_queue b)), b\<lparr>eb_queue := tl (eb_queue b)\<rparr>))"

section \<open>Interleavings\<close>

text \<open>Where a dispatch is: the snapshot not yet taken, or the handlers still to be called.\<close>

datatype ('h, 'e) dispatching = Snapshot_due 'e | Calls_due 'e "(u64 \<times> 'h) list"

datatype ('h, 'e) worker_state = Not_started | Waiting | Dispatching "('h, 'e) dispatching" | Exited

record ('h, 'e, 't) bus_system =
  bs_bus :: "('h, 'e) event_bus"
  bs_worker :: "('h, 'e) worker_state"
  bs_threads :: "('t \<times> ('h, 'e) dispatching) list"

datatype ('h, 'e, 't) bus_label =
    Subscribed 'h
  | Cancelled u64
  | Published 't 'e
  | Thread_snapshot 't
  | Thread_call 't u64 'h 'e
  | Thread_return 't
  | Ensured
  | Pushed 'e
  | Stopped
  | Taken 'e
  | Worker_snapshot 'e "(u64 \<times> 'h) list"
  | Worker_call u64 'h 'e
  | Worker_back
  | Worker_exit

inductive bus_step ::
    "('h, 'e, 't) bus_system \<Rightarrow> ('h, 'e, 't) bus_label \<Rightarrow> ('h, 'e, 't) bus_system \<Rightarrow> bool" where
  sub: "bus_step s (Subscribed h) (s\<lparr>bs_bus := snd (subscribe h (bs_bus s))\<rparr>)"
| unsub: "bus_step s (Cancelled i) (s\<lparr>bs_bus := snd (cancel (Some i) (bs_bus s))\<rparr>)"
| pub: "map_of (bs_threads s) t = None \<Longrightarrow>
    bus_step s (Published t e) (s\<lparr>bs_threads := (t, Snapshot_due e) # bs_threads s\<rparr>)"
| snap: "map_of (bs_threads s) t = Some (Snapshot_due e) \<Longrightarrow>
    bus_step s (Thread_snapshot t)
      (s\<lparr>bs_threads := (t, Calls_due e (eb_handlers (bs_bus s))) # AList.delete t (bs_threads s)\<rparr>)"
| call: "map_of (bs_threads s) t = Some (Calls_due e ((i, h) # cs)) \<Longrightarrow>
    bus_step s (Thread_call t i h e) (s\<lparr>bs_threads := (t, Calls_due e cs) # AList.delete t (bs_threads s)\<rparr>)"
| ret: "map_of (bs_threads s) t = Some (Calls_due e []) \<Longrightarrow>
    bus_step s (Thread_return t) (s\<lparr>bs_threads := AList.delete t (bs_threads s)\<rparr>)"
| ensure: "ensure_worker_running (bs_bus s) = (started, b) \<Longrightarrow>
    bus_step s Ensured (s\<lparr>bs_bus := b, bs_worker := (if started then Waiting else bs_worker s)\<rparr>)"
| push: "eb_worker_started (bs_bus s) \<Longrightarrow> bus_step s (Pushed e) (s\<lparr>bs_bus := push_event e (bs_bus s)\<rparr>)"
| stop: "bus_step s Stopped (s\<lparr>bs_bus := destroy_signal (bs_bus s)\<rparr>)"
| take_front: "bs_worker s = Waiting \<Longrightarrow> worker_wakeup (bs_bus s) = (Takes e, b) \<Longrightarrow>
    bus_step s (Taken e) (s\<lparr>bs_bus := b, bs_worker := Dispatching (Snapshot_due e)\<rparr>)"
| wsnap: "bs_worker s = Dispatching (Snapshot_due e) \<Longrightarrow>
    bus_step s (Worker_snapshot e (eb_handlers (bs_bus s)))
      (s\<lparr>bs_worker := Dispatching (Calls_due e (eb_handlers (bs_bus s)))\<rparr>)"
| wcall: "bs_worker s = Dispatching (Calls_due e ((i, h) # cs)) \<Longrightarrow>
    bus_step s (Worker_call i h e) (s\<lparr>bs_worker := Dispatching (Calls_due e cs)\<rparr>)"
| wback: "bs_worker s = Dispatching (Calls_due e []) \<Longrightarrow> bus_step s Worker_back (s\<lparr>bs_worker := Waiting\<rparr>)"
| wexit: "bs_worker s = Waiting \<Longrightarrow> worker_wakeup (bs_bus s) = (Leaves, b) \<Longrightarrow>
    bus_step s Worker_exit (s\<lparr>bs_bus := b, bs_worker := Exited\<rparr>)"

inductive bus_run ::
    "('h, 'e, 't) bus_system \<Rightarrow> ('h, 'e, 't) bus_label list \<Rightarrow> ('h, 'e, 't) bus_system \<Rightarrow> bool" where
  run_Nil: "bus_run s [] s"
| run_snoc: "bus_run s ls s' \<Longrightarrow> bus_step s' l s'' \<Longrightarrow> bus_run s (ls @ [l]) s''"

definition new_bus_system :: "('h, 'e, 't) bus_system" where
  "new_bus_system = \<lparr>bs_bus = new_event_bus, bs_worker = Not_started, bs_threads = []\<rparr>"

section \<open>What a run has queued, taken and called\<close>

fun pushed_by :: "('h, 'e, 't) bus_label \<Rightarrow> 'e list" where
  "pushed_by (Pushed e) = [e]"
| "pushed_by _ = []"

fun taken_by :: "('h, 'e, 't) bus_label \<Rightarrow> 'e list" where
  "taken_by (Taken e) = [e]"
| "taken_by _ = []"

fun snapshot_by :: "('h, 'e, 't) bus_label \<Rightarrow> ('e \<times> (u64 \<times> 'h) list) list" where
  "snapshot_by (Worker_snapshot e hs) = [(e, hs)]"
| "snapshot_by _ = []"

fun called_by :: "('h, 'e, 't) bus_label \<Rightarrow> (u64 \<times> 'h \<times> 'e) list" where
  "called_by (Worker_call i h e) = [(i, h, e)]"
| "called_by _ = []"

definition collect :: "('l \<Rightarrow> 'a list) \<Rightarrow> 'l list \<Rightarrow> 'a list" where
  "collect f ls = concat (map f ls)"

lemma collect_simps [simp]:
  "collect f [] = []" "collect f (l # ls) = f l @ collect f ls" "collect f (ls @ ks) = collect f ls @ collect f ks"
  by (simp_all add: collect_def)

text \<open>The calls a snapshot asks for, in the order of the subscription ids.\<close>

definition calls_of :: "'e \<times> (u64 \<times> 'h) list \<Rightarrow> (u64 \<times> 'h \<times> 'e) list" where
  "calls_of sn = map (\<lambda>(i, h). (i, h, fst sn)) (snd sn)"

fun due_calls :: "('h, 'e) worker_state \<Rightarrow> (u64 \<times> 'h \<times> 'e) list" where
  "due_calls (Dispatching (Calls_due e cs)) = calls_of (e, cs)"
| "due_calls _ = []"

fun due_snapshot :: "('h, 'e) worker_state \<Rightarrow> 'e list" where
  "due_snapshot (Dispatching (Snapshot_due e)) = [e]"
| "due_snapshot _ = []"

lemma calls_of_simps [simp]: "calls_of (e, []) = []" "calls_of (e, (i, h) # cs) = (i, h, e) # calls_of (e, cs)"
  by (simp_all add: calls_of_def)

section \<open>Invariants of a run\<close>

text \<open>The worker exists only once it was asked for, and leaves its loop only with an empty queue.\<close>

definition bus_inv :: "('h, 'e, 't) bus_system \<Rightarrow> bool" where
  "bus_inv s = (sm_ok (eb_handlers (bs_bus s)) \<and>
     (eb_worker_started (bs_bus s) = (bs_worker s \<noteq> Not_started)) \<and>
     (eb_stop_worker (bs_bus s) \<longrightarrow> eb_worker_started (bs_bus s)))"

lemmas bus_op_defs = subscribe_def unsubscribe_def cancel_def ensure_worker_running_def push_event_def
  destroy_signal_def worker_wakeup_def

lemma bus_inv_step: "bus_step s l s' \<Longrightarrow> bus_inv s \<Longrightarrow> bus_inv s'"
  by (induction rule: bus_step.induct) (auto simp: bus_inv_def bus_op_defs split: if_splits)

lemma bus_inv_run: "bus_run s ls s' \<Longrightarrow> bus_inv s \<Longrightarrow> bus_inv s'"
  by (induction rule: bus_run.induct) (auto intro: bus_inv_step)

lemma bus_inv_new [simp]: "bus_inv new_bus_system"
  by (simp add: bus_inv_def new_bus_system_def new_event_bus_def)

text \<open>What one step moves between the queue, the worker and the log.\<close>

definition bus_log :: "('h, 'e, 't) bus_label list \<Rightarrow> ('h, 'e, 't) bus_system \<Rightarrow> bool" where
  "bus_log ls s =
     (collect pushed_by ls = collect taken_by ls @ eb_queue (bs_bus s) \<and>
      collect taken_by ls = map fst (collect snapshot_by ls) @ due_snapshot (bs_worker s) \<and>
      concat (map calls_of (collect snapshot_by ls)) = collect called_by ls @ due_calls (bs_worker s) \<and>
      list_all (\<lambda>sn. sm_ok (snd sn)) (collect snapshot_by ls))"

lemma bus_log_step: "bus_step s l s' \<Longrightarrow> bus_inv s \<Longrightarrow> bus_log ls s \<Longrightarrow> bus_log (ls @ [l]) s'"
  by (induction rule: bus_step.induct)
    (auto simp: bus_log_def bus_inv_def bus_op_defs split: if_splits)

lemma bus_log_run: "bus_run s ls s' \<Longrightarrow> bus_inv s \<Longrightarrow> bus_log [] s \<Longrightarrow> bus_log ls s'"
  by (induction rule: bus_run.induct) (auto intro: bus_log_step bus_inv_run)

text \<open>
  C22. However the threads interleave, the worker takes the events in the order in which they were queued and
  misses none, and for each calls exactly the handlers of one snapshot, in the order of their ids.
\<close>

theorem async_fifo:
  assumes "bus_run new_bus_system ls s"
  shows "collect pushed_by ls = map fst (collect snapshot_by ls) @ due_snapshot (bs_worker s) @ eb_queue (bs_bus s)
    \<and> concat (map calls_of (collect snapshot_by ls)) = collect called_by ls @ due_calls (bs_worker s)
    \<and> list_all (\<lambda>sn. sm_ok (snd sn)) (collect snapshot_by ls)"
  using bus_log_run [OF assms]
  by (simp add: bus_log_def) (simp add: new_bus_system_def new_event_bus_def)

section \<open>Draining\<close>

fun worker_label :: "('h, 'e, 't) bus_label \<Rightarrow> bool" where
  "worker_label (Taken e) = True"
| "worker_label (Worker_snapshot e hs) = True"
| "worker_label (Worker_call i h e) = True"
| "worker_label Worker_back = True"
| "worker_label Worker_exit = True"
| "worker_label l = False"

text \<open>An upper bound of the steps the worker has left.\<close>

fun worker_left :: "nat \<Rightarrow> ('h, 'e) worker_state \<Rightarrow> nat" where
  "worker_left n Not_started = 0"
| "worker_left n Waiting = 1"
| "worker_left n (Dispatching (Snapshot_due e)) = n + 3"
| "worker_left n (Dispatching (Calls_due e cs)) = length cs + 2"
| "worker_left n Exited = 0"

definition steps_left :: "('h, 'e, 't) bus_system \<Rightarrow> nat" where
  "steps_left s =
     (let n = subscriber_count (bs_bus s)
      in worker_left n (bs_worker s) + length (eb_queue (bs_bus s)) * (n + 4))"

lemma worker_step_decreases:
  "bus_step s l s' \<Longrightarrow> worker_label l \<Longrightarrow> steps_left s' < steps_left s"
proof (induction rule: bus_step.induct)
  case (take_front s e b)
  then show ?case
    by (cases "eb_queue (bs_bus s)") (auto simp: steps_left_def subscriber_count_def worker_wakeup_def Let_def split: if_splits)
qed (auto simp: steps_left_def subscriber_count_def worker_wakeup_def Let_def split: if_splits)

lemma worker_step_keeps:
  "bus_step s l s' \<Longrightarrow> worker_label l \<Longrightarrow> eb_stop_worker (bs_bus s') = eb_stop_worker (bs_bus s) \<and> pushed_by l = []"
  by (induction rule: bus_step.induct) (auto simp: worker_wakeup_def split: if_splits)

lemma worker_can_step:
  assumes "eb_stop_worker (bs_bus s)" "bs_worker s \<noteq> Not_started" "bs_worker s \<noteq> Exited"
  shows "\<exists>l s'. bus_step s l s' \<and> worker_label l \<and> bs_worker s' \<noteq> Not_started"
proof (cases "bs_worker s")
  case Waiting
  show ?thesis
  proof (cases "eb_queue (bs_bus s)")
    case Nil
    with assms(1) have "worker_wakeup (bs_bus s) = (Leaves, bs_bus s)" by (simp add: worker_wakeup_def)
    from wexit [OF Waiting this] show ?thesis by fastforce
  next
    case (Cons e q)
    then have "worker_wakeup (bs_bus s) = (Takes e, (bs_bus s)\<lparr>eb_queue := q\<rparr>)"
      by (simp add: worker_wakeup_def)
    from take_front [OF Waiting this] show ?thesis by fastforce
  qed
next
  case (Dispatching d)
  show ?thesis
  proof (cases d)
    case (Snapshot_due e)
    with Dispatching wsnap [of s e] show ?thesis by fastforce
  next
    case (Calls_due e cs)
    show ?thesis
    proof (cases cs)
      case Nil
      with Dispatching Calls_due wback [of s e] show ?thesis by fastforce
    next
      case (Cons c cs')
      with Dispatching Calls_due wcall [of s e "fst c" "snd c" cs'] show ?thesis by fastforce
    qed
  qed
qed (use assms in simp_all)

lemma bus_run_Cons: "bus_run s' ls s'' \<Longrightarrow> bus_step s l s' \<Longrightarrow> bus_run s (l # ls) s''"
proof (induction rule: bus_run.induct)
  case (run_Nil s')
  then show ?case using run_snoc [OF bus_run.run_Nil] by fastforce
next
  case (run_snoc s' ls t l' t')
  then show ?case using bus_run.run_snoc [of s "l # ls" t l' t'] by simp
qed

lemma bus_run_append: "bus_run s' ks s'' \<Longrightarrow> bus_run s ls s' \<Longrightarrow> bus_run s (ls @ ks) s''"
proof (induction rule: bus_run.induct)
  case (run_snoc s' ks t l t')
  then show ?case using bus_run.run_snoc [of s "ls @ ks" t l t'] by simp
qed simp

lemma worker_exits:
  assumes "eb_stop_worker (bs_bus s)" "bs_worker s \<noteq> Not_started"
  shows "\<exists>ks s'. bus_run s ks s' \<and> list_all worker_label ks \<and> length ks \<le> steps_left s \<and> bs_worker s' = Exited"
  using assms
proof (induction "steps_left s" arbitrary: s rule: less_induct)
  case less
  show ?case
  proof (cases "bs_worker s = Exited")
    case True
    then show ?thesis using run_Nil by (intro exI [of _ "[]"] exI [of _ s]) simp
  next
    case False
    with worker_can_step less.prems obtain l s1
      where l: "bus_step s l s1" "worker_label l" "bs_worker s1 \<noteq> Not_started" by blast
    from worker_step_decreases [OF l(1,2)] have lt: "steps_left s1 < steps_left s" .
    have "eb_stop_worker (bs_bus s1)" using worker_step_keeps [OF l(1,2)] less.prems(1) by simp
    from less.hyps [OF lt this l(3)] obtain ks s'
      where ks: "bus_run s1 ks s'" "list_all worker_label ks" "length ks \<le> steps_left s1" "bs_worker s' = Exited" by blast
    from bus_run_Cons [OF ks(1) l(1)] ks l(2) lt show ?thesis
      by (intro exI [of _ "l # ks"] exI [of _ s']) simp
  qed
qed

text \<open>Once the worker has left its loop nothing is taken; a run of the worker alone that ends has emptied the queue.\<close>

lemma exit_queue_empty:
  "bus_run s ks s' \<Longrightarrow> list_all worker_label ks \<Longrightarrow> bs_worker s' = Exited \<Longrightarrow> bs_worker s \<noteq> Exited \<Longrightarrow>
   eb_queue (bs_bus s') = []"
proof (induction rule: bus_run.induct)
  case (run_snoc s ks s1 l s2)
  from run_snoc.hyps(2) run_snoc.prems run_snoc.IH show ?case
    by (cases rule: bus_step.cases) (auto simp: worker_wakeup_def split: if_splits)
qed simp

lemma collect_worker: "bus_run s ks s' \<Longrightarrow> list_all worker_label ks \<Longrightarrow> collect pushed_by ks = []"
  by (induction rule: bus_run.induct) (auto dest: worker_step_keeps)

text \<open>
  C23. The destructor returns: whenever it is called while the worker runs, the worker reaches the end of its loop
  within a bounded number of its own steps, and by then every event ever queued has been dispatched.
\<close>

theorem destructor_drains:
  assumes "bus_run new_bus_system ls s" "eb_stop_worker (bs_bus s)" "bs_worker s \<noteq> Exited"
  shows "\<exists>ks s'. bus_run s ks s' \<and> list_all worker_label ks \<and> length ks \<le> steps_left s
    \<and> bs_worker s' = Exited \<and> eb_queue (bs_bus s') = []
    \<and> concat (map calls_of (collect snapshot_by (ls @ ks))) = collect called_by (ls @ ks)
    \<and> map fst (collect snapshot_by (ls @ ks)) = collect pushed_by ls"
proof -
  from bus_inv_run [OF assms(1) bus_inv_new] assms(2) have "bs_worker s \<noteq> Not_started" by (auto simp: bus_inv_def)
  from worker_exits [OF assms(2) this] obtain ks s'
    where ks: "bus_run s ks s'" "list_all worker_label ks" "length ks \<le> steps_left s" "bs_worker s' = Exited" by blast
  from exit_queue_empty [OF ks(1,2,4) assms(3)] have q: "eb_queue (bs_bus s') = []" .
  from bus_log_run [OF bus_run_append [OF ks(1) assms(1)]] have "bus_log (ls @ ks) s'"
    by (simp add: bus_log_def) (simp add: new_bus_system_def new_event_bus_def)
  with ks q collect_worker [OF ks(1,2)] show ?thesis
    by (intro exI [of _ ks] exI [of _ s']) (simp add: bus_log_def)
qed

section \<open>A run\<close>

text \<open>A handler subscribes, an event is queued and the destructor is called.\<close>

definition demo_bus_labels :: "(string, nat, nat) bus_label list" where
  "demo_bus_labels = [Subscribed ''log'', Ensured, Pushed 5, Stopped]"

definition demo_bus :: "(string, nat, nat) bus_system" where
  "demo_bus = \<lparr>bs_bus = \<lparr>eb_handlers = [(1, ''log'')], eb_next_id = 2, eb_queue = [5], eb_worker_started = True,
     eb_stop_worker = True\<rparr>, bs_worker = Waiting, bs_threads = []\<rparr>"

lemma demo_bus_run: "bus_run new_bus_system demo_bus_labels demo_bus"
proof -
  let ?b0 = "new_bus_system :: (string, nat, nat) bus_system"
  let ?b1 = "?b0\<lparr>bs_bus := snd (subscribe ''log'' (bs_bus ?b0))\<rparr>"
  let ?e = "ensure_worker_running (bs_bus ?b1)"
  let ?b2 = "?b1\<lparr>bs_bus := snd ?e, bs_worker := (if fst ?e then Waiting else bs_worker ?b1)\<rparr>"
  let ?b3 = "?b2\<lparr>bs_bus := push_event 5 (bs_bus ?b2)\<rparr>"
  let ?b4 = "?b3\<lparr>bs_bus := destroy_signal (bs_bus ?b3)\<rparr>"
  have "bus_run ?b0 ([] @ [Subscribed ''log'']) ?b1" by (rule run_snoc [OF run_Nil bus_step.sub])
  moreover have "bus_step ?b1 Ensured ?b2" by (rule bus_step.ensure) simp
  ultimately have "bus_run ?b0 (([] @ [Subscribed ''log'']) @ [Ensured]) ?b2" by (rule run_snoc)
  moreover have "bus_step ?b2 (Pushed 5) ?b3"
    by (rule bus_step.push) (simp add: new_bus_system_def new_event_bus_def bus_op_defs)
  ultimately have "bus_run ?b0 ((([] @ [Subscribed ''log'']) @ [Ensured]) @ [Pushed 5]) ?b3" by (rule run_snoc)
  moreover have "bus_step ?b3 Stopped ?b4" by (rule bus_step.stop)
  ultimately have "bus_run ?b0 (((([] @ [Subscribed ''log'']) @ [Ensured]) @ [Pushed 5]) @ [Stopped]) ?b4" by (rule run_snoc)
  moreover have "?b4 = demo_bus"
    by (simp add: demo_bus_def new_bus_system_def new_event_bus_def bus_op_defs)
  ultimately show ?thesis by (simp add: demo_bus_labels_def)
qed

lemma async_fifo_witness:
  "collect pushed_by demo_bus_labels = map fst (collect snapshot_by demo_bus_labels) @ [] @ [5]"
  using async_fifo [OF demo_bus_run] by (simp add: demo_bus_def)

lemma destructor_drains_witness: "\<exists>ks s'. bus_run demo_bus ks s' \<and> length ks \<le> 6 \<and> bs_worker s' = Exited"
  using destructor_drains [OF demo_bus_run] by (auto simp: demo_bus_def steps_left_def subscriber_count_def)

text \<open>A handler whose subscription is cancelled after a snapshot was taken is still called.\<close>

lemma cancelled_handler_called:
  assumes "bs_worker s = Dispatching (Calls_due e [(i, h)])"
  shows "\<exists>s1 s2. bus_step s (Cancelled i) s1 \<and> map_of (eb_handlers (bs_bus s1)) i = None \<and> bus_step s1 (Worker_call i h e) s2"
proof -
  let ?s1 = "s\<lparr>bs_bus := snd (cancel (Some i) (bs_bus s))\<rparr>"
  have "bs_worker ?s1 = Dispatching (Calls_due e ((i, h) # []))" using assms by simp
  from wcall [OF this] have "\<exists>s2. bus_step ?s1 (Worker_call i h e) s2" by blast
  then show ?thesis
    using unsub [of s i] by (auto simp: cancel_def unsubscribe_def map_of_sm_erase)
qed

end
