(* ===== verification/SystemConfig.thy ===== *)
theory SystemConfig
  imports Json
begin

text \<open>
  \<^verbatim>\<open>core/config\<close>: loading the configuration over the defaults and writing it back. The parser and the printer
  are arguments; a file is what reading it gives, \<open>None\<close> when it does not exist, \<open>Some None\<close> when it cannot be opened.
\<close>

record system_config =
  sc_ollama_host :: string
  sc_ollama_port :: int
  sc_fast_model :: string
  sc_heavy_model :: string
  sc_chaos_threshold :: real
  sc_rule03_failure_threshold :: int
  sc_rule03_critical_threshold :: int
  sc_escalate_confidence :: real
  sc_firewall_ttl_default_s :: int
  sc_chaos_window_size :: int
  sc_tick_interval_ms :: int
  sc_fast_timeout_ms :: int
  sc_heavy_timeout_ms :: int
  sc_sandbox_root :: string
  sc_quarantine_dir :: string
  sc_agents_dir :: string
  sc_skills_dir :: string
  sc_clamav_enabled :: bool
  sc_firewall_enabled :: bool
  sc_ai_triage_enabled :: bool
  sc_agents_enabled :: bool
  sc_pipeline_enabled :: bool
  sc_unlock_threshold :: int

definition default_config :: system_config where
  "default_config =
    \<lparr>sc_ollama_host = ''127.0.0.1'',
     sc_ollama_port = 11434,
     sc_fast_model = ''granite3.1-moe:3b'',
     sc_heavy_model = ''granite3.1-dense:8b'',
     sc_chaos_threshold = 9 / 10,
     sc_rule03_failure_threshold = 5,
     sc_rule03_critical_threshold = 10,
     sc_escalate_confidence = 7 / 10,
     sc_firewall_ttl_default_s = 3600,
     sc_chaos_window_size = 16,
     sc_tick_interval_ms = 500,
     sc_fast_timeout_ms = 15000,
     sc_heavy_timeout_ms = 90000,
     sc_sandbox_root = [],
     sc_quarantine_dir = [],
     sc_agents_dir = ''agents/definitions'',
     sc_skills_dir = ''agents/skills'',
     sc_clamav_enabled = True,
     sc_firewall_enabled = True,
     sc_ai_triage_enabled = True,
     sc_agents_enabled = True,
     sc_pipeline_enabled = True,
     sc_unlock_threshold = 3\<rparr>"

datatype config_error = Cannot_open string | Config_parse_error string | Config_type_error

text \<open>\<^verbatim>\<open>if (j.contains(key)) cfg.field = j[key].get<T>();\<close>\<close>

definition override ::
    "(json \<Rightarrow> json_error + 'a) \<Rightarrow> string \<Rightarrow> ('a \<Rightarrow> system_config \<Rightarrow> system_config) \<Rightarrow> json \<Rightarrow> system_config
       \<Rightarrow> config_error + system_config" where
  "override get key put j cfg =
     (case json_field key j of
        None \<Rightarrow> Inr cfg
      | Some v \<Rightarrow> (case get v of Inl e \<Rightarrow> Inl Config_type_error | Inr x \<Rightarrow> Inr (put x cfg)))"

definition read_network :: "json \<Rightarrow> system_config \<Rightarrow> config_error + system_config" where
  "read_network j cfg =
     and_then (override get_string ''ollama_host'' (\<lambda>x c. c\<lparr>sc_ollama_host := x\<rparr>) j cfg) (\<lambda>cfg.
     and_then (override get_uint16 ''ollama_port'' (\<lambda>x c. c\<lparr>sc_ollama_port := x\<rparr>) j cfg) (\<lambda>cfg.
     and_then (override get_string ''fast_model'' (\<lambda>x c. c\<lparr>sc_fast_model := x\<rparr>) j cfg) (\<lambda>cfg.
     override get_string ''heavy_model'' (\<lambda>x c. c\<lparr>sc_heavy_model := x\<rparr>) j cfg)))"

definition read_thresholds :: "json \<Rightarrow> system_config \<Rightarrow> config_error + system_config" where
  "read_thresholds j cfg =
     and_then (override get_double ''chaos_threshold'' (\<lambda>x c. c\<lparr>sc_chaos_threshold := x\<rparr>) j cfg) (\<lambda>cfg.
     and_then (override get_int ''rule03_failure_threshold'' (\<lambda>x c. c\<lparr>sc_rule03_failure_threshold := x\<rparr>) j cfg) (\<lambda>cfg.
     and_then (override get_int ''rule03_critical_threshold'' (\<lambda>x c. c\<lparr>sc_rule03_critical_threshold := x\<rparr>) j cfg) (\<lambda>cfg.
     override get_double ''escalate_confidence'' (\<lambda>x c. c\<lparr>sc_escalate_confidence := x\<rparr>) j cfg)))"

definition read_timing :: "json \<Rightarrow> system_config \<Rightarrow> config_error + system_config" where
  "read_timing j cfg =
     and_then (override get_int ''firewall_ttl_default_s'' (\<lambda>x c. c\<lparr>sc_firewall_ttl_default_s := x\<rparr>) j cfg) (\<lambda>cfg.
     and_then (override get_int ''chaos_window_size'' (\<lambda>x c. c\<lparr>sc_chaos_window_size := x\<rparr>) j cfg) (\<lambda>cfg.
     and_then (override get_int ''tick_interval_ms'' (\<lambda>x c. c\<lparr>sc_tick_interval_ms := x\<rparr>) j cfg) (\<lambda>cfg.
     and_then (override get_int ''fast_timeout_ms'' (\<lambda>x c. c\<lparr>sc_fast_timeout_ms := x\<rparr>) j cfg) (\<lambda>cfg.
     override get_int ''heavy_timeout_ms'' (\<lambda>x c. c\<lparr>sc_heavy_timeout_ms := x\<rparr>) j cfg))))"

definition read_paths :: "json \<Rightarrow> system_config \<Rightarrow> config_error + system_config" where
  "read_paths j cfg =
     and_then (override get_string ''sandbox_root'' (\<lambda>x c. c\<lparr>sc_sandbox_root := x\<rparr>) j cfg) (\<lambda>cfg.
     and_then (override get_string ''quarantine_dir'' (\<lambda>x c. c\<lparr>sc_quarantine_dir := x\<rparr>) j cfg) (\<lambda>cfg.
     and_then (override get_string ''agents_dir'' (\<lambda>x c. c\<lparr>sc_agents_dir := x\<rparr>) j cfg) (\<lambda>cfg.
     override get_string ''skills_dir'' (\<lambda>x c. c\<lparr>sc_skills_dir := x\<rparr>) j cfg)))"

definition read_flags :: "json \<Rightarrow> system_config \<Rightarrow> config_error + system_config" where
  "read_flags j cfg =
     and_then (override get_bool ''clamav_enabled'' (\<lambda>x c. c\<lparr>sc_clamav_enabled := x\<rparr>) j cfg) (\<lambda>cfg.
     and_then (override get_bool ''firewall_enabled'' (\<lambda>x c. c\<lparr>sc_firewall_enabled := x\<rparr>) j cfg) (\<lambda>cfg.
     and_then (override get_bool ''ai_triage_enabled'' (\<lambda>x c. c\<lparr>sc_ai_triage_enabled := x\<rparr>) j cfg) (\<lambda>cfg.
     and_then (override get_bool ''agents_enabled'' (\<lambda>x c. c\<lparr>sc_agents_enabled := x\<rparr>) j cfg) (\<lambda>cfg.
     and_then (override get_bool ''pipeline_enabled'' (\<lambda>x c. c\<lparr>sc_pipeline_enabled := x\<rparr>) j cfg) (\<lambda>cfg.
     override get_int ''unlock_threshold'' (\<lambda>x c. c\<lparr>sc_unlock_threshold := x\<rparr>) j cfg)))))"

definition read_config :: "json \<Rightarrow> config_error + system_config" where
  "read_config j =
     and_then (read_network j default_config) (\<lambda>cfg. and_then (read_thresholds j cfg) (\<lambda>cfg.
     and_then (read_timing j cfg) (\<lambda>cfg. and_then (read_paths j cfg) (read_flags j))))"

definition load_config ::
    "(string \<Rightarrow> json option) \<Rightarrow> (string \<Rightarrow> string option option) \<Rightarrow> string \<Rightarrow> config_error + system_config" where
  "load_config parse files path =
     (case files path of
        None \<Rightarrow> Inr default_config
      | Some None \<Rightarrow> Inl (Cannot_open path)
      | Some (Some content) \<Rightarrow>
          (case parse content of None \<Rightarrow> Inl (Config_parse_error path) | Some j \<Rightarrow> read_config j))"

definition config_json :: "system_config \<Rightarrow> json" where
  "config_json cfg =
     JObject
       [(''ollama_host'', JString (sc_ollama_host cfg)),
        (''ollama_port'', JInt (sc_ollama_port cfg)),
        (''fast_model'', JString (sc_fast_model cfg)),
        (''heavy_model'', JString (sc_heavy_model cfg)),
        (''chaos_threshold'', JReal (sc_chaos_threshold cfg)),
        (''rule03_failure_threshold'', JInt (sc_rule03_failure_threshold cfg)),
        (''rule03_critical_threshold'', JInt (sc_rule03_critical_threshold cfg)),
        (''escalate_confidence'', JReal (sc_escalate_confidence cfg)),
        (''firewall_ttl_default_s'', JInt (sc_firewall_ttl_default_s cfg)),
        (''chaos_window_size'', JInt (sc_chaos_window_size cfg)),
        (''tick_interval_ms'', JInt (sc_tick_interval_ms cfg)),
        (''fast_timeout_ms'', JInt (sc_fast_timeout_ms cfg)),
        (''heavy_timeout_ms'', JInt (sc_heavy_timeout_ms cfg)),
        (''sandbox_root'', JString (sc_sandbox_root cfg)),
        (''quarantine_dir'', JString (sc_quarantine_dir cfg)),
        (''agents_dir'', JString (sc_agents_dir cfg)),
        (''skills_dir'', JString (sc_skills_dir cfg)),
        (''clamav_enabled'', JBool (sc_clamav_enabled cfg)),
        (''firewall_enabled'', JBool (sc_firewall_enabled cfg)),
        (''ai_triage_enabled'', JBool (sc_ai_triage_enabled cfg)),
        (''agents_enabled'', JBool (sc_agents_enabled cfg)),
        (''pipeline_enabled'', JBool (sc_pipeline_enabled cfg)),
        (''unlock_threshold'', JInt (sc_unlock_threshold cfg))]"

definition save_config ::
    "(json \<Rightarrow> string) \<Rightarrow> system_config \<Rightarrow> string \<Rightarrow> (string \<Rightarrow> string option option) \<Rightarrow> string \<Rightarrow> string option option" where
  "save_config dump cfg path files = files(path := Some (Some (dump (config_json cfg) @ nl)))"

section \<open>Round trip and errors\<close>

text \<open>The values a configuration can hold: the integer types of the source.\<close>

definition int32_ok :: "int \<Rightarrow> bool" where
  "int32_ok i = (- (2 ^ 31) \<le> i \<and> i < 2 ^ 31)"

definition config_ok :: "system_config \<Rightarrow> bool" where
  "config_ok cfg =
     (0 \<le> sc_ollama_port cfg \<and> sc_ollama_port cfg < 2 ^ 16 \<and>
      int32_ok (sc_rule03_failure_threshold cfg) \<and> int32_ok (sc_rule03_critical_threshold cfg) \<and> int32_ok (sc_firewall_ttl_default_s cfg) \<and> int32_ok (sc_chaos_window_size cfg) \<and> int32_ok (sc_tick_interval_ms cfg) \<and> int32_ok (sc_fast_timeout_ms cfg) \<and> int32_ok (sc_heavy_timeout_ms cfg) \<and> int32_ok (sc_unlock_threshold cfg))"

lemma override_present:
  "json_field key j = Some v \<Longrightarrow> get v = Inr x \<Longrightarrow> override get key put j cfg = Inr (put x cfg)"
  by (simp add: override_def)

lemma read_network_back:
  "config_ok c \<Longrightarrow> read_network (config_json c) d = Inr (d\<lparr>sc_ollama_host := sc_ollama_host c, sc_ollama_port := sc_ollama_port c, sc_fast_model := sc_fast_model c, sc_heavy_model := sc_heavy_model c\<rparr>)"
  by (simp add: read_network_def override_def config_json_def config_ok_def int32_ok_def)

lemma read_thresholds_back:
  "config_ok c \<Longrightarrow> read_thresholds (config_json c) d = Inr (d\<lparr>sc_chaos_threshold := sc_chaos_threshold c, sc_rule03_failure_threshold := sc_rule03_failure_threshold c, sc_rule03_critical_threshold := sc_rule03_critical_threshold c, sc_escalate_confidence := sc_escalate_confidence c\<rparr>)"
  by (simp add: read_thresholds_def override_def config_json_def config_ok_def int32_ok_def)

lemma read_timing_back:
  "config_ok c \<Longrightarrow> read_timing (config_json c) d = Inr (d\<lparr>sc_firewall_ttl_default_s := sc_firewall_ttl_default_s c, sc_chaos_window_size := sc_chaos_window_size c, sc_tick_interval_ms := sc_tick_interval_ms c, sc_fast_timeout_ms := sc_fast_timeout_ms c, sc_heavy_timeout_ms := sc_heavy_timeout_ms c\<rparr>)"
  by (simp add: read_timing_def override_def config_json_def config_ok_def int32_ok_def)

lemma read_paths_back:
  "config_ok c \<Longrightarrow> read_paths (config_json c) d = Inr (d\<lparr>sc_sandbox_root := sc_sandbox_root c, sc_quarantine_dir := sc_quarantine_dir c, sc_agents_dir := sc_agents_dir c, sc_skills_dir := sc_skills_dir c\<rparr>)"
  by (simp add: read_paths_def override_def config_json_def config_ok_def int32_ok_def)

lemma read_flags_back:
  "config_ok c \<Longrightarrow> read_flags (config_json c) d = Inr (d\<lparr>sc_clamav_enabled := sc_clamav_enabled c, sc_firewall_enabled := sc_firewall_enabled c, sc_ai_triage_enabled := sc_ai_triage_enabled c, sc_agents_enabled := sc_agents_enabled c, sc_pipeline_enabled := sc_pipeline_enabled c, sc_unlock_threshold := sc_unlock_threshold c\<rparr>)"
  by (simp add: read_flags_def override_def config_json_def config_ok_def int32_ok_def)

text \<open>
  What \<^verbatim>\<open>save_config\<close> writes, \<^verbatim>\<open>load_config\<close> reads back unchanged, whatever the defaults, provided the parser
  reads what the printer printed.
\<close>

theorem config_roundtrip:
  assumes "parse (dump (config_json cfg) @ nl) = Some (config_json cfg)" "config_ok cfg"
  shows "load_config parse (save_config dump cfg path files) path = Inr cfg"
  using assms
  by (simp add: load_config_def save_config_def read_config_def read_network_back read_thresholds_back
      read_timing_back read_paths_back read_flags_back)

lemmas read_config_defs = read_config_def read_network_def read_thresholds_def read_timing_def read_paths_def
  read_flags_def override_def

lemma read_config_blank: "(\<And>k. json_field k j = None) \<Longrightarrow> read_config j = Inr default_config"
  by (simp add: read_config_defs)

lemma load_config_cases:
  "load_config parse files path =
     (case files path of
        None \<Rightarrow> Inr default_config
      | Some None \<Rightarrow> Inl (Cannot_open path)
      | Some (Some content) \<Rightarrow>
          (case parse content of
             None \<Rightarrow> Inl (Config_parse_error path)
           | Some (JObject kvs) \<Rightarrow> read_config (JObject kvs)
           | Some _ \<Rightarrow> Inr default_config))"
proof (cases "files path")
  case (Some c)
  show ?thesis
  proof (cases "c = None \<or> parse (the c) = None")
    case False
    then obtain t j where "c = Some t" "parse t = Some j" by auto
    with Some show ?thesis by (cases j) (simp_all add: load_config_def read_config_blank)
  qed (cases c; auto simp: Some load_config_def)
qed (simp add: load_config_def)

lemma read_config_type_error: "read_config (JObject [(''ollama_port'', JString p)]) = Inl Config_type_error"
  by (simp add: read_config_defs)

lemma read_config_wide_port:
  "read_config (JObject [(''ollama_port'', JInt 70000)]) = Inr (default_config\<lparr>sc_ollama_port := 4464\<rparr>)"
  by (simp add: read_config_defs to_u16_def)

text \<open>
  A missing file and a JSON text that is not an object both load silently as the defaults; a text that does not
  parse is an error; a known key of the wrong type is the parser's type error, not the documented one.
\<close>

theorem config_load_outcomes:
  "load_config parse files path =
     (case files path of
        None \<Rightarrow> Inr default_config
      | Some None \<Rightarrow> Inl (Cannot_open path)
      | Some (Some content) \<Rightarrow>
          (case parse content of
             None \<Rightarrow> Inl (Config_parse_error path)
           | Some (JObject kvs) \<Rightarrow> read_config (JObject kvs)
           | Some _ \<Rightarrow> Inr default_config))
   \<and> read_config (JObject [(''ollama_port'', JString p)]) = Inl Config_type_error
   \<and> read_config (JObject [(''ollama_port'', JInt 70000)]) = Inr (default_config\<lparr>sc_ollama_port := 4464\<rparr>)"
  by (intro conjI load_config_cases read_config_type_error read_config_wide_port)

lemma config_roundtrip_witness:
  "load_config (\<lambda>_. Some (config_json default_config)) (save_config (\<lambda>_. []) default_config ''config.json'' Map.empty) ''config.json''
   = Inr default_config"
  by (rule config_roundtrip) (simp_all add: config_ok_def int32_ok_def default_config_def)

end
