(* ===== verification/Clamd.thy ===== *)
theory Clamd
  imports Interfaces Cxx_Strings
begin

text \<open>
  \<^verbatim>\<open>core/clamd\<close>: scanning through the clamd daemon. A connection is a script: whether it is made, what each
  \<^verbatim>\<open>send\<close> returns, and the bytes received before the peer closes; a script of sends that ends stands for a
  failing call. The model keeps the bytes that went over the wire, so that the framing can be read back.
\<close>

section \<open>Results\<close>

datatype scan_status = SCAN_CLEAN | SCAN_INFECTED | SCAN_ERROR

fun scan_status_name :: "scan_status \<Rightarrow> string" where
  "scan_status_name SCAN_CLEAN = ''CLEAN''"
| "scan_status_name SCAN_INFECTED = ''INFECTED''"
| "scan_status_name SCAN_ERROR = ''ERROR''"

record scan_result =
  sn_status :: scan_status
  sn_virus_name :: string
  sn_raw_response :: string
  sn_file_path :: string
  sn_duration_ms :: int
  sn_audit_entry_id :: string

section \<open>The connection\<close>

record clamd_io =
  ci_connected :: bool
  ci_sends :: "int list"
  ci_received :: string

fun send_bytes :: "bytes \<Rightarrow> int list \<Rightarrow> bool \<times> bytes \<times> int list" where
  "send_bytes [] script = (True, [], script)"
| "send_bytes (d # ds) [] = (False, [], [])"
| "send_bytes (d # ds) (n # script) =
     (if n \<le> 0 then (False, [], script)
      else
        let (ok, wire, rest) = send_bytes (drop (nat n) (d # ds)) script
        in (ok, take (nat n) (d # ds) @ wire, rest))"

definition recv_line :: "string \<Rightarrow> string" where
  "recv_line received =
     (let line = takeWhile (\<lambda>c. c \<noteq> CHR 0x0A) received
      in if line \<noteq> [] \<and> last line = CHR 0x0D then butlast line else line)"

section \<open>INSTREAM\<close>

definition be32 :: "nat \<Rightarrow> bytes" where
  "be32 n = [of_nat (n div 2 ^ 24), of_nat (n div 2 ^ 16), of_nat (n div 2 ^ 8), of_nat n]"

definition ascii :: "string \<Rightarrow> bytes" where
  "ascii s = map (\<lambda>c. of_nat (of_char c)) s"

definition INSTREAM_COMMAND :: bytes where
  "INSTREAM_COMMAND = ascii ''zINSTREAM'' @ [0]"

definition PING_COMMAND :: bytes where
  "PING_COMMAND = ascii ''zPING'' @ [0]"

definition CHUNK :: nat where
  "CHUNK = 4096"

text \<open>Sending continues only while every send succeeds.\<close>

definition then_send :: "bytes \<Rightarrow> bool \<times> bytes \<times> int list \<Rightarrow> bool \<times> bytes \<times> int list" where
  "then_send data = (\<lambda>(ok, wire, script).
     if \<not> ok then (False, wire, script)
     else let (ok', wire', rest) = send_bytes data script in (ok', wire @ wire', rest))"

function send_chunks :: "bytes \<Rightarrow> bool \<times> bytes \<times> int list \<Rightarrow> bool \<times> bytes \<times> int list" where
  "send_chunks data c =
     (if data = [] then c
      else
        let csz = min CHUNK (length data)
        in send_chunks (drop csz data) (then_send (take csz data) (then_send (be32 csz) c)))"
  by pat_completeness auto
termination by (relation "measure (length \<circ> fst)") (auto simp: CHUNK_def)

declare send_chunks.simps [simp del]

definition send_instream :: "bytes \<Rightarrow> int list \<Rightarrow> bool \<times> bytes \<times> int list" where
  "send_instream data script =
     then_send (be32 0) (send_chunks data (then_send INSTREAM_COMMAND (True, [], script)))"

definition do_instream :: "clamd_io \<Rightarrow> bytes \<Rightarrow> string" where
  "do_instream io data = (if fst (send_instream data (ci_sends io)) then recv_line (ci_received io) else [])"

section \<open>Verdicts\<close>

definition rfind_sub :: "string \<Rightarrow> string \<Rightarrow> nat option" where
  "rfind_sub p s = (case find_sub (rev p) (rev s) of None \<Rightarrow> None | Some k \<Rightarrow> Some (length s - length p - k))"

text \<open>\<^verbatim>\<open>substr\<close> with a length that wraps below zero reads to the end.\<close>

definition virus_name_of :: "string \<Rightarrow> string" where
  "virus_name_of raw =
     (case (find_sub '': '' raw, rfind_sub '' FOUND'' raw) of
        (Some colon, Some found) \<Rightarrow>
          if colon + 2 \<le> found then take (found - (colon + 2)) (drop (colon + 2) raw)
          else drop (colon + 2) raw
      | _ \<Rightarrow> [])"

definition verdict :: "string \<Rightarrow> scan_status" where
  "verdict raw =
     (if raw = [] then SCAN_ERROR
      else if contains '' FOUND'' raw then SCAN_INFECTED
      else if contains '' OK'' raw then SCAN_CLEAN
      else SCAN_ERROR)"

definition parse_response :: "string \<Rightarrow> string \<Rightarrow> int \<Rightarrow> scan_result" where
  "parse_response raw path duration =
     \<lparr>sn_status = verdict raw,
      sn_virus_name = (if raw \<noteq> [] \<and> contains '' FOUND'' raw then virus_name_of raw else []),
      sn_raw_response = raw, sn_file_path = path, sn_duration_ms = duration, sn_audit_entry_id = []\<rparr>"

definition scan_payload :: "scan_result \<Rightarrow> string" where
  "scan_payload r =
     ''path='' @ sn_file_path r @ '' status='' @ scan_status_name (sn_status r) @ '' virus='' @ sn_virus_name r
     @ '' duration_ms='' @ str_of_int (sn_duration_ms r) @ '' response='' @ sn_raw_response r"

definition audit_scan :: "'w audit_adder \<Rightarrow> scan_result \<Rightarrow> 'w \<Rightarrow> scan_result \<times> 'w" where
  "audit_scan add r w = (let (eid, w') = add ''clamd_scan'' (scan_payload r) w in (r\<lparr>sn_audit_entry_id := eid\<rparr>, w'))"

definition failed_scan :: "string \<Rightarrow> string \<Rightarrow> scan_result" where
  "failed_scan path why = \<lparr>sn_status = SCAN_ERROR, sn_virus_name = [], sn_raw_response = why, sn_file_path = path,
     sn_duration_ms = 0, sn_audit_entry_id = []\<rparr>"

definition clamd_ping :: "clamd_io \<Rightarrow> bool" where
  "clamd_ping io =
     (if \<not> ci_connected io then False
      else if fst (send_bytes PING_COMMAND (ci_sends io)) then contains ''PONG'' (recv_line (ci_received io))
      else False)"

definition scan_buffer ::
    "'w audit_adder \<Rightarrow> clamd_io \<Rightarrow> int \<Rightarrow> bytes \<Rightarrow> string \<Rightarrow> 'w \<Rightarrow> scan_result \<times> 'w" where
  "scan_buffer add io elapsed data label w =
     audit_scan add
       (if \<not> ci_connected io then failed_scan label ''connection_failed''
        else parse_response (do_instream io data) label elapsed) w"

text \<open>\<open>content\<close> is what the file holds, \<open>None\<close> when it cannot be opened.\<close>

definition scan_file ::
    "'w audit_adder \<Rightarrow> clamd_io \<Rightarrow> int \<Rightarrow> (string \<Rightarrow> bytes option) \<Rightarrow> string \<Rightarrow> 'w \<Rightarrow> scan_result \<times> 'w" where
  "scan_file add io elapsed content path w =
     (case content path of
        None \<Rightarrow> audit_scan add (failed_scan path ''file_open_failed'') w
      | Some data \<Rightarrow> scan_buffer add io elapsed data path w)"

section \<open>The framing\<close>

text \<open>What clamd reads: length-prefixed chunks up to a zero length.\<close>

definition read_be32 :: "bytes \<Rightarrow> nat" where
  "read_be32 bs = unat (bs ! 0) * 2 ^ 24 + unat (bs ! 1) * 2 ^ 16 + unat (bs ! 2) * 2 ^ 8 + unat (bs ! 3)"

function decode_stream :: "bytes \<Rightarrow> (bytes \<times> bytes) option" where
  "decode_stream s =
     (if length s < 4 then None
      else
        let n = read_be32 (take 4 s); rest = drop 4 s
        in if n = 0 then Some ([], rest)
           else if length rest < n then None
           else map_option (\<lambda>(d, r). (take n rest @ d, r)) (decode_stream (drop n rest)))"
  by pat_completeness auto
termination by (relation "measure length") auto

declare decode_stream.simps [simp del]

function frames :: "bytes \<Rightarrow> bytes" where
  "frames data =
     (if data = [] then []
      else let csz = min CHUNK (length data) in be32 csz @ take csz data @ frames (drop csz data))"
  by pat_completeness auto
termination by (relation "measure length") (auto simp: CHUNK_def)

declare frames.simps [simp del]

lemma send_bytes_ok: "fst (send_bytes data script) \<Longrightarrow> fst (snd (send_bytes data script)) = data"
proof (induction data script rule: send_bytes.induct)
  case (3 d ds n script)
  then show ?case
    by (auto simp: case_prod_beta Let_def split: if_splits)
qed auto

lemma then_send_ok:
  "fst (then_send data c) \<Longrightarrow> fst c \<and> fst (snd (then_send data c)) = fst (snd c) @ data"
  using send_bytes_ok [of data "snd (snd c)"]
  by (cases c) (auto simp: then_send_def case_prod_beta Let_def split: if_splits)

lemma send_chunks_ok:
  "fst (send_chunks data c) \<Longrightarrow> fst c \<and> fst (snd (send_chunks data c)) = fst (snd c) @ frames data"
proof (induction data c rule: send_chunks.induct)
  case (1 data c)
  show ?case
  proof (cases "data = []")
    case True
    with "1.prems" show ?thesis by (simp add: send_chunks.simps frames.simps)
  next
    case False
    let ?n = "min CHUNK (length data)"
    let ?c = "then_send (take ?n data) (then_send (be32 ?n) c)"
    have step: "send_chunks data c = send_chunks (drop ?n data) ?c"
      using False by (subst send_chunks.simps) (simp add: Let_def)
    with "1.prems" "1.IH" [OF False refl]
    have ok: "fst ?c" and wire: "fst (snd (send_chunks (drop ?n data) ?c)) = fst (snd ?c) @ frames (drop ?n data)" by auto
    from then_send_ok [OF ok] have ok2: "fst (then_send (be32 ?n) c)"
      and w2: "fst (snd ?c) = fst (snd (then_send (be32 ?n) c)) @ take ?n data" by auto
    from then_send_ok [OF ok2] have "fst c" and w1: "fst (snd (then_send (be32 ?n) c)) = fst (snd c) @ be32 ?n" by auto
    moreover have "frames data = be32 ?n @ take ?n data @ frames (drop ?n data)"
      using False by (subst frames.simps) (simp add: Let_def)
    ultimately show ?thesis using step wire w2 by simp
  qed
qed

lemma read_be32_be32:
  assumes "n < 2 ^ 32"
  shows "read_be32 (be32 n @ s) = n"
proof -
  define a b c where "a = n div 256" and "b = a div 256" and "c = b div 256"
  define x y z where "x = n mod 256" and "y = a mod 256" and "z = b mod 256"
  note digits = x_def y_def z_def
  have "n = 256 * a + x" "a = 256 * b + y" "b = 256 * c + z"
    by (simp_all add: a_def b_def c_def digits)
  then have "n = c * 16777216 + z * 65536 + y * 256 + x" by linarith
  moreover have "b = n div 2 ^ 16" "c = n div 2 ^ 24"
    by (simp_all add: a_def b_def c_def flip: div_mult2_eq)
  moreover from this assms have "c < 256" by (simp add: div_less_iff_less_mult)
  ultimately show ?thesis
    by (simp add: read_be32_def be32_def unat_of_nat take_bit_eq_mod digits a_def)
qed

lemma length_be32 [simp]: "length (be32 n) = 4"
  by (simp add: be32_def)

lemma decode_chunk:
  assumes "0 < n" "n < 2 ^ 32" "length chunk = n"
  shows "decode_stream (be32 n @ chunk @ s) = map_option (\<lambda>(d, r). (chunk @ d, r)) (decode_stream s)"
proof -
  have "read_be32 (be32 n) = n" using read_be32_be32 [OF assms(2), of "[]"] by simp
  then show ?thesis
    using assms by (subst decode_stream.simps) (simp add: Let_def)
qed

lemma decode_frames: "decode_stream (frames data @ be32 0 @ rest) = Some (data, rest)"
proof (induction data rule: frames.induct)
  case (1 data)
  show ?case
  proof (cases "data = []")
    case True
    then show ?thesis
      using read_be32_be32 [of 0 "[]"] by (simp add: frames.simps decode_stream.simps)
  next
    case False
    let ?n = "min CHUNK (length data)"
    have n: "0 < ?n" "?n < 2 ^ 32" "?n \<le> length data" using False by (simp_all add: CHUNK_def)
    have "frames data = be32 ?n @ take ?n data @ frames (drop ?n data)"
      using False by (subst frames.simps) (simp add: Let_def)
    then have "decode_stream (frames data @ be32 0 @ rest)
        = map_option (\<lambda>(d, r). (take ?n data @ d, r)) (decode_stream (frames (drop ?n data) @ be32 0 @ rest))"
      using decode_chunk [OF n(1,2), of "take ?n data" "frames (drop ?n data) @ be32 0 @ rest"] by simp
    with "1.IH" [OF False refl] show ?thesis by simp
  qed
qed

lemma send_instream_ok:
  assumes "fst (send_instream data script)"
  shows "fst (snd (send_instream data script)) = INSTREAM_COMMAND @ frames data @ be32 0"
proof -
  let ?c = "then_send INSTREAM_COMMAND (True, [], script)"
  from then_send_ok [OF assms [unfolded send_instream_def]]
  have ok: "fst (send_chunks data ?c)"
    and w: "fst (snd (send_instream data script)) = fst (snd (send_chunks data ?c)) @ be32 0"
    by (simp_all add: send_instream_def)
  from send_chunks_ok [OF ok] have "fst ?c" and w2: "fst (snd (send_chunks data ?c)) = fst (snd ?c) @ frames data" by auto
  from then_send_ok [OF this(1)] have "fst (snd ?c) = INSTREAM_COMMAND" by simp
  with w w2 show ?thesis by simp
qed

text \<open>
  When the sends succeed, in whatever pieces the system takes the bytes, what went over the wire is the command
  followed by a stream that decodes to exactly the data, with nothing left over.
\<close>

theorem instream_roundtrip:
  "case send_instream data script of (ok, wire, _) \<Rightarrow>
     if ok then take 10 wire = INSTREAM_COMMAND \<and> decode_stream (drop 10 wire) = Some (data, []) else True"
proof (cases "fst (send_instream data script)")
  case True
  have "length INSTREAM_COMMAND = 10" by (simp add: INSTREAM_COMMAND_def ascii_def)
  with send_instream_ok [OF True] decode_frames [of data "[]"] show ?thesis
    by (simp add: case_prod_beta)
qed (simp add: case_prod_beta)

section \<open>Verdicts\<close>

text \<open>
  C19. Scanning fails closed: \<^verbatim>\<open>CLEAN\<close> is reported only when the connection was made, the whole content went over the
  wire and the reply holds \<^verbatim>\<open> OK\<close> and no \<^verbatim>\<open> FOUND\<close>. Whatever happens, one \<^verbatim>\<open>clamd_scan\<close> entry with this verdict is written.
\<close>

theorem scan_fails_closed:
  "case scan_file add io elapsed content path w of (r, w') \<Rightarrow>
     (if sn_status r = SCAN_CLEAN then
        (\<exists>data. content path = Some data \<and> ci_connected io \<and> fst (send_instream data (ci_sends io))
          \<and> contains '' OK'' (recv_line (ci_received io)) \<and> \<not> contains '' FOUND'' (recv_line (ci_received io)))
      else True)
     \<and> (sn_audit_entry_id r, w') = add ''clamd_scan'' (scan_payload (r\<lparr>sn_audit_entry_id := []\<rparr>)) w"
proof (cases "content path")
  case None
  then show ?thesis
    by (auto simp: scan_file_def audit_scan_def failed_scan_def scan_payload_def split: prod.splits)
next
  case (Some data)
  define r where "r = (if \<not> ci_connected io then failed_scan path ''connection_failed''
    else parse_response (do_instream io data) path elapsed)"
  have clean: "sn_status r = SCAN_CLEAN \<Longrightarrow> ci_connected io \<and> fst (send_instream data (ci_sends io))
      \<and> contains '' OK'' (recv_line (ci_received io)) \<and> \<not> contains '' FOUND'' (recv_line (ci_received io))"
    by (auto simp: r_def failed_scan_def parse_response_def verdict_def do_instream_def simp del: contains_code split: if_splits)
  have blank: "r\<lparr>sn_audit_entry_id := []\<rparr> = r" by (simp add: r_def failed_scan_def parse_response_def)
  obtain eid w' where add: "add ''clamd_scan'' (scan_payload r) w = (eid, w')" by fastforce
  have "scan_file add io elapsed content path w = (r\<lparr>sn_audit_entry_id := eid\<rparr>, w')"
    using Some add by (simp add: scan_file_def scan_buffer_def audit_scan_def flip: r_def)
  with clean blank add Some show ?thesis by (simp del: contains_code)
qed

end
