(* ===== verification/Bridge.thy ===== *)
theory Bridge
  imports AiTriage AgentController ZeroTrust Attribution Clamd Firewall UnlockProtocol VeeamInterface AutonomyLoop Monitors
begin

text \<open>
  \<^verbatim>\<open>bridge/astartis_bridge.cpp\<close>: the process that owns every component, wires their callbacks and executes the
  commands that arrive on its standard input. The globals are one record; a component whose construction failed is
  \<open>None\<close>. The state record is itself the world in which the components' callbacks act, so that an audit entry or a
  lockdown made inside a component is seen by every other. A command may throw, which the input loop reports, or
  use a component that is missing, which the source does not guard against everywhere.
\<close>

section \<open>State\<close>

record ('k, 'f) bridge =
  bg_gate :: gate_world \<comment> \<open>the lock and the audit chain\<close>
  bg_threat :: "threat_sm option"
  bg_rules :: "rule_engine option"
  bg_sandbox :: "sandbox option"
  bg_chaos :: "chaos_detector option"
  bg_decoy :: "decoy_env option"
  bg_ar :: "active_response option"
  bg_clamd :: bool
  bg_qtn :: "quarantine option"
  bg_firewall :: "firewall_blocker option"
  bg_netsh :: 'f
  bg_files :: files
  bg_tokens :: token_store
  bg_unlock :: "unlock_protocol option"
  bg_identities :: "(string, 'k identity) std_map"
  bg_ai_triage :: bool
  bg_last_triage :: json
  bg_veeam :: "stub_backup_repo option"
  bg_agents :: "agent_controller option"
  bg_autonomy :: "autonomy_loop option"
  bg_latest_K :: real
  bg_latest_anomalous :: bool
  bg_latest_windows :: u64
  bg_chaos_history :: "real list"
  bg_out :: "string list"
  bg_crashed :: bool

text \<open>
  What the surroundings answer while one command runs: the printer, the digest, the ids and clocks of the audit
  chain, the system clock, the keys, the shell, and the scripts of the scanner and of the two model requests.
\<close>

record ('k, 'p, 'f) bridge_env =
  be_dump :: "json \<Rightarrow> string option"
  be_sha :: "string \<Rightarrow> string"
  be_audit :: environment
  be_now :: int
  be_later :: int
  be_openssl :: "('k, 'p) openssl"
  be_netsh :: "'f netsh"
  be_absolute :: "string \<Rightarrow> string"
  be_mkdir :: "string \<Rightarrow> bool" \<comment> \<open>whether \<^verbatim>\<open>fs::create_directories\<close> succeeds\<close>
  be_quarantine :: quarantine_call
  be_scan :: clamd_io
  be_granite :: granite_env
  be_fast_io :: ollama_io
  be_heavy_io :: ollama_io

section \<open>Callbacks\<close>

text \<open>\<^verbatim>\<open>make_audit_adder\<close> and the lambdas around \<^verbatim>\<open>g_worm\<close>.\<close>

definition bridge_add :: "('k, 'p, 'f) bridge_env \<Rightarrow> ('k, 'f) bridge audit_adder" where
  "bridge_add env t p b =
     (let (eid, g) = gate_add (be_sha env) (be_audit env) t p (bg_gate b) in (eid, b\<lparr>bg_gate := g\<rparr>))"

definition bridge_lockdown :: "('k, 'p, 'f) bridge_env \<Rightarrow> string \<Rightarrow> ('k, 'f) bridge \<Rightarrow> bool \<times> ('k, 'f) bridge" where
  "bridge_lockdown env reason b =
     (let (changed, l, w) = trigger_lockdown (audit_add (be_sha env) (be_audit env)) reason (fst (bg_gate b)) (snd (bg_gate b))
      in (changed, b\<lparr>bg_gate := (l, w)\<rparr>))"

definition bridge_trigger :: "('k, 'p, 'f) bridge_env \<Rightarrow> string \<Rightarrow> ('k, 'f) bridge \<Rightarrow> ('k, 'f) bridge" where
  "bridge_trigger env reason b = snd (bridge_lockdown env reason b)"

definition bridge_unlock :: "('k, 'p, 'f) bridge_env \<Rightarrow> string \<Rightarrow> ('k, 'f) bridge \<Rightarrow> ('k, 'f) bridge" where
  "bridge_unlock env authority b =
     b\<lparr>bg_gate := gate_unlock (be_sha env) (be_audit env) authority (bg_gate b)\<rparr>"

definition bridge_locked :: "('k, 'f) bridge \<Rightarrow> bool" where
  "bridge_locked b = gate_locked (bg_gate b)"

definition bridge_trail :: "('k, 'f) bridge \<Rightarrow> audit_event list" where
  "bridge_trail b = gate_trail (bg_gate b)"

text \<open>Writing a file of the sandbox.\<close>

definition bridge_disk :: "('k, 'p, 'f) bridge_env \<Rightarrow> string \<Rightarrow> string \<Rightarrow> ('k, 'f) bridge \<Rightarrow> ('k, 'f) bridge" where
  "bridge_disk env path content b = b\<lparr>bg_files := (bg_files b)(be_absolute env path := Some content)\<rparr>"

section \<open>Outcomes\<close>

datatype bridge_error = Type_mismatch | Not_printable | Crypto_error cxx_exception | Model_error | File_error
  | Null_component

type_synonym ('k, 'f) outcome = "bridge_error option \<times> ('k, 'f) bridge"

text \<open>A component that the code uses without a check; an argument that has to have its type.\<close>

definition need :: "'c option \<Rightarrow> ('c \<Rightarrow> ('k, 'f) outcome) \<Rightarrow> ('k, 'f) bridge \<Rightarrow> ('k, 'f) outcome" where
  "need c f b = (case c of None \<Rightarrow> (Some Null_component, b\<lparr>bg_crashed := True\<rparr>) | Some x \<Rightarrow> f x)"

definition arg ::
    "(json \<Rightarrow> json_error + 'a) \<Rightarrow> string \<Rightarrow> 'a \<Rightarrow> json \<Rightarrow> ('a \<Rightarrow> ('k, 'f) outcome) \<Rightarrow> ('k, 'f) bridge \<Rightarrow> ('k, 'f) outcome" where
  "arg get key d args f b =
     (case json_value get key d args of Inl e \<Rightarrow> (Some Type_mismatch, b) | Inr x \<Rightarrow> f x)"

definition send_json :: "('k, 'p, 'f) bridge_env \<Rightarrow> json \<Rightarrow> ('k, 'f) bridge \<Rightarrow> ('k, 'f) outcome" where
  "send_json env j b =
     (case be_dump env j of
        None \<Rightarrow> (Some Not_printable, b)
      | Some s \<Rightarrow> (None, b\<lparr>bg_out := bg_out b @ [s @ nl]\<rparr>))"

definition event_json :: "string \<Rightarrow> (string \<times> json) list \<Rightarrow> json" where
  "event_json name data = JObject [(''event'', JString name), (''data'', JObject data)]"

abbreviation send_event ::
    "('k, 'p, 'f) bridge_env \<Rightarrow> string \<Rightarrow> (string \<times> json) list \<Rightarrow> ('k, 'f) bridge \<Rightarrow> ('k, 'f) outcome" where
  "send_event env name data \<equiv> send_json env (event_json name data)"

section \<open>Signals\<close>

text \<open>\<^verbatim>\<open>g_threat->observe_signal\<close> and \<^verbatim>\<open>g_rules->evaluate_threat_score\<close>.\<close>

definition bridge_observe ::
    "('k, 'p, 'f) bridge_env \<Rightarrow> int \<Rightarrow> string \<Rightarrow> threat_sm \<Rightarrow> ('k, 'f) bridge \<Rightarrow> signal_result \<times> ('k, 'f) bridge" where
  "bridge_observe env score source m b =
     (let (r, m', b') = observe_signal (bridge_add env) (bridge_trigger env) score source m b
      in (r, b'\<lparr>bg_threat := Some m'\<rparr>))"

definition bridge_score_rule ::
    "('k, 'p, 'f) bridge_env \<Rightarrow> int \<Rightarrow> string \<Rightarrow> rule_engine \<times> threat_sm \<Rightarrow> ('k, 'f) bridge \<Rightarrow> rule_result \<times> ('k, 'f) bridge" where
  "bridge_score_rule env score source = (\<lambda>(e, m) b.
     let (r, e', m', b') = evaluate_threat_score (bridge_add env) (bridge_trigger env) bridge_locked score source (e, m, b)
     in (r, b'\<lparr>bg_rules := Some e', bg_threat := Some m'\<rparr>))"

text \<open>The two in sequence, each where its component is there.\<close>

definition try_observe :: "('k, 'p, 'f) bridge_env \<Rightarrow> int \<Rightarrow> string \<Rightarrow> ('k, 'f) bridge \<Rightarrow> ('k, 'f) bridge" where
  "try_observe env score source b =
     (case bg_threat b of None \<Rightarrow> b | Some m \<Rightarrow> snd (bridge_observe env score source m b))"

definition try_score_rule :: "('k, 'p, 'f) bridge_env \<Rightarrow> int \<Rightarrow> string \<Rightarrow> ('k, 'f) bridge \<Rightarrow> ('k, 'f) bridge" where
  "try_score_rule env score source b =
     (case (bg_rules b, bg_threat b) of
        (Some e, Some m) \<Rightarrow> snd (bridge_score_rule env score source (e, m) b)
      | _ \<Rightarrow> b)"

text \<open>The callback of the chaos detector. What it prints holds no text from outside, so printing does not fail.\<close>

definition print_or_skip :: "('k, 'p, 'f) bridge_env \<Rightarrow> json \<Rightarrow> ('k, 'f) bridge \<Rightarrow> ('k, 'f) bridge" where
  "print_or_skip env j b = snd (send_json env j b)"

definition last_windows :: "real list \<Rightarrow> real list" where
  "last_windows h = (if length h > 100 then tl h else h)"

definition on_chaos_window :: "('k, 'p, 'f) bridge_env \<Rightarrow> chaos_window \<Rightarrow> ('k, 'f) bridge \<Rightarrow> ('k, 'f) bridge" where
  "on_chaos_window env win b =
     (case (bg_rules b, bg_threat b) of
        (Some e, Some m) \<Rightarrow>
          let (rr, e', m', b1) = evaluate_chaos_window (bridge_add env) (bridge_trigger env) win (e, m, b);
              b2 = b1\<lparr>bg_rules := Some e', bg_threat := Some m'\<rparr>;
              b3 = (if rr_worm_triggered rr
                    then bridge_trigger env (''RULE-05 chaos K='' @ fmt_fixed 6 (cw_K win)) b2 else b2);
              b4 = (if rr_worm_triggered rr \<and> \<not> cw_synthetic win
                    then print_or_skip env (event_json ''rule05_firewall_candidate''
                      [(''K'', JReal (cw_K win)), (''anomalous'', JBool (cw_anomalous win)), (''source_ip'', JString [])]) b3
                    else b3);
              b5 = b4\<lparr>bg_latest_K := cw_K win, bg_latest_anomalous := cw_anomalous win,
                      bg_latest_windows := cw_window_index win + 1,
                      bg_chaos_history := last_windows (bg_chaos_history b4 @ [cw_K win])\<rparr>
          in print_or_skip env (event_json ''chaos_window''
               [(''K'', JReal (cw_K win)), (''anomalous'', JBool (cw_anomalous win)),
                (''window_index'', JInt (uint (cw_window_index win))),
                (''lambda1'', case cw_lambda1 win of None \<Rightarrow> JNull | Some l \<Rightarrow> JReal l)]) b5
      | _ \<Rightarrow> b\<lparr>bg_crashed := True\<rparr>)"

definition bridge_push ::
    "('k, 'p, 'f) bridge_env \<Rightarrow> real \<Rightarrow> bool \<Rightarrow> chaos_detector \<Rightarrow> ('k, 'f) bridge \<Rightarrow> ('k, 'f) bridge" where
  "bridge_push env v synthetic d b =
     (let (d', b') = push_sample (bridge_add env) (on_chaos_window env) (v, synthetic) (d, b) in b'\<lparr>bg_chaos := Some d'\<rparr>)"

section \<open>Commands\<close>

abbreviation JNat :: "nat \<Rightarrow> json" where
  "JNat n \<equiv> JInt (int n)"

definition tier_json :: "threat_tier \<Rightarrow> json" where
  "tier_json t = JNat (tier_int t)"

subsection \<open>Signals and samples\<close>

definition cmd_observe_signal :: "('k, 'p, 'f) bridge_env \<Rightarrow> json \<Rightarrow> ('k, 'f) bridge \<Rightarrow> ('k, 'f) outcome" where
  "cmd_observe_signal env args b =
     arg get_int ''score'' 0 args (\<lambda>score. arg get_string ''source'' ''elixir'' args (\<lambda>source.
     need (bg_threat b) (\<lambda>m.
       let (res, b1) = bridge_observe env score source m b in
       need (bg_rules b1) (\<lambda>e. need (bg_threat b1) (\<lambda>m1.
         let (rr, b2) = bridge_score_rule env score source (e, m1) b1;
             worm_fired = (sr_worm_triggered res \<or> rr_worm_triggered rr);
             b3 = (if worm_fired then bridge_trigger env (''threat_signal score='' @ str_of_int score) b2 else b2)
         in send_event env ''signal_result''
              [(''tier'', tier_json (sr_current_tier res)), (''tier_changed'', JBool (sr_tier_changed res)),
               (''worm_triggered'', JBool worm_fired), (''action'', JString (sr_response_description res))] b3) b1) b1) b) b) b"

definition cmd_push_chaos :: "('k, 'p, 'f) bridge_env \<Rightarrow> json \<Rightarrow> ('k, 'f) bridge \<Rightarrow> ('k, 'f) outcome" where
  "cmd_push_chaos env args b =
     arg get_double ''value'' 0 args (\<lambda>v. arg get_bool ''synthetic'' True args (\<lambda>synthetic.
     need (bg_chaos b) (\<lambda>d.
       send_event env ''chaos_pushed'' [(''value'', JReal v)] (bridge_push env v synthetic d b)) b) b) b"

text \<open>\<^verbatim>\<open>value("values", json::array())\<close> accepts any value; iterating over one that is not a container visits it alone.\<close>

fun json_items :: "json \<Rightarrow> json list" where
  "json_items (JArray js) = js"
| "json_items (JObject kvs) = map snd kvs"
| "json_items JNull = []"
| "json_items j = [j]"

fun json_number :: "json \<Rightarrow> real option" where
  "json_number (JInt i) = Some (of_int i)"
| "json_number (JReal r) = Some r"
| "json_number j = None"

definition push_values :: "('k, 'p, 'f) bridge_env \<Rightarrow> bool \<Rightarrow> real list \<Rightarrow> ('k, 'f) bridge \<Rightarrow> ('k, 'f) bridge" where
  "push_values env synthetic vs b =
     fold (\<lambda>v b. case bg_chaos b of None \<Rightarrow> b\<lparr>bg_crashed := True\<rparr> | Some d \<Rightarrow> bridge_push env v synthetic d b) vs b"

definition cmd_push_chaos_batch :: "('k, 'p, 'f) bridge_env \<Rightarrow> json \<Rightarrow> ('k, 'f) bridge \<Rightarrow> ('k, 'f) outcome" where
  "cmd_push_chaos_batch env args b =
     arg get_bool ''synthetic'' True args (\<lambda>synthetic. arg Inr ''values'' (JArray []) args (\<lambda>vals.
       let vs = List.map_filter json_number (json_items vals)
       in send_event env ''chaos_batch_pushed'' [(''count'', JNat (length vs))] (push_values env synthetic vs b)) b) b"

subsection \<open>The lock\<close>

definition worm_status_data :: "('k, 'f) bridge \<Rightarrow> (string \<times> json) list" where
  "worm_status_data b = [(''locked'', JBool (bridge_locked b)), (''reason'', JString (wl_lock_reason (fst (bg_gate b))))]"

definition bridge_lock_all :: "('k, 'p, 'f) bridge_env \<Rightarrow> string \<Rightarrow> sandbox \<Rightarrow> ('k, 'f) bridge \<Rightarrow> ('k, 'f) bridge" where
  "bridge_lock_all env reason s b = (let (_, s', b') = lock_all (bridge_add env) reason (s, b) in b'\<lparr>bg_sandbox := Some s'\<rparr>)"

definition bridge_lock_backups :: "('k, 'p, 'f) bridge_env \<Rightarrow> string \<Rightarrow> ('k, 'f) bridge \<Rightarrow> ('k, 'f) bridge" where
  "bridge_lock_backups env reason b =
     (case bg_veeam b of
        None \<Rightarrow> b
      | Some r \<Rightarrow> (let (_, r', b') = lock_backups (bridge_add env) (be_now env) reason (r, b) in b'\<lparr>bg_veeam := Some r'\<rparr>))"

definition cmd_worm_trigger :: "('k, 'p, 'f) bridge_env \<Rightarrow> json \<Rightarrow> ('k, 'f) bridge \<Rightarrow> ('k, 'f) outcome" where
  "cmd_worm_trigger env args b =
     arg get_string ''reason'' ''manual'' args (\<lambda>reason.
       let (changed, b1) = bridge_lockdown env reason b in
       if \<not> changed then send_event env ''worm_status'' (worm_status_data b1) b1
       else need (bg_sandbox b1) (\<lambda>s.
         let b2 = emit (bridge_add env) ''worm_trigger'' (''reason='' @ reason) (bridge_lock_all env ''worm_lockdown'' s b1);
             b3 = b2\<lparr>bg_unlock := map_option begin_session (bg_unlock b2)\<rparr>;
             b4 = bridge_lock_backups env reason b3
         in send_event env ''worm_status'' (worm_status_data b4) b4) b1) b"

definition cmd_worm_unlock :: "('k, 'p, 'f) bridge_env \<Rightarrow> ('k, 'f) bridge \<Rightarrow> ('k, 'f) outcome" where
  "cmd_worm_unlock env b =
     (let b1 = emit (bridge_add env) ''worm_unlock_rejected'' ''reason=direct_unlock_disabled use_unlock_vote_instead'' b
      in send_event env ''worm_status'' (worm_status_data b1 @
           [(''error'', JString ''Direct unlock disabled. Use unlock_vote with all required approvers.''),
            (''hint'', JString ''POST cmd=unlock_vote for each approver to reach threshold'')]) b1)"

definition rejected_vote :: "string \<Rightarrow> (string \<times> json) list" where
  "rejected_vote reason = [(''accepted'', JBool False), (''reason'', JString reason)]"

definition cmd_unlock_vote :: "('k, 'p, 'f) bridge_env \<Rightarrow> json \<Rightarrow> ('k, 'f) bridge \<Rightarrow> ('k, 'f) outcome" where
  "cmd_unlock_vote env args b =
     arg get_string ''approver'' [] args (\<lambda>approver.
     case bg_unlock b of
       None \<Rightarrow> send_event env ''unlock_vote_result'' (rejected_vote ''no_approver_or_protocol_not_ready'') b
     | Some u \<Rightarrow>
         if approver = [] then send_event env ''unlock_vote_result'' (rejected_vote ''no_approver_or_protocol_not_ready'') b
         else (case map_of (bg_identities b) approver of
           None \<Rightarrow> send_event env ''unlock_vote_result'' (rejected_vote ''unknown_approver_identity'') b
         | Some ident \<Rightarrow>
             (case get_challenge (generate_challenge (be_openssl env)) approver u of
                (Inl e, u1) \<Rightarrow> (Some (Crypto_error e), b\<lparr>bg_unlock := Some u1\<rparr>)
              | (Inr ch, u1) \<Rightarrow>
                  let b1 = b\<lparr>bg_unlock := Some u1\<rparr> in
                  if ch = [] then send_event env ''unlock_vote_result'' (rejected_vote ''no_challenge_or_already_voted'') b1
                  else (case make_signed_request (be_openssl env) (be_now env) ident ch of
                    Inl e \<Rightarrow> (Some (Crypto_error e), b1)
                  | Inr req \<Rightarrow>
                      let (vr, u2, b2) = cast_vote (be_openssl env) (bridge_add env) (bridge_unlock env) (bg_tokens b1)
                            (be_later env) approver req (u1, b1);
                          b3 = b2\<lparr>bg_unlock := Some u2\<rparr>
                      in send_event env ''unlock_vote_result''
                           [(''accepted'', JBool (vo_accepted vr)), (''reason'', JString (vo_reason vr)),
                            (''votes_now'', JInt (vo_votes_now vr)), (''threshold'', JInt (vo_threshold vr)),
                            (''unlocked'', JBool (vo_unlocked vr))] b3)))) b"

subsection \<open>Backups, files, decoys\<close>

definition cmd_veeam_integrity_check :: "('k, 'p, 'f) bridge_env \<Rightarrow> ('k, 'f) bridge \<Rightarrow> ('k, 'f) outcome" where
  "cmd_veeam_integrity_check env b =
     (case bg_veeam b of
        None \<Rightarrow> send_event env ''veeam_check_result'' [(''error'', JString ''veeam_not_initialised'')] b
      | Some r \<Rightarrow>
          let (c, r', b') = integrity_check (bridge_add env) (be_now env) (r, b) in
          send_event env ''veeam_check_result''
            [(''passed'', JBool (ic_passed c)), (''checked_count'', JInt (ic_checked_count c)),
             (''violations_found'', JInt (ic_violations_found c)), (''checked_at_ms'', JInt (ic_checked_at_ms c)),
             (''audit_entry_id'', JString (ic_audit_entry_id c))] (b'\<lparr>bg_veeam := Some r'\<rparr>))"

definition cmd_veeam_status :: "('k, 'p, 'f) bridge_env \<Rightarrow> ('k, 'f) bridge \<Rightarrow> ('k, 'f) outcome" where
  "cmd_veeam_status env b =
     (case bg_veeam b of
        None \<Rightarrow> send_event env ''veeam_status'' [(''error'', JString ''veeam_not_initialised'')] b
      | Some r \<Rightarrow>
          send_event env ''veeam_status''
            [(''lock_state'', JString (lock_state_str (br_lock_state r))), (''backup_count'', JInt (br_backup_count r)),
             (''locked_at_ms'', JInt (br_locked_at_ms r)), (''locked_by_reason'', JString (br_locked_by_reason r)),
             (''integrity_check_count'', JInt (br_integrity_check_count r)),
             (''last_check_ms'', JInt (br_last_integrity_check_ms r))] b)"

definition entry_json :: "sandbox_entry \<Rightarrow> json" where
  "entry_json e =
     JObject [(''rel_path'', JString (se_rel_path e)),
       (''type'', JString (if se_type e = FILE then ''file'' else ''dir'')), (''size_bytes'', JInt (se_size_bytes e)),
       (''version'', JInt (uint (se_version e))), (''locked'', JBool (se_locked e)),
       (''last_modified'', JInt (se_last_modified e))]"

definition cmd_sandbox_get_tree :: "('k, 'p, 'f) bridge_env \<Rightarrow> ('k, 'f) bridge \<Rightarrow> ('k, 'f) outcome" where
  "cmd_sandbox_get_tree env b =
     need (bg_sandbox b) (\<lambda>s.
       send_json env (JObject [(''event'', JString ''sandbox_tree''), (''data'', JArray (map entry_json (get_tree s)))]) b) b"

definition bridge_plant ::
    "('k, 'p, 'f) bridge_env \<Rightarrow> decoy_env \<times> sandbox \<Rightarrow> ('k, 'f) bridge \<Rightarrow> nat \<times> ('k, 'f) bridge" where
  "bridge_plant env = (\<lambda>(d, s) b.
     let (n, d', s', b') = plant (bridge_add env) bridge_locked (bridge_disk env) (be_now env) (d, s, b)
     in (n, b'\<lparr>bg_decoy := Some d', bg_sandbox := Some s'\<rparr>))"

text \<open>The decoy environment is built on the sandbox, so it is there only with it.\<close>

definition cmd_decoy_plant :: "('k, 'p, 'f) bridge_env \<Rightarrow> ('k, 'f) bridge \<Rightarrow> ('k, 'f) outcome" where
  "cmd_decoy_plant env b =
     need (bg_decoy b) (\<lambda>d. need (bg_sandbox b) (\<lambda>s.
       let (n, b') = bridge_plant env (d, s) b in send_event env ''decoy_planted'' [(''count'', JNat n)] b') b) b"

definition bridge_touch ::
    "('k, 'p, 'f) bridge_env \<Rightarrow> string \<Rightarrow> string \<Rightarrow> string \<Rightarrow> string \<Rightarrow> decoy_env \<Rightarrow> ('k, 'f) bridge \<Rightarrow> bool \<times> ('k, 'f) bridge" where
  "bridge_touch env path action session detail d b =
     (let (hit, d', b') = touch (bridge_add env) (be_now env) path action session detail (d, b)
      in (hit, b'\<lparr>bg_decoy := Some d'\<rparr>))"

definition cmd_decoy_touch :: "('k, 'p, 'f) bridge_env \<Rightarrow> json \<Rightarrow> ('k, 'f) bridge \<Rightarrow> ('k, 'f) outcome" where
  "cmd_decoy_touch env args b =
     arg get_string ''path'' [] args (\<lambda>path. arg get_string ''action'' ''read'' args (\<lambda>action.
     arg get_string ''session'' ''demo'' args (\<lambda>session. arg get_string ''detail'' [] args (\<lambda>detail.
     need (bg_decoy b) (\<lambda>d.
       let (hit, b') = bridge_touch env path action session detail d b
       in send_event env ''decoy_touch'' [(''hit'', JBool hit), (''path'', JString path)] b') b) b) b) b) b"

definition bridge_serve ::
    "('k, 'p, 'f) bridge_env \<Rightarrow> string \<Rightarrow> string \<Rightarrow> string \<Rightarrow> active_response \<Rightarrow> ('k, 'f) bridge
       \<Rightarrow> response_event \<times> ('k, 'f) bridge" where
  "bridge_serve env session resource hint a b =
     (let (ev, a', b') = serve (bridge_add env) (be_now env) session resource hint (a, b) in (ev, b'\<lparr>bg_ar := Some a'\<rparr>))"

definition cmd_active_response_serve :: "('k, 'p, 'f) bridge_env \<Rightarrow> json \<Rightarrow> ('k, 'f) bridge \<Rightarrow> ('k, 'f) outcome" where
  "cmd_active_response_serve env args b =
     arg get_string ''session'' ''demo'' args (\<lambda>session. arg get_string ''resource'' [] args (\<lambda>resource.
     arg get_string ''ioc_hint'' [] args (\<lambda>hint.
     need (bg_ar b) (\<lambda>a.
       let (ev, b') = bridge_serve env session resource hint a b
       in send_event env ''ar_serve'' [(''response_tier'', JInt (rs_response_tier ev)), (''ioc_match'', JBool (rs_ioc_match ev)),
            (''ioc_indicator'', JString (rs_ioc_indicator ev))] b') b) b) b) b"

definition technique_json :: "attack_technique \<Rightarrow> json" where
  "technique_json t = JObject [(''technique_id'', JString (at_technique_id t)), (''name'', JString (at_name t)),
     (''tactic'', JString (at_tactic t)), (''evidence'', JString (at_evidence t))]"

definition cmd_get_attribution :: "('k, 'p, 'f) bridge_env \<Rightarrow> string \<Rightarrow> json \<Rightarrow> ('k, 'f) bridge \<Rightarrow> ('k, 'f) outcome" where
  "cmd_get_attribution env sandbox_root args b =
     arg get_string ''session'' ''demo-atk'' args (\<lambda>session. need (bg_decoy b) (\<lambda>d. need (bg_ar b) (\<lambda>a.
       let (result, files', b') = generate_report (bridge_add env)
             (\<lambda>path content disk. disk(be_absolute env path := Some content)) (be_mkdir env) (be_now env) sandbox_root session
             (dc_forensic_log d) (av_forensic_log a) (bg_files b, b)
       in (case result of
             None \<Rightarrow> (Some File_error, b'\<lparr>bg_files := files'\<rparr>)
           | Some r \<Rightarrow> send_event env ''attribution_report''
               [(''session_id'', JString (ra_session_id r)), (''total_interactions'', JInt (ra_total_interactions r)),
                (''summary'', JString (ra_summary r)), (''techniques'', JArray (map technique_json (ra_techniques r)))]
               (b'\<lparr>bg_files := files'\<rparr>))) b) b) b"

subsection \<open>Scanning and blocking\<close>

definition bridge_scan :: "('k, 'p, 'f) bridge_env \<Rightarrow> string \<Rightarrow> ('k, 'f) bridge \<Rightarrow> scan_result \<times> ('k, 'f) bridge" where
  "bridge_scan env path b =
     scan_file (bridge_add env) (be_scan env) (be_later env - be_now env)
       (\<lambda>p. map_option ascii (bg_files b (be_absolute env p))) path b"

definition bridge_quarantine ::
    "('k, 'p, 'f) bridge_env \<Rightarrow> string \<Rightarrow> string \<Rightarrow> quarantine \<Rightarrow> ('k, 'f) bridge \<Rightarrow> quarantine_entry \<times> ('k, 'f) bridge" where
  "bridge_quarantine env path virus q b =
     (let (e, q', files', b') = quarantine_file (be_sha env) (be_absolute env) (bridge_add env) (be_quarantine env) path virus
            (q, bg_files b, b)
      in (e, b'\<lparr>bg_qtn := Some q', bg_files := files'\<rparr>))"

fun scan_word :: "scan_status \<Rightarrow> string" where
  "scan_word SCAN_CLEAN = ''clean''"
| "scan_word SCAN_INFECTED = ''infected''"
| "scan_word SCAN_ERROR = ''error''"

definition scan_outcome :: "('k, 'p, 'f) bridge_env \<Rightarrow> scan_result \<Rightarrow> string \<Rightarrow> string \<Rightarrow> ('k, 'f) bridge \<Rightarrow> ('k, 'f) outcome" where
  "scan_outcome env r qtn_path qtn_id =
     send_event env ''scan_quarantine_result''
       [(''status'', JString (scan_word (sn_status r))), (''virus_name'', JString (sn_virus_name r)),
        (''quarantined'', JBool (qtn_id \<noteq> [])), (''quarantine_path'', JString qtn_path), (''entry_id'', JString qtn_id),
        (''audit_entry_id'', JString (sn_audit_entry_id r))]"

definition cmd_scan_and_quarantine :: "('k, 'p, 'f) bridge_env \<Rightarrow> json \<Rightarrow> ('k, 'f) bridge \<Rightarrow> ('k, 'f) outcome" where
  "cmd_scan_and_quarantine env args b =
     arg get_string ''path'' [] args (\<lambda>path.
     if path = [] then send_event env ''scan_quarantine_result'' [(''status'', JString ''error''), (''error'', JString ''no path provided'')] b
     else if \<not> bg_clamd b then
       send_event env ''scan_quarantine_result'' [(''status'', JString ''error''), (''error'', JString ''clamd_not_available'')] b
     else
       let (r, b1) = bridge_scan env path b in
       if sn_status r \<noteq> SCAN_INFECTED then scan_outcome env r [] [] b1
       else need (bg_qtn b1) (\<lambda>q.
         let (e, b2) = bridge_quarantine env path (sn_virus_name r) q b1
         in scan_outcome env r (qe_quarantine_path e) (qe_entry_id e) b2) b1) b"

definition refused_block :: "string \<Rightarrow> (string \<times> json) list" where
  "refused_block reason = [(''blocked'', JBool False), (''reason'', JString reason)]"

definition cmd_block_ip :: "('k, 'p, 'f) bridge_env \<Rightarrow> json \<Rightarrow> ('k, 'f) bridge \<Rightarrow> ('k, 'f) outcome" where
  "cmd_block_ip env args b =
     arg get_string ''ip'' [] args (\<lambda>ip. arg get_int ''ttl_s'' 0 args (\<lambda>ttl.
     if ip = [] then send_event env ''block_ip_result'' (refused_block ''no ip provided'') b
     else (case bg_firewall b of
         None \<Rightarrow> send_event env ''block_ip_result'' (refused_block ''firewall_not_available'') b
       | Some fw \<Rightarrow>
           let (br, fw', f', b') = block_ip (bridge_add env) (be_netsh env) (be_now env) (be_later env) ip ttl (fw, bg_netsh b, b)
           in send_event env ''block_ip_result''
                [(''blocked'', JBool (bk_blocked br)), (''reason'', JString (bk_reason br)),
                 (''rule_name_in'', JString (bk_rule_name_in br)), (''rule_name_out'', JString (bk_rule_name_out br))]
                (b'\<lparr>bg_firewall := Some fw', bg_netsh := f'\<rparr>))) b) b"

definition cmd_unblock_ip :: "('k, 'p, 'f) bridge_env \<Rightarrow> json \<Rightarrow> ('k, 'f) bridge \<Rightarrow> ('k, 'f) outcome" where
  "cmd_unblock_ip env args b =
     arg get_string ''ip'' [] args (\<lambda>ip.
       let (ok, b') = (case bg_firewall b of
             Some fw \<Rightarrow>
               if ip \<noteq> [] then
                 (let (ok, fw', f', b') = unblock_ip (bridge_add env) (be_netsh env) (be_now env) ip (fw, bg_netsh b, b)
                  in (ok, b'\<lparr>bg_firewall := Some fw', bg_netsh := f'\<rparr>))
               else (False, b)
           | None \<Rightarrow> (False, b))
       in send_event env ''unblock_ip_result'' [(''unblocked'', JBool ok), (''ip'', JString ip)] b') b"

subsection \<open>Triage and agents\<close>

definition heavy_json :: "heavy_result \<Rightarrow> (string \<times> json) list" where
  "heavy_json h =
     [(''heavy_severity'', JString (hr_severity h)), (''heavy_rationale'', JString (hr_rationale h)),
      (''heavy_mitre'', JString (hr_mitre_technique h)), (''heavy_model'', JString (hr_model_used h)),
      (''heavy_timed_out'', JBool (hr_timed_out h))]"

definition triage_json :: "triage_result \<Rightarrow> (string \<times> json) list" where
  "triage_json r =
     [(''event_type'', JString (ti_event_type (tg_input r))), (''score'', JInt (ti_score (tg_input r))),
      (''fast_route'', JString (fr_route (tg_fast r))), (''fast_severity_hint'', JString (fr_severity_hint (tg_fast r))),
      (''fast_confidence'', JReal (fr_confidence (tg_fast r))), (''fast_model'', JString (fr_model_used (tg_fast r))),
      (''fast_timed_out'', JBool (fr_timed_out (tg_fast r))), (''model_suggested_tier'', tier_json (tg_model_suggested_tier r)),
      (''final_tier'', tier_json (tg_final_tier r)), (''rule_engine_overrode'', JBool (tg_rule_engine_overrode r)),
      (''audit_entry_id'', JString (tg_audit_entry_id r))]
     @ (case tg_heavy r of None \<Rightarrow> [] | Some h \<Rightarrow> heavy_json h)"

text \<open>The triage is built on the rule engine, and that on the threat level.\<close>

definition cmd_triage_event :: "('k, 'p, 'f) bridge_env \<Rightarrow> json \<Rightarrow> ('k, 'f) bridge \<Rightarrow> ('k, 'f) outcome" where
  "cmd_triage_event env args b =
     (if \<not> bg_ai_triage b then send_event env ''triage_result'' [(''error'', JString ''ai_triage_not_initialised'')] b
      else
        arg get_string ''event_type'' ''unknown'' args (\<lambda>ty. arg get_string ''source'' ''bridge'' args (\<lambda>source.
        arg get_int ''score'' 0 args (\<lambda>score. arg get_string ''detail'' [] args (\<lambda>detail.
        need (bg_rules b) (\<lambda>e. need (bg_threat b) (\<lambda>m.
          case triage (bridge_add env) (bridge_trigger env) bridge_locked (be_granite env) (be_fast_io env) (be_heavy_io env)
                 \<lparr>ti_event_type = ty, ti_source = source, ti_score = score, ti_raw_detail = take 200 detail\<rparr> (e, m, b) of
            None \<Rightarrow> (Some Model_error, b)
          | Some (r, e', m', b') \<Rightarrow>
              let rs = JObject (triage_json r);
                  b1 = b'\<lparr>bg_rules := Some e', bg_threat := Some m', bg_last_triage := rs\<rparr>
              in send_json env (JObject [(''event'', JString ''triage_result''), (''data'', rs)]) b1) b) b) b) b) b) b)"

definition submit_priority :: "string \<Rightarrow> task_priority" where
  "submit_priority p = (if p = ''low'' then PRIO_LOW else if p = ''high'' then PRIO_HIGH else PRIO_NORMAL)"

definition cmd_agent_submit :: "('k, 'p, 'f) bridge_env \<Rightarrow> json \<Rightarrow> ('k, 'f) bridge \<Rightarrow> ('k, 'f) outcome" where
  "cmd_agent_submit env args b =
     (case bg_agents b of
        None \<Rightarrow> send_event env ''agent_submitted'' [(''error'', JString ''agent_controller_not_initialised'')] b
      | Some c \<Rightarrow>
          arg get_string ''agent_name'' [] args (\<lambda>name. arg get_string ''input'' [] args (\<lambda>inp.
          arg get_string ''priority'' ''normal'' args (\<lambda>prio.
          if name = [] \<or> inp = [] then
            send_event env ''agent_submitted'' [(''error'', JString ''agent_name and input are required'')] b
          else
            let (tid, c') = submit_task name inp (submit_priority prio) (be_now env) c; b1 = b\<lparr>bg_agents := Some c'\<rparr> in
            if tid = [] then
              send_event env ''agent_submitted'' [(''error'', JString ''unknown_agent''), (''agent_name'', JString name)] b1
            else
              send_event env ''agent_submitted''
                [(''task_id'', JString tid), (''agent_name'', JString name), (''priority'', JString prio)]
                (emit (bridge_add env) ''agent_submit'' (''agent='' @ name @ '' task='' @ tid) b1)) b) b) b)"

fun agent_state_name :: "agent_state \<Rightarrow> string" where
  "agent_state_name AgentController.IDLE = ''IDLE''"
| "agent_state_name RUNNING = ''RUNNING''"
| "agent_state_name COMPLETED = ''COMPLETED''"
| "agent_state_name FAILED = ''FAILED''"

definition agent_json :: "agent_status \<Rightarrow> json" where
  "agent_json s =
     JObject [(''name'', JString (AgentController.as_name s)), (''category'', JString (as_category s)),
       (''state'', JString (agent_state_name (as_state s))), (''last_task_id'', JString (as_last_task_id s)),
       (''last_result_snippet'', JString (as_last_result_snippet s)), (''last_run_at_ms'', JInt (as_last_run_at_ms s)),
       (''tasks_completed'', JInt (as_tasks_completed s)), (''tasks_failed'', JInt (as_tasks_failed s))]"

definition cmd_agent_status :: "('k, 'p, 'f) bridge_env \<Rightarrow> ('k, 'f) bridge \<Rightarrow> ('k, 'f) outcome" where
  "cmd_agent_status env b =
     (case bg_agents b of
        None \<Rightarrow> send_event env ''agent_status_update'' [(''agent_statuses'', JArray []), (''agent_queue_depth'', JNat 0),
          (''error'', JString ''agent_controller_not_initialised'')] b
      | Some c \<Rightarrow> send_event env ''agent_status_update''
          [(''agent_statuses'', JArray (map agent_json (get_statuses c))), (''agent_queue_depth'', JNat (queue_depth c))] b)"

subsection \<open>Network and zero trust\<close>

fun posture_name :: "security_posture \<Rightarrow> string" where
  "posture_name FILTERED_INTERNET = ''FILTERED_INTERNET''"
| "posture_name ZERO_TRUST = ''ZERO_TRUST''"
| "posture_name MANAGEMENT = ''MANAGEMENT''"

definition ssid_json :: "ssid_config \<Rightarrow> json" where
  "ssid_json s =
     JObject [(''ssid_name'', JString (sc_ssid_name s)), (''vlan_id'', JString (sc_vlan_id s)),
       (''ip_subnet'', JString (sc_ip_subnet s)), (''gateway'', JString (sc_gateway s)),
       (''posture'', JString (posture_name (sc_posture s))), (''client_isolation'', JBool (sc_client_isolation s)),
       (''requires_8021x'', JBool (sc_requires_8021x s)), (''captive_portal_url'', JString (sc_captive_portal_url s)),
       (''bandwidth_limit_mbps'', JInt (sc_bandwidth_limit_mbps s)),
       (''session_timeout_minutes'', JInt (sc_session_timeout_minutes s))]"

definition cmd_network_get_ssids :: "('k, 'p, 'f) bridge_env \<Rightarrow> ('k, 'f) bridge \<Rightarrow> ('k, 'f) outcome" where
  "cmd_network_get_ssids env b =
     send_event env ''network_ssids''
       [(''ssids'', JArray (map ssid_json [make_public_ssid, make_enterprise_ssid, make_management_ssid]))] b"

definition device_request :: "string \<Rightarrow> string \<Rightarrow> string \<Rightarrow> string \<Rightarrow> string \<Rightarrow> bool \<Rightarrow> bool \<Rightarrow> bool \<Rightarrow> bool \<Rightarrow> access_request" where
  "device_request mac name ssid user domain os av enc fw =
     \<lparr>rq_device_mac = mac, rq_device_name = name, rq_ssid_name = ssid,
      rq_identity = \<lparr>ic_username = user, ic_domain = domain, ic_certificate_based = False, ic_cert_thumbprint = []\<rparr>,
      rq_posture = \<lparr>dp_os_updated = os, dp_antivirus_running = av, dp_disk_encrypted = enc, dp_firewall_enabled = fw,
        dp_screen_lock_enabled = False, dp_os_version = [], dp_last_update_date = [], dp_critical_patches_missing = 0\<rparr>\<rparr>"

fun nac_result_str :: "nac_result \<Rightarrow> string" where
  "nac_result_str NAC_ALLOW_FULL = ''ALLOW_FULL''"
| "nac_result_str NAC_ALLOW_LIMITED = ''ALLOW_LIMITED''"
| "nac_result_str NAC_MFA_REQUIRED = ''MFA_REQUIRED''"
| "nac_result_str NAC_QUARANTINE = ''QUARANTINE''"
| "nac_result_str NAC_DENY = ''DENY''"

definition step_json :: "nat \<times> step_result \<Rightarrow> json" where
  "step_json = (\<lambda>(i, s). JObject [(''step'', JNat (i + 1)), (''passed'', JBool (sp_passed s)),
     (''detail'', JString (sp_detail s)), (''duration_ms'', JInt (sp_duration_ms s))])"

definition nac_audit_payload :: "access_request \<Rightarrow> nac_decision \<Rightarrow> string" where
  "nac_audit_payload rq d = ''device='' @ rq_device_name rq @ '' ssid='' @ rq_ssid_name rq
     @ '' user='' @ ic_username (rq_identity rq) @ '' result='' @ nac_result_str (nd_result d)"

definition nac_answer :: "('k, 'p, 'f) bridge_env \<Rightarrow> access_request \<Rightarrow> ('k, 'f) bridge \<Rightarrow> ('k, 'f) outcome" where
  "nac_answer env rq b =
     (let d = nac_process rq; steps = process_verbose rq in
      send_event env ''nac_result''
        [(''device_mac'', JString (rq_device_mac rq)), (''device_name'', JString (rq_device_name rq)),
         (''ssid_name'', JString (rq_ssid_name rq)), (''result'', JString (nac_result_str (nd_result d))),
         (''assigned_vlan'', JString (nd_assigned_vlan d)), (''assigned_role'', JString (nd_assigned_role d)),
         (''accessible_resources'', JArray (map JString (nd_accessible_resources d))),
         (''remediation_reason'', JString (nd_remediation_reason d)), (''reauth_interval_s'', JInt (nd_reauth_interval d)),
         (''steps'', JArray (map step_json (List.enumerate 0 steps)))]
        (emit (bridge_add env) ''nac_simulate'' (nac_audit_payload rq d) b))"

definition cmd_nac_simulate_device :: "('k, 'p, 'f) bridge_env \<Rightarrow> json \<Rightarrow> ('k, 'f) bridge \<Rightarrow> ('k, 'f) outcome" where
  "cmd_nac_simulate_device env args b =
     arg get_string ''device_mac'' ''00:00:00:00:00:00'' args (\<lambda>mac.
     arg get_string ''device_name'' ''Unknown-Device'' args (\<lambda>name.
     arg get_string ''ssid_name'' ''SmartBots'' args (\<lambda>ssid.
     arg get_string ''username'' [] args (\<lambda>user. arg get_string ''domain'' [] args (\<lambda>domain.
     arg get_bool ''os_updated'' False args (\<lambda>os. arg get_bool ''antivirus_running'' False args (\<lambda>av.
     arg get_bool ''disk_encrypted'' False args (\<lambda>enc. arg get_bool ''firewall_enabled'' False args (\<lambda>fw.
       nac_answer env (device_request mac name ssid user domain os av enc fw) b) b) b) b) b) b) b) b) b) b"

definition zt_audit_payload :: "access_context \<Rightarrow> string" where
  "zt_audit_payload ctx = ''user='' @ ac_user_id ctx @ '' src='' @ ac_source_ip ctx @ '' dst='' @ ac_destination_ip ctx
     @ '' resource='' @ ac_requested_resource ctx @ '' decision='' @ decision_str (fst (zt_verdict ctx))"

text \<open>The engine of this command writes its own log to a callback that drops it.\<close>

definition zt_answer :: "('k, 'p, 'f) bridge_env \<Rightarrow> access_context \<Rightarrow> ('k, 'f) bridge \<Rightarrow> ('k, 'f) outcome" where
  "zt_answer env ctx0 b =
     (let score = calculate_trust_score ctx0; ctx = ctx0\<lparr>ac_trust_score := score\<rparr>;
          decision = fst (zt_evaluate (\<lambda>k v w. (k @ '':'' @ v, w)) ctx ())
      in send_event env ''zerotrust_result''
        [(''user_id'', JString (ac_user_id ctx)), (''device_id'', JString (ac_device_id ctx)),
         (''source_ip'', JString (ac_source_ip ctx)), (''destination_ip'', JString (ac_destination_ip ctx)),
         (''requested_resource'', JString (ac_requested_resource ctx)), (''ssid_name'', JString (ac_ssid_name ctx)),
         (''trust_score'', JInt score), (''decision'', JString (decision_str decision))]
        (emit (bridge_add env) ''zerotrust_evaluate'' (zt_audit_payload ctx) b))"

definition cmd_zerotrust_evaluate :: "('k, 'p, 'f) bridge_env \<Rightarrow> json \<Rightarrow> ('k, 'f) bridge \<Rightarrow> ('k, 'f) outcome" where
  "cmd_zerotrust_evaluate env args b =
     arg get_string ''user_id'' ''unknown'' args (\<lambda>user. arg get_string ''device_id'' ''unknown'' args (\<lambda>device.
     arg get_string ''source_ip'' ''0.0.0.0'' args (\<lambda>src. arg get_string ''destination_ip'' ''0.0.0.0'' args (\<lambda>dst.
     arg get_string ''requested_resource'' [] args (\<lambda>res. arg get_string ''ssid_name'' ''SmartBots'' args (\<lambda>ssid.
       zt_answer env \<lparr>ac_user_id = user, ac_device_id = device, ac_source_ip = src, ac_destination_ip = dst,
         ac_requested_resource = res, ac_ssid_name = ssid, ac_trust_score = 0\<rparr> b) b) b) b) b) b) b"

subsection \<open>The snapshot\<close>

fun protocol_state_name :: "protocol_state \<Rightarrow> string" where
  "protocol_state_name COLLECTING = ''COLLECTING''"
| "protocol_state_name GRANTED = ''GRANTED''"
| "protocol_state_name UnlockProtocol.IDLE = ''IDLE''"

definition approver_json :: "approver_status \<Rightarrow> json" where
  "approver_json a = JObject [(''name'', JString (UnlockProtocol.as_name a)),
     (''side'', JString (if as_side a = ASTARTIS then ''ASTARTIS'' else ''CLIENT'')), (''voted'', JBool (as_voted a))]"

definition unlock_fields :: "('k, 'f) bridge \<Rightarrow> (string \<times> json) list" where
  "unlock_fields b =
     (case bg_unlock b of
        Some u \<Rightarrow>
          let st = unlock_status_of u in
          [(''unlock_votes_collected'', JInt (us_votes_collected st)), (''unlock_threshold'', JInt (us_threshold st)),
           (''unlock_state'', JString (protocol_state_name (us_state st))),
           (''unlock_approvers'', JArray (map approver_json (us_approvers st)))]
      | None \<Rightarrow>
          [(''unlock_votes_collected'', JNat 0), (''unlock_threshold'', JInt DEMO_THRESHOLD),
           (''unlock_state'', JString ''IDLE''), (''unlock_approvers'', JArray [])])"

definition veeam_fields :: "('k, 'f) bridge \<Rightarrow> (string \<times> json) list" where
  "veeam_fields b =
     (case bg_veeam b of
        Some r \<Rightarrow>
          [(''veeam_lock_state'', JString (lock_state_str (br_lock_state r))),
           (''veeam_backup_count'', JInt (br_backup_count r)), (''veeam_locked_at_ms'', JInt (br_locked_at_ms r)),
           (''veeam_integrity_checks'', JInt (br_integrity_check_count r)),
           (''veeam_locked_by_reason'', JString (br_locked_by_reason r))]
      | None \<Rightarrow>
          [(''veeam_lock_state'', JString ''UNLOCKED''), (''veeam_backup_count'', JNat 0),
           (''veeam_locked_at_ms'', JNat 0), (''veeam_integrity_checks'', JNat 0), (''veeam_locked_by_reason'', JString [])])"

definition agent_fields :: "('k, 'f) bridge \<Rightarrow> (string \<times> json) list" where
  "agent_fields b =
     (case bg_agents b of
        Some c \<Rightarrow> [(''agent_statuses'', JArray (map agent_json (get_statuses c))), (''agent_queue_depth'', JNat (queue_depth c))]
      | None \<Rightarrow> [(''agent_statuses'', JArray []), (''agent_queue_depth'', JNat 0)])"

definition block_json :: "active_block \<Rightarrow> json" where
  "block_json ab = JObject [(''ip'', JString (ab_ip ab)), (''rule_name_in'', JString (ab_rule_name_in ab)),
     (''expires_at_ms'', JInt (ab_expires_at_ms ab))]"

definition build_snapshot ::
    "('k, 'p, 'f) bridge_env \<Rightarrow> string \<Rightarrow> bool \<Rightarrow> threat_sm \<Rightarrow> ('k, 'f) bridge \<Rightarrow> (string \<times> json) list" where
  "build_snapshot env sandbox_root elevated m b =
     (let chain = aw_chain (snd (bg_gate b)); lock = fst (bg_gate b) in
      [(''threat_tier'', tier_json (ts_current_tier m)), (''threat_tier_name'', JString (tier_name (ts_current_tier m))),
       (''threat_transitions'', JInt (uint (ts_transition_count m))),
       (''worm_locked'', JBool (is_locked lock)), (''worm_reason'', JString (wl_lock_reason lock)),
       (''worm_lock_count'', JInt (uint (wl_lockdown_count lock))),
       (''chain_length'', JNat (length chain)), (''chain_valid'', JBool (vr_is_valid (verify_chain (be_sha env) chain))),
       (''chain_head'', JString (take 12 (get_chain_head_hash chain))),
       (''chaos_K'', JReal (bg_latest_K b)), (''chaos_anomalous'', JBool (bg_latest_anomalous b)),
       (''chaos_windows'', JInt (uint (bg_latest_windows b))), (''chaos_history'', JArray (map JReal (bg_chaos_history b))),
       (''rule_fires'', case bg_rules b of Some e \<Rightarrow> JInt (uint (re_total_fires e)) | None \<Rightarrow> JNat 0),
       (''worm_triggers'', case bg_rules b of Some e \<Rightarrow> JInt (uint (re_worm_trigger_count e)) | None \<Rightarrow> JNat 0),
       (''decoy_events'', case bg_decoy b of Some d \<Rightarrow> JNat (length (dc_forensic_log d)) | None \<Rightarrow> JNat 0),
       (''sandbox_entries'', JArray (case bg_sandbox b of Some s \<Rightarrow> map entry_json (get_tree s) | None \<Rightarrow> [])),
       (''sandbox_root'', JString sandbox_root), (''elevated'', JBool elevated),
       (''quarantine_count'', case bg_qtn b of Some q \<Rightarrow> JNat (length (quarantine_list q)) | None \<Rightarrow> JNat 0),
       (''active_firewall_blocks'', JArray (case bg_firewall b of Some fw \<Rightarrow> map block_json (active_blocks fw) | None \<Rightarrow> []))]
      @ unlock_fields b @ [(''last_triage'', bg_last_triage b)] @ veeam_fields b @ agent_fields b)"

definition cmd_get_snapshot ::
    "('k, 'p, 'f) bridge_env \<Rightarrow> string \<Rightarrow> bool \<Rightarrow> ('k, 'f) bridge \<Rightarrow> ('k, 'f) outcome" where
  "cmd_get_snapshot env sandbox_root elevated b =
     need (bg_threat b) (\<lambda>m. send_event env ''snapshot'' (build_snapshot env sandbox_root elevated m b) b) b"

definition cmd_get_unlock_status :: "('k, 'p, 'f) bridge_env \<Rightarrow> ('k, 'f) bridge \<Rightarrow> ('k, 'f) outcome" where
  "cmd_get_unlock_status env b =
     need (bg_threat b) (\<lambda>m. send_event env ''unlock_status'' (unlock_fields b) b) b"

section \<open>The demonstration\<close>

text \<open>
  \<^verbatim>\<open>run_demo\<close> answers at once; its body runs on a thread of its own, between whose steps other commands run:
  the four signals, the samples of the logistic map, and the closing steps.
\<close>

definition cmd_run_demo :: "('k, 'p, 'f) bridge_env \<Rightarrow> ('k, 'f) bridge \<Rightarrow> ('k, 'f) outcome" where
  "cmd_run_demo env b =
     send_event env ''demo_started_async'' [(''pass'', JNat 1)] (emit (bridge_add env) ''demo_started'' ''pass=1'' b)"

definition DEMO_SCORES :: "int list" where
  "DEMO_SCORES = [30, 60, 85, 95]"

definition demo_signal :: "('k, 'p, 'f) bridge_env \<Rightarrow> int \<Rightarrow> ('k, 'f) bridge \<Rightarrow> ('k, 'f) bridge" where
  "demo_signal env score b = try_score_rule env score ''demo'' (try_observe env score ''demo'' b)"

fun demo_samples :: "nat \<Rightarrow> real \<Rightarrow> real list" where
  "demo_samples 0 x = []"
| "demo_samples (Suc n) x = (let y = 4 * x * (1 - x) in (y - 1 / 2) # demo_samples n y)"

definition DEMO_SAMPLES :: "real list" where
  "DEMO_SAMPLES = demo_samples 64 (7 / 10)"

definition demo_decoys :: "('k, 'p, 'f) bridge_env \<Rightarrow> ('k, 'f) bridge \<Rightarrow> ('k, 'f) outcome" where
  "demo_decoys env b =
     need (bg_decoy b) (\<lambda>d. need (bg_sandbox b) (\<lambda>s. need (bg_ar b) (\<lambda>a.
       let (_, b1) = bridge_plant env (d, s) b;
           (_, b2) = bridge_touch env ''decoy/credentials/.aws/credentials'' ''read'' ''demo-atk'' ''demo''
                       (the (bg_decoy b1)) b1;
           (_, b3) = bridge_touch env ''decoy/assets/financial-projections-2024.xlsx'' ''exfil_attempt'' ''demo-atk'' ''demo''
                       (the (bg_decoy b2)) b2;
           (_, b4) = bridge_serve env ''demo-atk'' ''decoy/credentials/.aws/credentials'' ''185.220.101.1'' a b3
       in (None, b4)) b) b) b"

definition demo_finish :: "('k, 'p, 'f) bridge_env \<Rightarrow> ('k, 'f) bridge \<Rightarrow> ('k, 'f) outcome" where
  "demo_finish env b =
     (let b1 = bridge_trigger env ''demo_script'' b in
      need (bg_sandbox b1) (\<lambda>s.
        send_event env ''demo_done'' [(''pass'', JNat 1)]
          (emit (bridge_add env) ''demo_completed'' ''pass=1'' (bridge_lock_all env ''demo_worm'' s b1))) b1)"

section \<open>Dispatch\<close>

text \<open>What \<^verbatim>\<open>main\<close> fixes before the threads start.\<close>

record bridge_config =
  bf_sandbox_root :: string
  bf_elevated :: bool

definition run_command ::
    "bridge_config \<Rightarrow> ('k, 'p, 'f) bridge_env \<Rightarrow> string \<Rightarrow> json \<Rightarrow> ('k, 'f) bridge \<Rightarrow> ('k, 'f) outcome" where
  "run_command cf env cmd args b =
     (if cmd = ''ping'' then send_json env (JObject [(''event'', JString ''pong'')]) b
      else if cmd = ''get_snapshot'' then cmd_get_snapshot env (bf_sandbox_root cf) (bf_elevated cf) b
      else if cmd = ''observe_signal'' then cmd_observe_signal env args b
      else if cmd = ''push_chaos'' then cmd_push_chaos env args b
      else if cmd = ''push_chaos_batch'' then cmd_push_chaos_batch env args b
      else if cmd = ''worm_trigger'' then cmd_worm_trigger env args b
      else if cmd = ''worm_unlock'' then cmd_worm_unlock env b
      else if cmd = ''veeam_integrity_check'' then cmd_veeam_integrity_check env b
      else if cmd = ''veeam_status'' then cmd_veeam_status env b
      else if cmd = ''sandbox_get_tree'' then cmd_sandbox_get_tree env b
      else if cmd = ''decoy_plant'' then cmd_decoy_plant env b
      else if cmd = ''decoy_touch'' then cmd_decoy_touch env args b
      else if cmd = ''active_response_serve'' then cmd_active_response_serve env args b
      else if cmd = ''run_demo'' then cmd_run_demo env b
      else if cmd = ''get_attribution'' then cmd_get_attribution env (bf_sandbox_root cf) args b
      else if cmd = ''scan_and_quarantine'' then cmd_scan_and_quarantine env args b
      else if cmd = ''block_ip'' then cmd_block_ip env args b
      else if cmd = ''unblock_ip'' then cmd_unblock_ip env args b
      else if cmd = ''unlock_vote'' then cmd_unlock_vote env args b
      else if cmd = ''get_unlock_status'' then cmd_get_unlock_status env b
      else if cmd = ''triage_event'' then cmd_triage_event env args b
      else if cmd = ''agent_submit'' then cmd_agent_submit env args b
      else if cmd = ''agent_status'' then cmd_agent_status env b
      else if cmd = ''network_get_ssids'' then cmd_network_get_ssids env b
      else if cmd = ''nac_simulate_device'' then cmd_nac_simulate_device env args b
      else if cmd = ''zerotrust_evaluate'' then cmd_zerotrust_evaluate env args b
      else send_event env ''unknown_cmd'' [(''cmd'', JString cmd)] b)"

definition dispatch :: "bridge_config \<Rightarrow> ('k, 'p, 'f) bridge_env \<Rightarrow> json \<Rightarrow> ('k, 'f) bridge \<Rightarrow> ('k, 'f) outcome" where
  "dispatch cf env msg b =
     arg get_string ''cmd'' [] msg (\<lambda>cmd. arg Inr ''args'' (JObject []) msg (\<lambda>args. run_command cf env cmd args b) b) b"

end
