(* ===== verification/Frames.thy ===== *)
theory Frames
  imports AiTriage Attribution Clamd Firewall UnlockProtocol VeeamInterface
begin

text \<open>
  What the components leave alone. Every component changes the world it is given through its callbacks only, so a
  reflexive and transitive relation that holds across each callback holds across each operation. The bridge, whose
  whole state is that world, draws its invariants from this.
\<close>

locale world_frame =
  fixes add :: "'w audit_adder"
    and trg :: "string \<Rightarrow> 'w \<Rightarrow> 'w"
    and R :: "'w \<Rightarrow> 'w \<Rightarrow> bool"
  assumes R_refl: "R w w"
    and R_trans: "R u v \<Longrightarrow> R v w \<Longrightarrow> R u w"
    and R_add: "R w (snd (add t p w))"
    and R_trg: "R w (trg r w)"
begin

lemma R_emit: "R w (emit add t p w)"
  by (simp add: emit_def R_add)

lemma R_then_emit: "R w v \<Longrightarrow> R w (emit add t p v)"
  using R_trans R_emit by blast

lemma R_then_add: "R w v \<Longrightarrow> R w (snd (add t p v))"
  using R_trans R_add by blast

lemma R_then_trg: "R w v \<Longrightarrow> R w (trg r v)"
  using R_trans R_trg by blast

lemmas R_steps = R_refl R_then_emit R_then_trg R_then_add

section \<open>Threat level and rules\<close>

lemma do_transition_frame: "R w (snd (snd (do_transition add trg t r m w)))"
  by (auto simp: do_transition_def Let_def intro: R_steps)

lemma observe_frame: "R w (snd (snd (observe_signal add trg s src m w)))"
  by (auto simp: observe_signal_def Let_def do_transition_frame intro: R_steps)

lemma force_frame: "R w (snd (snd (force_tier add trg t r m w)))"
  using do_transition_frame by (auto simp: force_tier_def intro: R_steps)

lemma belt_frame: "R w (snd (snd (apply_rule04_belt add trg locked r m (e, w))))"
  by (auto simp: apply_rule04_belt_def intro: R_steps)

lemma score_rule_frame: "R w (snd (snd (snd (evaluate_threat_score add trg locked s src (e, m, w)))))"
proof -
  obtain res m1 w1 where o: "observe_signal add trg s src m w = (res, m1, w1)" by (metis prod_cases3)
  have "R w w1" using observe_frame [of w s src m] by (simp add: o)
  then have "R w (snd (snd (apply_rule04_belt add trg locked ''RULE-02'' m1 (e, w1))))"
    by (rule R_trans) (rule belt_frame)
  then show ?thesis by (simp add: evaluate_threat_score_def o case_prod_beta Let_def)
qed

lemma chaos_rule_frame: "R w (snd (snd (snd (evaluate_chaos_window add trg win (e, m, w)))))"
  using force_frame by (auto simp: evaluate_chaos_window_def case_prod_beta Let_def intro: R_steps)

lemma triage_frame:
  assumes "triage add trg locked g io1 io2 inp (e, m, w) = Some (r, e', m', w')"
  shows "R w w'"
proof -
  obtain fast heavy where c: "consult g io1 io2 inp = Some (fast, heavy)"
    using assms by (auto simp: triage_def split: option.splits)
  let ?s = "evaluate_threat_score add trg locked (score_for_rule_engine (ti_score inp) fast heavy) ''ai_triage'' (e, m, w)"
  have "\<exists>t p. w' = snd (add t p (snd (snd (snd ?s))))"
    using assms c by (auto simp: triage_def case_prod_beta Let_def)
  with score_rule_frame show ?thesis by (auto intro: R_then_add)
qed

section \<open>Chaos detector\<close>

lemma push_frame:
  assumes "\<And>win w. R w (cb win w)"
  shows "R w (snd (push_sample add cb x (d, w)))"
proof -
  have cb: "R w v \<Longrightarrow> R w (cb win v)" for v win using assms R_trans by blast
  then show ?thesis
    by (cases x) (auto simp: push_sample_def flush_chaos_def Let_def intro!: cb intro: R_steps)
qed

section \<open>Sandbox, decoys, responses, backups\<close>

lemma lock_all_frame: "R w (snd (snd (lock_all add r (s, w))))"
  by (simp add: lock_all_def Let_def R_emit)

lemma write_frame:
  assumes "\<And>p c w. R w (disk p c w)"
  shows "R w (snd (snd (sandbox_write add lk disk ts path content author (s, w))))"
  using assms by (auto simp: sandbox_write_def Let_def intro: R_steps)

lemma plant_fold_frame:
  assumes "\<And>p c w. R w (disk p c w)"
  shows "R w (snd (snd (snd (fold (plant_spec add lk disk ts) fs (n, d, s, w)))))"
proof (induction fs arbitrary: n d s w)
  case (Cons f fs)
  obtain n' d' s' w' where f: "plant_spec add lk disk ts f (n, d, s, w) = (n', d', s', w')" by (metis prod_cases4)
  then have "w' = snd (snd (sandbox_write add lk disk ts (sb_root_path s @ ''/'' @ fst f) (snd (snd f)) ''decoy_system'' (s, w)))"
    by (auto simp: plant_spec_def case_prod_beta split: prod.splits sum.splits)
  then have "R w w'" using write_frame [OF assms] by simp
  with Cons.IH [where n = n' and d = d' and s = s' and w = w'] f R_trans show ?case by auto
qed (simp add: R_refl)

lemma plant_frame:
  assumes "\<And>p c w. R w (disk p c w)"
  shows "R w (snd (snd (snd (plant add lk disk ts (d, s, w)))))"
  using plant_fold_frame [OF assms, where w = w and lk = lk and ts = ts and fs = kPoisonedFiles and n = 0 and d = d and s = s]
  by (simp add: plant_def case_prod_beta Let_def R_then_emit)

lemma touch_frame: "R w (snd (snd (touch add now rel a tag det (d, w))))"
  by (auto simp: touch_def log_decoy_event_def intro: R_steps split: option.splits)

lemma serve_frame: "R w (snd (snd (serve add now sid res hint (a, w))))"
  by (auto simp: serve_def Let_def intro: R_steps split: option.splits)

lemma lock_backups_frame: "R w (snd (snd (lock_backups add now r (b, w))))"
  by (auto simp: lock_backups_def Let_def case_prod_beta intro: R_steps)

lemma integrity_frame: "R w (snd (snd (integrity_check add now (b, w))))"
  by (auto simp: integrity_check_def Let_def case_prod_beta intro: R_steps)

lemma report_frame: "R w (snd (snd (generate_report add put mkdir now dir sid dl rl (disk, w))))"
  by (simp add: generate_report_def Let_def R_emit R_refl)

section \<open>Scanner, quarantine, firewall\<close>

lemma audit_scan_frame: "R w (snd (audit_scan add r w))"
  by (simp add: audit_scan_def case_prod_beta Let_def R_add)

lemma scan_frame: "R w (snd (scan_file add io el content path w))"
  by (auto simp: scan_file_def scan_buffer_def audit_scan_frame split: option.splits)

lemma quarantine_frame: "R w (snd (snd (snd (quarantine_file sha ab add k path virus (q, fs, w)))))"
  by (auto simp: quarantine_file_def Let_def intro: R_steps split: option.splits)

lemma block_frame: "R w (snd (snd (snd (block_ip add netsh t1 t2 ip ttl (b, f, w)))))"
  by (auto simp: block_ip_def Let_def case_prod_beta intro: R_steps)

lemma do_unblock_frame: "R w (snd (snd (do_unblock_locked add netsh now x (b, f, w))))"
  by (auto simp: do_unblock_locked_def Let_def case_prod_beta intro: R_steps)

lemma unblock_frame: "R w (snd (snd (snd (unblock_ip add netsh now ip (b, f, w)))))"
  using do_unblock_frame by (auto simp: unblock_ip_def intro: R_steps split: option.splits)

lemma fold_frame:
  assumes "\<And>x b f w. R w (snd (snd (g x (b, f, w))))"
  shows "R w (snd (snd (fold g xs (b, f, w))))"
proof (induction xs arbitrary: b f w)
  case (Cons x xs)
  obtain b' f' w' where g: "g x (b, f, w) = (b', f', w')" by (metis prod_cases3)
  have "R w w'" using assms [where w = w and x = x and b = b and f = f] by (simp add: g)
  moreover have "R w' (snd (snd (fold g xs (b', f', w'))))" by (rule Cons.IH)
  ultimately have "R w (snd (snd (fold g xs (b', f', w'))))" by (rule R_trans)
  then show ?case by (simp add: g)
qed (simp add: R_refl)

lemma expiry_frame: "R w (snd (snd (expiry_tick add netsh now clk (b, f, w))))"
proof -
  let ?g = "\<lambda>(ip, ab) s. if ab_expires_at_ms ab \<le> now then do_unblock_locked add netsh (clk ip) (ip, ab) s else s"
  have "R w (snd (snd (?g x (b, f, w))))" for x b f w
    using do_unblock_frame [where w = w and b = b and f = f] by (cases x) (simp add: R_refl)
  from fold_frame [where g = ?g, OF this] show ?thesis by (simp add: expiry_tick_def)
qed

section \<open>Votes\<close>

lemma check_access_frame: "R w (snd (check_access add now tid scope ts w))"
  by (auto simp: check_access_def deny_def Let_def intro: R_steps split: option.splits)

lemma reject_frame: "R w v \<Longrightarrow> R w (snd (snd (reject add n r u v)))"
  by (simp add: reject_def R_then_emit)

lemma cast_vote_frame:
  assumes wu: "\<And>a w. R w (wu a w)"
  shows "R w (snd (snd (cast_vote os add wu ts now name req (u, w))))"
proof -
  have wu': "R v x \<Longrightarrow> R v (wu a x)" for v x a using wu R_trans by blast
  have accept: "R w (snd (snd (accept_vote add wu n v x)))" if "R w x" for n v x
    using that by (auto simp: accept_vote_def Let_def intro!: wu' R_then_emit)
  have "R w (snd (check_access add now tid scope ts w))" for tid scope by (rule check_access_frame)
  then show ?thesis
    by (auto simp: cast_vote_def Let_def case_prod_beta intro!: reject_frame accept intro: R_refl split: option.splits)
qed

end

end
