(* ===== verification/BridgeRun.thy ===== *)
theory BridgeRun
  imports Bridge Frames
begin

text \<open>
  The bridge at work: its input loop, the callbacks of the protection monitors, the steps of the demonstration and
  of the firewall's expiry thread, as one step function over the shared state, and the invariants of its runs. Each
  step is one command or one callback, taken as a whole; the order in which the threads take turns is any.
\<close>

section \<open>The input loop\<close>

datatype input_error = Unparsable | Rejected bridge_error

definition strip_cr :: "string \<Rightarrow> string" where
  "strip_cr line = (if line \<noteq> [] \<and> last line = CHR 0x0D then butlast line else line)"

text \<open>The handler prints the message of the exception; when that throws in turn, the process ends.\<close>

definition report_error :: "(input_error \<Rightarrow> string) \<Rightarrow> ('k, 'p, 'f) bridge_env \<Rightarrow> input_error \<Rightarrow> ('k, 'f) bridge \<Rightarrow> ('k, 'f) bridge" where
  "report_error what env e b =
     (case send_event env ''parse_error'' [(''msg'', JString (what e))] b of
        (None, b') \<Rightarrow> b'
      | (Some _, b') \<Rightarrow> b'\<lparr>bg_crashed := True\<rparr>)"

definition input_line ::
    "bridge_config \<Rightarrow> (string \<Rightarrow> json option) \<Rightarrow> (input_error \<Rightarrow> string) \<Rightarrow> ('k, 'p, 'f) bridge_env \<Rightarrow> string
       \<Rightarrow> ('k, 'f) bridge \<Rightarrow> ('k, 'f) bridge" where
  "input_line cf parse what env line b =
     (let l = strip_cr line in
      if l = [] then b
      else (case parse l of
          None \<Rightarrow> report_error what env Unparsable b
        | Some msg \<Rightarrow>
            (case dispatch cf env msg b of
               (None, b') \<Rightarrow> b'
             | (Some e, b') \<Rightarrow> if e = Null_component then b' else report_error what env (Rejected e) b')))"

text \<open>The command of a line, if it has one.\<close>

definition command_of :: "(string \<Rightarrow> json option) \<Rightarrow> string \<Rightarrow> string option" where
  "command_of parse line =
     (case parse (strip_cr line) of
        None \<Rightarrow> None
      | Some msg \<Rightarrow> (case json_value get_string ''cmd'' [] msg of Inl _ \<Rightarrow> None | Inr cmd \<Rightarrow> Some cmd))"

section \<open>Protection\<close>

definition on_entropy_window :: "('k, 'p, 'f) bridge_env \<Rightarrow> entropy_window \<Rightarrow> ('k, 'f) bridge \<Rightarrow> ('k, 'f) bridge" where
  "on_entropy_window env win b =
     (let b1 = (case bg_chaos b of
            Some d \<Rightarrow> bridge_push env (ew_mean_entropy_bits win / 8) (ew_synthetic win) d b
          | None \<Rightarrow> b)
      in if ew_anomalous win then try_observe env (ew_threat_score win) ''packet_entropy'' b1 else b1)"

definition push_to_loop :: "pending_signal \<Rightarrow> ('k, 'f) bridge \<Rightarrow> ('k, 'f) bridge" where
  "push_to_loop ps b = b\<lparr>bg_autonomy := map_option (push_signal ps) (bg_autonomy b)\<rparr>"

definition on_event_signal :: "('k, 'p, 'f) bridge_env \<Rightarrow> event_signal \<Rightarrow> ('k, 'f) bridge \<Rightarrow> ('k, 'f) bridge" where
  "on_event_signal env sig b =
     (let b1 = try_score_rule env (es_score sig) (es_source sig) (try_observe env (es_score sig) (es_source sig) b);
          b2 = push_to_loop \<lparr>ps_source = es_source sig, ps_score = es_score sig, ps_description = es_description sig,
                 ps_timestamp_ms = es_timestamp_ms sig\<rparr> b1
      in emit (bridge_add env) ''event_log_signal''
           (''id='' @ str_of_nat (es_event_id sig) @ '' score='' @ str_of_int (es_score sig) @ '' src='' @ es_source sig) b2)"

definition hi_risk :: "string list" where
  "hi_risk = [''.exe'', ''.dll'', ''.bat'', ''.ps1'', ''.vbs'', ''.scr'', ''.com'', ''.pif'']"

definition on_infected :: "('k, 'p, 'f) bridge_env \<Rightarrow> fs_event \<Rightarrow> string \<Rightarrow> ('k, 'f) bridge \<Rightarrow> ('k, 'f) bridge" where
  "on_infected env ev virus b =
     (let b1 = (case bg_qtn b of Some q \<Rightarrow> snd (bridge_quarantine env (fe_path ev) virus q b) | None \<Rightarrow> b);
          b2 = try_observe env 90 ''clamd_infected_file'' b1
      in push_to_loop \<lparr>ps_source = ''fs_monitor/infected'', ps_score = 90,
           ps_description = ''Infected file detected: '' @ fe_filename ev @ '' ('' @ virus @ '')'',
           ps_timestamp_ms = fe_timestamp_ms ev\<rparr> b2)"

definition on_file_event :: "('k, 'p, 'f) bridge_env \<Rightarrow> fs_event \<Rightarrow> ('k, 'f) bridge \<Rightarrow> ('k, 'f) bridge" where
  "on_file_event env ev b =
     (let b1 = (if bg_clamd b then
            (let (r, b') = bridge_scan env (fe_path ev) b
             in if sn_status r = SCAN_INFECTED then on_infected env ev (sn_virus_name r) b' else b')
          else b)
      in if fe_extension ev \<in> set hi_risk then try_observe env 35 ''fs_monitor/hi_risk_drop'' b1 else b1)"

definition firewall_expiry :: "('k, 'p, 'f) bridge_env \<Rightarrow> (string \<Rightarrow> int) \<Rightarrow> ('k, 'f) bridge \<Rightarrow> ('k, 'f) bridge" where
  "firewall_expiry env clk b =
     (case bg_firewall b of
        None \<Rightarrow> b
      | Some fw \<Rightarrow>
          let (fw', f', b') = expiry_tick (bridge_add env) (be_netsh env) (be_now env) clk (fw, bg_netsh b, b)
          in b'\<lparr>bg_firewall := Some fw', bg_netsh := f'\<rparr>)"

section \<open>Background threads\<close>

text \<open>The periodic snapshot; an exception in its thread ends the process.\<close>

definition snapshot_tick :: "bridge_config \<Rightarrow> ('k, 'p, 'f) bridge_env \<Rightarrow> ('k, 'f) bridge \<Rightarrow> ('k, 'f) bridge" where
  "snapshot_tick cf env b =
     (case need (bg_threat b) (\<lambda>m. send_event env ''tick''
             (build_snapshot env (bf_sandbox_root cf) (bf_elevated cf) m b) b) b of
        (None, b') \<Rightarrow> b'
      | (Some _, b') \<Rightarrow> b'\<lparr>bg_crashed := True\<rparr>)"

text \<open>\<^verbatim>\<open>--protect\<close> plants the decoys and starts the autonomy loop, which needs the agents.\<close>

definition startup_plant :: "('k, 'p, 'f) bridge_env \<Rightarrow> ('k, 'f) bridge \<Rightarrow> ('k, 'f) bridge" where
  "startup_plant env b =
     (case (bg_decoy b, bg_sandbox b) of
        (Some d, Some s) \<Rightarrow>
          let (n, b') = bridge_plant env (d, s) b
          in emit (bridge_add env) ''decoy_plant_startup'' (''count='' @ str_of_nat n) b'
      | _ \<Rightarrow> b)"

definition loop_start :: "('k, 'p, 'f) bridge_env \<Rightarrow> ('k, 'f) bridge \<Rightarrow> ('k, 'f) bridge" where
  "loop_start env b =
     (if bg_agents b = None then
        print_or_skip env (event_json ''subsystem_degraded''
          [(''subsystem'', JString ''autonomy_loop''), (''reason'', JString ''agent_controller not available'')]) b
      else b\<lparr>bg_autonomy := Some new_autonomy_loop\<rparr>)"

definition autonomy_pass :: "('k, 'p, 'f) bridge_env \<Rightarrow> ('k, 'f) bridge \<Rightarrow> ('k, 'f) bridge" where
  "autonomy_pass env b =
     (case (bg_autonomy b, bg_agents b) of
        (Some l, Some c) \<Rightarrow>
          let (l', c', b') = loop_tick (bridge_add env)
                (Some (\<lambda>agent input prio. submit_task agent input prio (be_now env))) (l, c, b)
          in b'\<lparr>bg_autonomy := Some l', bg_agents := Some c'\<rparr>
      | _ \<Rightarrow> b)"

text \<open>
  A worker of the agents at some point of its loop. The bridge gives its controller no dispatcher and no result callback, so running a
  task yields a result, or an exception that ends the process, and audit entries: these are the argument \<open>res\<close>.
\<close>

definition run_result ::
    "('k, 'p, 'f) bridge_env \<Rightarrow> task_result option \<times> audit_event list \<Rightarrow> agent_controller \<Rightarrow> task_entry \<Rightarrow> ('k, 'f) bridge
       \<Rightarrow> task_result option \<times> ('k, 'f) bridge" where
  "run_result env res c e b = (fst res, fold (\<lambda>(t, p). emit (bridge_add env) t p) (snd res) b)"

definition agent_work ::
    "('k, 'p, 'f) bridge_env \<Rightarrow> nat \<Rightarrow> string \<Rightarrow> worker \<Rightarrow> task_result option \<times> audit_event list \<Rightarrow> ('k, 'f) bridge \<Rightarrow> ('k, 'f) bridge" where
  "agent_work env pick stamp p res b =
     (case bg_agents b of
        None \<Rightarrow> b
      | Some c \<Rightarrow>
          let (p', c', b') = worker_step (bridge_add env) (run_result env) (\<lambda>_ b. b) pick stamp res p (c, b);
              b1 = b'\<lparr>bg_agents := Some c'\<rparr>
          in if p' = None then b1\<lparr>bg_crashed := True\<rparr> else b1)"

section \<open>Steps\<close>

datatype bridge_op =
    Snapshot_tick
  | Startup_plant
  | Loop_start
  | Loop_pass
  | Agent_work nat string worker "task_result option \<times> audit_event list"
  | Line string
  | Demo_signal int
  | Demo_sample real
  | Demo_decoys
  | Demo_finish
  | Packets entropy_window
  | Log_event event_signal
  | File_event fs_event
  | Expiry "string \<Rightarrow> int"

fun do_op ::
    "bridge_config \<Rightarrow> (string \<Rightarrow> json option) \<Rightarrow> (input_error \<Rightarrow> string) \<Rightarrow> ('k, 'p, 'f) bridge_env \<Rightarrow> bridge_op
       \<Rightarrow> ('k, 'f) bridge \<Rightarrow> ('k, 'f) bridge" where
  "do_op cf parse what env (Line l) b = input_line cf parse what env l b"
| "do_op cf parse what env Snapshot_tick b = snapshot_tick cf env b"
| "do_op cf parse what env Startup_plant b = startup_plant env b"
| "do_op cf parse what env Loop_start b = loop_start env b"
| "do_op cf parse what env Loop_pass b = autonomy_pass env b"
| "do_op cf parse what env (Agent_work pick stamp p res) b = agent_work env pick stamp p res b"
| "do_op cf parse what env (Demo_signal score) b = demo_signal env score b"
| "do_op cf parse what env (Demo_sample x) b = push_values env True [x] b"
| "do_op cf parse what env Demo_decoys b = snd (demo_decoys env b)"
| "do_op cf parse what env Demo_finish b = snd (demo_finish env b)"
| "do_op cf parse what env (Packets win) b = on_entropy_window env win b"
| "do_op cf parse what env (Log_event sig) b = on_event_signal env sig b"
| "do_op cf parse what env (File_event ev) b = on_file_event env ev b"
| "do_op cf parse what env (Expiry clk) b = firewall_expiry env clk b"

definition bridge_step ::
    "bridge_config \<Rightarrow> (string \<Rightarrow> json option) \<Rightarrow> (input_error \<Rightarrow> string) \<Rightarrow> ('k, 'p, 'f) bridge_env \<times> bridge_op
       \<Rightarrow> ('k, 'f) bridge \<Rightarrow> ('k, 'f) bridge" where
  "bridge_step cf parse what = (\<lambda>(env, op) b. if bg_crashed b then b else do_op cf parse what env op b)"

definition bridge_run ::
    "bridge_config \<Rightarrow> (string \<Rightarrow> json option) \<Rightarrow> (input_error \<Rightarrow> string) \<Rightarrow> (('k, 'p, 'f) bridge_env \<times> bridge_op) list
       \<Rightarrow> ('k, 'f) bridge \<Rightarrow> ('k, 'f) bridge" where
  "bridge_run cf parse what ops b = fold (bridge_step cf parse what) ops b"

section \<open>What every step leaves alone\<close>

text \<open>
  \<open>grows\<close>: the trail is only appended to, and a chain that verifies still does. \<open>quiet\<close>: moreover a lock stays
  engaged and the voting protocol is untouched.
\<close>

definition bridge_chain :: "('k, 'f) bridge \<Rightarrow> chain" where
  "bridge_chain b = aw_chain (snd (bg_gate b))"

definition grows :: "(string \<Rightarrow> string) \<Rightarrow> ('k, 'f) bridge \<Rightarrow> ('k, 'f) bridge \<Rightarrow> bool" where
  "grows sha b b' = (extends (bridge_trail b) (bridge_trail b')
     \<and> (chain_linked sha (bridge_chain b) \<longrightarrow> chain_linked sha (bridge_chain b')))"

definition quiet :: "(string \<Rightarrow> string) \<Rightarrow> ('k, 'f) bridge \<Rightarrow> ('k, 'f) bridge \<Rightarrow> bool" where
  "quiet sha b b' = (grows sha b b' \<and> (bridge_locked b \<longrightarrow> bridge_locked b') \<and> bg_unlock b' = bg_unlock b)"

lemma grows_refl [simp]: "grows sha b b"
  by (simp add: grows_def)

lemma grows_trans: "grows sha a b \<Longrightarrow> grows sha b c \<Longrightarrow> grows sha a c"
  by (auto simp: grows_def intro: extends_trans)

lemma quiet_refl [simp]: "quiet sha b b"
  by (simp add: quiet_def)

lemma quiet_trans: "quiet sha a b \<Longrightarrow> quiet sha b c \<Longrightarrow> quiet sha a c"
  by (auto simp: quiet_def intro: grows_trans)

text \<open>Both depend on the lock, the chain and the protocol only.\<close>

lemmas bridge_view_defs = bridge_locked_def bridge_trail_def bridge_chain_def

lemma quiet_fields:
  "quiet sha b (c\<lparr>bg_threat := v0\<rparr>) = quiet sha b c"
  "quiet sha b (c\<lparr>bg_rules := v1\<rparr>) = quiet sha b c"
  "quiet sha b (c\<lparr>bg_sandbox := v2\<rparr>) = quiet sha b c"
  "quiet sha b (c\<lparr>bg_chaos := v3\<rparr>) = quiet sha b c"
  "quiet sha b (c\<lparr>bg_decoy := v4\<rparr>) = quiet sha b c"
  "quiet sha b (c\<lparr>bg_ar := v5\<rparr>) = quiet sha b c"
  "quiet sha b (c\<lparr>bg_clamd := v6\<rparr>) = quiet sha b c"
  "quiet sha b (c\<lparr>bg_qtn := v7\<rparr>) = quiet sha b c"
  "quiet sha b (c\<lparr>bg_firewall := v8\<rparr>) = quiet sha b c"
  "quiet sha b (c\<lparr>bg_netsh := v9\<rparr>) = quiet sha b c"
  "quiet sha b (c\<lparr>bg_files := v10\<rparr>) = quiet sha b c"
  "quiet sha b (c\<lparr>bg_tokens := v11\<rparr>) = quiet sha b c"
  "quiet sha b (c\<lparr>bg_identities := v12\<rparr>) = quiet sha b c"
  "quiet sha b (c\<lparr>bg_ai_triage := v13\<rparr>) = quiet sha b c"
  "quiet sha b (c\<lparr>bg_last_triage := v14\<rparr>) = quiet sha b c"
  "quiet sha b (c\<lparr>bg_veeam := v15\<rparr>) = quiet sha b c"
  "quiet sha b (c\<lparr>bg_agents := v16\<rparr>) = quiet sha b c"
  "quiet sha b (c\<lparr>bg_autonomy := v17\<rparr>) = quiet sha b c"
  "quiet sha b (c\<lparr>bg_latest_K := v18\<rparr>) = quiet sha b c"
  "quiet sha b (c\<lparr>bg_latest_anomalous := v19\<rparr>) = quiet sha b c"
  "quiet sha b (c\<lparr>bg_latest_windows := v20\<rparr>) = quiet sha b c"
  "quiet sha b (c\<lparr>bg_chaos_history := v21\<rparr>) = quiet sha b c"
  "quiet sha b (c\<lparr>bg_out := v22\<rparr>) = quiet sha b c"
  "quiet sha b (c\<lparr>bg_crashed := v23\<rparr>) = quiet sha b c"
  by (simp_all add: quiet_def grows_def bridge_view_defs)

lemma quiet_autonomy: "quiet sha b c \<Longrightarrow> quiet sha b (c\<lparr>bg_autonomy := v\<rparr>)"
  by (simp add: quiet_fields)

lemma grows_fields [simp]:
  "grows sha b (c\<lparr>bg_threat := v0\<rparr>) = grows sha b c"
  "grows sha b (c\<lparr>bg_rules := v1\<rparr>) = grows sha b c"
  "grows sha b (c\<lparr>bg_sandbox := v2\<rparr>) = grows sha b c"
  "grows sha b (c\<lparr>bg_chaos := v3\<rparr>) = grows sha b c"
  "grows sha b (c\<lparr>bg_decoy := v4\<rparr>) = grows sha b c"
  "grows sha b (c\<lparr>bg_ar := v5\<rparr>) = grows sha b c"
  "grows sha b (c\<lparr>bg_clamd := v6\<rparr>) = grows sha b c"
  "grows sha b (c\<lparr>bg_qtn := v7\<rparr>) = grows sha b c"
  "grows sha b (c\<lparr>bg_firewall := v8\<rparr>) = grows sha b c"
  "grows sha b (c\<lparr>bg_netsh := v9\<rparr>) = grows sha b c"
  "grows sha b (c\<lparr>bg_files := v10\<rparr>) = grows sha b c"
  "grows sha b (c\<lparr>bg_tokens := v11\<rparr>) = grows sha b c"
  "grows sha b (c\<lparr>bg_identities := v12\<rparr>) = grows sha b c"
  "grows sha b (c\<lparr>bg_ai_triage := v13\<rparr>) = grows sha b c"
  "grows sha b (c\<lparr>bg_last_triage := v14\<rparr>) = grows sha b c"
  "grows sha b (c\<lparr>bg_veeam := v15\<rparr>) = grows sha b c"
  "grows sha b (c\<lparr>bg_agents := v16\<rparr>) = grows sha b c"
  "grows sha b (c\<lparr>bg_autonomy := v17\<rparr>) = grows sha b c"
  "grows sha b (c\<lparr>bg_latest_K := v18\<rparr>) = grows sha b c"
  "grows sha b (c\<lparr>bg_latest_anomalous := v19\<rparr>) = grows sha b c"
  "grows sha b (c\<lparr>bg_latest_windows := v20\<rparr>) = grows sha b c"
  "grows sha b (c\<lparr>bg_chaos_history := v21\<rparr>) = grows sha b c"
  "grows sha b (c\<lparr>bg_out := v22\<rparr>) = grows sha b c"
  "grows sha b (c\<lparr>bg_crashed := v23\<rparr>) = grows sha b c"
  "grows sha b (c\<lparr>bg_unlock := v24\<rparr>) = grows sha b c"
  by (simp_all add: grows_def bridge_view_defs)

lemma grows_autonomy: "grows sha b c \<Longrightarrow> grows sha b (c\<lparr>bg_autonomy := v\<rparr>)"
  by simp

lemma fst_bridge_lockdown: "fst (bridge_lockdown env r b) = (\<not> bridge_locked b)"
  by (simp add: bridge_lockdown_def trigger_lockdown_def bridge_locked_def gate_locked_def is_locked_def Let_def case_prod_beta)

lemma bridge_trigger_gate:
  "bridge_trigger env r b = b\<lparr>bg_gate := gate_trigger (be_sha env) (be_audit env) r (bg_gate b)\<rparr>"
  by (simp add: bridge_trigger_def bridge_lockdown_def gate_trigger_def case_prod_beta Let_def)

lemma bridge_add_gate:
  "snd (bridge_add env t p b) = b\<lparr>bg_gate := snd (gate_add (be_sha env) (be_audit env) t p (bg_gate b))\<rparr>"
  by (simp add: bridge_add_def case_prod_beta Let_def)

interpretation bridge: worm_gate "bridge_add env" bridge_trail "bridge_trigger env" bridge_locked for env
proof unfold_locales
  fix t p r and b :: "('a, 'c) bridge"
  show "bridge_trail (snd (bridge_add env t p b)) = bridge_trail b @ [(t, p)]"
    by (simp add: bridge_trail_def bridge_add_gate gate.events_add)
  show "bridge_locked (bridge_trigger env r b)"
    by (simp add: bridge_locked_def bridge_trigger_gate gate.trigger_locks)
  show "bridge_locked (snd (bridge_add env t p b)) = bridge_locked b"
    by (simp add: bridge_locked_def bridge_add_gate gate.add_keeps_lock)
  show "\<exists>p. bridge_trail (bridge_trigger env r b) =
      bridge_trail b @ (if bridge_locked b then [] else [(''worm_lock_engaged'', p)])"
    using gate.trigger_events by (simp add: bridge_trail_def bridge_locked_def bridge_trigger_gate)
qed

lemma bridge_add_linked:
  "chain_linked (be_sha env) (bridge_chain b) \<Longrightarrow> chain_linked (be_sha env) (bridge_chain (snd (bridge_add env t p b)))"
  by (simp add: bridge_chain_def bridge_add_gate gate_add_def case_prod_beta Let_def audit_add_linked)

lemma bridge_trigger_linked:
  "chain_linked (be_sha env) (bridge_chain b) \<Longrightarrow> chain_linked (be_sha env) (bridge_chain (bridge_trigger env r b))"
  by (simp add: bridge_chain_def bridge_trigger_gate gate_trigger_def trigger_lockdown_def Let_def emit_linked)

lemma bridge_unlock_linked:
  "chain_linked (be_sha env) (bridge_chain b) \<Longrightarrow> chain_linked (be_sha env) (bridge_chain (bridge_unlock env r b))"
  by (simp add: bridge_chain_def bridge_unlock_def gate_unlock_def unlock_def Let_def emit_linked)

lemma grows_add: "grows (be_sha env) b (snd (bridge_add env t p b))"
  using bridge.emit_extends [of b env t p] by (simp add: grows_def bridge_add_linked emit_def)

lemma grows_trigger: "grows (be_sha env) b (bridge_trigger env r b)"
  using bridge.trigger_extends by (simp add: grows_def bridge_trigger_linked)

lemma grows_unlock: "grows (be_sha env) b (bridge_unlock env a b)"
  using chain.unlock_events [of "be_sha env" "be_audit env"]
  by (simp add: grows_def bridge_unlock_linked) (simp add: bridge_view_defs gate_trail_def bridge_unlock_def gate_unlock_def)

section \<open>Frames of the bridge\<close>

named_theorems framed \<open>operations across which the relation of a frame holds\<close>

text \<open>The threat level that the autonomy loop believes in.\<close>

definition loop_level :: "autonomy_loop option \<Rightarrow> string" where
  "loop_level a = (case a of None \<Rightarrow> ''LOW'' | Some l \<Rightarrow> al_threat_level l)"

lemma loop_level_push [simp]: "loop_level (map_option (push_signal ps) a) = loop_level a"
  by (cases a) (simp_all add: loop_level_def push_signal_def)

lemma submit_level [simp]: "al_threat_level (fst (submit st agent input prio (l, c))) = al_threat_level l"
  by (simp add: submit_def case_prod_beta Let_def)

lemma loop_tick_level: "al_threat_level (fst (loop_tick add ctl (l, c, w))) = al_threat_level l"
proof -
  have f: "al_threat_level (fst (fold (\<lambda>agent. submit st agent inp prio) as s)) = al_threat_level (fst s)" for st as inp prio s
    by (induction as arbitrary: s) (auto simp: submit_def case_prod_beta Let_def)
  have r: "al_threat_level (fst (tick_threat_response ctl s)) = al_threat_level (fst s)" for s
    by (cases s) (auto simp: tick_threat_response_def f Let_def split: option.split)
  have d: "al_threat_level (fst (tick_signal_drain ctl s)) = al_threat_level (fst s)" for s
    by (cases s) (auto simp: tick_signal_drain_def Let_def split: option.split)
  have "al_threat_level (fst (tick_soc_rotation ctl s)) = al_threat_level (fst s)" for s
    by (cases s) (auto simp: tick_soc_rotation_def Let_def split: option.split)
  with r d show ?thesis by (simp add: loop_tick_def case_prod_beta Let_def)
qed

text \<open>
  A relation between two states that ignores every component but the lock and the chain, the protocol, the sandbox,
  the backups and the level of the autonomy loop, and that holds across the callbacks. It then holds across every
  call that leaves the sandbox and the backups alone.
\<close>

locale bridge_calls = world_frame "bridge_add env" "bridge_trigger env" Q
  for env :: "('k, 'p, 'f) bridge_env" and Q :: "('k, 'f) bridge \<Rightarrow> ('k, 'f) bridge \<Rightarrow> bool" +
  assumes Q_fields [simp]:
  "Q b (c\<lparr>bg_threat := v0\<rparr>) = Q b c"
  "Q b (c\<lparr>bg_rules := v1\<rparr>) = Q b c"
  "Q b (c\<lparr>bg_chaos := v2\<rparr>) = Q b c"
  "Q b (c\<lparr>bg_decoy := v3\<rparr>) = Q b c"
  "Q b (c\<lparr>bg_ar := v4\<rparr>) = Q b c"
  "Q b (c\<lparr>bg_clamd := v5\<rparr>) = Q b c"
  "Q b (c\<lparr>bg_qtn := v6\<rparr>) = Q b c"
  "Q b (c\<lparr>bg_firewall := v7\<rparr>) = Q b c"
  "Q b (c\<lparr>bg_netsh := v8\<rparr>) = Q b c"
  "Q b (c\<lparr>bg_files := v9\<rparr>) = Q b c"
  "Q b (c\<lparr>bg_tokens := v10\<rparr>) = Q b c"
  "Q b (c\<lparr>bg_identities := v11\<rparr>) = Q b c"
  "Q b (c\<lparr>bg_ai_triage := v12\<rparr>) = Q b c"
  "Q b (c\<lparr>bg_last_triage := v13\<rparr>) = Q b c"
  "Q b (c\<lparr>bg_agents := v14\<rparr>) = Q b c"
  "Q b (c\<lparr>bg_latest_K := v16\<rparr>) = Q b c"
  "Q b (c\<lparr>bg_latest_anomalous := v17\<rparr>) = Q b c"
  "Q b (c\<lparr>bg_latest_windows := v18\<rparr>) = Q b c"
  "Q b (c\<lparr>bg_chaos_history := v19\<rparr>) = Q b c"
  "Q b (c\<lparr>bg_out := v20\<rparr>) = Q b c"
  "Q b (c\<lparr>bg_crashed := v21\<rparr>) = Q b c"
    and Q_autonomy: "loop_level v = loop_level (bg_autonomy c) \<or> loop_level v = ''LOW'' \<Longrightarrow> Q b c \<Longrightarrow> Q b (c\<lparr>bg_autonomy := v\<rparr>)"
begin

declare R_refl [simp]

text \<open>Every rule is stated for a state already related to the first, so that the rules chain along a command.\<close>

lemma Q_then: "Q c d \<Longrightarrow> Q b c \<Longrightarrow> Q b d"
  using R_trans by blast

lemma Q_observe [framed]: "Q b c \<Longrightarrow> Q b (snd (bridge_observe env s src m c))"
  by (simp add: bridge_observe_def case_prod_beta Let_def Q_then [OF observe_frame])

lemma Q_score_rule [framed]:
  "Q b c \<Longrightarrow> Q b (snd (bridge_score_rule env s src em c))"
  using Q_then score_rule_frame by (cases em) (fastforce simp: bridge_score_rule_def case_prod_beta Let_def)

lemma Q_try_observe [framed]: "Q b c \<Longrightarrow> Q b (try_observe env s src c)"
  by (auto simp: try_observe_def intro: Q_observe split: option.split)

lemma Q_try_score_rule [framed]: "Q b c \<Longrightarrow> Q b (try_score_rule env s src c)"
  by (auto simp: try_score_rule_def intro: Q_score_rule split: option.split)

lemma Q_send [framed]: "Q b c \<Longrightarrow> Q b (snd (send_json env j c))"
  by (simp add: send_json_def split: option.split)

lemma Q_print [framed]: "Q b c \<Longrightarrow> Q b (print_or_skip env j c)"
  by (simp add: print_or_skip_def Q_send)

lemmas Q_emit [framed] = R_then_emit and Q_trg [framed] = R_then_trg

lemma Q_need [framed]:
  "(\<And>x. o' = Some x \<Longrightarrow> Q b (snd (f x))) \<Longrightarrow> Q b c \<Longrightarrow> Q b (snd (need o' f c))"
  by (cases o') (simp_all add: need_def)

lemma Q_arg [framed]:
  "(\<And>x. Q b (snd (f x))) \<Longrightarrow> Q b c \<Longrightarrow> Q b (snd (arg get k d args f c))"
  by (simp add: arg_def split: sum.split)

lemma Q_chaos_window [framed]: "Q b c \<Longrightarrow> Q b (on_chaos_window env win c)"
proof (cases "bg_rules c"; cases "bg_threat c")
  fix e m
  assume q: "Q b c" and em: "bg_rules c = Some e" "bg_threat c = Some m"
  obtain rr e' m' b1 where r: "evaluate_chaos_window (bridge_add env) (bridge_trigger env) win (e, m, c) = (rr, e', m', b1)"
    by (metis prod_cases4)
  have "Q c b1" using chaos_rule_frame [where w = c and win = win and e = e and m = m] by (simp add: r)
  with q have "Q b b1" by (rule R_trans)
  then show ?thesis
    by (auto simp: on_chaos_window_def em r Let_def intro!: framed)
qed (auto simp: on_chaos_window_def)

lemma Q_push [framed]: "Q b c \<Longrightarrow> Q b (bridge_push env v syn d c)"
proof -
  have "Q c (snd (push_sample (bridge_add env) (on_chaos_window env) (v, syn) (d, c)))"
    by (rule push_frame) (rule Q_chaos_window [OF R_refl])
  then show "Q b c \<Longrightarrow> ?thesis"
    by (auto simp: bridge_push_def case_prod_beta Let_def elim: Q_then)
qed

lemma Q_push_values [framed]: "Q b c \<Longrightarrow> Q b (push_values env syn vs c)"
  unfolding push_values_def
  by (induction vs arbitrary: c) (auto intro!: Q_push split: option.split)

lemma Q_touch [framed]: "Q b c \<Longrightarrow> Q b (snd (bridge_touch env p a s det d c))"
  by (simp add: bridge_touch_def case_prod_beta Let_def Q_then [OF touch_frame])

lemma Q_serve [framed]: "Q b c \<Longrightarrow> Q b (snd (bridge_serve env s r h a c))"
  by (simp add: bridge_serve_def case_prod_beta Let_def Q_then [OF serve_frame])

lemma Q_scan [framed]: "Q b c \<Longrightarrow> Q b (snd (bridge_scan env p c))"
  unfolding bridge_scan_def by (rule Q_then [OF scan_frame])

lemma Q_quarantine [framed]: "Q b c \<Longrightarrow> Q b (snd (bridge_quarantine env p v q c))"
  by (simp add: bridge_quarantine_def case_prod_beta Let_def Q_then [OF quarantine_frame])

lemma Q_if [framed]: "(P \<Longrightarrow> Q b c) \<Longrightarrow> (\<not> P \<Longrightarrow> Q b d) \<Longrightarrow> Q b (if P then c else d)"
  by simp

lemma Q_snd_if [framed]:
  "(P \<Longrightarrow> Q b (snd x)) \<Longrightarrow> (\<not> P \<Longrightarrow> Q b (snd y)) \<Longrightarrow> Q b (snd (if P then x else y))"
  by simp

lemma Q_report [framed]:
  "Q b c \<Longrightarrow>
   Q b (snd (snd (generate_report (bridge_add env) put mkdir now dir sid dl rl (disk, c))))"
  by (rule Q_then [OF report_frame])

lemma Q_block [framed]:
  "Q b c \<Longrightarrow>
   Q b (snd (snd (snd (block_ip (bridge_add env) netsh t1 t2 ip ttl (fw, f, c)))))"
  by (rule Q_then [OF block_frame])

lemma Q_unblock [framed]:
  "Q b c \<Longrightarrow>
   Q b (snd (snd (snd (unblock_ip (bridge_add env) netsh now ip (fw, f, c)))))"
  by (rule Q_then [OF unblock_frame])

lemma Q_expiry [framed]:
  "Q b c \<Longrightarrow>
   Q b (snd (snd (expiry_tick (bridge_add env) netsh now clk (fw, f, c))))"
  by (rule Q_then [OF expiry_frame])

lemma Q_cmd_observe: "Q b (snd (cmd_observe_signal env args b))"
  unfolding cmd_observe_signal_def case_prod_beta Let_def by (intro framed R_refl)

lemma Q_cmd_push: "Q b (snd (cmd_push_chaos env args b))"
  unfolding cmd_push_chaos_def by (intro framed R_refl)

lemma Q_cmd_push_batch: "Q b (snd (cmd_push_chaos_batch env args b))"
  unfolding cmd_push_chaos_batch_def Let_def by (intro framed R_refl)

lemma Q_cmd_worm_unlock: "Q b (snd (cmd_worm_unlock env b))"
  unfolding cmd_worm_unlock_def Let_def by (intro framed R_refl)

lemma Q_cmd_touch: "Q b (snd (cmd_decoy_touch env args b))"
  unfolding cmd_decoy_touch_def Let_def case_prod_beta by (intro framed R_refl)

lemma Q_cmd_serve: "Q b (snd (cmd_active_response_serve env args b))"
  unfolding cmd_active_response_serve_def Let_def case_prod_beta by (intro framed R_refl)

lemma Q_cmd_run_demo: "Q b (snd (cmd_run_demo env b))"
  unfolding cmd_run_demo_def by (intro framed R_refl)

lemma Q_cmd_attribution: "Q b (snd (cmd_get_attribution env dir args b))"
  unfolding cmd_get_attribution_def Let_def case_prod_beta
  by (intro framed R_refl) (auto simp: Q_report R_refl intro!: Q_send split: option.split)

lemma Q_scan_outcome [framed]: "Q b c \<Longrightarrow> Q b (snd (scan_outcome env r p i c))"
  unfolding scan_outcome_def by (rule Q_send)

lemma Q_cmd_scan: "Q b (snd (cmd_scan_and_quarantine env args b))"
  unfolding cmd_scan_and_quarantine_def Let_def case_prod_beta by (intro framed R_refl)

lemma Q_cmd_block: "Q b (snd (cmd_block_ip env args b))"
  unfolding cmd_block_ip_def Let_def case_prod_beta
  by (intro framed R_refl) (auto split: option.split intro!: Q_send Q_block)

lemma Q_cmd_unblock: "Q b (snd (cmd_unblock_ip env args b))"
  unfolding cmd_unblock_ip_def Let_def case_prod_beta
  by (intro framed R_refl) (auto split: option.split intro!: Q_unblock)

lemma Q_triage:
  assumes "triage (bridge_add env) (bridge_trigger env) lk g io1 io2 inp (e, m, c) = Some (r, e', m', c')" "Q b c"
  shows "Q b c'"
  by (rule Q_then [OF triage_frame [OF assms(1)] assms(2)])

lemma Q_cmd_triage: "Q b (snd (cmd_triage_event env args b))"
  unfolding cmd_triage_event_def Let_def
  by (intro Q_snd_if Q_send Q_arg Q_need R_refl)
    (auto split: option.split intro!: Q_send dest: Q_triage [OF _ R_refl])

lemma Q_cmd_agent_submit: "Q b (snd (cmd_agent_submit env args b))"
  unfolding cmd_agent_submit_def Let_def case_prod_beta
  by (auto split: option.split intro!: Q_send Q_arg Q_emit)

lemma Q_nac [framed]: "Q b c \<Longrightarrow> Q b (snd (nac_answer env rq c))"
  unfolding nac_answer_def Let_def by (intro framed)

lemma Q_zt [framed]: "Q b c \<Longrightarrow> Q b (snd (zt_answer env ctx c))"
  unfolding zt_answer_def Let_def by (intro framed)

lemma Q_cmd_nac: "Q b (snd (cmd_nac_simulate_device env args b))"
  unfolding cmd_nac_simulate_device_def by (intro framed R_refl)

lemma Q_cmd_zt: "Q b (snd (cmd_zerotrust_evaluate env args b))"
  unfolding cmd_zerotrust_evaluate_def by (intro framed R_refl)

lemma Q_cmd_reads:
  "Q b (snd (cmd_get_snapshot env dir el b))"
  "Q b (snd (cmd_get_unlock_status env b))"
  "Q b (snd (cmd_sandbox_get_tree env b))"
  "Q b (snd (cmd_veeam_status env b))"
  "Q b (snd (cmd_agent_status env b))"
  "Q b (snd (cmd_network_get_ssids env b))"
  unfolding cmd_get_snapshot_def cmd_get_unlock_status_def cmd_sandbox_get_tree_def cmd_veeam_status_def
    cmd_agent_status_def cmd_network_get_ssids_def
  by (auto split: option.split intro!: Q_need Q_send)

lemma Q_report_error [framed]: "Q b c \<Longrightarrow> Q b (report_error what env e c)"
  using Q_send [of b c "event_json ''parse_error'' [(''msg'', JString (what e))]"]
  by (auto simp: report_error_def split: prod.split option.split)

lemma Q_input:
  assumes "\<And>cmd args. command_of parse l = Some cmd \<Longrightarrow> Q b (snd (run_command cf env cmd args b))"
  shows "Q b (input_line cf parse what env l b)"
proof (cases "parse (strip_cr l)")
  case None
  then show ?thesis by (simp add: input_line_def Let_def Q_report_error)
next
  case (Some msg)
  have "Q b (snd (dispatch cf env msg b))"
  proof (cases "json_value get_string ''cmd'' [] msg")
    case (Inl e)
    then show ?thesis by (simp add: dispatch_def arg_def)
  next
    case (Inr cmd)
    with Some have "command_of parse l = Some cmd" by (simp add: command_of_def)
    with assms have "Q b (snd (arg Inr ''args'' (JObject []) msg (\<lambda>args. run_command cf env cmd args b) b))"
      by (intro Q_arg) simp_all
    then show ?thesis by (simp add: dispatch_def arg_def [of get_string] Inr)
  qed
  then show ?thesis
    by (auto simp: input_line_def Let_def Some Q_report_error split: prod.split option.split)
qed

lemma Q_entropy_window: "Q b (on_entropy_window env win b)"
  unfolding on_entropy_window_def Let_def
  by (auto intro!: Q_if Q_try_observe Q_push split: option.split)

lemma Q_push_to_loop [framed]: "Q b c \<Longrightarrow> Q b (push_to_loop ps c)"
  unfolding push_to_loop_def by (intro Q_autonomy) simp_all

lemma Q_event_signal: "Q b (on_event_signal env sig b)"
  unfolding on_event_signal_def Let_def by (intro framed R_refl)

lemma Q_infected [framed]: "Q b c \<Longrightarrow> Q b (on_infected env ev v c)"
  unfolding on_infected_def Let_def
  by (auto intro!: Q_push_to_loop Q_try_observe Q_quarantine split: option.split)

lemma Q_file_event: "Q b (on_file_event env ev b)"
  unfolding on_file_event_def Let_def case_prod_beta by (intro framed R_refl)

lemma Q_snapshot_tick: "Q b (snapshot_tick cf env b)"
  by (auto simp: snapshot_tick_def need_def send_json_def split: prod.split option.split)

lemma Q_loop_start: "Q b (loop_start env b)"
  by (auto simp: loop_start_def loop_level_def new_autonomy_loop_def intro!: framed Q_autonomy)

lemma Q_autonomy_pass: "Q b (autonomy_pass env b)"
proof (cases "bg_autonomy b"; cases "bg_agents b")
  fix l c
  assume l: "bg_autonomy b = Some l" and c: "bg_agents b = Some c"
  define t where "t = loop_tick (bridge_add env) (Some (\<lambda>agent input prio. submit_task agent input prio (be_now env))) (l, c, b)"
  have w: "bg_autonomy (snd (snd t)) = Some l"
    by (simp add: t_def loop_tick_def case_prod_beta Let_def emit_def bridge_add_gate l del: append_Cons)
  have "loop_level (Some (fst t)) = loop_level (Some l)" by (simp add: t_def loop_tick_level loop_level_def)
  moreover have "Q b (snd (snd t))" by (simp add: t_def loop_tick_def case_prod_beta Let_def Q_emit)
  ultimately have "Q b ((snd (snd t))\<lparr>bg_autonomy := Some (fst t)\<rparr>)" by (intro Q_autonomy) (simp_all add: w)
  then show ?thesis by (simp add: autonomy_pass_def l c t_def [symmetric] case_prod_beta Let_def)
qed (simp_all add: autonomy_pass_def)

lemma Q_entries: "Q b c \<Longrightarrow> Q b (fold (\<lambda>(t, p). emit (bridge_add env) t p) es c)"
  by (induction es arbitrary: c) (auto intro!: Q_emit)

lemma Q_agent_work: "Q b (agent_work env pick stamp p res b)"
proof -
  have "Q b (snd (snd (worker_step (bridge_add env) (run_result env) (\<lambda>_ b. b) pick stamp res p (c, b))))" for c
    by (cases p) (auto simp: run_result_def pop_task_def intro!: Q_emit Q_entries split: option.split list.split prod.split)
  then show ?thesis by (auto simp: agent_work_def case_prod_beta Let_def split: option.split)
qed

lemma Q_firewall_expiry: "Q b (firewall_expiry env clk b)"
  by (auto simp: firewall_expiry_def Let_def case_prod_beta Q_expiry split: option.split)

lemma Q_demo_signal: "Q b (demo_signal env score b)"
  unfolding demo_signal_def by (intro framed R_refl)

end

text \<open>A relation that also holds across the operations on the sandbox and the backups.\<close>

locale bridge_frame = bridge_calls env Q
  for env :: "('k, 'p, 'f) bridge_env" and Q :: "('k, 'f) bridge \<Rightarrow> ('k, 'f) bridge \<Rightarrow> bool" +
  assumes Q_lock_all0: "bg_sandbox b = Some s \<Longrightarrow> Q b (bridge_lock_all env r s b)"
    and Q_backups0: "Q b (bridge_lock_backups env r b)"
    and Q_integrity0: "bg_veeam b = Some br \<Longrightarrow> integrity_check (bridge_add env) now (br, b) = (ck, br', b') \<Longrightarrow>
        Q b (b'\<lparr>bg_veeam := Some br'\<rparr>)"
    and Q_plant0: "bg_sandbox b = Some s \<Longrightarrow> Q b (snd (bridge_plant env (d, s) b))"
begin

lemma Q_lock_all [framed]: "bg_sandbox c = Some x \<Longrightarrow> Q b c \<Longrightarrow> Q b (bridge_lock_all env r x c)"
  by (rule Q_then [OF Q_lock_all0])

lemma Q_plant [framed]: "bg_sandbox c = Some x \<Longrightarrow> Q b c \<Longrightarrow> Q b (snd (bridge_plant env (d, x) c))"
  by (rule Q_then [OF Q_plant0])

lemma Q_backups [framed]: "Q b c \<Longrightarrow> Q b (bridge_lock_backups env r c)"
  by (rule Q_then [OF Q_backups0])

lemma Q_cmd_integrity: "Q b (snd (cmd_veeam_integrity_check env b))"
proof (cases "bg_veeam b")
  case None
  then show ?thesis by (simp add: cmd_veeam_integrity_check_def Q_send R_refl)
next
  case (Some r)
  obtain c r' b' where i: "integrity_check (bridge_add env) (be_now env) (r, b) = (c, r', b')" by (metis prod_cases3)
  from Q_integrity0 [OF Some i] show ?thesis
    by (simp add: cmd_veeam_integrity_check_def Some i Q_send)
qed

lemma Q_cmd_plant: "Q b (snd (cmd_decoy_plant env b))"
  unfolding cmd_decoy_plant_def Let_def case_prod_beta by (intro framed R_refl)

lemmas Q_commands = Q_cmd_observe Q_cmd_push Q_cmd_push_batch Q_cmd_worm_unlock
  Q_cmd_integrity Q_cmd_plant Q_cmd_touch Q_cmd_serve Q_cmd_run_demo Q_cmd_attribution
  Q_cmd_scan Q_cmd_block Q_cmd_unblock Q_cmd_triage Q_cmd_agent_submit Q_cmd_nac Q_cmd_zt
  Q_cmd_reads Q_send [OF R_refl]

lemma Q_command:
  "cmd \<noteq> ''worm_trigger'' \<Longrightarrow> cmd \<noteq> ''unlock_vote'' \<Longrightarrow> Q b (snd (run_command cf env cmd args b))"
  unfolding run_command_def by (intro Q_snd_if Q_commands) simp_all

lemma Q_demo_decoys: "Q b (snd (demo_decoys env b))"
  unfolding demo_decoys_def Let_def case_prod_beta snd_conv by (intro framed R_refl) (simp_all add: framed)

lemma Q_startup_plant: "Q b (startup_plant env b)"
  unfolding startup_plant_def Let_def case_prod_beta
  by (auto split: option.split intro!: Q_emit Q_plant)

lemma Q_demo_finish: "Q b (snd (demo_finish env b))"
  unfolding demo_finish_def Let_def by (intro framed R_refl)

lemma Q_op:
  assumes "\<And>l cmd args. op = Line l \<Longrightarrow> command_of parse l = Some cmd \<Longrightarrow> Q b (snd (run_command cf env cmd args b))"
  shows "Q b (do_op cf parse what env op b)"
proof (cases op)
  case (Line l)
  with assms show ?thesis by (simp add: Q_input)
qed (simp_all add: Q_demo_signal Q_push_values Q_demo_decoys Q_demo_finish Q_entropy_window Q_event_signal
    Q_file_event Q_firewall_expiry Q_snapshot_tick Q_startup_plant Q_loop_start Q_autonomy_pass Q_agent_work)

end

section \<open>The lock and the chain\<close>

lemma quiet_world: "world_frame (bridge_add env) (bridge_trigger env) (quiet (be_sha env))"
proof unfold_locales
  fix t p r b
  show "quiet (be_sha env) b (snd (bridge_add env t p b))"
    using bridge.add_keeps_lock [of env t p b] by (simp add: quiet_def grows_add) (simp add: bridge_add_gate)
  show "quiet (be_sha env) b (bridge_trigger env r b)"
    by (simp add: quiet_def grows_trigger bridge.trigger_locks) (simp add: bridge_trigger_gate)
qed (auto intro: quiet_trans)

text \<open>A relation that ignores the sandbox and the backups as well holds across every command but the two of the lock.\<close>

locale bridge_blind = bridge_calls env Q
  for env :: "('k, 'p, 'f) bridge_env" and Q :: "('k, 'f) bridge \<Rightarrow> ('k, 'f) bridge \<Rightarrow> bool" +
  assumes Q_stores [simp]: "Q b (c\<lparr>bg_sandbox := v0\<rparr>) = Q b c" "Q b (c\<lparr>bg_veeam := v1\<rparr>) = Q b c"

sublocale bridge_blind \<subseteq> bridge_frame
proof
  fix b s r d now br ck br' b'
  show "Q b (bridge_lock_all env r s b)"
    by (simp add: lock_all_frame bridge_lock_all_def case_prod_beta Let_def)
  show "Q b (bridge_lock_backups env r b)"
    by (simp add: lock_backups_frame R_refl bridge_lock_backups_def case_prod_beta Let_def split: option.split)
  show "Q b (snd (bridge_plant env (d, s) b))"
    using plant_frame [where disk = "bridge_disk env", of b bridge_locked "be_now env" d s]
    by (simp add: bridge_plant_def bridge_disk_def case_prod_beta Let_def)
  assume i: "integrity_check (bridge_add env) now (br, b) = (ck, br', b')"
  have "Q b (snd (snd (integrity_check (bridge_add env) now (br, b))))" by (rule integrity_frame)
  then show "Q b (b'\<lparr>bg_veeam := Some br'\<rparr>)" by (simp add: i)
qed

interpretation quiet: bridge_blind env "quiet (be_sha env)" for env
  by (intro bridge_blind.intro bridge_calls.intro quiet_world bridge_calls_axioms.intro bridge_blind_axioms.intro quiet_fields
      quiet_autonomy)

lemma grows_quiet: "quiet sha b c \<Longrightarrow> grows sha b c"
  by (simp add: quiet_def)

lemma grows_world: "world_frame (bridge_add env) (bridge_trigger env) (grows (be_sha env))"
  by unfold_locales (auto intro: grows_trans grows_add grows_trigger)

interpretation growing: bridge_blind env "grows (be_sha env)" for env
  by (intro bridge_blind.intro bridge_calls.intro grows_world bridge_calls_axioms.intro bridge_blind_axioms.intro grows_fields
      grows_autonomy)

section \<open>The files and the backups\<close>

definition entry_frozen :: "string \<Rightarrow> sandbox_entry \<Rightarrow> ('k, 'f) bridge \<Rightarrow> bool" where
  "entry_frozen rel e b = (case bg_sandbox b of Some s \<Rightarrow> frozen rel e s | None \<Rightarrow> False)"

definition backups_locked :: "('k, 'f) bridge \<Rightarrow> bool" where
  "backups_locked b = (case bg_veeam b of Some r \<Rightarrow> br_lock_state r \<noteq> UNLOCKED | None \<Rightarrow> False)"

text \<open>A locked file keeps its content and its lock, and locked backups stay locked.\<close>

definition still_frozen :: "('k, 'f) bridge \<Rightarrow> ('k, 'f) bridge \<Rightarrow> bool" where
  "still_frozen b b' = ((\<forall>rel e. entry_frozen rel e b \<longrightarrow> entry_frozen rel e b') \<and> (backups_locked b \<longrightarrow> backups_locked b'))"

lemma still_frozen_refl [simp]: "still_frozen b b"
  by (simp add: still_frozen_def)

lemma still_frozen_trans: "still_frozen a b \<Longrightarrow> still_frozen b c \<Longrightarrow> still_frozen a c"
  by (simp add: still_frozen_def)

lemma still_frozen_same:
  "bg_sandbox c = bg_sandbox d \<Longrightarrow> bg_veeam c = bg_veeam d \<Longrightarrow> still_frozen b c = still_frozen b d"
  by (simp add: still_frozen_def entry_frozen_def backups_locked_def)

text \<open>The callbacks touch neither.\<close>

definition same_stores :: "('k, 'f) bridge \<Rightarrow> ('k, 'f) bridge \<Rightarrow> bool" where
  "same_stores b b' = (bg_sandbox b' = bg_sandbox b \<and> bg_veeam b' = bg_veeam b)"

interpretation stores: bridge_calls env same_stores for env
  by unfold_locales (auto simp: same_stores_def bridge_add_gate bridge_trigger_gate)

lemma still_frozen_same_stores: "same_stores b c \<Longrightarrow> still_frozen b c"
  using still_frozen_same [of c b b] by (simp add: same_stores_def)

lemma lock_all_frozen: "frozen rel e s \<Longrightarrow> frozen rel e (fst (snd (lock_all add r (s, w))))"
  using sandbox_step_frozen [of rel e "(s, w)" "LockAll r" add] by simp

lemma write_frozen: "frozen rel e s \<Longrightarrow> frozen rel e (fst (snd (sandbox_write add lk disk ts p c a (s, w))))"
  using sandbox_step_frozen [of rel e "(s, w)" "SWrite ts p c a" add lk disk] by simp

lemma plant_frozen: "frozen rel e s \<Longrightarrow> frozen rel e (fst (snd (snd (plant add lk disk ts (d, s, w)))))"
proof -
  have "frozen rel e s \<Longrightarrow> frozen rel e (fst (snd (snd (fold (plant_spec add lk disk ts) fs (n, d, s, w)))))" for fs n
  proof (induction fs arbitrary: n d s w)
    case (Cons f fs)
    obtain n' d' s' w' where f: "plant_spec add lk disk ts f (n, d, s, w) = (n', d', s', w')" by (metis prod_cases4)
    then have "s' = fst (snd (sandbox_write add lk disk ts (sb_root_path s @ ''/'' @ fst f) (snd (snd f)) ''decoy_system'' (s, w)))"
      by (auto simp: plant_spec_def case_prod_beta split: prod.splits sum.splits)
    with Cons.prems have "frozen rel e s'" using write_frozen by simp
    with Cons.IH show ?case by (simp add: f)
  qed simp
  then show "frozen rel e s \<Longrightarrow> ?thesis" by (simp add: plant_def case_prod_beta Let_def)
qed

lemma still_frozen_lock_all: "bg_sandbox b = Some s \<Longrightarrow> still_frozen b (bridge_lock_all env r s b)"
  using stores.lock_all_frame [where env = env and r = r and s = s and w = b] lock_all_frozen
  by (auto simp: still_frozen_def same_stores_def entry_frozen_def backups_locked_def bridge_lock_all_def case_prod_beta Let_def)

lemma still_frozen_plant: "bg_sandbox b = Some s \<Longrightarrow> still_frozen b (snd (bridge_plant env (d, s) b))"
proof -
  have "same_stores b (snd (snd (snd (plant (bridge_add env) bridge_locked (bridge_disk env) (be_now env) (d, s, b)))))"
    by (rule stores.plant_frame) (simp add: same_stores_def bridge_disk_def)
  then show "bg_sandbox b = Some s \<Longrightarrow> ?thesis" using plant_frozen
    by (auto simp: still_frozen_def same_stores_def entry_frozen_def backups_locked_def bridge_plant_def case_prod_beta Let_def)
qed

lemma still_frozen_backups: "still_frozen b (bridge_lock_backups env r b)"
proof (cases "bg_veeam b")
  case (Some br)
  have "same_stores b (snd (snd (lock_backups (bridge_add env) (be_now env) r (br, b))))" by (rule stores.lock_backups_frame)
  moreover have "br_lock_state (fst (snd (lock_backups (bridge_add env) (be_now env) r (br, b)))) \<noteq> UNLOCKED"
    by (simp add: lock_backups_def case_prod_beta Let_def)
  ultimately show ?thesis
    by (simp add: Some still_frozen_def same_stores_def entry_frozen_def backups_locked_def bridge_lock_backups_def
        case_prod_beta Let_def)
qed (simp add: bridge_lock_backups_def)

lemma still_frozen_integrity:
  "bg_veeam b = Some r \<Longrightarrow> integrity_check (bridge_add env) now (r, b) = (c, r', b') \<Longrightarrow> still_frozen b (b'\<lparr>bg_veeam := Some r'\<rparr>)"
proof -
  assume i: "integrity_check (bridge_add env) now (r, b) = (c, r', b')" and v: "bg_veeam b = Some r"
  have "same_stores b (snd (snd (integrity_check (bridge_add env) now (r, b))))" by (rule stores.integrity_frame)
  then have "same_stores b b'" by (simp add: i)
  moreover have "br_lock_state r' = br_lock_state r" using i by (auto simp: integrity_check_def case_prod_beta Let_def)
  ultimately show ?thesis
    by (simp add: v still_frozen_def same_stores_def entry_frozen_def backups_locked_def)
qed

lemma still_frozen_fields:
  "still_frozen b (c\<lparr>bg_threat := v0\<rparr>) = still_frozen b c"
  "still_frozen b (c\<lparr>bg_rules := v1\<rparr>) = still_frozen b c"
  "still_frozen b (c\<lparr>bg_chaos := v2\<rparr>) = still_frozen b c"
  "still_frozen b (c\<lparr>bg_decoy := v3\<rparr>) = still_frozen b c"
  "still_frozen b (c\<lparr>bg_ar := v4\<rparr>) = still_frozen b c"
  "still_frozen b (c\<lparr>bg_clamd := v5\<rparr>) = still_frozen b c"
  "still_frozen b (c\<lparr>bg_qtn := v6\<rparr>) = still_frozen b c"
  "still_frozen b (c\<lparr>bg_firewall := v7\<rparr>) = still_frozen b c"
  "still_frozen b (c\<lparr>bg_netsh := v8\<rparr>) = still_frozen b c"
  "still_frozen b (c\<lparr>bg_files := v9\<rparr>) = still_frozen b c"
  "still_frozen b (c\<lparr>bg_tokens := v10\<rparr>) = still_frozen b c"
  "still_frozen b (c\<lparr>bg_identities := v11\<rparr>) = still_frozen b c"
  "still_frozen b (c\<lparr>bg_ai_triage := v12\<rparr>) = still_frozen b c"
  "still_frozen b (c\<lparr>bg_last_triage := v13\<rparr>) = still_frozen b c"
  "still_frozen b (c\<lparr>bg_agents := v14\<rparr>) = still_frozen b c"
  "still_frozen b (c\<lparr>bg_autonomy := v15\<rparr>) = still_frozen b c"
  "still_frozen b (c\<lparr>bg_latest_K := v16\<rparr>) = still_frozen b c"
  "still_frozen b (c\<lparr>bg_latest_anomalous := v17\<rparr>) = still_frozen b c"
  "still_frozen b (c\<lparr>bg_latest_windows := v18\<rparr>) = still_frozen b c"
  "still_frozen b (c\<lparr>bg_chaos_history := v19\<rparr>) = still_frozen b c"
  "still_frozen b (c\<lparr>bg_out := v20\<rparr>) = still_frozen b c"
  "still_frozen b (c\<lparr>bg_crashed := v21\<rparr>) = still_frozen b c"
  "still_frozen b (c\<lparr>bg_gate := v22\<rparr>) = still_frozen b c"
  "still_frozen b (c\<lparr>bg_unlock := v23\<rparr>) = still_frozen b c"
  by (rule still_frozen_same; simp)+

lemma still_frozen_autonomy: "still_frozen b c \<Longrightarrow> still_frozen b (c\<lparr>bg_autonomy := v\<rparr>)"
  by (simp add: still_frozen_fields)

lemma still_frozen_world: "world_frame (bridge_add env) (bridge_trigger env) still_frozen"
proof unfold_locales
  fix t p r b
  show "still_frozen b (snd (bridge_add env t p b))" by (rule still_frozen_same_stores [OF stores.R_add])
  show "still_frozen b (bridge_trigger env r b)" by (rule still_frozen_same_stores [OF stores.R_trg])
qed (auto intro: still_frozen_trans)

interpretation freezing: bridge_frame env still_frozen for env
  by (intro bridge_frame.intro bridge_calls.intro still_frozen_world bridge_calls_axioms.intro bridge_frame_axioms.intro still_frozen_fields still_frozen_autonomy still_frozen_lock_all
      still_frozen_plant still_frozen_backups still_frozen_integrity)

section \<open>Opening and using a voting session\<close>

lemma bridge_lockdown_eq: "bridge_lockdown env r b = (\<not> bridge_locked b, bridge_trigger env r b)"
  by (simp add: bridge_trigger_def prod_eq_iff fst_bridge_lockdown)

lemma grows_send: "grows (be_sha env) b c \<Longrightarrow> grows (be_sha env) b (snd (send_json env j c))"
  by (simp add: send_json_def split: option.split)

lemma frozen_worm_trigger: "still_frozen b (snd (cmd_worm_trigger env args b))"
  unfolding cmd_worm_trigger_def bridge_lockdown_eq Let_def case_prod_conv
  by (intro framed still_frozen_refl)
    (auto simp: freezing.Q_fields still_frozen_fields intro!: freezing.Q_emit freezing.Q_lock_all freezing.Q_trg)

lemma grows_worm_trigger: "grows (be_sha env) b (snd (cmd_worm_trigger env args b))"
proof -
  have "grows (be_sha env) b (snd (need (bg_sandbox (bridge_trigger env r b)) (\<lambda>s.
      let b2 = emit (bridge_add env) ''worm_trigger'' (''reason='' @ r) (bridge_lock_all env ''worm_lockdown'' s (bridge_trigger env r b));
          b3 = b2\<lparr>bg_unlock := map_option begin_session (bg_unlock b2)\<rparr>;
          b4 = bridge_lock_backups env r b3
      in send_event env ''worm_status'' (worm_status_data b4) b4) (bridge_trigger env r b)))" for r
  proof (cases "bg_sandbox (bridge_trigger env r b)")
    case None
    then show ?thesis by (simp add: need_def grows_trigger)
  next
    case (Some s)
    let ?b2 = "emit (bridge_add env) ''worm_trigger'' (''reason='' @ r) (bridge_lock_all env ''worm_lockdown'' s (bridge_trigger env r b))"
    have "quiet (be_sha env) b ?b2"
      by (intro quiet.Q_emit quiet.Q_lock_all quiet.Q_trg quiet_refl) (rule Some)
    then have "grows (be_sha env) b (?b2\<lparr>bg_unlock := map_option begin_session (bg_unlock ?b2)\<rparr>)"
      using grows_quiet by simp
    with grows_quiet [OF quiet.Q_backups0] grows_trans grows_send show ?thesis
      unfolding need_def Some Let_def option.case by blast
  qed
  then show ?thesis
    unfolding cmd_worm_trigger_def bridge_lockdown_eq
    by (auto simp: arg_def grows_send grows_trigger split: sum.split)
qed

lemma frozen_unlock: "still_frozen b (bridge_unlock env a b)"
  by (simp add: bridge_unlock_def still_frozen_fields)

lemma vote_state:
  assumes refl: "\<And>b. Q b b" and trans: "\<And>a b c. Q a b \<Longrightarrow> Q b c \<Longrightarrow> Q a c"
    and send: "\<And>b c j. Q b c \<Longrightarrow> Q b (snd (send_json env j c))"
    and unl: "\<And>b c v. Q b (c\<lparr>bg_unlock := v\<rparr>) = Q b c"
    and cast: "\<And>b u now name req. Q b (snd (snd (cast_vote (be_openssl env) (bridge_add env) (bridge_unlock env) (bg_tokens b)
          now name req (u, b))))"
  shows "Q b (snd (cmd_unlock_vote env args b))"
proof -
  have cast': "Q b (snd (snd (cast_vote (be_openssl env) (bridge_add env) (bridge_unlock env) (bg_tokens b)
      now name req (u, b\<lparr>bg_unlock := v\<rparr>))))" for now name req u v
    using cast [where b = "b\<lparr>bg_unlock := v\<rparr>"] trans [of b "b\<lparr>bg_unlock := v\<rparr>"] unl refl by simp
  show ?thesis
    unfolding cmd_unlock_vote_def arg_def Let_def case_prod_beta
    by (auto simp: unl refl cast' intro!: send split: sum.split option.split)
qed

lemma frozen_unlock_vote: "still_frozen b (snd (cmd_unlock_vote env args b))"
  by (rule vote_state)
    (auto intro: still_frozen_trans freezing.Q_send freezing.cast_vote_frame frozen_unlock simp: still_frozen_fields)

lemma grows_unlock_vote: "grows (be_sha env) b (snd (cmd_unlock_vote env args b))"
  by (rule vote_state) (auto intro: grows_trans grows_send growing.cast_vote_frame grows_unlock)

end
