(* ===== verification/BridgeSafety.thy ===== *)
theory BridgeSafety
  imports BridgeRun
begin

text \<open>
  What holds of every run of the bridge: the audit chain stays intact, only votes lift the lock, and nothing thaws
  the sandbox or the backups again. And what does not: a lock engaged by a signal opens no voting session, so that
  it can never be lifted, and leaves the files and the backups open.
\<close>

section \<open>Steps\<close>

lemma bridge_step_cases: "bridge_step cf parse what (env, op) b = b \<or> bridge_step cf parse what (env, op) b = do_op cf parse what env op b"
  by (simp add: bridge_step_def)

lemma bridge_run_Nil [simp]: "bridge_run cf parse what [] b = b"
  by (simp add: bridge_run_def)

lemma bridge_run_Cons [simp]:
  "bridge_run cf parse what (x # xs) b = bridge_run cf parse what xs (bridge_step cf parse what x b)"
  by (simp add: bridge_run_def)

text \<open>A relation across every command holds across every run.\<close>

lemma run_frame:
  assumes refl: "\<And>b. R b b" and trans: "\<And>a b c. R a b \<Longrightarrow> R b c \<Longrightarrow> R a c"
    and op: "\<And>env op b. (env, op) \<in> set ops \<Longrightarrow> R b (do_op cf parse what env op b)"
  shows "R b (bridge_run cf parse what ops b)"
  using op
proof (induction ops arbitrary: b)
  case (Cons x ops)
  obtain env op where x: "x = (env, op)" by (cases x)
  have "R b (bridge_step cf parse what x b)"
    using bridge_step_cases [of cf parse what env op b] Cons.prems [of env op] refl x by auto
  moreover have "R (bridge_step cf parse what x b) (bridge_run cf parse what ops (bridge_step cf parse what x b))"
    using Cons.IH Cons.prems by simp
  ultimately show ?case using trans by simp
qed (simp add: refl)

lemma run_command_session:
  "run_command cf env ''worm_trigger'' args b = cmd_worm_trigger env args b"
  "run_command cf env ''unlock_vote'' args b = cmd_unlock_vote env args b"
  by (simp_all add: run_command_def)

text \<open>A relation that holds across the quiet commands and these two holds across every command.\<close>

lemma command_cases:
  assumes "R (snd (cmd_worm_trigger env args b))" "R (snd (cmd_unlock_vote env args b))"
    and "\<And>cmd. cmd \<noteq> ''worm_trigger'' \<Longrightarrow> cmd \<noteq> ''unlock_vote'' \<Longrightarrow> R (snd (run_command cf env cmd args b))"
  shows "R (snd (run_command cf env cmd args b))"
  using assms run_command_session by metis

lemma grows_op: "grows (be_sha env) b (do_op cf parse what env op b)"
proof (rule growing.Q_op)
  fix l cmd args
  show "grows (be_sha env) b (snd (run_command cf env cmd args b))"
    by (rule command_cases) (rule grows_worm_trigger grows_unlock_vote growing.Q_command; assumption)+
qed

lemma frozen_op: "still_frozen b (do_op cf parse what env op b)"
proof (rule freezing.Q_op)
  fix l cmd args
  show "still_frozen b (snd (run_command cf env cmd args b))"
    by (rule command_cases) (rule frozen_worm_trigger frozen_unlock_vote freezing.Q_command; assumption)+
qed

text \<open>
  C12. Nothing the bridge does gives a locked file or the backups free again, not even the vote that lifts the lock:
  a frozen entry keeps its content, version and lock through every run, and locked backups stay locked.
\<close>

theorem nothing_thaws:
  assumes "entry_frozen rel e b" "backups_locked b"
  shows "entry_frozen rel e (bridge_run cf parse what ops b) \<and> backups_locked (bridge_run cf parse what ops b)"
proof -
  have "still_frozen b (bridge_run cf parse what ops b)"
    by (rule run_frame) (auto intro: still_frozen_trans frozen_op)
  with assms show ?thesis by (simp add: still_frozen_def)
qed

section \<open>Lifting the lock\<close>

lemma locked_worm_trigger:
  "bridge_locked b \<Longrightarrow> quiet (be_sha env) b (snd (cmd_worm_trigger env args b))"
  by (auto simp: cmd_worm_trigger_def bridge_lockdown_eq arg_def quiet.Q_send quiet.R_trg split: sum.split)

lemma locked_op:
  assumes "bridge_locked b" "\<And>l. op = Line l \<Longrightarrow> command_of parse l \<noteq> Some ''unlock_vote''"
  shows "quiet (be_sha env) b (do_op cf parse what env op b)"
proof (rule quiet.Q_op)
  fix l cmd args
  assume "op = Line l" "command_of parse l = Some cmd"
  with assms(2) have "cmd \<noteq> ''unlock_vote''" by blast
  with assms(1) show "quiet (be_sha env) b (snd (run_command cf env cmd args b))"
    by (cases "cmd = ''worm_trigger''") (simp_all add: run_command_session locked_worm_trigger quiet.Q_command)
qed

text \<open>
  C17. Only votes lift the lock: as long as no \<^verbatim>\<open>unlock_vote\<close> line arrives, a locked bridge stays locked, whatever
  other commands arrive, the direct \<^verbatim>\<open>worm_unlock\<close> among them.
\<close>

theorem only_votes_unlock:
  assumes "bridge_locked b" "list_all (\<lambda>(env, op). case op of Line l \<Rightarrow> command_of parse l \<noteq> Some ''unlock_vote'' | _ \<Rightarrow> True) ops"
  shows "bridge_locked (bridge_run cf parse what ops b)"
  using assms
proof (induction ops arbitrary: b)
  case (Cons x ops)
  obtain env op where x: "x = (env, op)" by (cases x)
  have "quiet (be_sha env) b (do_op cf parse what env op b)"
    using Cons.prems x by (intro locked_op) auto
  then have "bridge_locked (bridge_step cf parse what x b)"
    using Cons.prems(1) by (simp add: x bridge_step_def quiet_def)
  with Cons show ?case by simp
qed simp

definition no_session :: "('k, 'f) bridge \<Rightarrow> bool" where
  "no_session b = (case bg_unlock b of None \<Rightarrow> True | Some u \<Rightarrow> up_state u \<noteq> COLLECTING)"

text \<open>Without a session every vote is rejected.\<close>

definition shut :: "('k, 'f) bridge \<Rightarrow> bool" where
  "shut b = (bridge_locked b \<and> no_session b)"

lemma shut_fields: "shut (b\<lparr>bg_out := v\<rparr>) = shut b"
  by (simp add: shut_def no_session_def bridge_view_defs)

lemma shut_quiet: "quiet sha b c \<Longrightarrow> shut b \<Longrightarrow> shut c"
  by (simp add: quiet_def shut_def no_session_def)

lemma cast_vote_no_session:
  assumes "up_state u \<noteq> COLLECTING"
  shows "\<exists>r. cast_vote os add wu ts now name req (u, w) = reject add name r u w"
  using assms by (cases "up_state u") (auto simp: cast_vote_def)

lemma shut_vote:
  assumes "shut b"
  shows "shut (snd (cmd_unlock_vote env args b))"
proof -
  have send: "shut (snd (send_json env j c)) = shut c" for j c
    by (simp add: send_json_def shut_fields split: option.split)
  have state: "up_state (snd (get_challenge g n u)) = up_state u" for g n u
    by (simp add: get_challenge_def split: option.splits sum.splits)
  have upd: "shut (b\<lparr>bg_unlock := Some (snd (get_challenge g n u))\<rparr>)" if "bg_unlock b = Some u" for g n u
    using assms that by (simp add: shut_def no_session_def state bridge_view_defs)
  have vote: "shut ((snd (snd (cast_vote os (bridge_add env) wu ts now name req (u1, b\<lparr>bg_unlock := Some u1\<rparr>))))
      \<lparr>bg_unlock := Some (fst (snd (cast_vote os (bridge_add env) wu ts now name req (u1, b\<lparr>bg_unlock := Some u1\<rparr>))))\<rparr>)"
    if "bg_unlock b = Some u" and u1: "u1 = snd (get_challenge g n u)" for os wu ts now name req u u1 g n
  proof -
    have nc: "up_state u1 \<noteq> COLLECTING" using assms that by (simp add: shut_def no_session_def state)
    from cast_vote_no_session [OF nc, where os = os and add = "bridge_add env" and wu = wu and ts = ts and now = now
        and name = name and req = req and w = "b\<lparr>bg_unlock := Some u1\<rparr>"] obtain r
      where r: "cast_vote os (bridge_add env) wu ts now name req (u1, b\<lparr>bg_unlock := Some u1\<rparr>)
        = reject (bridge_add env) name r u1 (b\<lparr>bg_unlock := Some u1\<rparr>)" by blast
    have "bridge_locked (emit (bridge_add env) t p (b\<lparr>bg_unlock := Some u1\<rparr>))" for t p
      using assms bridge.emit_keeps_lock [of env t p "b\<lparr>bg_unlock := Some u1\<rparr>"] by (simp add: shut_def bridge_view_defs)
    then show ?thesis using nc by (simp add: r reject_def shut_def no_session_def bridge_view_defs)
  qed
  show ?thesis
    unfolding cmd_unlock_vote_def arg_def Let_def case_prod_beta
    by (auto simp: send assms upd split: sum.split option.split intro!: vote dest: sym [of _ "snd _"])
qed

lemma shut_op:
  assumes "shut b"
  shows "shut (do_op cf parse what env op b)"
proof (cases "\<exists>l. op = Line l \<and> command_of parse l = Some ''unlock_vote''")
  case False
  with assms have "quiet (be_sha env) b (do_op cf parse what env op b)" by (intro locked_op) (auto simp: shut_def)
  then show ?thesis using assms by (rule shut_quiet)
next
  case True
  then obtain l where l0: "op = Line l" "command_of parse l = Some ''unlock_vote''" by blast
  then obtain msg where l1: "parse (strip_cr l) = Some msg" by (cases "parse (strip_cr l)") (simp_all add: command_of_def)
  have "json_value get_string ''cmd'' [] msg = Inr ''unlock_vote''"
    using l0(2) by (cases "json_value get_string ''cmd'' [] msg") (simp_all add: command_of_def l1)
  note l = l0(1) l1 this
  have vote: "shut (snd (cmd_unlock_vote env args b))" for args by (rule shut_vote [OF assms])
  have crash: "shut (c\<lparr>bg_crashed := v\<rparr>) = shut c" for c v by (simp add: shut_def no_session_def bridge_view_defs)
  have "shut (snd (dispatch cf env msg b))"
    by (auto simp: dispatch_def arg_def l(3) run_command_session vote assms split: sum.split)
  then have "shut (report_error what env e (snd (dispatch cf env msg b)))" for e
    by (simp add: report_error_def send_json_def shut_fields crash split: option.split)
  with \<open>shut (snd (dispatch cf env msg b))\<close> assms show ?thesis
    by (auto simp: l(1) input_line_def l(2) Let_def split: prod.split option.split)
qed

lemma shut_run: "shut b \<Longrightarrow> shut (bridge_run cf parse what ops b)"
proof -
  have "shut b \<longrightarrow> shut (bridge_run cf parse what ops b)"
    by (rule run_frame) (auto intro: shut_op)
  then show "shut b \<Longrightarrow> ?thesis" by simp
qed

text \<open>
  A lock that was not engaged by the \<^verbatim>\<open>worm_trigger\<close> command is final: with no voting session open no sequence of
  commands and callbacks ever lifts it, because only engaging the lock by that command opens one.
\<close>

theorem lock_without_session_final:
  assumes "bridge_locked b" "no_session b"
  shows "bridge_locked (bridge_run cf parse what ops b) \<and> no_session (bridge_run cf parse what ops b)"
  using shut_run [where b = b and ops = ops and cf = cf and parse = parse and what = what] assms by (simp add: shut_def)

section \<open>Two ways into the lock\<close>




lemma stores_emit:
  "bg_tokens (emit (bridge_add env) t p b) = bg_tokens b"
  "bg_identities (emit (bridge_add env) t p b) = bg_identities b"
  "bg_sandbox (emit (bridge_add env) t p b) = bg_sandbox b"
  "bg_veeam (emit (bridge_add env) t p b) = bg_veeam b"
  "bg_unlock (emit (bridge_add env) t p b) = bg_unlock b"
  by (simp_all add: emit_def bridge_add_gate)

lemma lock_all_fields:
  "bg_tokens (bridge_lock_all env r s b) = bg_tokens b"
  "bg_identities (bridge_lock_all env r s b) = bg_identities b"
  "bg_sandbox (bridge_lock_all env r s b) = Some (s\<lparr>sb_entries := map (\<lambda>(k, e). (k, e\<lparr>se_locked := True\<rparr>)) (sb_entries s)\<rparr>)"
  "bg_veeam (bridge_lock_all env r s b) = bg_veeam b"
  "bg_unlock (bridge_lock_all env r s b) = bg_unlock b"
  by (simp_all add: bridge_lock_all_def lock_all_def case_prod_beta Let_def stores_emit del: append_Cons)

lemma lock_backups_fields:
  "bg_tokens (bridge_lock_backups env r b) = bg_tokens b"
  "bg_identities (bridge_lock_backups env r b) = bg_identities b"
  "bg_sandbox (bridge_lock_backups env r b) = bg_sandbox b"
  "bg_unlock (bridge_lock_backups env r b) = bg_unlock b"
  "bg_veeam b = Some br \<Longrightarrow> backups_locked (bridge_lock_backups env r b)"
  by (simp_all add: bridge_lock_backups_def lock_backups_def backups_locked_def case_prod_beta Let_def bridge_add_gate
      stores_emit split: option.split del: append_Cons)

text \<open>
  The \<^verbatim>\<open>worm_trigger\<close> command on an open bridge engages the lock, locks every file of the sandbox, opens a voting
  session with no votes in it and locks the backups.
\<close>

lemma worm_trigger_complete:
  assumes "\<not> bridge_locked b" "bg_sandbox b = Some s" "bg_unlock b = Some u" "bg_veeam b = Some r"
  shows "let b1 = snd (cmd_worm_trigger env (JObject [(''reason'', JString why)]) b) in
    bridge_locked b1 \<and> backups_locked b1 \<and> bg_unlock b1 = Some (begin_session u)
    \<and> bg_tokens b1 = bg_tokens b \<and> bg_identities b1 = bg_identities b
    \<and> (case bg_sandbox b1 of Some s1 \<Rightarrow> list_all se_locked (get_tree s1) \<and> map se_content (get_tree s1) = map se_content (get_tree s)
       | None \<Rightarrow> False)"
proof -
  let ?b1 = "bridge_trigger env why b"
  have s1: "bg_sandbox ?b1 = Some s" "bg_unlock ?b1 = Some u" "bg_veeam ?b1 = Some r"
    "bg_tokens ?b1 = bg_tokens b" "bg_identities ?b1 = bg_identities b"
    by (simp_all add: bridge_trigger_gate assms)
  let ?b2 = "emit (bridge_add env) ''worm_trigger'' (''reason='' @ why) (bridge_lock_all env ''worm_lockdown'' s ?b1)"
  let ?b3 = "?b2\<lparr>bg_unlock := Some (begin_session u)\<rparr>"
  let ?b4 = "bridge_lock_backups env why ?b3"
  have run: "snd (cmd_worm_trigger env (JObject [(''reason'', JString why)]) b)
      = snd (send_event env ''worm_status'' (worm_status_data ?b4) ?b4)"
    using assms(1) by (simp add: cmd_worm_trigger_def arg_def json_value_def bridge_lockdown_eq need_def s1 stores_emit
        lock_all_fields Let_def del: append_Cons)
  have "quiet (be_sha env) ?b1 ?b2" by (intro quiet.Q_emit quiet.Q_lock_all quiet_refl s1)
  then have "bridge_locked ?b3" using bridge.trigger_locks [of env why b] by (simp add: quiet_def bridge_view_defs)
  then have locked: "bridge_locked ?b4" using quiet.Q_backups0 [of env ?b3 why] by (simp add: quiet_def)
  have view: "bridge_locked (snd (send_json env j c)) = bridge_locked c" "backups_locked (snd (send_json env j c)) = backups_locked c"
    "bg_unlock (snd (send_json env j c)) = bg_unlock c" "bg_sandbox (snd (send_json env j c)) = bg_sandbox c"
    "bg_tokens (snd (send_json env j c)) = bg_tokens c" "bg_identities (snd (send_json env j c)) = bg_identities c" for j c
    by (simp_all add: send_json_def bridge_view_defs backups_locked_def split: option.split)
  show ?thesis
    using locked s1 by (simp add: run view lock_backups_fields stores_emit lock_all_fields get_tree_def sm_values_def
        list_all_iff case_prod_beta Let_def del: append_Cons)
qed

section \<open>The autonomy loop\<close>

text \<open>A loop that believes in the level LOW goes on believing in it.\<close>

definition calm :: "('k, 'f) bridge \<Rightarrow> ('k, 'f) bridge \<Rightarrow> bool" where
  "calm b b' = (loop_level (bg_autonomy b) = ''LOW'' \<longrightarrow> loop_level (bg_autonomy b') = ''LOW'')"

interpretation calm: bridge_blind env calm for env
  by unfold_locales (auto simp: calm_def bridge_add_gate bridge_trigger_gate)

lemma calm_worm_trigger: "calm b (snd (cmd_worm_trigger env args b))"
proof -
  have unl: "calm b (c\<lparr>bg_unlock := v\<rparr>) = calm b c" for b c v by (simp add: calm_def)
  show ?thesis
    unfolding cmd_worm_trigger_def bridge_lockdown_eq Let_def case_prod_conv
    by (intro framed calm.R_refl) (auto simp: unl intro!: framed calm.R_refl)
qed

lemma calm_unlock_vote: "calm b (snd (cmd_unlock_vote env args b))"
proof (rule vote_state)
  fix b u now name req
  show "calm b (snd (snd (cast_vote (be_openssl env) (bridge_add env) (bridge_unlock env) (bg_tokens b) now name req (u, b))))"
    by (rule calm.cast_vote_frame) (simp add: calm_def bridge_unlock_def)
qed (auto simp: calm_def send_json_def split: option.split)

lemma calm_op: "calm b (do_op cf parse what env op b)"
proof (rule calm.Q_op)
  fix l cmd args
  show "calm b (snd (run_command cf env cmd args b))"
    by (rule command_cases) (rule calm_worm_trigger calm_unlock_vote calm.Q_command; assumption)+
qed

text \<open>
  The threat response of the autonomy loop never runs: nothing in the process tells the loop the threat level, so in
  every run its level stays LOW, even while the threat machine is at CRITICAL, and the pass that would
  submit the response tasks does nothing.
\<close>

theorem threat_response_never_runs:
  assumes "bg_autonomy b = None"
  shows "case bg_autonomy (bridge_run cf parse what ops b) of None \<Rightarrow> True
    | Some l \<Rightarrow> al_threat_level l = ''LOW'' \<and> tick_threat_response ctl (l, tasks) = (l, tasks)"
proof -
  have "calm b (bridge_run cf parse what ops b)"
    by (rule run_frame) (auto intro: calm_op calm.R_trans)
  with assms show ?thesis
    by (auto simp: calm_def loop_level_def tick_threat_response_def split: option.splits)
qed

section \<open>Rejected input\<close>

text \<open>A command that throws because an argument has the wrong type has not changed anything yet.\<close>

definition untouched :: "('k, 'f) bridge \<Rightarrow> ('k, 'f) outcome \<Rightarrow> bool" where
  "untouched b r = (fst r = Some Type_mismatch \<longrightarrow> snd r = b)"

lemma untouched_arg: "(\<And>x. untouched b (f x)) \<Longrightarrow> untouched b (arg get k d args f b)"
  by (simp add: untouched_def arg_def split: sum.split)

lemma untouched_send: "untouched b (send_json env j c)"
  by (simp add: untouched_def send_json_def split: option.split)

lemma untouched_need: "(\<And>x. untouched b (f x)) \<Longrightarrow> untouched b (need x f c)"
  by (cases x) (simp_all add: untouched_def need_def)

lemma untouched_if: "untouched b x \<Longrightarrow> untouched b y \<Longrightarrow> untouched b (if P then x else y)"
  by simp

lemma untouched_option: "untouched b x \<Longrightarrow> (\<And>y. untouched b (f y)) \<Longrightarrow> untouched b (case z of None \<Rightarrow> x | Some y \<Rightarrow> f y)"
  by (cases z) simp_all

lemma untouched_other: "e \<noteq> Type_mismatch \<Longrightarrow> untouched b (Some e, c)"
  by (simp add: untouched_def)

lemmas untouched_intros = untouched_arg untouched_send untouched_need untouched_if untouched_option

lemma untouched_signals: "untouched b (cmd_observe_signal env args b)" "untouched b (cmd_push_chaos env args b)"
  "untouched b (cmd_push_chaos_batch env args b)"
  unfolding cmd_observe_signal_def cmd_push_chaos_def cmd_push_chaos_batch_def Let_def case_prod_beta
  by (intro untouched_intros)+

lemma untouched_locks: "untouched b (cmd_worm_trigger env args b)" "untouched b (cmd_worm_unlock env b)"
  "untouched b (cmd_unlock_vote env args b)"
  unfolding cmd_worm_trigger_def cmd_worm_unlock_def cmd_unlock_vote_def Let_def case_prod_beta
  by (intro untouched_intros; auto simp: untouched_other untouched_send split: sum.split prod.split)+

lemma untouched_stores: "untouched b (cmd_veeam_integrity_check env b)" "untouched b (cmd_veeam_status env b)"
  "untouched b (cmd_sandbox_get_tree env b)" "untouched b (cmd_decoy_plant env b)" "untouched b (cmd_decoy_touch env args b)"
  "untouched b (cmd_active_response_serve env args b)" "untouched b (cmd_get_attribution env dir args b)"
  unfolding cmd_veeam_integrity_check_def cmd_veeam_status_def cmd_sandbox_get_tree_def cmd_decoy_plant_def cmd_decoy_touch_def
    cmd_active_response_serve_def cmd_get_attribution_def Let_def case_prod_beta
  by (intro untouched_intros; simp add: untouched_other)+

lemma untouched_responses: "untouched b (cmd_scan_and_quarantine env args b)" "untouched b (cmd_block_ip env args b)"
  "untouched b (cmd_unblock_ip env args b)" "untouched b (cmd_run_demo env b)"
  unfolding cmd_scan_and_quarantine_def scan_outcome_def cmd_block_ip_def cmd_unblock_ip_def cmd_run_demo_def Let_def case_prod_beta
  by (intro untouched_intros)+

lemma untouched_agents: "untouched b (cmd_triage_event env args b)" "untouched b (cmd_agent_submit env args b)"
  "untouched b (cmd_agent_status env b)"
  unfolding cmd_triage_event_def cmd_agent_submit_def cmd_agent_status_def Let_def case_prod_beta
  by (intro untouched_intros; simp add: untouched_other)+

lemma untouched_network: "untouched b (cmd_network_get_ssids env b)" "untouched b (cmd_nac_simulate_device env args b)"
  "untouched b (cmd_zerotrust_evaluate env args b)" "untouched b (cmd_get_snapshot env dir el b)" "untouched b (cmd_get_unlock_status env b)"
  unfolding cmd_network_get_ssids_def cmd_nac_simulate_device_def nac_answer_def cmd_zerotrust_evaluate_def zt_answer_def
    cmd_get_snapshot_def cmd_get_unlock_status_def Let_def
  by (intro untouched_intros)+

lemma untouched_command: "untouched b (run_command cf env cmd args b)"
  unfolding run_command_def
  by (intro untouched_if untouched_send untouched_signals untouched_locks untouched_stores untouched_responses
      untouched_agents untouched_network)

lemma untouched_dispatch: "untouched b (dispatch cf env msg b)"
  unfolding dispatch_def by (intro untouched_arg untouched_command)

text \<open>
  C25. Malformed input is harmless to the state: a line that is not JSON, or whose command or an argument of it has the
  wrong type, leaves every component as it was and is answered by one \<^verbatim>\<open>parse_error\<close> event. The handler prints the
  message of the exception, though, and when that message cannot be printed, the exception leaves the thread and ends the process.
\<close>

theorem malformed_input_outcome:
  "let j = (\<lambda>e. event_json ''parse_error'' [(''msg'', JString (what e))]);
       answered = (\<lambda>e. case be_dump env (j e) of
           Some s \<Rightarrow> input_line cf parse what env line b = b\<lparr>bg_out := bg_out b @ [s @ nl]\<rparr>
         | None \<Rightarrow> input_line cf parse what env line b = b\<lparr>bg_crashed := True\<rparr>) in
    if strip_cr line = [] then input_line cf parse what env line b = b
    else (case parse (strip_cr line) of
        None \<Rightarrow> answered Unparsable
      | Some msg \<Rightarrow> if fst (dispatch cf env msg b) = Some Type_mismatch then answered (Rejected Type_mismatch) else True)"
proof -
  have report: "report_error what env e b = (case be_dump env (event_json ''parse_error'' [(''msg'', JString (what e))]) of
      Some s \<Rightarrow> b\<lparr>bg_out := bg_out b @ [s @ nl]\<rparr> | None \<Rightarrow> b\<lparr>bg_crashed := True\<rparr>)" for e
    by (simp add: report_error_def send_json_def split: option.split)
  show ?thesis
  proof (cases "parse (strip_cr line)")
    case None
    then show ?thesis by (simp add: input_line_def report Let_def split: option.split)
  next
    case (Some msg)
    show ?thesis
    proof (cases "fst (dispatch cf env msg b) = Some Type_mismatch")
      case True
      then have "dispatch cf env msg b = (Some Type_mismatch, b)"
        using untouched_dispatch [of b cf env msg] by (simp add: untouched_def prod_eq_iff)
      then show ?thesis by (simp add: input_line_def Some report Let_def split: option.split)
    qed (simp add: input_line_def Some Let_def)
  qed
qed

end
