(* ===== verification/BridgeStart.thy ===== *)
theory BridgeStart
  imports BridgeSafety
begin

text \<open>
  \<^verbatim>\<open>main\<close> of the bridge: the construction of the components, each under \<^verbatim>\<open>try_init\<close>, which notes a failure and goes on in
  degraded mode; and what holds of every run from the state it builds.
\<close>

section \<open>Construction\<close>

text \<open>
  What the surroundings answer during the construction: the printer, the audit clock and the digest as for a command, the
  keys and random draws of the three approvers, the directories, and the personas on disk. \<open>sn_unprintable\<close> is the
  message of the exception that the printer throws, \<open>sn_quarantine\<close> the quarantine directory, or why it cannot be made.
\<close>

record ('k, 'p, 'f) start_env =
  sn_env :: "('k, 'p, 'f) bridge_env"
  sn_keys :: "nat \<Rightarrow> ('k, 'p) openssl"
  sn_draws :: "nat \<Rightarrow> string option"
  sn_clock :: "nat \<Rightarrow> int"
  sn_unprintable :: string
  sn_elevated :: bool
  sn_daemon :: bool
  sn_sandbox_root :: string
  sn_quarantine :: "string + string"
  sn_adapters :: "string list list option"
  sn_dns :: "string list option"
  sn_netsh :: 'f
  sn_files :: files
  sn_controller :: controller_env
  sn_json_dirs :: "string list"
  sn_ecc_dirs :: "string list"

definition blank_bridge :: "'f \<Rightarrow> files \<Rightarrow> ('k, 'f) bridge" where
  "blank_bridge f fs = \<lparr>bg_gate = (new_worm_lock, fresh_audit), bg_threat = None, bg_rules = None, bg_sandbox = None,
     bg_chaos = None, bg_decoy = None, bg_ar = None, bg_clamd = False, bg_qtn = None, bg_firewall = None, bg_netsh = f,
     bg_files = fs, bg_tokens = new_token_store, bg_unlock = None, bg_identities = [], bg_ai_triage = False,
     bg_last_triage = JNull, bg_veeam = None, bg_agents = None, bg_autonomy = None, bg_latest_K = 0,
     bg_latest_anomalous = False, bg_latest_windows = 0, bg_chaos_history = [], bg_out = [], bg_crashed = False\<rparr>"

fun exception_text :: "cxx_exception \<Rightarrow> string" where
  "exception_text (Invalid_argument s) = s"
| "exception_text (Runtime_error s) = s"
| "exception_text (Out_of_range s) = s"

text \<open>A stage leaves the message of its exception, if it throws. Printing the notice is outside the \<^verbatim>\<open>try\<close>.\<close>

type_synonym ('k, 'f) starting = "('k, 'f) bridge \<times> string list"

definition try_init ::
    "('k, 'p, 'f) bridge_env \<Rightarrow> string \<Rightarrow> (('k, 'f) bridge \<Rightarrow> string option \<times> ('k, 'f) bridge)
       \<Rightarrow> ('k, 'f) starting \<Rightarrow> ('k, 'f) starting" where
  "try_init env name init = (\<lambda>(b, degraded).
     if bg_crashed b then (b, degraded)
     else (case init b of
        (None, b') \<Rightarrow> (b', degraded)
      | (Some what, b') \<Rightarrow>
          (case send_event env ''subsystem_degraded'' [(''subsystem'', JString name), (''reason'', JString what)] b' of
             (None, b'') \<Rightarrow> (b'', degraded @ [name @ '' init failed: '' @ what])
           | (Some _, b'') \<Rightarrow> (b''\<lparr>bg_crashed := True\<rparr>, degraded @ [name @ '' init failed: '' @ what]))))"

definition start_sandbox :: "('k, 'p, 'f) start_env \<Rightarrow> ('k, 'f) bridge \<Rightarrow> ('k, 'f) bridge" where
  "start_sandbox sv b =
     (let (_, s, b') = populate (bridge_add (sn_env sv)) (bridge_disk (sn_env sv)) (sn_clock sv 0)
            (new_sandbox (sn_sandbox_root sv), b)
      in b'\<lparr>bg_sandbox := Some s\<rparr>)"

text \<open>These constructors do not throw.\<close>

definition start_plain :: "('k, 'f) bridge \<Rightarrow> ('k, 'f) bridge" where
  "start_plain b = b\<lparr>bg_threat := Some new_threat_sm, bg_rules := Some new_rule_engine,
     bg_chaos := Some (new_chaos_detector 16), bg_decoy := Some new_decoy_env, bg_ar := Some new_active_response,
     bg_clamd := True\<rparr>"

definition start_quarantine :: "('k, 'p, 'f) start_env \<Rightarrow> ('k, 'f) bridge \<Rightarrow> string option \<times> ('k, 'f) bridge" where
  "start_quarantine sv b =
     (case sn_quarantine sv of
        Inl what \<Rightarrow> (Some what, b)
      | Inr dir \<Rightarrow> (None, b\<lparr>bg_qtn := Some (new_quarantine dir)\<rparr>))"

definition start_firewall :: "('k, 'p, 'f) start_env \<Rightarrow> ('k, 'f) bridge \<Rightarrow> ('k, 'f) bridge" where
  "start_firewall sv b =
     b\<lparr>bg_firewall := Some (new_firewall_blocker (sn_adapters sv) (sn_dns sv) DEFAULT_TTL_SECONDS [])\<rparr>"

subsection \<open>The approvers\<close>

definition TTL_24H :: int where
  "TTL_24H = 24 * 60 * 60 * 1000"

definition demo_approvers :: "(string \<times> approver_side) list" where
  "demo_approvers = [(''astartis-admin-1'', ASTARTIS), (''client-rep-1'', CLIENT), (''client-rep-2'', CLIENT)]"

fun add_identities ::
    "(nat \<Rightarrow> ('k, 'p) openssl) \<Rightarrow> nat \<Rightarrow> string list \<Rightarrow> ('k, 'f) bridge \<Rightarrow> cxx_exception option \<times> ('k, 'f) bridge" where
  "add_identities keys i [] b = (None, b)"
| "add_identities keys i (name # names) b =
     (case make_identity (keys i) name of
        Inl e \<Rightarrow> (Some e, b)
      | Inr d \<Rightarrow> add_identities keys (i + 1) names (b\<lparr>bg_identities := sm_assign name d (bg_identities b)\<rparr>))"

fun grant_votes ::
    "('k, 'p, 'f) start_env \<Rightarrow> nat \<Rightarrow> string list \<Rightarrow> ('k, 'f) bridge \<Rightarrow> (cxx_exception + string list) \<times> ('k, 'f) bridge" where
  "grant_votes sv i [] b = (Inr [], b)"
| "grant_votes sv i (name # names) b =
     (let (r, ts, b1) = grant (bridge_add (sn_env sv)) (sn_draws sv i) (sn_clock sv (i + 1)) name ''worm_unlock_vote''
            TTL_24H (bg_tokens b, b);
          b2 = b1\<lparr>bg_tokens := ts\<rparr>
      in (case r of
            Inl e \<Rightarrow> (Inl e, b2)
          | Inr t \<Rightarrow>
              (case grant_votes sv (i + 1) names b2 of
                 (Inl e, b3) \<Rightarrow> (Inl e, b3)
               | (Inr tids, b3) \<Rightarrow> (Inr (tk_token_id t # tids), b3))))"

fun register_all ::
    "(nat \<Rightarrow> ('k, 'p) openssl) \<Rightarrow> nat \<Rightarrow> ((string \<times> approver_side) \<times> string) list \<Rightarrow> ('k, 'f) bridge
       \<Rightarrow> cxx_exception option \<times> ('k, 'f) bridge" where
  "register_all keys i [] b = (None, b)"
| "register_all keys i (((name, side), tid) # as) b =
     (case map_option (public_key_der (keys i)) (map_of (bg_identities b) name) of
        None \<Rightarrow> (None, b\<lparr>bg_crashed := True\<rparr>)
      | Some (Inl e) \<Rightarrow> (Some e, b)
      | Some (Inr key) \<Rightarrow>
          register_all keys (i + 1) as (b\<lparr>bg_unlock := map_option (register_approver name side key tid) (bg_unlock b)\<rparr>))"

definition start_unlock :: "('k, 'p, 'f) start_env \<Rightarrow> ('k, 'f) bridge \<Rightarrow> string option \<times> ('k, 'f) bridge" where
  "start_unlock sv b =
     (case add_identities (sn_keys sv) 0 (map fst demo_approvers) (b\<lparr>bg_tokens := new_token_store\<rparr>) of
        (Some e, b1) \<Rightarrow> (Some (exception_text e), b1)
      | (None, b1) \<Rightarrow>
          (case grant_votes sv 0 (map fst demo_approvers) b1 of
             (Inl e, b2) \<Rightarrow> (Some (exception_text e), b2)
           | (Inr tids, b2) \<Rightarrow>
               (case register_all (sn_keys sv) 0 (zip demo_approvers tids)
                       (b2\<lparr>bg_unlock := Some (new_unlock_protocol DEMO_THRESHOLD)\<rparr>) of
                  (Some e, b3) \<Rightarrow> (Some (exception_text e), b3)
                | (None, b3) \<Rightarrow> (None, b3))))"

subsection \<open>The agents\<close>

text \<open>The first existing candidate that yields a persona ends the search; what a candidate loaded stays.\<close>

fun first_loaded :: "(string \<Rightarrow> 's \<Rightarrow> nat \<times> 's) \<Rightarrow> (string \<Rightarrow> bool) \<Rightarrow> string list \<Rightarrow> 's \<Rightarrow> nat \<times> 's" where
  "first_loaded load ex [] s = (0, s)"
| "first_loaded load ex (d # ds) s =
     (if ex d then
        let (n, s') = load d s in if n > 0 then (n, s') else first_loaded load ex ds s'
      else first_loaded load ex ds s)"

definition initial_agent_json :: "agent_status \<Rightarrow> json" where
  "initial_agent_json s = JObject [(''name'', JString (AgentController.as_name s)), (''category'', JString (as_category s)),
     (''state'', JString ''IDLE''), (''tasks_completed'', JNat 0), (''tasks_failed'', JNat 0),
     (''last_result_snippet'', JString [])]"

definition start_agents :: "('k, 'p, 'f) start_env \<Rightarrow> ('k, 'f) bridge \<Rightarrow> string option \<times> ('k, 'f) bridge" where
  "start_agents sv b =
     (let env = sn_env sv; ce = sn_controller sv;
          (n, c1, b1) = first_loaded (load_all_personas (bridge_add env) ce) (ce_exists ce) (sn_json_dirs sv)
                          (new_agent_controller 4, b);
          (m, c2, b2) = first_loaded (load_ecc_personas (bridge_add env) ce) (ce_exists ce) (sn_ecc_dirs sv) (c1, b1);
          b3 = emit (bridge_add env) ''agent_controller_ready''
                 (''personas_loaded='' @ str_of_nat (n + m) @ '' ecc_loaded='' @ str_of_nat m) b2
      in (case send_event env ''agent_status_update''
                 [(''agent_statuses'', JArray (map initial_agent_json (get_statuses c2))), (''agent_queue_depth'', JNat 0),
                  (''personas_loaded'', JNat (n + m))] b3 of
            (Some _, b4) \<Rightarrow> (Some (sn_unprintable sv), b4\<lparr>bg_agents := Some c2\<rparr>)
          | (None, b4) \<Rightarrow> (None, b4\<lparr>bg_agents := Some (c2\<lparr>ct_running := True\<rparr>)\<rparr>)))"

subsection \<open>main\<close>

definition ready :: "('k, 'p, 'f) start_env \<Rightarrow> ('k, 'f) starting \<Rightarrow> ('k, 'f) starting" where
  "ready sv = (\<lambda>(b, degraded).
     (case send_event (sn_env sv) ''ready''
             [(''sandbox_root'', JString (sn_sandbox_root sv)), (''chain_length'', JNat (length (aw_chain (snd (bg_gate b))))),
              (''elevated'', JBool (sn_elevated sv)), (''daemon_mode'', JBool (sn_daemon sv)),
              (''degraded_subsystems'', JArray (map JString degraded))] b of
        (None, b') \<Rightarrow> (b', degraded)
      | (Some _, b') \<Rightarrow> (b'\<lparr>bg_crashed := True\<rparr>, degraded)))"

text \<open>A stage without an exception of its own, and nothing after the process has ended.\<close>

definition stage :: "(('k, 'f) starting \<Rightarrow> ('k, 'f) starting) \<Rightarrow> ('k, 'f) starting \<Rightarrow> ('k, 'f) starting" where
  "stage f s = (if bg_crashed (fst s) then s else f s)"

definition start :: "('k, 'p, 'f) start_env \<Rightarrow> ('k, 'f) starting" where
  "start sv =
     (let env = sn_env sv;
          s1 = (start_plain (start_sandbox sv (blank_bridge (sn_netsh sv) (sn_files sv))), []);
          s2 = try_init env ''quarantine'' (start_quarantine sv) s1;
          s3 = stage (\<lambda>(b, ds). (start_firewall sv b, ds)) s2;
          s4 = try_init env ''unlock_protocol'' (start_unlock sv) s3;
          s5 = stage (\<lambda>(b, ds). (b\<lparr>bg_ai_triage := True, bg_veeam := Some new_backup_repo\<rparr>, ds)) s4;
          s6 = try_init env ''agent_controller'' (start_agents sv) s5
      in stage (ready sv) s6)"

section \<open>The chain from the start on\<close>

lemma load_each_frame:
  assumes refl: "\<And>w. R w w" and trans: "\<And>a b c. R a b \<Longrightarrow> R b c \<Longrightarrow> R a c"
    and load: "\<And>path s. R (snd s) (snd (snd (load path s)))"
  shows "R (snd s) (snd (snd (load_each load keep paths (n, s))))"
proof (induction paths arbitrary: n s)
  case (Cons path paths)
  have "R (snd s) (snd (snd (load_each load keep paths (m, snd (load path s)))))" for m
    using trans [OF load Cons.IH] .
  then show ?case using Cons.IH by (auto simp: case_prod_beta Let_def)
qed (simp add: refl)

lemma first_loaded_frame:
  assumes refl: "\<And>w. R w w" and trans: "\<And>a b c. R a b \<Longrightarrow> R b c \<Longrightarrow> R a c"
    and load: "\<And>d s. R (snd s) (snd (snd (load d s)))"
  shows "R (snd s) (snd (snd (first_loaded load ex ds s)))"
proof (induction ds arbitrary: s)
  case (Cons d ds)
  have "R (snd s) (snd (snd (first_loaded load ex ds (snd (load d s)))))"
    using trans [OF load Cons.IH] .
  then show ?case using Cons.IH load by (auto simp: case_prod_beta Let_def)
qed (simp add: refl)

context bridge_blind
begin

lemma Q_load_persona: "Q (snd s) (snd (snd (load_persona (bridge_add env) ce path s)))"
  by (cases s) (simp add: load_persona_def Q_emit Let_def split: sum.split)

lemma Q_load_ecc_persona: "Q (snd s) (snd (snd (load_ecc (bridge_add env) ce path s)))"
  by (cases s) (simp add: load_ecc_def Q_emit Let_def split: option.split prod.split bool.split)

lemma Q_load_json: "Q (snd s) (snd (snd (load_all_personas (bridge_add env) ce d s)))"
  unfolding load_all_personas_def
  using load_each_frame [where R = Q, OF R_refl R_trans Q_load_persona] by simp

lemma Q_load_ecc: "Q (snd s) (snd (snd (load_ecc_personas (bridge_add env) ce d s)))"
  unfolding load_ecc_personas_def
  using load_each_frame [where R = Q, OF R_refl R_trans Q_load_ecc_persona] by simp

lemmas Q_first_json = first_loaded_frame [where R = Q, OF R_refl R_trans Q_load_json]
lemmas Q_first_ecc = first_loaded_frame [where R = Q, OF R_refl R_trans Q_load_ecc]

lemma Q_start_agents:
  assumes sv: "sn_env sv = env"
  shows "Q b (snd (start_agents sv b))"
proof -
  let ?ce = "sn_controller sv"
  let ?x = "snd (first_loaded (load_all_personas (bridge_add env) ?ce) (ce_exists ?ce) (sn_json_dirs sv) (new_agent_controller 4, b))"
  have "Q b (snd ?x)" using Q_first_json [where s = "(new_agent_controller 4, b)"] by simp
  from R_trans [OF this Q_first_ecc [where s = ?x]] show ?thesis
    unfolding start_agents_def Let_def case_prod_beta sv
    by (auto simp: send_json_def Q_emit case_prod_beta split: option.split)
qed

lemma Q_start_sandbox:
  assumes sv: "sn_env sv = env"
  shows "Q b (start_sandbox sv b)"
proof -
  have "Q w (snd (snd (fold (populate_file (bridge_disk env) ts) fs (n, s, w))))" for fs n s w ts
  proof (induction fs arbitrary: n s w)
    case (Cons f fs)
    have "Q w (bridge_disk env p c w)" for p c by (simp add: bridge_disk_def)
    from R_trans [OF this Cons.IH] Cons.IH show ?case by (cases f) (simp add: populate_file_def)
  qed simp
  then have "Q b (snd (snd (populate (bridge_add env) (bridge_disk env) ts (s, b))))" for ts s
    by (auto simp: populate_def case_prod_beta Let_def intro!: Q_emit)
  then show ?thesis by (simp add: start_sandbox_def case_prod_beta Let_def sv)
qed

lemma Q_start_plain: "Q b c \<Longrightarrow> Q b (start_plain c)"
  by (simp add: start_plain_def)

lemma Q_try_init:
  assumes "\<And>b. Q b (snd (init b))"
  shows "Q (fst s) (fst (try_init env name init s))"
proof (cases s)
  case (Pair b ds)
  have "Q b (snd (send_json env j (snd (init b))))" for j
    using R_trans [OF assms Q_send [OF R_refl]] .
  then show ?thesis
    using assms [of b] by (auto simp: try_init_def Pair send_json_def split: prod.split option.split)
qed

lemma Q_stage:
  assumes "\<And>s. Q (fst s) (fst (f s))"
  shows "Q (fst s) (fst (stage f s))"
  using assms by (simp add: stage_def)

lemma Q_ready: "sn_env sv = env \<Longrightarrow> Q (fst s) (fst (ready sv s))"
  by (auto simp: ready_def send_json_def split: prod.split option.split)

text \<open>The whole construction, given that its unlock stage keeps the relation.\<close>

lemma Q_start:
  assumes sv: "sn_env sv = env" and unlock: "\<And>b. Q b (snd (start_unlock sv b))"
  shows "Q (blank_bridge (sn_netsh sv) (sn_files sv)) (fst (start sv))"
proof -
  let ?b = "blank_bridge (sn_netsh sv) (sn_files sv)"
  let ?s1 = "(start_plain (start_sandbox sv ?b), [] :: string list)"
  let ?s2 = "try_init env ''quarantine'' (start_quarantine sv) ?s1"
  let ?s3 = "stage (\<lambda>(b, ds). (start_firewall sv b, ds)) ?s2"
  let ?s4 = "try_init env ''unlock_protocol'' (start_unlock sv) ?s3"
  let ?s5 = "stage (\<lambda>(b, ds). (b\<lparr>bg_ai_triage := True, bg_veeam := Some new_backup_repo\<rparr>, ds)) ?s4"
  let ?s6 = "try_init env ''agent_controller'' (start_agents sv) ?s5"
  have 1: "Q ?b (fst ?s1)" by (simp add: Q_start_plain Q_start_sandbox sv)
  have 2: "Q (fst ?s1) (fst ?s2)" by (rule Q_try_init) (simp add: start_quarantine_def split: sum.split)
  have 3: "Q (fst ?s2) (fst ?s3)" by (rule Q_stage) (simp add: start_firewall_def case_prod_beta)
  have 4: "Q (fst ?s3) (fst ?s4)" by (rule Q_try_init) (rule unlock)
  have 5: "Q (fst ?s4) (fst ?s5)" by (rule Q_stage) (simp add: case_prod_beta)
  have 6: "Q (fst ?s5) (fst ?s6)" by (rule Q_try_init) (rule Q_start_agents [OF sv])
  have 7: "Q (fst ?s6) (fst (stage (ready sv) ?s6))" by (rule Q_stage) (rule Q_ready [OF sv])
  show ?thesis
    unfolding start_def Let_def sv
    by (rule R_trans [OF 1 R_trans [OF 2 R_trans [OF 3 R_trans [OF 4 R_trans [OF 5 R_trans [OF 6 7]]]]]])
qed

end

lemma grows_identities: "grows sha b (snd (add_identities keys i names b))"
proof (induction names arbitrary: i b)
  case (Cons name names)
  show ?case
  proof (cases "make_identity (keys i) name")
    case (Inr d)
    have "grows sha b (b\<lparr>bg_identities := sm_assign name d (bg_identities b)\<rparr>)" by simp
    from grows_trans [OF this Cons.IH] show ?thesis by (simp add: Inr)
  qed simp
qed simp

lemma grows_grant: "grows (be_sha env) b (snd (snd (grant (bridge_add env) draw now name scope ttl (ts, b))))"
  by (simp add: grant_def growing.Q_emit Let_def split: sum.split)

lemma grows_grants: "grows (be_sha (sn_env sv)) b (snd (grant_votes sv i names b))"
proof (induction names arbitrary: i b)
  case (Cons name names)
  obtain r ts b1 where g: "grant (bridge_add (sn_env sv)) (sn_draws sv i) (sn_clock sv (i + 1)) name ''worm_unlock_vote''
      TTL_24H (bg_tokens b, b) = (r, ts, b1)" by (metis prod_cases3)
  have "grows (be_sha (sn_env sv)) b (b1\<lparr>bg_tokens := ts\<rparr>)"
    using grows_grant [of "sn_env sv" b "sn_draws sv i" "sn_clock sv (i + 1)" name "''worm_unlock_vote''" TTL_24H "bg_tokens b"] g
    by simp
  from grows_trans [OF this Cons.IH [where i = "i + 1"]] this show ?case
    by (auto simp: g [simplified] Let_def split: sum.split prod.split)
qed simp

lemma grows_register: "grows sha b (snd (register_all keys i as b))"
proof (induction as arbitrary: i b)
  case (Cons a as)
  obtain name side tid where a: "a = ((name, side), tid)" by (metis surj_pair)
  have "grows sha b (snd (register_all keys (i + 1) as (b\<lparr>bg_unlock := v\<rparr>)))" for v
  proof -
    have "grows sha b (b\<lparr>bg_unlock := v\<rparr>)" by simp
    from grows_trans [OF this Cons.IH] show ?thesis .
  qed
  then show ?case by (simp add: a split: option.split sum.split)
qed simp

lemma grows_start_unlock: "grows (be_sha (sn_env sv)) b (snd (start_unlock sv b))"
proof -
  let ?ids = "add_identities (sn_keys sv) 0 (map fst demo_approvers) (b\<lparr>bg_tokens := new_token_store\<rparr>)"
  let ?gr = "grant_votes sv 0 (map fst demo_approvers) (snd ?ids)"
  have t: "grows (be_sha (sn_env sv)) b (b\<lparr>bg_tokens := new_token_store\<rparr>)" by simp
  have i: "grows (be_sha (sn_env sv)) b (snd ?ids)" by (rule grows_trans [OF t grows_identities])
  have g: "grows (be_sha (sn_env sv)) b (snd ?gr)" by (rule grows_trans [OF i grows_grants])
  then have u: "grows (be_sha (sn_env sv)) b ((snd ?gr)\<lparr>bg_unlock := v\<rparr>)" for v by simp
  have r: "grows (be_sha (sn_env sv)) b (snd (register_all (sn_keys sv) 0 as ((snd ?gr)\<lparr>bg_unlock := v\<rparr>)))" for as v
    by (rule grows_trans [OF u grows_register])
  obtain e1 b1 where e1: "?ids = (e1, b1)" by (cases ?ids)
  obtain e2 b2 where e2: "grant_votes sv 0 (map fst demo_approvers) b1 = (e2, b2)" by (metis surj_pair)
  have last: "snd (case x of (Some e, b) \<Rightarrow> (Some (exception_text e), b) | (None, b) \<Rightarrow> (None, b)) = snd x" for x :: "cxx_exception option \<times> 'z"
    by (simp split: prod.split option.split)
  show ?thesis
    using i g r [of "zip demo_approvers (projr e2)" "Some (new_unlock_protocol DEMO_THRESHOLD)"]
    by (cases e1; cases e2) (simp_all add: start_unlock_def e1 e2 last)
qed

lemma grows_start: "grows (be_sha (sn_env sv)) (blank_bridge (sn_netsh sv) (sn_files sv)) (fst (start sv))"
  by (rule growing.Q_start) (simp_all add: grows_start_unlock)

lemma grows_run:
  assumes "list_all (\<lambda>(env, op). be_sha env = sha) ops"
  shows "grows sha b (bridge_run cf parse what ops b)"
proof (rule run_frame [where R = "grows sha"])
  fix env op b
  assume "(env, op) \<in> set ops"
  then have "be_sha env = sha" using assms by (auto simp: list_all_iff)
  then show "grows sha b (do_op cf parse what env op b)" using grows_op [of env b cf parse what op] by simp
qed (auto intro: grows_trans)

lemma bridge_run_append: "bridge_run cf parse what (xs @ ys) b = bridge_run cf parse what ys (bridge_run cf parse what xs b)"
  by (simp add: bridge_run_def)

text \<open>
  From the construction on, whatever components fail to start, whatever lines arrive and however the monitors,
  the agents and the background threads interleave with them, the audit chain of the process passes verification at
  every moment, and no later moment loses an entry of an earlier one.
\<close>

theorem audit_intact_from_start:
  assumes "list_all (\<lambda>(env, op). be_sha env = be_sha (sn_env sv)) (ops1 @ ops2)"
  shows "let b1 = bridge_run cf parse what ops1 (fst (start sv)); b2 = bridge_run cf parse what (ops1 @ ops2) (fst (start sv)) in
    vr_is_valid (verify_chain (be_sha (sn_env sv)) (bridge_chain b2)) \<and> extends (bridge_trail b1) (bridge_trail b2)"
proof -
  let ?sha = "be_sha (sn_env sv)"
  let ?b1 = "bridge_run cf parse what ops1 (fst (start sv))"
  have "grows ?sha (fst (start sv)) ?b1" "grows ?sha ?b1 (bridge_run cf parse what ops2 ?b1)"
    using assms by (auto intro!: grows_run)
  moreover have "chain_linked ?sha (bridge_chain (fst (start sv)))"
    using grows_start [of sv] by (simp add: grows_def blank_bridge_def bridge_chain_def fresh_audit_def)
  ultimately show ?thesis
    by (simp add: grows_def verify_chain_valid_iff bridge_run_append Let_def)
qed

section \<open>Degraded mode\<close>

text \<open>Without the protocol there is none later.\<close>

definition protoless :: "('k, 'f) bridge \<Rightarrow> ('k, 'f) bridge \<Rightarrow> bool" where
  "protoless b b' = (bg_unlock b = None \<longrightarrow> bg_unlock b' = None)"

interpretation protoless: bridge_blind env protoless for env
  by unfold_locales (auto simp: protoless_def bridge_add_gate bridge_trigger_gate)

lemma protoless_worm_trigger: "protoless b (snd (cmd_worm_trigger env args b))"
proof -
  have unl: "protoless b (c\<lparr>bg_unlock := map_option f (bg_unlock c)\<rparr>) = protoless b c" for b c f
    by (simp add: protoless_def)
  show ?thesis
    unfolding cmd_worm_trigger_def bridge_lockdown_eq Let_def case_prod_conv
    by (intro framed protoless.R_refl) (auto simp: unl intro!: framed protoless.R_refl)
qed

lemma protoless_unlock_vote: "protoless b (snd (cmd_unlock_vote env args b))"
  by (auto simp: protoless_def cmd_unlock_vote_def arg_def send_json_def split: sum.split option.split)

lemma protoless_op: "protoless b (do_op cf parse what env op b)"
proof (rule protoless.Q_op)
  fix l cmd args
  show "protoless b (snd (run_command cf env cmd args b))"
    by (rule command_cases) (rule protoless_worm_trigger protoless_unlock_vote protoless.Q_command; assumption)+
qed

lemma protoless_run: "protoless b (bridge_run cf parse what ops b)"
  by (rule run_frame) (auto intro: protoless_op protoless.R_trans)

lemma make_identity_fails: "os_keygen os = None \<Longrightarrow> \<exists>e. make_identity os name = Inl e"
  by (simp add: make_identity_def)

lemma add_identities_fails:
  assumes "os_keygen (keys (i + k)) = None" "k < length names"
  shows "\<exists>e b'. add_identities keys i names b = (Some e, b') \<and> bg_unlock b' = bg_unlock b"
  using assms
proof (induction names arbitrary: i k b)
  case (Cons name names)
  show ?case
  proof (cases "make_identity (keys i) name")
    case (Inr d)
    then obtain m where k: "k = Suc m" using make_identity_fails [of "keys i" name] Cons.prems(1) by (cases k) auto
    then show ?thesis
      using Cons.IH [of "i + 1" m "b\<lparr>bg_identities := sm_assign name d (bg_identities b)\<rparr>"] Cons.prems by (auto simp: Inr)
  qed simp
qed simp

lemma start_unlock_fails:
  assumes "os_keygen (sn_keys sv k) = None" "k < 3"
  shows "\<exists>what b'. start_unlock sv b = (Some what, b') \<and> bg_unlock b' = bg_unlock b"
  using add_identities_fails [of "sn_keys sv" 0 k "map fst demo_approvers" "b\<lparr>bg_tokens := new_token_store\<rparr>"] assms
  by (auto simp: start_unlock_def demo_approvers_def)

text \<open>The notice of a failed stage survives the later ones.\<close>

lemma notices_kept:
  "set (snd s) \<subseteq> set (snd (try_init env name init s))"
  "set (snd s) \<subseteq> set (snd (stage (\<lambda>(b, ds). (f b, ds)) s))"
  "snd (stage (ready sv) s) = snd s"
  by (auto simp: try_init_def stage_def ready_def split: prod.split option.split)

lemma crashed_kept: "bg_crashed (fst s) \<Longrightarrow> try_init env name init s = s" "bg_crashed (fst s) \<Longrightarrow> stage f s = s"
  by (cases s; simp add: try_init_def stage_def)+

lemma try_init_notice:
  assumes "\<And>b. \<exists>what b'. init b = (Some what, b')"
  shows "bg_crashed (fst s) \<or> (\<exists>what. name @ '' init failed: '' @ what \<in> set (snd (try_init env name init s)))"
  using assms [of "fst s"] by (auto simp: try_init_def split: prod.split option.split)

text \<open>
  C24. When the key of one approver cannot be generated, the bridge starts all the same: it notes the failure of the
  unlock protocol, unless the process ends, and has no protocol. From then on the lock can be engaged but never lifted.
\<close>

theorem degraded_start_never_unlocks:
  assumes "os_keygen (sn_keys sv k) = None" "k < 3"
  shows "bg_unlock (fst (start sv)) = None
    \<and> (bg_crashed (fst (start sv)) \<or> (\<exists>what. ''unlock_protocol init failed: '' @ what \<in> set (snd (start sv))))
    \<and> (if bridge_locked (bridge_run cf parse msg ops1 (fst (start sv)))
       then bridge_locked (bridge_run cf parse msg (ops1 @ ops2) (fst (start sv))) else True)"
proof (intro conjI)
  have "protoless (blank_bridge (sn_netsh sv) (sn_files sv)) (fst (start sv))"
  proof (rule protoless.Q_start)
    show "protoless b (snd (start_unlock sv b))" for b
      using start_unlock_fails [OF assms, of b] by (auto simp: protoless_def)
  qed simp
  then show none: "bg_unlock (fst (start sv)) = None" by (simp add: protoless_def blank_bridge_def)
  have "bg_unlock (bridge_run cf parse msg ops1 (fst (start sv))) = None"
    using protoless_run [of "fst (start sv)" cf parse msg ops1] none by (simp add: protoless_def)
  then show "if bridge_locked (bridge_run cf parse msg ops1 (fst (start sv)))
      then bridge_locked (bridge_run cf parse msg (ops1 @ ops2) (fst (start sv))) else True"
    using shut_run [where b = "bridge_run cf parse msg ops1 (fst (start sv))" and ops = ops2 and cf = cf and parse = parse and what = msg]
    by (simp add: shut_def no_session_def bridge_run_append)
  show "bg_crashed (fst (start sv)) \<or> (\<exists>what. ''unlock_protocol init failed: '' @ what \<in> set (snd (start sv)))"
  proof -
    define s3 where "s3 = stage (\<lambda>(b, ds). (start_firewall sv b, ds)) (try_init (sn_env sv) ''quarantine'' (start_quarantine sv)
      (start_plain (start_sandbox sv (blank_bridge (sn_netsh sv) (sn_files sv))), []))"
    define s4 where "s4 = try_init (sn_env sv) ''unlock_protocol'' (start_unlock sv) s3"
    define s5 where "s5 = stage (\<lambda>(b, ds). (b\<lparr>bg_ai_triage := True, bg_veeam := Some new_backup_repo\<rparr>, ds)) s4"
    define s6 where "s6 = try_init (sn_env sv) ''agent_controller'' (start_agents sv) s5"
    have st: "start sv = stage (ready sv) s6"
      by (simp only: start_def Let_def s3_def s4_def s5_def s6_def)
    show ?thesis
    proof (cases "bg_crashed (fst s3)")
      case True
      then have "s4 = s3" "s5 = s4" "s6 = s5" "start sv = s6"
        by (simp_all add: st s4_def s5_def s6_def crashed_kept)
      with True show ?thesis by simp
    next
      case False
      have "\<exists>what b'. start_unlock sv b = (Some what, b')" for b using start_unlock_fails [OF assms, of b] by blast
      from try_init_notice [where init = "start_unlock sv", OF this, of s3 "''unlock_protocol''" "sn_env sv"] False
      obtain what where "''unlock_protocol'' @ '' init failed: '' @ what \<in> set (snd s4)" unfolding s4_def by blast
      then have "''unlock_protocol init failed: '' @ what \<in> set (snd s4)" by simp
      moreover have "set (snd s4) \<subseteq> set (snd s5)" "set (snd s5) \<subseteq> set (snd s6)"
        unfolding s5_def s6_def by (rule notices_kept(2)) (rule notices_kept(1))
      ultimately show ?thesis unfolding st notices_kept(3) by blast
    qed
  qed
qed

end
