(* ===== verification/BridgeVotes.thy ===== *)
theory BridgeVotes
  imports BridgeStart
begin

text \<open>
  Lifting the lock through the bridge. The process holds the keys of all approvers and signs their votes itself, so
  that whoever writes to its input can cast every vote.
\<close>

section \<open>A vote that counts\<close>

text \<open>OpenSSL accepts under the registered key what it signs with the identity, and its random generator works.\<close>

definition trusted :: "('k, 'p) openssl \<Rightarrow> 'k identity \<Rightarrow> bytes \<Rightarrow> bool" where
  "trusted os d key \<longleftrightarrow> (\<forall>m. \<exists>s. sign os d m = Inr s \<and> verify_signature os m s key)"

definition can_draw :: "('k, 'p) openssl \<Rightarrow> bool" where
  "can_draw os = (case os_rand_bytes os 32 of Some c \<Rightarrow> c \<noteq> [] | None \<Rightarrow> False)"

definition can_vote :: "('k, 'p, 'f) bridge_env \<Rightarrow> (string, approver_record) std_map \<Rightarrow> token_store
    \<Rightarrow> (string, 'k identity) std_map \<Rightarrow> string \<Rightarrow> bool" where
  "can_vote env aps ts ids n \<longleftrightarrow> n \<noteq> [] \<and>
     (case (map_of aps n, map_of ids n) of
        (Some ap, Some d) \<Rightarrow> token_good (be_later env) (ap_token_id ap) ''worm_unlock_vote'' ts
          \<and> trusted (be_openssl env) d (ap_public_key_der ap)
      | _ \<Rightarrow> False)"

definition vote_args :: "string \<Rightarrow> json" where
  "vote_args n = JObject [(''approver'', JString n)]"

definition vote_by :: "('k, 'p, 'f) bridge_env \<Rightarrow> string \<Rightarrow> ('k, 'f) bridge \<Rightarrow> ('k, 'f) bridge" where
  "vote_by env n b = snd (cmd_unlock_vote env (vote_args n) b)"

text \<open>A session under way, with no challenge open.\<close>

definition session :: "unlock_protocol \<Rightarrow> bool" where
  "session u \<longleftrightarrow> unlock_ok u \<and> up_state u = COLLECTING \<and> up_challenges u = []"

lemma request_accepted:
  assumes "trusted os d key"
  obtains req where "make_signed_request os now d ch = Inr req" "verify_signed_request os req ch key"
proof -
  obtain s where "sign os d (build_request_message (id_name d) ch now) = Inr s"
    "verify_signature os (build_request_message (id_name d) ch now) s key"
    using assms unfolding trusted_def by blast
  then show thesis
    by (intro that [of "\<lparr>sq_identity_name = id_name d, sq_challenge = ch, sq_timestamp_ms = now, sq_signature = s\<rparr>"])
      (simp_all add: make_signed_request_def verify_signed_request_def)
qed

lemma unlock_opens: "\<not> bridge_locked (bridge_unlock env a b)"
  by (simp add: bridge_locked_def bridge_unlock_def gate_unlock_def gate_locked_def unlock_def is_locked_def Let_def)

lemma votes_assign: "unlock_ok u \<Longrightarrow> map_of (up_approvers u) n \<noteq> None \<Longrightarrow> \<not> sm_get_or False n (up_votes u) \<Longrightarrow>
    up_votes v = sm_assign n True (up_votes u) \<Longrightarrow> votes_collected v = votes_collected u + 1"
  using collected_accept by (simp add: votes_collected_def)

lemma vote_counts:
  assumes u: "bg_unlock b = Some u" "session u" and can: "can_vote env (up_approvers u) (bg_tokens b) (bg_identities b) n"
    and draw: "can_draw (be_openssl env)" and new: "\<not> sm_get_or False n (up_votes u)"
  obtains u' where "bg_unlock (vote_by env n b) = Some u'" "up_approvers u' = up_approvers u" "up_threshold u' = up_threshold u"
    "up_votes u' = sm_assign n True (up_votes u)" "bg_tokens (vote_by env n b) = bg_tokens b"
    "bg_identities (vote_by env n b) = bg_identities b" "unlock_ok u'"
    "if up_threshold u \<le> votes_collected u + 1 then \<not> bridge_locked (vote_by env n b) else session u'"
proof -
  let ?os = "be_openssl env"
  obtain ap d where ap: "map_of (up_approvers u) n = Some ap" and d: "map_of (bg_identities b) n = Some d"
    and tok: "token_good (be_later env) (ap_token_id ap) ''worm_unlock_vote'' (bg_tokens b)"
    and tr: "trusted ?os d (ap_public_key_der ap)" and n: "n \<noteq> []"
    using can by (auto simp: can_vote_def split: option.splits)
  obtain ch where ch: "os_rand_bytes ?os 32 = Some ch" "ch \<noteq> []" using draw by (auto simp: can_draw_def split: option.splits)
  define u1 where "u1 = u\<lparr>up_challenges := sm_assign n ch []\<rparr>"
  have su: "unlock_ok u" "up_state u = COLLECTING" "up_challenges u = []" using u(2) by (simp_all add: session_def)
  have g: "get_challenge (generate_challenge ?os) n u = (Inr ch, u1)"
    using ap ch su by (simp add: get_challenge_def generate_challenge_def u1_def sm_has_def)
  obtain req where req: "make_signed_request ?os (be_now env) d ch = Inr req" "verify_signed_request ?os req ch (ap_public_key_der ap)"
    by (rule request_accepted [OF tr])
  have ok1: "unlock_ok u1" using challenge_ok [of u "generate_challenge ?os" n] su(1) g by simp
  define b1 where "b1 = b\<lparr>bg_unlock := Some u1\<rparr>"
  have "vote_valid ?os (bg_tokens b1) (be_later env) n req u1"
    using ap tok req su new by (simp add: vote_valid_def u1_def b1_def)
  then have cast: "cast_vote ?os (bridge_add env) (bridge_unlock env) (bg_tokens b1) (be_later env) n req (u1, b1)
      = accept_vote (bridge_add env) (bridge_unlock env) n u1 b1"
    using cast_vote_cases [OF ok1, of ?os "bg_tokens b1" "be_later env" n req "bridge_add env" "bridge_unlock env" b1] by simp
  obtain vr u2 b2 where acc: "accept_vote (bridge_add env) (bridge_unlock env) n u1 b1 = (vr, u2, b2)" by (metis prod_cases3)
  define b3 where "b3 = b2\<lparr>bg_unlock := Some u2\<rparr>"
  have cmd: "\<exists>j. vote_by env n b = snd (send_json env j b3)"
    using n by (simp add: vote_by_def cmd_unlock_vote_def vote_args_def arg_def json_value_def u(1) d g ch(2) req(1)
        cast [unfolded b1_def, simplified] acc [unfolded b1_def] b3_def Let_def) blast
  have view: "bg_unlock (snd (send_json env j c)) = bg_unlock c" "bg_tokens (snd (send_json env j c)) = bg_tokens c"
    "bg_identities (snd (send_json env j c)) = bg_identities c" "bridge_locked (snd (send_json env j c)) = bridge_locked c" for j c
    by (simp_all add: send_json_def bridge_view_defs split: option.split)
  have collected: "votes_collected (u1\<lparr>up_votes := sm_assign n True (up_votes u1), up_challenges := sm_erase n (up_challenges u1)\<rparr>)
      = votes_collected u + 1"
    by (rule votes_assign) (simp_all add: su ap new u1_def)
  have erase: "sm_erase n (up_challenges u1) = []" by (simp add: u1_def sm_erase_def)
  have u2: "up_approvers u2 = up_approvers u" "up_threshold u2 = up_threshold u" "up_votes u2 = sm_assign n True (up_votes u)"
    "up_challenges u2 = []"
    using acc erase by (auto simp: accept_vote_def Let_def u1_def split: if_splits)
  have ok2: "unlock_ok u2" using accept_ok [OF ok1, of n "bridge_add env" "bridge_unlock env" b1] ap acc by (simp add: u1_def)
  have last: "if up_threshold u \<le> votes_collected u + 1 then \<not> bridge_locked b2 else up_state u2 = COLLECTING"
    using acc collected su(2) by (auto simp: accept_vote_def Let_def u1_def unlock_opens split: if_splits)
  have keep: "bg_tokens b2 = bg_tokens b" "bg_identities b2 = bg_identities b"
    using acc by (auto simp: accept_vote_def Let_def stores_emit b1_def bridge_unlock_def split: if_splits)
  have lk: "bridge_locked (c\<lparr>bg_unlock := v\<rparr>) = bridge_locked c" for c v by (simp add: bridge_view_defs)
  show thesis
    using cmd u2 ok2 last keep by (intro that [of u2]) (auto simp: view lk b3_def session_def split: if_splits)
qed

lemma votes_unlock:
  assumes "names \<noteq> []" "distinct names" "bg_unlock b = Some u" "session u" "can_draw (be_openssl env)"
    "list_all (can_vote env (up_approvers u) (bg_tokens b) (bg_identities b)) names"
    "list_all (\<lambda>n. \<not> sm_get_or False n (up_votes u)) names" "votes_collected u + int (length names) = up_threshold u"
  shows "\<not> bridge_locked (fold (vote_by env) names b)"
  using assms
proof (induction names arbitrary: b u)
  case (Cons n names)
  obtain u' where u': "bg_unlock (vote_by env n b) = Some u'" "up_approvers u' = up_approvers u"
    "up_threshold u' = up_threshold u" "up_votes u' = sm_assign n True (up_votes u)"
    "bg_tokens (vote_by env n b) = bg_tokens b" "bg_identities (vote_by env n b) = bg_identities b" "unlock_ok u'"
    "if up_threshold u \<le> votes_collected u + 1 then \<not> bridge_locked (vote_by env n b) else session u'"
    by (rule vote_counts [of b u env n]) (use Cons.prems in auto)
  show ?case
  proof (cases "names = []")
    case True
    then show ?thesis using u'(8) Cons.prems(8) by simp
  next
    case False
    have ap: "map_of (up_approvers u) n \<noteq> None" using Cons.prems(6) by (auto simp: can_vote_def split: option.splits)
    have ok: "unlock_ok u" using Cons.prems(4) by (simp add: session_def)
    have "votes_collected u' = votes_collected u + 1"
      using votes_assign [OF ok ap _ u'(4)] Cons.prems(7) by simp
    moreover have "session u'" using u'(8) Cons.prems(8) False by (cases names) (auto split: if_splits)
    moreover have "list_all (\<lambda>m. \<not> sm_get_or False m (up_votes u')) names"
      using Cons.prems(2,7) ok by (auto simp: list_all_iff u'(4) sm_get_or_def unlock_ok_def map_of_sm_assign)
    ultimately have "\<not> bridge_locked (fold (vote_by env) names (vote_by env n b))"
      using Cons.prems u' False by (intro Cons.IH [of _ u']) simp_all
    then show ?thesis by simp
  qed
qed simp

lemma same_stores_vote: "same_stores b (snd (cmd_unlock_vote env args b))"
proof (rule vote_state)
  fix b u now name req
  show "same_stores b (snd (snd (cast_vote (be_openssl env) (bridge_add env) (bridge_unlock env) (bg_tokens b) now name req (u, b))))"
    by (rule stores.cast_vote_frame) (simp add: same_stores_def bridge_unlock_def)
qed (auto simp: same_stores_def send_json_def split: option.split)

lemma same_stores_votes: "same_stores b (fold (vote_by env) names b)"
proof (induction names arbitrary: b)
  case (Cons n names)
  have "same_stores b (vote_by env n b)" by (simp add: vote_by_def same_stores_vote)
  with Cons.IH [of "vote_by env n b"] show ?case by (simp add: same_stores_def)
qed (simp add: same_stores_def)

text \<open>
  C11. One client locks and unlocks alone. On an open bridge \<^verbatim>\<open>worm_trigger\<close> engages the lock, and as many \<^verbatim>\<open>unlock_vote\<close>
  commands as the threshold asks for, one for each of so many approvers with a good token and a trusted key, lift it again: the
  bridge signs each vote with the key it holds, so that nothing shows who wrote the commands. Only the lock opens:
  the files and the backups stay locked.
\<close>

theorem one_client_unlocks:
  assumes "\<not> bridge_locked b" "bg_sandbox b = Some s" "bg_veeam b = Some r" "bg_unlock b = Some u" "unlock_ok u"
    "up_state u \<noteq> COLLECTING" "distinct names" "int (length names) = up_threshold u" "can_draw (be_openssl env)"
    "list_all (can_vote env (up_approvers u) (bg_tokens b) (bg_identities b)) names"
  shows "let b1 = snd (run_command cf env ''worm_trigger'' (JObject [(''reason'', JString why)]) b);
      b2 = fold (\<lambda>n c. snd (run_command cf env ''unlock_vote'' (vote_args n) c)) names b1 in
    bridge_locked b1 \<and> \<not> bridge_locked b2 \<and> backups_locked b2
    \<and> (case bg_sandbox b2 of Some s2 \<Rightarrow> list_all se_locked (get_tree s2) | None \<Rightarrow> False)"
proof -
  define b1 where "b1 = snd (cmd_worm_trigger env (JObject [(''reason'', JString why)]) b)"
  have b1: "bridge_locked b1" "backups_locked b1" "bg_unlock b1 = Some (begin_session u)" "bg_tokens b1 = bg_tokens b"
    "bg_identities b1 = bg_identities b" "case bg_sandbox b1 of Some s1 \<Rightarrow> list_all se_locked (get_tree s1) | None \<Rightarrow> False"
    using worm_trigger_complete [OF assms(1,2,4,3), of env why] by (auto simp: b1_def Let_def split: option.splits)
  have votes: "up_votes (begin_session u) = reset_votes (up_votes u)" "up_approvers (begin_session u) = up_approvers u"
    "up_threshold (begin_session u) = up_threshold u" "session (begin_session u)"
    using assms(5,6) begin_ok [of u] by (simp_all add: begin_session_def session_def)
  have none: "votes_collected (begin_session u) = 0" by (simp add: votes_collected_def votes reset_votes_facts)
  have unvoted: "\<not> sm_get_or False n (reset_votes m)" for n and m :: "(string, bool) std_map"
    by (auto simp: sm_get_or_def reset_votes_def split: option.splits dest!: map_of_SomeD)
  have "names \<noteq> []" using assms(5,8) by (auto simp: unlock_ok_def)
  then have "\<not> bridge_locked (fold (vote_by env) names b1)"
    using assms(7-10) b1 votes none unvoted by (intro votes_unlock [of _ _ "begin_session u"]) (simp_all add: list_all_iff)
  moreover have "same_stores b1 (fold (vote_by env) names b1)" by (rule same_stores_votes)
  moreover have "fold (\<lambda>n c. snd (run_command cf env ''unlock_vote'' (vote_args n) c)) names = fold (vote_by env) names"
    by (simp add: run_command_session vote_by_def [abs_def])
  ultimately show ?thesis
    using b1 by (simp add: run_command_session b1_def [symmetric] same_stores_def backups_locked_def Let_def)
qed

end
