(* ===== verification/BridgeDemo.thy ===== *)
theory BridgeDemo
  imports BridgeVotes
begin

text \<open>
  A small concrete bridge, with one file, two approvers and a keyed checksum in the place of OpenSSL, on which the hypotheses of the
  theorems about the bridge hold.
\<close>

definition demo_quarantine_call :: quarantine_call where
  "demo_quarantine_call = \<lparr>qc_rand_a = 0, qc_rand_b = 0, qc_now = 0, qc_junk = 0,
     qc_os = \<lparr>os_stat = True, os_read = True, os_rename = True, os_copy = True, os_remove = True, os_meta = True\<rparr>\<rparr>"

definition demo_bridge_env :: "(nat, nat, unit) bridge_env" where
  "demo_bridge_env = \<lparr>be_dump = (\<lambda>_. Some []), be_sha = demo_sha, be_audit = demo_env, be_now = 50, be_later = 60,
     be_openssl = demo_openssl, be_netsh = (\<lambda>_ f. (0, f)), be_absolute = (\<lambda>p. p), be_mkdir = (\<lambda>_. True),
     be_quarantine = demo_quarantine_call,
     be_scan = \<lparr>ci_connected = False, ci_sends = [], ci_received = []\<rparr>, be_granite = demo_granite,
     be_fast_io = demo_io, be_heavy_io = demo_io\<rparr>"

definition demo_file :: sandbox_entry where
  "demo_file = \<lparr>se_rel_path = ''a'', se_type = FILE, se_content = ''x'', se_version = 1, se_locked = True,
     se_size_bytes = 1, se_last_modified = 0\<rparr>"

definition demo_protocol :: unlock_protocol where
  "demo_protocol = register_approver ''ann'' ASTARTIS [7] ''t1''
     (register_approver ''bob'' CLIENT [7] ''t1'' (new_unlock_protocol 2))"

definition demo_bridge :: "(nat, unit) bridge" where
  "demo_bridge = (blank_bridge () (\<lambda>_. None))
     \<lparr>bg_threat := Some new_threat_sm, bg_rules := Some new_rule_engine,
      bg_sandbox := Some \<lparr>sb_root_path = ''/s'', sb_entries = [(''a'', demo_file)]\<rparr>, bg_veeam := Some new_backup_repo,
      bg_unlock := Some demo_protocol, bg_tokens := demo_tokens,
      bg_identities := [(''ann'', \<lparr>id_name = ''ann'', id_pkey = 7\<rparr>), (''bob'', \<lparr>id_name = ''bob'', id_pkey = 7\<rparr>)],
      bg_agents := Some (new_agent_controller 1)\<rparr>"

text \<open>Lines are taken as the names of commands.\<close>

definition demo_parse :: "string \<Rightarrow> json option" where
  "demo_parse l = Some (JObject [(''cmd'', JString l)])"

definition demo_config :: bridge_config where
  "demo_config = \<lparr>bf_sandbox_root = ''/s'', bf_elevated = False\<rparr>"

abbreviation demo_run :: "bridge_op list \<Rightarrow> (nat, unit) bridge \<Rightarrow> (nat, unit) bridge" where
  "demo_run ops \<equiv> bridge_run demo_config demo_parse (\<lambda>_. []) (map (Pair demo_bridge_env) ops)"

definition demo_locked :: "(nat, unit) bridge" where
  "demo_locked = (bridge_trigger demo_bridge_env ''test'' demo_bridge)\<lparr>bg_veeam := Some (new_backup_repo\<lparr>br_lock_state := IMMUTABLE\<rparr>)\<rparr>"

definition demo_start :: "(nat, nat, unit) start_env" where
  "demo_start = \<lparr>sn_env = demo_bridge_env, sn_keys = (\<lambda>i. if i = 1 then demo_openssl\<lparr>os_keygen := None\<rparr> else demo_openssl),
     sn_draws = (\<lambda>i. Some ''t''), sn_clock = int, sn_unprintable = [], sn_elevated = False, sn_daemon = False,
     sn_sandbox_root = ''/s'', sn_quarantine = Inl ''denied'', sn_adapters = None, sn_dns = None, sn_netsh = (),
     sn_files = (\<lambda>_. None), sn_controller = demo_controller_env, sn_json_dirs = [], sn_ecc_dirs = []\<rparr>"

lemma demo_locked_facts: "bridge_locked demo_locked" "no_session demo_locked" "entry_frozen ''a'' demo_file demo_locked"
  "backups_locked demo_locked"
proof -
  show "bridge_locked demo_locked"
    using bridge.trigger_locks [of demo_bridge_env "''test''" demo_bridge] by (simp add: demo_locked_def bridge_view_defs)
  show "no_session demo_locked"
    by (simp add: demo_locked_def no_session_def bridge_trigger_gate demo_bridge_def demo_protocol_def register_approver_def
        new_unlock_protocol_def)
  show "entry_frozen ''a'' demo_file demo_locked" "backups_locked demo_locked"
    by (simp_all add: demo_locked_def entry_frozen_def backups_locked_def frozen_def bridge_trigger_gate demo_bridge_def
        demo_file_def)
qed

theorem nothing_thaws_witness:
  "entry_frozen ''a'' demo_file (demo_run [Line ''worm_unlock'', Startup_plant, Line ''unlock_vote''] demo_locked)
    \<and> backups_locked (demo_run [Line ''worm_unlock'', Startup_plant, Line ''unlock_vote''] demo_locked)"
  by (rule nothing_thaws) (rule demo_locked_facts)+

theorem only_votes_unlock_witness:
  "bridge_locked (demo_run [Line ''worm_unlock'', Line ''run_demo'', Demo_finish, Snapshot_tick] demo_locked)"
  by (rule only_votes_unlock)
    (simp_all add: demo_locked_facts command_of_def demo_parse_def json_value_def strip_cr_def)

theorem lock_without_session_final_witness:
  "bridge_locked (demo_run [Line ''unlock_vote'', Line ''worm_trigger'', Line ''unlock_vote''] demo_locked)
    \<and> no_session (demo_run [Line ''unlock_vote'', Line ''worm_trigger'', Line ''unlock_vote''] demo_locked)"
  by (rule lock_without_session_final) (rule demo_locked_facts)+


theorem threat_response_never_runs_witness:
  "case bg_autonomy (demo_run [Loop_start, Loop_pass] demo_bridge) of None \<Rightarrow> True
    | Some l \<Rightarrow> al_threat_level l = ''LOW'' \<and> tick_threat_response None (l, ()) = (l, ())"
  by (rule threat_response_never_runs) (simp add: demo_bridge_def blank_bridge_def)

theorem audit_intact_from_start_witness:
  "let b1 = demo_run [Line ''ping'', Loop_pass] (fst (start demo_start));
      b2 = demo_run ([Line ''ping'', Loop_pass] @ [Line ''worm_trigger'', Snapshot_tick]) (fst (start demo_start)) in
    vr_is_valid (verify_chain (be_sha (sn_env demo_start)) (bridge_chain b2)) \<and> extends (bridge_trail b1) (bridge_trail b2)"
  unfolding map_append by (rule audit_intact_from_start) (simp add: demo_start_def)

theorem degraded_start_never_unlocks_witness:
  "bg_unlock (fst (start demo_start)) = None
    \<and> (bg_crashed (fst (start demo_start)) \<or> (\<exists>what. ''unlock_protocol init failed: '' @ what \<in> set (snd (start demo_start))))
    \<and> (if bridge_locked (demo_run [Line ''worm_trigger''] (fst (start demo_start)))
       then bridge_locked (demo_run ([Line ''worm_trigger''] @ [Line ''unlock_vote'']) (fst (start demo_start))) else True)"
  unfolding map_append by (rule degraded_start_never_unlocks [where k = 1]) (simp_all add: demo_start_def)

lemma demo_trusted: "trusted demo_openssl \<lparr>id_name = n, id_pkey = 7\<rparr> [7]"
  by (simp add: trusted_def sign_def verify_signature_def demo_openssl_def)

theorem one_client_unlocks_witness:
  "let b1 = snd (run_command demo_config demo_bridge_env ''worm_trigger'' (JObject [(''reason'', JString ''test'')]) demo_bridge);
      b2 = fold (\<lambda>n c. snd (run_command demo_config demo_bridge_env ''unlock_vote'' (vote_args n) c)) [''ann'', ''bob''] b1 in
    bridge_locked b1 \<and> \<not> bridge_locked b2 \<and> backups_locked b2
    \<and> (case bg_sandbox b2 of Some s2 \<Rightarrow> list_all se_locked (get_tree s2) | None \<Rightarrow> False)"
proof (rule one_client_unlocks [where u = demo_protocol])
  show "unlock_ok demo_protocol"
    unfolding demo_protocol_def by (intro register_ok) (simp add: unlock_ok_def new_unlock_protocol_def)
  show "can_draw (be_openssl demo_bridge_env)" by (simp add: can_draw_def demo_bridge_env_def demo_openssl_def)
  show "list_all (can_vote demo_bridge_env (up_approvers demo_protocol) (bg_tokens demo_bridge) (bg_identities demo_bridge)) [''ann'', ''bob'']"
    using demo_trusted by (simp add: can_vote_def demo_protocol_def register_approver_def new_unlock_protocol_def sm_has_def demo_bridge_def
        demo_bridge_env_def demo_tokens_def token_good_def)
qed (simp_all add: demo_bridge_def blank_bridge_def bridge_locked_def gate_locked_def is_locked_def new_worm_lock_def
    demo_protocol_def register_approver_def new_unlock_protocol_def sm_has_def)

end
