(* ===== verification/Cxx_Time.thy ===== *)
theory Cxx_Time
  imports Cxx_Strings
begin

text \<open>
  \<^verbatim>\<open>gmtime\<close> on seconds since 1970-01-01, and the ISO 8601 texts the sources print from it with \<^verbatim>\<open>snprintf\<close>.
  Days are turned into a date by the usual arithmetic on eras of 400 years that begin on the first of March. Clock
  readings before 1970, for which \<^verbatim>\<open>gmtime_s\<close> reports an error, are not considered.
\<close>

definition era_day :: "int \<Rightarrow> int" where
  "era_day days = (days + 719468) mod 146097"

definition era_year :: "int \<Rightarrow> int" where
  "era_year d = (d - d div 1460 + d div 36524 - d div 146096) div 365"

definition year_day :: "int \<Rightarrow> int" where
  "year_day d = d - (365 * era_year d + era_year d div 4 - era_year d div 100)"

text \<open>Year, month and day of the month.\<close>

definition civil :: "int \<Rightarrow> int \<times> int \<times> int" where
  "civil days =
     (let d = era_day days; y = era_year d + 400 * ((days + 719468) div 146097); doy = year_day d;
          mp = (5 * doy + 2) div 153; m = (if mp < 10 then mp + 3 else mp - 9)
      in (if m \<le> 2 then y + 1 else y, m, doy - (153 * mp + 2) div 5 + 1))"

text \<open>\<^verbatim>\<open>%0nd\<close> for a number that is not negative.\<close>

definition padded :: "nat \<Rightarrow> int \<Rightarrow> string" where
  "padded n i = pad_left n (CHR ''0'') (str_of_int i)"

definition iso_date :: "int \<Rightarrow> string" where
  "iso_date days = (let (y, m, d) = civil days in padded 4 y @ ''-'' @ padded 2 m @ ''-'' @ padded 2 d)"

definition iso_time :: "int \<Rightarrow> string" where
  "iso_time s = padded 2 (s div 3600) @ '':'' @ padded 2 (s div 60 mod 60) @ '':'' @ padded 2 (s mod 60)"

definition iso_seconds :: "int \<Rightarrow> string" where
  "iso_seconds ms = (let s = ms div 1000 in iso_date (s div 86400) @ ''T'' @ iso_time (s mod 86400) @ ''Z'')"

definition iso_millis :: "int \<Rightarrow> string" where
  "iso_millis ms = (let s = ms div 1000 in
     iso_date (s div 86400) @ ''T'' @ iso_time (s mod 86400) @ ''.'' @ padded 3 (ms mod 1000) @ ''Z'')"

text \<open>Some dates, the leap day of 2000 among them.\<close>

lemma civil_examples: "civil 0 = (1970, 1, 1)" "civil 59 = (1970, 3, 1)" "civil 11016 = (2000, 2, 29)"
  by code_simp+

lemma iso_example: "iso_millis 951826154007 = ''2000-02-29T12:09:14.007Z''"
  by code_simp

end
