(* ===== verification/Cxx_Search.thy ===== *)
theory Cxx_Search
  imports Cxx_Strings
begin

text \<open>Where \<^verbatim>\<open>std::string::find\<close> finds a text: over extensions of the searched text, over parts it steps over, and the
  fields of a text of the form \<^verbatim>\<open>key=value key=value\<close>.\<close>

section \<open>Extending and skipping\<close>

lemma find_sub_extend: "find_sub p s = Some i \<Longrightarrow> find_sub p (s @ t) = Some i"
proof (induction s arbitrary: i)
  case Nil
  then show ?case by (cases t) (auto split: if_splits)
next
  case (Cons c s)
  show ?case
  proof (cases "starts_with p (c # s)")
    case True
    then obtain u where "c # s = p @ u" by (auto simp: starts_with_append)
    then have "c # s @ t = p @ u @ t" by (metis append_Cons append_assoc)
    then have "starts_with p (c # s @ t)" by (simp only: starts_with_refl_append)
    with Cons.prems True show ?thesis by simp
  next
    case False
    with Cons.prems obtain j where j: "find_sub p s = Some j" "i = Suc j" by auto
    from find_sub_Some [OF j(1)] have "length p \<le> length s"
      by (metis diff_le_self le_trans length_append length_drop starts_with_append le_add1)
    then have "take (length p) ((c # s) @ t) = take (length p) (c # s)" by (subst take_append) simp
    with False have "\<not> starts_with p (c # s @ t)" by (simp add: starts_with_def)
    with Cons.IH [OF j(1)] j(2) show ?thesis by simp
  qed
qed

lemma find_sub_within: "find_sub p (s @ t) = Some i \<Longrightarrow> i + length p \<le> length s \<Longrightarrow> contains p s"
proof -
  assume f: "find_sub p (s @ t) = Some i" and le: "i + length p \<le> length s"
  from find_sub_Some [OF f] obtain u where u: "drop i (s @ t) = p @ u" unfolding starts_with_append by blast
  have e: "drop i (s @ t) = drop i s @ t" using le by simp
  have "take (length p) (drop i s @ t) = p" unfolding e [symmetric] u by simp
  then have "take (length p) (drop i s) = p" using le by simp
  then have "drop i s = p @ drop (length p) (drop i s)" by (metis append_take_drop_id)
  then have "s = take i s @ p @ drop (length p) (drop i s)" by (metis append_take_drop_id)
  then show "contains p s" unfolding contains_iff by blast
qed

text \<open>Searches step over text in which the first character does not occur.\<close>

lemma find_sub_skip: "p \<noteq> [] \<Longrightarrow> hd p \<notin> set a \<Longrightarrow> find_sub p (a @ b) = map_option (\<lambda>k. length a + k) (find_sub p b)"
proof (induction a)
  case Nil
  then show ?case by (cases "find_sub p b") simp_all
next
  case (Cons c a)
  then have "\<not> starts_with p (c # a @ b)" by (cases p) simp_all
  with Cons show ?case by (cases "find_sub p b") simp_all
qed

lemma find_sub_at: "p \<noteq> [] \<Longrightarrow> hd p \<notin> set a \<Longrightarrow> find_sub p (a @ p @ b) = Some (length a)"
  by (subst find_sub_skip) (cases p; simp)+

section \<open>Fields\<close>

abbreviation eq_free :: "string \<Rightarrow> bool" where
  "eq_free a \<equiv> CHR ''='' \<notin> set a"

lemma before_eq: "eq_free a \<Longrightarrow> takeWhile (\<lambda>c. c \<noteq> CHR ''='') (a @ ''='' @ b) = a"
  by (induction a) auto

lemma key_start:
  assumes "starts_with (key @ ''='') (a @ ''='' @ b)" "eq_free a" "eq_free key"
  shows "a = key"
proof -
  from assms(1) obtain u where "a @ ''='' @ b = key @ ''='' @ u" by (auto simp: starts_with_append)
  then have "takeWhile (\<lambda>c. c \<noteq> CHR ''='') (a @ ''='' @ b) = takeWhile (\<lambda>c. c \<noteq> CHR ''='') (key @ ''='' @ u)" by (rule arg_cong)
  then show ?thesis unfolding before_eq [OF assms(2)] before_eq [OF assms(3)] .
qed

lemma skip_field:
  assumes "eq_free a" "eq_free key" "key \<noteq> []" "\<And>x. a \<noteq> x @ key"
  shows "find_sub (key @ ''='') (a @ ''='' @ b) = map_option (\<lambda>k. length a + 1 + k) (find_sub (key @ ''='') b)"
  using assms
proof (induction a)
  case Nil
  then have "\<not> starts_with (key @ ''='') (''='' @ b)" by (cases key) auto
  then show ?case by simp
next
  case (Cons c a)
  have "\<not> starts_with (key @ ''='') ((c # a) @ ''='' @ b)"
    using key_start [OF _ Cons.prems(1, 2)] Cons.prems(4) [of "[]"] by auto
  moreover have "a \<noteq> x @ key" for x using Cons.prems(4) [of "c # x"] by simp
  ultimately show ?case using Cons by (simp add: option.map_comp comp_def)
qed

lemma find_field:
  assumes "eq_free x" "eq_free key"
  shows "find_sub (key @ ''='') (x @ key @ ''='' @ b) = Some (length x)"
  using assms
proof (induction x)
  case Nil
  have "starts_with (key @ ''='') (key @ ''='' @ b)" using starts_with_refl_append [of "key @ ''=''" b] by simp
  then show ?case by (cases "key @ ''='' @ b") auto
next
  case (Cons c x)
  have "\<not> starts_with (key @ ''='') ((c # x @ key) @ ''='' @ b)"
    using key_start [of key "c # x @ key" b] Cons.prems by (auto dest: arg_cong [where f = length])
  then show ?case using Cons by simp
qed

lemma no_field: "eq_free a \<Longrightarrow> find_sub (key @ ''='') a = None"
proof (rule ccontr)
  assume a: "eq_free a" and "find_sub (key @ ''='') a \<noteq> None"
  then obtain b c where "a = b @ (key @ ''='') @ c" using contains_iff [of "key @ ''=''" a] by (auto simp: contains_def)
  with a show False by simp
qed

end
