(* ===== verification/DashboardServer.thy ===== *)
theory DashboardServer
  imports Json Monitors Cxx_Time Cxx_Search Quarantine
begin

text \<open>
  \<^verbatim>\<open>bridge/dashboard_server\<close>: the HTTP server of the dashboard, one request per connection. A connection is the
  bytes the client sends together with the sizes in which they arrive, one per \<^verbatim>\<open>recv\<close>; a size 0 is the receive
  timeout. What a request does to the machine is kept in \<open>http_world\<close>: the readable files, what was sent to the
  client, the command lines that were started, the helpers that were run elevated, the calls of the callback for a
  saved configuration, and whether an exception left the thread of the connection, which ends the process.
\<close>

section \<open>State and environment\<close>

record safe_cmd =
  cm_prefix :: string
  cm_needs_cmd_c :: bool
  cm_needs_ps :: bool
  cm_description :: string

record dashboard_server =
  ds_dashboard_dir :: string
  ds_data_json_path :: string
  ds_config_path :: string
  ds_token :: string
  ds_has_callback :: bool

record http_world =
  hw_files :: "string \<Rightarrow> string option"
  hw_sent :: string
  hw_spawned :: "string list"
  hw_elevated :: "(string \<times> string) list"
  hw_saved :: "string list"
  hw_crashed :: bool

text \<open>A started process: what its pipe yields at each \<^verbatim>\<open>ReadFile\<close> and whether it is still running five seconds after
  the last one; \<open>None\<close> when it was not created. An elevated helper: \<^verbatim>\<open>GetLastError\<close> when it was not started, else whether it is still running after
  35 seconds, its exit code and the result file it wrote, if any. Whether a file exists or can be written, and what
  processes do, depends on the files of the machine.\<close>

record spawned =
  sp_reads :: "string list"
  sp_timed_out :: bool

datatype elevated = Not_started int | Ran bool int "string option"

record http_env =
  he_parse :: "string \<Rightarrow> json option" \<comment> \<open>\<^verbatim>\<open>json::parse\<close>; \<open>None\<close>: it throws\<close>
  he_dump :: "json \<Rightarrow> string option" \<comment> \<open>\<^verbatim>\<open>dump()\<close>; \<open>None\<close>: it throws\<close>
  he_dump2 :: "json \<Rightarrow> string option" \<comment> \<open>\<^verbatim>\<open>dump(2)\<close>\<close>
  he_exists :: "files \<Rightarrow> string \<Rightarrow> bool"
  he_writable :: "files \<Rightarrow> string \<Rightarrow> bool"
  he_pipe :: bool
  he_spawn :: "files \<Rightarrow> string \<Rightarrow> spawned option"
  he_runas :: "files \<Rightarrow> string \<Rightarrow> string \<Rightarrow> elevated"
  he_now_ms :: int

definition SAFE_CMDS :: "safe_cmd list" where
  "SAFE_CMDS = map (\<lambda>(p, c, s, d). \<lparr>cm_prefix = p, cm_needs_cmd_c = c, cm_needs_ps = s, cm_description = d\<rparr>)
    [(''ipconfig'', False, False, ''Display IP configuration for all adapters''),
     (''ping'', False, False, ''Test ICMP connectivity to a host''),
     (''arp'', False, False, ''Display ARP table (arp -a for all entries)''),
     (''nslookup'', False, False, ''DNS lookup for a hostname or IP''),
     (''tracert'', False, False, ''Trace route to a host''),
     (''pathping'', False, False, ''Combined ping + tracert with statistics''),
     (''netstat'', False, False, ''Display active TCP connections and ports''),
     (''route'', False, False, ''Display or modify IP routing table''),
     (''systeminfo'', False, False, ''Display detailed OS and hardware configuration''),
     (''hostname'', False, False, ''Display the machine hostname''),
     (''whoami'', False, False, ''Display current user name and domain''),
     (''getmac'', False, False, ''Display MAC addresses for all network adapters''),
     (''tasklist'', False, False, ''List all running processes''),
     (''netsh'', False, False, ''Network shell '' @ em_dash @ '' use read-only show subcommands''),
     (''sc'', True, False, ''Service Control '' @ em_dash @ '' sc query for service status''),
     (''wmic'', False, False, ''WMI queries '' @ em_dash @ '' e.g. wmic os get Caption,Version''),
     (''ver'', True, False, ''Display Windows version string''),
     (''dir'', True, False, ''List directory contents''),
     (''echo'', True, False, ''Print text to output''),
     (''net'', True, False, ''Network commands '' @ em_dash @ '' net use, net view (read-only)''),
     (''Get-'', False, True, ''PowerShell read-only cmdlets (Get-Process, Get-Service, etc.)'')]"

text \<open>The token: 32 random bytes, in hexadecimal; \<open>None\<close> when a CryptoAPI call fails. The configuration lies beside
  the data file; \<open>parent_path\<close> is the one of a path with a directory that is not a root.\<close>

definition generate_token :: "bool \<Rightarrow> string option \<Rightarrow> string option" where
  "generate_token acquired rand = (if acquired then map_option hex_string rand else None)"

definition parent_path :: "string \<Rightarrow> string" where
  "parent_path p = rev (tl (dropWhile (\<lambda>c. c \<noteq> CHR ''/'' \<and> c \<noteq> backslash) (rev p)))"

definition new_dashboard_server :: "string \<Rightarrow> string \<Rightarrow> bool \<Rightarrow> string \<Rightarrow> dashboard_server" where
  "new_dashboard_server dir data callback token =
     \<lparr>ds_dashboard_dir = dir, ds_data_json_path = data, ds_config_path = path_join (parent_path data) ''config.json'',
      ds_token = token, ds_has_callback = callback\<rparr>"

section \<open>Responses\<close>

definition status_text :: "int \<Rightarrow> string" where
  "status_text status =
     (if status = 400 then ''Bad Request'' else if status = 401 then ''Unauthorized''
      else if status = 403 then ''Forbidden'' else if status = 404 then ''Not Found''
      else if status = 500 then ''Internal Server Error'' else if status = 503 then ''Service Unavailable'' else ''OK'')"

definition CSP :: string where
  "CSP = ''Content-Security-Policy: default-src '' @ squote @ ''self'' @ squote @ ''; script-src '' @ squote @ ''self'' @ squote
     @ '' '' @ squote @ ''unsafe-inline'' @ squote @ ''; style-src '' @ squote @ ''self'' @ squote @ '' '' @ squote @ ''unsafe-inline'' @ squote"

definition response_header :: "int \<Rightarrow> string \<Rightarrow> nat \<Rightarrow> bool \<Rightarrow> string" where
  "response_header status content_type n cors =
     ''HTTP/1.1 '' @ str_of_int status @ '' '' @ status_text status @ crlf
     @ ''Content-Type: '' @ content_type @ crlf
     @ ''Content-Length: '' @ str_of_nat n @ crlf
     @ ''Connection: close'' @ crlf
     @ CSP @ crlf
     @ (if cors then ''Access-Control-Allow-Origin: http://127.0.0.1'' @ crlf else []) @ crlf"

definition send_response :: "int \<Rightarrow> string \<Rightarrow> string \<Rightarrow> bool \<Rightarrow> http_world \<Rightarrow> http_world" where
  "send_response status content_type body cors w =
     w\<lparr>hw_sent := hw_sent w @ response_header status content_type (length body) cors @ body\<rparr>"

text \<open>A JSON response; printing it may throw, outside of any handler.\<close>

definition send_dumped :: "int \<Rightarrow> string option \<Rightarrow> http_world \<Rightarrow> http_world" where
  "send_dumped status text w =
     (case text of None \<Rightarrow> w\<lparr>hw_crashed := True\<rparr> | Some s \<Rightarrow> send_response status ''application/json'' s True w)"

definition send_error :: "http_env \<Rightarrow> int \<Rightarrow> string \<Rightarrow> http_world \<Rightarrow> http_world" where
  "send_error env status msg w =
     send_dumped status (he_dump env (JObject [(''error'', JString msg), (''status'', JInt status)])) w"

definition handle_cors_preflight :: "http_world \<Rightarrow> http_world" where
  "handle_cors_preflight w = w\<lparr>hw_sent := hw_sent w @ ''HTTP/1.1 204 No Content'' @ crlf
     @ ''Access-Control-Allow-Origin: http://127.0.0.1'' @ crlf
     @ ''Access-Control-Allow-Methods: GET, POST, OPTIONS'' @ crlf
     @ ''Access-Control-Allow-Headers: X-Astartis-Token, Content-Type'' @ crlf
     @ ''Content-Length: 0'' @ crlf @ crlf\<rparr>"

section \<open>Reading a request\<close>

text \<open>One \<^verbatim>\<open>recv\<close> with room for \<open>n\<close> bytes takes what has arrived, at most \<open>n\<close>.\<close>

type_synonym conn = "string \<times> nat list"

fun read_headers :: "string \<Rightarrow> conn \<Rightarrow> string \<times> conn" where
  "read_headers raw (bs, []) = (raw, (bs, []))"
| "read_headers raw (bs, k # ks) =
     (let n = min 4095 k; raw' = raw @ take n bs; rest = (drop n bs, ks) in
      if take n bs = [] then (raw, rest)
      else if contains (crlf @ crlf) raw' then (raw', rest)
      else if length raw' > 65536 then (raw', rest)
      else read_headers raw' rest)"

fun recv_body :: "nat \<Rightarrow> string \<Rightarrow> conn \<Rightarrow> string" where
  "recv_body len body (bs, []) = body"
| "recv_body len body (bs, k # ks) =
     (if length body < len then
        (let n = min (min 4096 (len - length body)) k in
         if take n bs = [] then body else recv_body len (body @ take n bs) (drop n bs, ks))
      else body)"

definition MAX_BODY :: nat where
  "MAX_BODY = 512 * 1024"

definition read_full_body :: "string \<Rightarrow> nat \<Rightarrow> conn \<Rightarrow> string" where
  "read_full_body raw content_length c =
     (let body = (case find_sub (crlf @ crlf) raw of None \<Rightarrow> [] | Some i \<Rightarrow> drop (i + 4) raw)
      in recv_body (min content_length MAX_BODY) body c)"

text \<open>\<^verbatim>\<open>ss >> method >> path\<close>, then the query string is cut off.\<close>

definition next_token :: "string \<Rightarrow> string \<times> string" where
  "next_token s = (let t = dropWhile is_space s in (takeWhile (\<lambda>c. \<not> is_space c) t, dropWhile (\<lambda>c. \<not> is_space c) t))"

definition request_line :: "string \<Rightarrow> string \<times> string" where
  "request_line line = (let (method, rest) = next_token line; (path, _) = next_token rest
     in (method, takeWhile (\<lambda>c. c \<noteq> CHR ''?'') path))"

text \<open>The value of the first occurrence of a header's name in the request, up to the end of its line.\<close>

definition header_value :: "string \<Rightarrow> string \<Rightarrow> string option" where
  "header_value name raw =
     (case find_sub name raw of
        None \<Rightarrow> None
      | Some pos \<Rightarrow> (case find_from crlf raw pos of
          None \<Rightarrow> None
        | Some eol \<Rightarrow> Some (sub_until (pos + length name) eol raw)))"

definition content_length :: "string \<Rightarrow> nat" where
  "content_length raw =
     (case header_value ''Content-Length:'' raw of
        None \<Rightarrow> 0
      | Some v \<Rightarrow> (case stoul (wide v) of None \<Rightarrow> 0 | Some n \<Rightarrow> n))"

section \<open>Token and origin\<close>

definition is_blank :: "char \<Rightarrow> bool" where
  "is_blank c = (c = CHR '' '' \<or> c = CHR 0x09)"

definition check_token :: "dashboard_server \<Rightarrow> string \<Rightarrow> bool" where
  "check_token s raw =
     (case header_value ''X-Astartis-Token:'' raw of
        None \<Rightarrow> False
      | Some v \<Rightarrow>
          let val = dropWhile is_blank v;
              cut = rev (dropWhile (\<lambda>c. is_blank c \<or> c = CHR 0x0D \<or> c = CHR 0x0A) (rev val))
          in if val = [] then False else (if cut = [] then val else cut) = ds_token s)"

text \<open>A request without the text \<^verbatim>\<open>Origin:\<close> is accepted.\<close>

definition check_origin :: "string \<Rightarrow> bool" where
  "check_origin raw =
     (case find_sub ''Origin:'' raw of
        None \<Rightarrow> True
      | Some _ \<Rightarrow>
          let v = (case header_value ''Origin:'' raw of None \<Rightarrow> [] | Some v \<Rightarrow> v);
              origin = (if dropWhile is_blank v = [] then v else dropWhile is_blank v)
          in starts_with ''http://127.0.0.1'' origin \<or> starts_with ''http://localhost'' origin)"

section \<open>Files\<close>

definition serve_static :: "http_env \<Rightarrow> dashboard_server \<Rightarrow> string \<Rightarrow> http_world \<Rightarrow> http_world" where
  "serve_static env s path w =
     (case hw_files w (ds_dashboard_dir s @ path) of
        None \<Rightarrow> send_error env 404 ''File not found'' w
      | Some content \<Rightarrow>
          send_response 200 (if contains ''.css'' path then ''text/css'' else ''application/javascript'') content False w)"

text \<open>The page of the dashboard gets the token in a \<^verbatim>\<open>meta\<close> element.\<close>

definition token_meta :: "dashboard_server \<Rightarrow> string" where
  "token_meta s = ''<meta name='' @ dquote @ ''astartis-token'' @ dquote @ '' content='' @ dquote @ ds_token s @ dquote @ ''>''"

definition serve_index :: "http_env \<Rightarrow> dashboard_server \<Rightarrow> http_world \<Rightarrow> http_world" where
  "serve_index env s w =
     (case hw_files w (ds_dashboard_dir s @ ''/index.html'') of
        None \<Rightarrow> send_error env 404 ''Dashboard not found'' w
      | Some content \<Rightarrow>
          let page = (case find_sub ''<head>'' content of
              None \<Rightarrow> content
            | Some i \<Rightarrow> take (i + 6) content @ token_meta s @ drop (i + 6) content)
          in send_response 200 ''text/html; charset=utf-8'' page False w)"

definition serve_data_json :: "http_env \<Rightarrow> dashboard_server \<Rightarrow> http_world \<Rightarrow> http_world" where
  "serve_data_json env s w =
     (case hw_files w (ds_data_json_path s) of
        None \<Rightarrow> send_error env 503 ''Data not ready'' w
      | Some content \<Rightarrow> send_response 200 ''application/json'' content True w)"

definition serve_health :: "http_env \<Rightarrow> http_world \<Rightarrow> http_world" where
  "serve_health env w =
     send_dumped 200 (he_dump env (JObject [(''ok'', JBool True), (''ts'', JString (iso_seconds (he_now_ms env)))])) w"

section \<open>Commands\<close>

definition pad_right :: "nat \<Rightarrow> string \<Rightarrow> string" where
  "pad_right n s = s @ replicate (n - length s) (CHR '' '')"

definition help_text :: string where
  "help_text = ''Astartis SOC Terminal '' @ em_dash @ '' available commands:'' @ nl @ nl
     @ concat (map (\<lambda>c. ''  '' @ pad_right 14 (cm_prefix c) @ ''  '' @ cm_description c @ nl) SAFE_CMDS)
     @ nl @ ''Use Get-* for PowerShell read-only cmdlets (e.g. Get-Process, Get-Service).'' @ nl"

text \<open>\<^verbatim>\<open>strchr\<close> also finds the NUL that ends the list.\<close>

definition is_bad_char :: "char \<Rightarrow> bool" where
  "is_bad_char c = (c \<in> set ''&|;`$<>(){}!^'' \<or> c = CHR 0x00)"

definition cmd_matches :: "string \<Rightarrow> safe_cmd \<Rightarrow> bool" where
  "cmd_matches cmd c =
     (let n = length (cm_prefix c) in
      n \<le> length cmd \<and> starts_with (cm_prefix c) cmd \<and> (length cmd = n \<or> cmd ! n = CHR '' ''))"

definition full_command :: "safe_cmd \<Rightarrow> string \<Rightarrow> string" where
  "full_command c cmd =
     (if cm_needs_ps c then ''powershell.exe -NoProfile -NonInteractive -Command '' @ dquote @ cmd @ dquote
      else if cm_needs_cmd_c c then ''cmd.exe /c '' @ cmd else cmd)"

definition MAX_OUTPUT :: nat where
  "MAX_OUTPUT = 20 * 1024"

text \<open>The read loop; \<^verbatim>\<open>ReadFile\<close> has room for 4095 bytes and yields none at the end.\<close>

fun read_output :: "string \<Rightarrow> string list \<Rightarrow> string" where
  "read_output acc [] = acc"
| "read_output acc (c # cs) =
     (if length acc < MAX_OUTPUT \<and> c \<noteq> [] then read_output (acc @ take 4095 c) cs else acc)"

definition command_output :: "spawned \<Rightarrow> string" where
  "command_output p =
     (let out = read_output [] (sp_reads p);
          out1 = (if sp_timed_out p then out @ nl @ ''... [command timed out after 5 seconds]'' else out)
      in if length out1 \<ge> MAX_OUTPUT then out1 @ nl @ ''... [truncated at 20 KB]'' else out1)"

definition run_command_line :: "http_env \<Rightarrow> string \<Rightarrow> http_world \<Rightarrow> http_world" where
  "run_command_line env full w =
     (if \<not> he_pipe env then send_error env 500 ''Pipe creation failed'' w
      else (case he_spawn env (hw_files w) full of
          None \<Rightarrow> send_error env 500 ''CreateProcess failed'' w
        | Some p \<Rightarrow> send_dumped 200 (he_dump env (JObject [(''output'', JString (command_output p))]))
            (w\<lparr>hw_spawned := hw_spawned w @ [full]\<rparr>)))"

definition exec_command :: "http_env \<Rightarrow> string \<Rightarrow> http_world \<Rightarrow> http_world" where
  "exec_command env cmd w =
     (if cmd = [] then send_error env 400 ''cmd required'' w
      else if cmd = ''help'' then send_dumped 200 (he_dump env (JObject [(''output'', JString help_text)])) w
      else if list_ex is_bad_char cmd then send_error env 400 ''Command contains disallowed characters'' w
      else (case find (cmd_matches cmd) SAFE_CMDS of
          None \<Rightarrow> send_error env 403 ''Command not in whitelist'' w
        | Some c \<Rightarrow> run_command_line env (full_command c cmd) w))"

definition handle_exec :: "http_env \<Rightarrow> string \<Rightarrow> http_world \<Rightarrow> http_world" where
  "handle_exec env body w =
     (case he_parse env body of
        None \<Rightarrow> send_error env 400 ''Invalid JSON'' w
      | Some j \<Rightarrow> (case json_value get_string ''cmd'' [] j of
          Inl _ \<Rightarrow> send_error env 400 ''Invalid JSON'' w
        | Inr cmd \<Rightarrow> exec_command env cmd w))"

section \<open>Configuration\<close>

definition default_settings :: json where
  "default_settings = JObject
     [(''autonomy_loop'', JBool True), (''chaos_threshold'', JReal (7 / 10)), (''event_log_monitor'', JBool True),
      (''fs_monitor'', JBool True), (''max_concurrent_tasks'', JInt 4), (''ollama_host'', JString ''127.0.0.1''),
      (''ollama_port'', JInt 11434), (''ollama_timeout_s'', JInt 60), (''packet_sensor'', JBool True),
      (''worm_auto_lockdown'', JBool True)]"

definition handle_config_get :: "http_env \<Rightarrow> dashboard_server \<Rightarrow> http_world \<Rightarrow> http_world" where
  "handle_config_get env s w =
     (case hw_files w (ds_config_path s) of
        None \<Rightarrow> send_dumped 200 (he_dump2 env default_settings) w
      | Some content \<Rightarrow> send_response 200 ''application/json'' content True w)"

text \<open>One check: a read of the wrong type throws, a value out of bounds has its message.\<close>

definition check_field ::
    "(json \<Rightarrow> json_error + 'a) \<Rightarrow> ('a \<Rightarrow> bool) \<Rightarrow> string \<Rightarrow> string \<Rightarrow> json \<Rightarrow> json_error + string option" where
  "check_field get ok key msg cfg =
     (case json_field key cfg of
        None \<Rightarrow> Inr None
      | Some v \<Rightarrow> and_then (get v) (\<lambda>x. Inr (if ok x then None else Some msg)))"

fun first_problem :: "(json_error + string option) list \<Rightarrow> json_error + string option" where
  "first_problem [] = Inr None"
| "first_problem (r # rs) = and_then r (\<lambda>m. case m of None \<Rightarrow> first_problem rs | Some msg \<Rightarrow> Inr (Some msg))"

definition config_problem :: "json \<Rightarrow> json_error + string option" where
  "config_problem cfg = first_problem
     [check_field get_int (\<lambda>v. 1 \<le> v \<and> v \<le> 64) ''max_concurrent_tasks'' ''max_concurrent_tasks must be 1..64'' cfg,
      check_field get_int (\<lambda>v. 5 \<le> v \<and> v \<le> 3600) ''ollama_timeout_s'' ''ollama_timeout_s must be 5..3600'' cfg,
      check_field get_string (\<lambda>h. h = ''127.0.0.1'' \<or> h = ''localhost'') ''ollama_host''
        ''ollama_host must be 127.0.0.1 or localhost'' cfg,
      check_field get_int (\<lambda>v. 1024 \<le> v \<and> v \<le> 65535) ''ollama_port'' ''ollama_port out of range'' cfg,
      check_field get_double (\<lambda>v. 0 \<le> v \<and> v \<le> 1) ''chaos_threshold'' ''chaos_threshold must be 0.0..1.0'' cfg]"

text \<open>The file is truncated before the text is printed.\<close>

definition save_settings :: "http_env \<Rightarrow> dashboard_server \<Rightarrow> json \<Rightarrow> http_world \<Rightarrow> http_world" where
  "save_settings env s cfg w =
     (if \<not> he_writable env (hw_files w) (ds_config_path s) then send_error env 500 ''Cannot write config'' w
      else (case he_dump2 env cfg of
          None \<Rightarrow> w\<lparr>hw_files := (hw_files w)(ds_config_path s \<mapsto> []), hw_crashed := True\<rparr>
        | Some text \<Rightarrow>
            send_dumped 200 (he_dump env (JObject [(''message'', JString ''Config saved''), (''ok'', JBool True)]))
              (w\<lparr>hw_files := (hw_files w)(ds_config_path s \<mapsto> text),
                 hw_saved := (if ds_has_callback s then hw_saved w @ [text] else hw_saved w)\<rparr>)))"

definition handle_config_post :: "http_env \<Rightarrow> dashboard_server \<Rightarrow> string \<Rightarrow> http_world \<Rightarrow> http_world" where
  "handle_config_post env s body w =
     (case he_parse env body of
        None \<Rightarrow> send_error env 400 ''Invalid JSON'' w
      | Some cfg \<Rightarrow> (case config_problem cfg of
          Inl _ \<Rightarrow> w\<lparr>hw_crashed := True\<rparr>
        | Inr (Some msg) \<Rightarrow> send_error env 400 msg w
        | Inr None \<Rightarrow> save_settings env s cfg w))"

section \<open>The elevated helper\<close>

definition ERROR_CANCELLED :: int where
  "ERROR_CANCELLED = 1223"

definition helper_result_path :: "dashboard_server \<Rightarrow> string" where
  "helper_result_path s = ds_dashboard_dir s @ [backslash] @ ''npcap_verify_result.json''"

definition helper_path :: "http_env \<Rightarrow> dashboard_server \<Rightarrow> files \<Rightarrow> string" where
  "helper_path env s files =
     (let p = ds_dashboard_dir s @ [backslash] @ ''npcap_verify_helper.exe'' in
      if he_exists env files p then p else ds_dashboard_dir s @ [backslash] @ ''..'' @ [backslash] @ ''npcap_verify_helper.exe'')"

definition helper_reply :: "http_env \<Rightarrow> dashboard_server \<Rightarrow> elevated \<Rightarrow> http_world \<Rightarrow> http_world" where
  "helper_reply env s r w =
     (case r of
        Not_started err \<Rightarrow>
          send_dumped 200 (he_dump env (if err = ERROR_CANCELLED
            then JObject [(''message'', JString ''UAC elevation prompt was declined by user''), (''status'', JString ''cancelled''),
                   (''uac_shown'', JBool True)]
            else JObject [(''message'', JString ''ShellExecuteEx failed''), (''status'', JString ''error''),
                   (''win32_error'', JInt (to_int32 err))])) w
      | Ran late code _ \<Rightarrow>
          if late then send_dumped 200 (he_dump env (JObject
              [(''message'', JString (''npcap_verify_helper did not complete within 35 seconds. ''
                 @ ''Check that a real network adapter is active and Npcap service is running.'')),
               (''status'', JString ''timeout''), (''uac_shown'', JBool True)])) w
          else (case hw_files w (helper_result_path s) of
              Some content \<Rightarrow> send_response 200 ''application/json'' content True w
            | None \<Rightarrow> send_dumped 200 (he_dump env (JObject
                [(''exit_code'', JInt (to_int32 code)), (''message'', JString ''Helper ran but result file not found''),
                 (''status'', JString (if code = 0 then ''ok'' else ''error'')), (''uac_shown'', JBool True)])) w))"

definition handle_npcap_verify :: "http_env \<Rightarrow> dashboard_server \<Rightarrow> http_world \<Rightarrow> http_world" where
  "handle_npcap_verify env s w =
     (let helper = helper_path env s (hw_files w); params = dquote @ helper_result_path s @ dquote in
      if \<not> he_exists env (hw_files w) helper then
        send_dumped 503 (he_dump env (JObject
          [(''hint'', JString ''bridge/npcap_verify_helper/npcap_verify_helper.cpp''),
           (''message'', JString (''npcap_verify_helper.exe not found '' @ em_dash @ '' build the helper first'')),
           (''status'', JString ''error'')])) w
      else
        let r = he_runas env (hw_files w) helper params;
            w1 = (case r of
                Ran _ _ (Some text) \<Rightarrow> w\<lparr>hw_files := (hw_files w)(helper_result_path s \<mapsto> text)\<rparr>
              | _ \<Rightarrow> w)
        in helper_reply env s r (w1\<lparr>hw_elevated := hw_elevated w1 @ [(helper, params)]\<rparr>))"

definition serve_npcap_result :: "http_env \<Rightarrow> dashboard_server \<Rightarrow> http_world \<Rightarrow> http_world" where
  "serve_npcap_result env s w =
     (case hw_files w (helper_result_path s) of
        None \<Rightarrow> send_dumped 200 (he_dump env (JObject
          [(''message'', JString ''No verification has been run yet''), (''status'', JString ''no_result'')])) w
      | Some content \<Rightarrow> send_response 200 ''application/json'' content True w)"

section \<open>A connection\<close>

text \<open>The guarded endpoints.\<close>

definition authorised :: "http_env \<Rightarrow> dashboard_server \<Rightarrow> string \<Rightarrow> (http_world \<Rightarrow> http_world) \<Rightarrow> http_world \<Rightarrow> http_world" where
  "authorised env s raw act w =
     (if \<not> check_token s raw then send_error env 401 ''Unauthorized'' w
      else if \<not> check_origin raw then send_error env 403 ''Forbidden'' w
      else act w)"

definition respond :: "http_env \<Rightarrow> dashboard_server \<Rightarrow> string \<Rightarrow> string \<times> string \<Rightarrow> conn \<Rightarrow> http_world \<Rightarrow> http_world" where
  "respond env s raw target c w =
     (let (meth, path) = target; body = read_full_body raw (content_length raw) c in
      if meth = ''OPTIONS'' then handle_cors_preflight w
      else if meth = ''GET'' \<and> path = ''/health'' then serve_health env w
      else if meth = ''GET'' \<and> (path = ''/'' \<or> path = ''/index.html'') then serve_index env s w
      else if meth = ''GET'' \<and> path = ''/dashboard_data.json'' then serve_data_json env s w
      else if meth = ''GET'' \<and> path = ''/npcap_verify_result.json'' then serve_npcap_result env s w
      else if meth = ''GET'' \<and> (path = ''/style.css'' \<or> path = ''/script.js'') then serve_static env s path w
      else if meth = ''POST'' \<and> path = ''/exec'' then authorised env s raw (handle_exec env body) w
      else if meth = ''POST'' \<and> path = ''/npcap_verify'' then authorised env s raw (handle_npcap_verify env s) w
      else if meth = ''GET'' \<and> path = ''/config'' then authorised env s raw (handle_config_get env s) w
      else if meth = ''POST'' \<and> path = ''/config'' then authorised env s raw (handle_config_post env s body) w
      else send_error env 404 ''Not found'' w)"

definition handle_connection :: "http_env \<Rightarrow> dashboard_server \<Rightarrow> conn \<Rightarrow> http_world \<Rightarrow> http_world" where
  "handle_connection env s c w =
     (let (raw, rest) = read_headers [] c in
      case find_sub crlf raw of
        None \<Rightarrow> w
      | Some i \<Rightarrow> respond env s raw (request_line (take i raw)) rest w)"

text \<open>The server thread: every accepted connection is handled, in any order.\<close>

definition serve_connections :: "http_env \<Rightarrow> dashboard_server \<Rightarrow> conn list \<Rightarrow> http_world \<Rightarrow> http_world" where
  "serve_connections env s cs w = fold (\<lambda>c v. if hw_crashed v then v else handle_connection env s c (v\<lparr>hw_sent := []\<rparr>)) cs w"

record listener =
  li_running :: bool
  li_listening :: bool

definition start_listening :: "bool \<Rightarrow> bool \<Rightarrow> listener \<Rightarrow> listener" where
  "start_listening socket bound l =
     (if li_running l then l else if socket \<and> bound then l\<lparr>li_running := True, li_listening := True\<rparr> else l)"

definition stop_listening :: "listener \<Rightarrow> listener" where
  "stop_listening l = (if \<not> li_running l then l else l\<lparr>li_running := False, li_listening := False\<rparr>)"

section \<open>What a response leaves alone\<close>

definition same_effects :: "http_world \<Rightarrow> http_world \<Rightarrow> bool" where
  "same_effects w w' = (hw_files w' = hw_files w \<and> hw_spawned w' = hw_spawned w \<and> hw_elevated w' = hw_elevated w
     \<and> hw_saved w' = hw_saved w)"

lemma same_effects_refl [simp]: "same_effects w w"
  by (simp add: same_effects_def)

lemma send_response_simps [simp]:
  "hw_files (send_response st ct b cors w) = hw_files w" "hw_spawned (send_response st ct b cors w) = hw_spawned w"
  "hw_elevated (send_response st ct b cors w) = hw_elevated w" "hw_saved (send_response st ct b cors w) = hw_saved w"
  "hw_crashed (send_response st ct b cors w) = hw_crashed w"
  by (simp_all add: send_response_def)

lemma send_dumped_simps [simp]:
  "hw_files (send_dumped st t w) = hw_files w" "hw_spawned (send_dumped st t w) = hw_spawned w"
  "hw_elevated (send_dumped st t w) = hw_elevated w" "hw_saved (send_dumped st t w) = hw_saved w"
  by (simp_all add: send_dumped_def split: option.split)

lemma send_error_simps [simp]:
  "hw_files (send_error env st m w) = hw_files w" "hw_spawned (send_error env st m w) = hw_spawned w"
  "hw_elevated (send_error env st m w) = hw_elevated w" "hw_saved (send_error env st m w) = hw_saved w"
  by (simp_all add: send_error_def)

lemma files_harmless [simp]:
  "same_effects w (serve_static env s p w)" "same_effects w (serve_index env s w)"
  "same_effects w (serve_data_json env s w)" "same_effects w (serve_health env w)"
  "same_effects w (serve_npcap_result env s w)" "same_effects w (handle_cors_preflight w)"
  "same_effects w (send_error env st m w)" "same_effects w (handle_config_get env s w)"
  by (simp_all add: same_effects_def serve_static_def serve_index_def serve_data_json_def serve_health_def
      serve_npcap_result_def handle_cors_preflight_def handle_config_get_def split: option.split)

text \<open>Every request that acts went through both checks.\<close>

lemma authorised_acts:
  "authorised env s raw act w = act w \<and> check_token s raw \<and> check_origin raw \<or> same_effects w (authorised env s raw act w)"
  by (auto simp: authorised_def)

lemma respond_acts:
  "same_effects w (respond env s raw target c w) \<or> check_token s raw \<and> check_origin raw \<and> fst target = ''POST''"
  using authorised_acts [of env s raw "handle_exec env (read_full_body raw (content_length raw) c)" w]
    authorised_acts [of env s raw "handle_npcap_verify env s" w]
    authorised_acts [of env s raw "handle_config_get env s" w]
    authorised_acts [of env s raw "handle_config_post env s (read_full_body raw (content_length raw) c)" w]
  by (auto simp: respond_def case_prod_beta Let_def)

section \<open>Commands that run\<close>

lemma run_command_line_spawned:
  "hw_spawned (run_command_line env full w) =
     (if he_pipe env \<and> he_spawn env (hw_files w) full \<noteq> None then hw_spawned w @ [full] else hw_spawned w)"
  by (auto simp: run_command_line_def split: option.split)

text \<open>The whitelist looks at the first word: a command matches an entry exactly when its first word is the entry's prefix.\<close>

definition first_word :: "string \<Rightarrow> string" where
  "first_word cmd = takeWhile (\<lambda>c. c \<noteq> CHR '' '') cmd"

lemma takeWhile_prefix: "x \<notin> set p \<Longrightarrow>
    (length p \<le> length s \<and> take (length p) s = p \<and> (length s = length p \<or> s ! length p = x)) = (takeWhile (\<lambda>c. c \<noteq> x) s = p)"
proof (induction p arbitrary: s)
  case Nil
  then show ?case by (cases s) auto
next
  case (Cons c p)
  then show ?case by (cases s) auto
qed

lemma safe_cmds_facts:
  "list_all (\<lambda>c. CHR '' '' \<notin> set (cm_prefix c) \<and> cm_needs_ps c = (cm_prefix c = ''Get-'') \<and>
     (cm_needs_cmd_c c = (cm_prefix c \<in> set [''sc'', ''ver'', ''dir'', ''echo'', ''net'']))) SAFE_CMDS"
  unfolding SAFE_CMDS_def by code_simp

lemma prefix_no_blank: "c \<in> set SAFE_CMDS \<Longrightarrow> CHR '' '' \<notin> set (cm_prefix c)"
  using safe_cmds_facts by (auto simp only: list_all_iff)

lemma cmd_matches_first_word: "c \<in> set SAFE_CMDS \<Longrightarrow> cmd_matches cmd c = (first_word cmd = cm_prefix c)"
  using takeWhile_prefix [OF prefix_no_blank] by (simp add: cmd_matches_def first_word_def starts_with_def Let_def)

definition routed :: "string \<Rightarrow> string" where
  "routed cmd =
     (if first_word cmd = ''Get-'' then ''powershell.exe -NoProfile -NonInteractive -Command '' @ dquote @ cmd @ dquote
      else if first_word cmd \<in> set [''sc'', ''ver'', ''dir'', ''echo'', ''net''] then ''cmd.exe /c '' @ cmd else cmd)"

lemma full_command_routed: "c \<in> set SAFE_CMDS \<Longrightarrow> first_word cmd = cm_prefix c \<Longrightarrow> full_command c cmd = routed cmd"
  using safe_cmds_facts by (auto simp only: list_all_iff full_command_def routed_def split: if_split)

lemma find_command:
  "find (cmd_matches cmd) SAFE_CMDS = Some c \<Longrightarrow> first_word cmd = cm_prefix c \<and> c \<in> set SAFE_CMDS"
  "find (cmd_matches cmd) SAFE_CMDS = None \<longleftrightarrow> first_word cmd \<notin> set (map cm_prefix SAFE_CMDS)"
  by (auto simp: find_Some_iff find_None_iff cmd_matches_first_word)

lemma exec_command_routed:
  "exec_command env cmd w =
     (if cmd = [] then send_error env 400 ''cmd required'' w
      else if cmd = ''help'' then send_dumped 200 (he_dump env (JObject [(''output'', JString help_text)])) w
      else if list_ex is_bad_char cmd then send_error env 400 ''Command contains disallowed characters'' w
      else if first_word cmd \<in> set (map cm_prefix SAFE_CMDS) then run_command_line env (routed cmd) w
      else send_error env 403 ''Command not in whitelist'' w)"
  using find_command [of cmd] by (auto simp: exec_command_def full_command_routed split: option.split)

definition may_run :: "string \<Rightarrow> bool" where
  "may_run cmd = (first_word cmd \<in> set (map cm_prefix SAFE_CMDS) \<and> \<not> list_ex is_bad_char cmd)"

lemma exec_spawned:
  "hw_spawned (exec_command env cmd w) = hw_spawned w \<or>
   may_run cmd \<and> hw_spawned (exec_command env cmd w) = hw_spawned w @ [routed cmd]"
  by (auto simp: exec_command_routed run_command_line_spawned may_run_def)

lemma config_post_spawns_nothing: "hw_spawned (handle_config_post env s body w) = hw_spawned w"
  by (auto simp: handle_config_post_def save_settings_def split: option.split sum.split)

lemma helper_spawns_nothing: "hw_spawned (handle_npcap_verify env s w) = hw_spawned w"
  by (auto simp: handle_npcap_verify_def helper_reply_def Let_def split: option.split elevated.split)

lemma exec_body_spawned:
  "hw_spawned (handle_exec env body w) = hw_spawned w \<or>
   (\<exists>cmd. may_run cmd \<and> hw_spawned (handle_exec env body w) = hw_spawned w @ [routed cmd])"
  using exec_spawned [of env _ w] by (auto simp: handle_exec_def split: option.split sum.split)

lemma same_effects_spawned: "same_effects w w' \<Longrightarrow> hw_spawned w' = hw_spawned w"
  by (simp add: same_effects_def)

lemmas harmless_spawns_nothing = files_harmless [THEN same_effects_spawned]

lemma respond_spawned:
  "hw_spawned (respond env s raw target c w) = hw_spawned w \<or>
   (\<exists>cmd. may_run cmd \<and> hw_spawned (respond env s raw target c w) = hw_spawned w @ [routed cmd])"
  using exec_body_spawned [of env "read_full_body raw (content_length raw) c" w]
  by (auto simp: respond_def case_prod_beta Let_def authorised_def harmless_spawns_nothing config_post_spawns_nothing
      helper_spawns_nothing)

section \<open>The body arrives whole\<close>

text \<open>However the bytes are cut into pieces, the headers are read up to the blank line, and no byte is lost.\<close>

lemma read_headers_concat:
  "read_headers raw c = (raw', rest) \<Longrightarrow> raw' @ fst rest = raw @ fst c"
proof (induction raw c arbitrary: raw' rest rule: read_headers.induct)
  case (2 raw bs k ks)
  then show ?case by (auto simp: Let_def split: if_splits)
qed auto

abbreviation blank_line :: string where
  "blank_line \<equiv> crlf @ crlf"

lemma read_headers_complete:
  assumes "find_sub blank_line (raw @ bs) = Some i" "i + 4 \<le> 65537" "\<not> contains blank_line raw"
    and "list_all (\<lambda>k. 0 < k) ks" "length bs \<le> length ks"
  shows "case read_headers raw (bs, ks) of (raw', bs', ks') \<Rightarrow>
    contains blank_line raw' \<and> list_all (\<lambda>k. 0 < k) ks' \<and> length bs' \<le> length ks'"
  using assms
proof (induction ks arbitrary: raw bs)
  case Nil
  then show ?case by (simp add: contains_def)
next
  case (Cons k ks)
  define n where "n = min 4095 k"
  have ne: "bs \<noteq> []" using Cons.prems(1, 3) by (auto simp: contains_def)
  have n: "0 < n" using Cons.prems(4) by (simp add: n_def)
  have got: "take n bs \<noteq> []" using n ne by simp
  have left: "length (drop n bs) \<le> length ks" using Cons.prems(5) n ne by (cases bs) auto
  show ?case
  proof (cases "contains blank_line (raw @ take n bs)")
    case True
    with got left Cons.prems(4) show ?thesis by (simp add: n_def [symmetric] Let_def)
  next
    case False
    have f: "find_sub blank_line ((raw @ take n bs) @ drop n bs) = Some i" using Cons.prems(1) by simp
    have "length (raw @ take n bs) < i + 4"
      using find_sub_within [OF f] False by (force simp: crlf_def)
    then have small: "\<not> length (raw @ take n bs) > 65536" using Cons.prems(2) by linarith
    from Cons.IH [OF f Cons.prems(2) False _ left] Cons.prems(4) got False small show ?thesis
      by (simp add: n_def [symmetric] Let_def)
  qed
qed

lemma recv_body_complete:
  assumes "length (body @ bs) = len" "list_all (\<lambda>k. 0 < k) ks" "length bs \<le> length ks"
  shows "recv_body len body (bs, ks) = body @ bs"
  using assms
proof (induction ks arbitrary: body bs)
  case (Cons k ks)
  show ?case
  proof (cases "bs = []")
    case False
    define n where "n = min (min 4096 (len - length body)) k"
    have n: "0 < n" using Cons.prems(1, 2) False by (auto simp: n_def)
    have "length (drop n bs) \<le> length ks" using Cons.prems(3) n False by (cases bs) auto
    moreover have "length body < len" using Cons.prems(1) False by auto
    ultimately show ?thesis using Cons.IH [of "body @ take n bs" "drop n bs"] Cons.prems(1, 2) n False
      by (simp add: n_def [symmetric] Let_def)
  qed (use Cons.prems in simp)
qed simp

lemma find_crlf: "CHR 0x0D \<notin> set v \<Longrightarrow> find_sub crlf (v @ crlf @ t) = Some (length v)"
  by (subst find_sub_skip) (simp_all add: crlf_def)

lemma header_value_line:
  assumes "find_sub name s = Some (length pre)" "s = pre @ name @ v @ crlf @ post"
    and "CHR 0x0D \<notin> set name" "CHR 0x0D \<notin> set v"
  shows "header_value name s = Some v"
proof -
  have "find_sub crlf (name @ v @ crlf @ post) = Some (length (name @ v))"
    using find_crlf [of "name @ v" post] assms(3, 4) by simp
  then have "find_from crlf s (length pre) = Some (length pre + length name + length v)"
    using assms(2) by (simp add: find_from_def)
  then show ?thesis using assms(1, 2) by (simp add: header_value_def sub_until_def)
qed

section \<open>Header lines\<close>

definition header_lines :: "string list \<Rightarrow> string" where
  "header_lines ls = concat (map (\<lambda>l. l @ crlf) ls)"

lemma find_blank_step: "x \<noteq> CHR 0x0D \<Longrightarrow> CHR 0x0D \<notin> set a \<Longrightarrow>
    find_sub blank_line (a @ crlf @ x # xs) = map_option (\<lambda>k. length a + (2 + k)) (find_sub blank_line (x # xs))"
  by (subst find_sub_skip) (simp_all add: crlf_def option.map_comp comp_def)

lemma find_blank_lines:
  assumes "ls \<noteq> []" "list_all (\<lambda>l. l \<noteq> [] \<and> CHR 0x0D \<notin> set l) ls"
  shows "find_sub blank_line (header_lines ls @ crlf @ body) = Some (length (header_lines ls) - 2)"
  using assms
proof (induction ls rule: list_nonempty_induct)
  case (single l)
  then have "find_sub blank_line (l @ blank_line @ body) = Some (length l)"
    by (intro find_sub_at) (simp_all add: crlf_def)
  then show ?case by (simp add: header_lines_def crlf_def)
next
  case (cons l ls)
  then obtain x xs where l2: "hd ls = x # xs" "x \<noteq> CHR 0x0D" by (cases ls; cases "hd ls") auto
  then have "\<exists>ys. header_lines ls @ crlf @ body = x # ys" using cons.hyps by (cases ls) (auto simp: header_lines_def)
  then obtain ys where ys: "header_lines ls @ crlf @ body = x # ys" ..
  have "2 \<le> length (header_lines ls)" using cons.hyps by (cases ls) (simp_all add: header_lines_def crlf_def)
  with find_blank_step [OF l2(2), of l ys] cons show ?case
    by (simp add: header_lines_def [of "l # ls"] header_lines_def [symmetric] ys [symmetric]) (simp add: crlf_def)
qed

text \<open>A search for a name steps over the lines that do not contain it; a name does not run over the end of a line.\<close>

lemma find_sub_skip_line:
  assumes "\<not> contains name l" "CHR 0x0D \<notin> set name" "CHR 0x0A \<notin> set name" "name \<noteq> []"
  shows "find_sub name (l @ crlf @ t) = map_option (\<lambda>k. length l + 2 + k) (find_sub name t)"
  using assms(1)
proof (induction l)
  case Nil
  obtain x xs where "name = x # xs" "x \<noteq> CHR 0x0D" "x \<noteq> CHR 0x0A" using assms(2-4) by (cases name) auto
  then show ?case by (cases "find_sub name t") (simp_all add: crlf_def)
next
  case (Cons c l)
  have "\<not> starts_with name ((c # l) @ crlf @ t)"
  proof
    assume st: "starts_with name ((c # l) @ crlf @ t)"
    show False
    proof (cases "length name \<le> length (c # l)")
      case True
      then have "take (length name) ((c # l) @ crlf @ t) = take (length name) (c # l)" by (subst take_append) simp
      with st have "starts_with name (c # l)" by (simp only: starts_with_def)
      with Cons.prems show False by (simp add: contains_def)
    next
      case False
      with st have "name ! length (c # l) = CHR 0x0D"
        by (auto simp: starts_with_def crlf_def dest!: arg_cong [where f = "\<lambda>x. x ! length (c # l)"])
      with False assms(2) show False by (metis not_le nth_mem)
    qed
  qed
  moreover have "\<not> contains name l" using Cons.prems by (auto simp: contains_def split: if_splits)
  ultimately show ?case using Cons.IH by (simp add: option.map_comp comp_def)
qed

lemma find_sub_skip_lines:
  assumes "list_all (\<lambda>l. \<not> contains name l) ls" "CHR 0x0D \<notin> set name" "CHR 0x0A \<notin> set name" "name \<noteq> []"
  shows "find_sub name (header_lines ls @ t) = map_option (\<lambda>k. length (header_lines ls) + k) (find_sub name t)"
  using assms(1)
proof (induction ls)
  case Nil
  then show ?case by (cases "find_sub name t") (simp_all add: header_lines_def)
next
  case (Cons l ls)
  have "header_lines (l # ls) @ t = l @ crlf @ (header_lines ls @ t)" by (simp add: header_lines_def)
  with Cons find_sub_skip_line [OF _ assms(2-4), of l "header_lines ls @ t"] show ?case
    by (simp add: option.map_comp comp_def) (simp add: header_lines_def crlf_def ac_simps)
qed

text \<open>The value of a header is read from the first line that contains its name, when that line starts with it.\<close>

lemma header_line_value:
  assumes "find (contains name) ls = Some (name @ v)" "list_all (\<lambda>l. CHR 0x0D \<notin> set l) ls"
    and "CHR 0x0A \<notin> set name" "name \<noteq> []"
  shows "header_value name (header_lines ls @ t) = Some v"
proof -
  from assms(1) obtain i where i: "i < length ls" "ls ! i = name @ v" "\<And>j. j < i \<Longrightarrow> \<not> contains name (ls ! j)"
    by (auto simp: find_Some_iff)
  define a b where "a = take i ls" and "b = drop (Suc i) ls"
  have ls: "ls = a @ (name @ v) # b" using i(1, 2) by (simp add: a_def b_def id_take_nth_drop [symmetric] flip: i(2))
  have a: "list_all (\<lambda>l. \<not> contains name l) a" using i(1, 3) by (auto simp: a_def list_all_length)
  have cr: "CHR 0x0D \<notin> set name" "CHR 0x0D \<notin> set v" using assms(2) ls by auto
  have split: "header_lines ls @ t = header_lines a @ name @ v @ crlf @ (header_lines b @ t)"
    by (simp add: ls header_lines_def)
  have "starts_with name (name @ v @ crlf @ (header_lines b @ t))" by (rule starts_with_refl_append)
  then have "find_sub name (name @ v @ crlf @ (header_lines b @ t)) = Some 0"
    using assms(4) by (cases name) simp_all
  then have "find_sub name (header_lines ls @ t) = Some (length (header_lines a))"
    unfolding split using find_sub_skip_lines [OF a cr(1) assms(3, 4)] by simp
  then show ?thesis by (rule header_value_line [OF _ split cr])
qed

section \<open>A request that runs a command\<close>

text \<open>A request as a client sends it: its request line, its headers, a blank line and the body.\<close>

definition exec_request :: "string list \<Rightarrow> string \<Rightarrow> string" where
  "exec_request ls body = header_lines ls @ crlf @ body"

definition token_ok :: "dashboard_server \<Rightarrow> bool" where
  "token_ok s = (length (ds_token s) = 64 \<and> list_all (\<lambda>c. c \<in> set ''0123456789abcdef'') (ds_token s))"

lemma token_free: "token_ok s \<Longrightarrow> c \<notin> set ''0123456789abcdef'' \<Longrightarrow> c \<notin> set (ds_token s)"
  unfolding token_ok_def list_all_iff by blast

lemma check_token_value:
  assumes "header_value ''X-Astartis-Token:'' r = Some ('' '' @ ds_token s)" "token_ok s"
  shows "check_token s r"
proof -
  let ?t = "ds_token s"
  have ne: "?t \<noteq> []" using assms(2) by (auto simp: token_ok_def)
  have nb: "\<not> is_blank c \<and> c \<noteq> CHR 0x0D \<and> c \<noteq> CHR 0x0A" if "c \<in> set ?t" for c
    using token_free [OF assms(2), of "CHR '' ''"] token_free [OF assms(2), of "CHR 0x09"]
      token_free [OF assms(2), of "CHR 0x0D"] token_free [OF assms(2), of "CHR 0x0A"] that by (auto simp: is_blank_def)
  have keep: "dropWhile P ys = ys" if "\<And>c. c \<in> set ys \<Longrightarrow> \<not> P c" for P and ys :: string
    using that by (cases ys) auto
  have front: "dropWhile is_blank ('' '' @ ?t) = ?t" using keep [of ?t is_blank] nb by (simp add: is_blank_def)
  have rear: "dropWhile (\<lambda>c. is_blank c \<or> c = CHR 0x0D \<or> c = CHR 0x0A) (rev ?t) = rev ?t"
    by (rule keep) (use nb in auto)
  show ?thesis unfolding check_token_def assms(1) option.case Let_def front rear using ne by simp
qed

text \<open>
  What the client's lines must be: the request line asks for \<^verbatim>\<open>/exec\<close>; no line is empty or contains a carriage return;
  all lines together stay below 64 KB; the first line that contains the name of the length header is that header with
  the length of the body, and the first that contains the name of the token header is that header with the token.
\<close>

definition exec_lines :: "dashboard_server \<Rightarrow> string list \<Rightarrow> nat \<Rightarrow> bool" where
  "exec_lines s ls n =
     (ls \<noteq> [] \<and> request_line (hd ls) = (''POST'', ''/exec'') \<and> list_all (\<lambda>l. l \<noteq> [] \<and> CHR 0x0D \<notin> set l) ls
      \<and> length (header_lines ls) < 65536
      \<and> find (contains ''Content-Length:'') ls = Some (''Content-Length: '' @ str_of_nat n)
      \<and> find (contains ''X-Astartis-Token:'') ls = Some (''X-Astartis-Token: '' @ ds_token s))"

text \<open>The origin check: the first line that contains \<^verbatim>\<open>Origin:\<close> names a local page, or the text occurs neither in a line
  nor in the body.\<close>

definition local_origin :: "string list \<Rightarrow> string \<Rightarrow> bool" where
  "local_origin ls body =
     (case find (contains ''Origin:'') ls of
        Some l \<Rightarrow> starts_with ''Origin: http://127.0.0.1'' l \<or> starts_with ''Origin: http://localhost'' l
      | None \<Rightarrow> \<not> contains ''Origin:'' body)"

lemma lines_end:
  assumes "ls \<noteq> []"
  obtains h where "header_lines ls = h @ crlf"
proof
  have "header_lines ls = header_lines (butlast ls) @ last ls @ crlf"
    using assms by (metis append.right_neutral append_butlast_last_id concat.simps concat_append header_lines_def list.simps(8, 9) map_append)
  then show "header_lines ls = (header_lines (butlast ls) @ last ls) @ crlf" by simp
qed

lemma lines_cr: "list_all (\<lambda>l. l \<noteq> [] \<and> CHR 0x0D \<notin> set l) ls \<Longrightarrow> list_all (\<lambda>l. CHR 0x0D \<notin> set l) ls"
  by (simp add: list_all_iff)

lemma exec_line_headers:
  assumes "exec_lines s ls n" "token_ok s" "n < 2 ^ 32"
  shows "content_length (header_lines ls @ t) = n" "check_token s (header_lines ls @ t)"
    "find_sub crlf (header_lines ls @ t) = Some (length (hd ls))" "take (length (hd ls)) (header_lines ls @ t) = hd ls"
proof -
  have ls: "ls \<noteq> []" and cr: "list_all (\<lambda>l. CHR 0x0D \<notin> set l) ls"
    and len: "find (contains ''Content-Length:'') ls = Some (''Content-Length:'' @ '' '' @ str_of_nat n)"
    and tok: "find (contains ''X-Astartis-Token:'') ls = Some (''X-Astartis-Token:'' @ '' '' @ ds_token s)"
    using assms(1) lines_cr by (simp_all add: exec_lines_def)
  have "stoul (wide ('' '' @ str_of_nat n)) = stoul (wide (str_of_nat n))"
    by (simp add: stoul_def wide_def wide_space_def)
  with header_line_value [OF len cr, of t] assms(3) stoul_str_of_nat [of n]
  show "content_length (header_lines ls @ t) = n" by (simp add: content_length_def)
  show "check_token s (header_lines ls @ t)"
    by (rule check_token_value [OF _ assms(2)], rule header_line_value [OF tok cr]) simp_all
  obtain l ls' where l: "ls = l # ls'" using ls by (cases ls) auto
  then have h: "header_lines ls @ t = l @ crlf @ (header_lines ls' @ t)" by (simp add: header_lines_def)
  have "CHR 0x0D \<notin> set l" using cr l by simp
  from find_crlf [OF this] show "find_sub crlf (header_lines ls @ t) = Some (length (hd ls))"
    "take (length (hd ls)) (header_lines ls @ t) = hd ls" by (simp_all add: h) (simp_all add: l)
qed

lemma exec_origin:
  assumes "local_origin ls body" "list_all (\<lambda>l. CHR 0x0D \<notin> set l) ls" "t @ u = body"
  shows "check_origin (header_lines ls @ crlf @ t)"
proof (cases "find (contains ''Origin:'') ls")
  case None
  then have none: "list_all (\<lambda>l. \<not> contains ''Origin:'' l) ls" by (auto simp: find_None_iff list_all_iff)
  have "\<not> contains ''Origin:'' t" using assms(1, 3) None contains_append1 [of "''Origin:''" t u] by (auto simp: local_origin_def)
  then have "find_sub ''Origin:'' t = None" by (simp add: contains_def)
  then have "find_sub ''Origin:'' (crlf @ t) = None"
    using find_sub_skip_line [of "''Origin:''" "[]" t] by (simp add: contains_def)
  then have "find_sub ''Origin:'' (header_lines ls @ crlf @ t) = None"
    using find_sub_skip_lines [OF none, of "crlf @ t"] by simp
  then show ?thesis by (simp add: check_origin_def)
next
  case (Some l)
  then have "starts_with ''Origin: http://127.0.0.1'' l \<or> starts_with ''Origin: http://localhost'' l"
    using assms(1) by (simp add: local_origin_def)
  then obtain v where l: "l = ''Origin:'' @ '' '' @ v" and v: "starts_with ''http://127.0.0.1'' v \<or> starts_with ''http://localhost'' v"
  proof
    assume "starts_with ''Origin: http://127.0.0.1'' l"
    then obtain u where "l = ''Origin: http://127.0.0.1'' @ u" unfolding starts_with_append by blast
    then have "l = ''Origin:'' @ '' '' @ ''http://127.0.0.1'' @ u" by simp
    then show thesis by (rule that) (simp only: starts_with_refl_append simp_thms)
  next
    assume "starts_with ''Origin: http://localhost'' l"
    then obtain u where "l = ''Origin: http://localhost'' @ u" unfolding starts_with_append by blast
    then have "l = ''Origin:'' @ '' '' @ ''http://localhost'' @ u" by simp
    then show thesis by (rule that) (simp only: starts_with_refl_append simp_thms)
  qed
  have hv: "header_value ''Origin:'' (header_lines ls @ crlf @ t) = Some ('' '' @ v)"
    using Some assms(2) unfolding l by (rule header_line_value) simp_all
  then obtain k where k: "find_sub ''Origin:'' (header_lines ls @ crlf @ t) = Some k" by (auto simp: header_value_def split: option.splits)
  have front: "dropWhile is_blank ('' '' @ v) = v" using v by (cases v) (auto simp: is_blank_def)
  have "v \<noteq> []" using v by auto
  with v show ?thesis unfolding check_origin_def k hv option.case Let_def front by simp
qed

text \<open>What is read of a request, and that the rest of the body follows.\<close>

lemma exec_request_read:
  assumes ls: "ls \<noteq> []" "list_all (\<lambda>l. l \<noteq> [] \<and> CHR 0x0D \<notin> set l) ls" "length (header_lines ls) < 65536"
    and n: "length body \<le> MAX_BODY"
    and ks: "list_all (\<lambda>k. 0 < k) ks" "length (exec_request ls body) \<le> length ks"
  shows "\<exists>t rest. read_headers [] (exec_request ls body, ks) = (header_lines ls @ crlf @ t, rest)
    \<and> t @ fst rest = body \<and> read_full_body (header_lines ls @ crlf @ t) (length body) rest = body"
proof -
  obtain h where h: "header_lines ls = h @ crlf" using lines_end [OF ls(1)] by blast
  have blank: "find_sub blank_line (h @ blank_line @ x) = Some (length h)" for x
    using find_blank_lines [OF ls(1, 2), of x] by (simp add: h crlf_def)
  have req: "exec_request ls body = h @ blank_line @ body" by (simp add: exec_request_def h)
  obtain raw bs ks' where r: "read_headers [] (exec_request ls body, ks) = (raw, bs, ks')" by (metis prod_cases3)
  have at: "find_sub blank_line ([] @ exec_request ls body) = Some (length h)" using blank by (simp add: req)
  have "length h + 4 \<le> 65537" using ls(3) by (simp add: h crlf_def)
  from read_headers_complete [OF at this _ ks] r
  have raw: "contains blank_line raw" and ks': "list_all (\<lambda>k. 0 < k) ks'" "length bs \<le> length ks'"
    by (simp_all add: contains_def crlf_def)
  have cat: "raw @ bs = h @ blank_line @ body"
    using read_headers_concat [OF r] by (simp add: req)
  obtain i where i: "find_sub blank_line raw = Some i" using raw by (auto simp: contains_def)
  from find_sub_extend [OF i, of bs] blank [of body] cat have il: "i = length h" by simp
  from find_sub_Some [OF i] obtain u where u: "drop (length h) raw = blank_line @ u" by (auto simp: il starts_with_append)
  have "take (length h) raw = h"
  proof -
    have "length h \<le> length raw" using find_sub_Some [OF i] il by simp
    then have "take (length h) raw = take (length h) (raw @ bs)" by simp
    then show ?thesis unfolding cat by simp
  qed
  with u have t: "raw = h @ blank_line @ u" by (metis append_take_drop_id)
  have split: "u @ bs = body" using cat by (simp add: t)
  have "recv_body (length body) u (bs, ks') = u @ bs"
    by (rule recv_body_complete) (use split ks' in simp_all)
  then have "read_full_body raw (length body) (bs, ks') = body"
    using blank [of u] n split by (simp add: read_full_body_def t crlf_def)
  with r t split show ?thesis by (auto simp: h)
qed

text \<open>
  C15. A client that holds the token is served: whatever other headers its POST request for \<^verbatim>\<open>/exec\<close> has, and however
  the request is cut into pieces on the way, as long as they all arrive, the command in the body is handled, the whole
  body and nothing else. The body is at most 512 KB and the lines before it stay below 64 KB; the first lines that
  contain the names of the length and the token headers are those headers; and since the origin check looks for its
  text in all bytes read so far, either the first line with \<^verbatim>\<open>Origin:\<close> names a local page or neither lines nor body
  contain the text.
\<close>

theorem exec_request_served:
  assumes "token_ok s" "exec_lines s ls (length body)" "local_origin ls body" "length body \<le> MAX_BODY"
    and "list_all (\<lambda>k. 0 < k) ks" "length (exec_request ls body) \<le> length ks"
  shows "handle_connection env s (exec_request ls body, ks) w = handle_exec env body w"
proof -
  have ls: "ls \<noteq> []" "list_all (\<lambda>l. l \<noteq> [] \<and> CHR 0x0D \<notin> set l) ls" "length (header_lines ls) < 65536"
    and line: "request_line (hd ls) = (''POST'', ''/exec'')"
    using assms(2) by (simp_all add: exec_lines_def)
  obtain t rest where r: "read_headers [] (exec_request ls body, ks) = (header_lines ls @ crlf @ t, rest)"
    and t: "t @ fst rest = body" "read_full_body (header_lines ls @ crlf @ t) (length body) rest = body"
    using exec_request_read [OF ls assms(4-6)] by blast
  have n: "length body < 2 ^ 32" using assms(4) by (simp add: MAX_BODY_def)
  note h = exec_line_headers [OF assms(2, 1) n, of "crlf @ t"]
  have o: "check_origin (header_lines ls @ crlf @ t)" using assms(3) lines_cr [OF ls(2)] t(1) by (rule exec_origin)
  show ?thesis
    unfolding handle_connection_def r Let_def case_prod_conv h(3) option.case h(4) line respond_def h(1) t(2)
    by (simp add: authorised_def h(2) o)
qed

definition demo_server :: dashboard_server where
  "demo_server = new_dashboard_server ''dash'' ''dash/dashboard_data.json'' False (replicate 64 (CHR ''0''))"

definition demo_http_env :: http_env where
  "demo_http_env = \<lparr>he_parse = (\<lambda>t. Some (JObject [(''cmd'', JString t)])), he_dump = (\<lambda>_. Some []), he_dump2 = (\<lambda>_. Some []),
     he_exists = (\<lambda>files p. files p \<noteq> None), he_writable = (\<lambda>_ _. True), he_pipe = True,
     he_spawn = (\<lambda>files _. Some \<lparr>sp_reads = [case files ''dash/secret.txt'' of None \<Rightarrow> [] | Some text \<Rightarrow> text], sp_timed_out = False\<rparr>),
     he_runas = (\<lambda>_ _ _. Not_started 0), he_now_ms = 0\<rparr>"

definition demo_http_world :: http_world where
  "demo_http_world = \<lparr>hw_files = (\<lambda>_. None), hw_sent = [], hw_spawned = [], hw_elevated = [], hw_saved = [], hw_crashed = False\<rparr>"

definition demo_lines :: "string list" where
  "demo_lines = [''POST /exec?q=1 HTTP/1.1'', ''Host: 127.0.0.1:8080'', ''User-Agent: curl/8.5'',
     ''Origin: http://127.0.0.1:8080'', ''X-Astartis-Token: '' @ ds_token demo_server, ''Content-Length: 8'',
     ''Content-Type: application/json'']"

theorem exec_request_served_witness:
  "hw_spawned (handle_connection demo_http_env demo_server (exec_request demo_lines ''ipconfig'', replicate 400 3) demo_http_world)
     = [''ipconfig'']"
proof -
  have "token_ok demo_server" by (simp add: token_ok_def demo_server_def new_dashboard_server_def list_all_iff)
  moreover have "exec_lines demo_server demo_lines (length ''ipconfig'')" by code_simp
  moreover have "local_origin demo_lines ''ipconfig''" by code_simp
  moreover have "length (exec_request demo_lines ''ipconfig'') \<le> length (replicate 400 (3 :: nat))" by code_simp
  ultimately have e: "handle_connection demo_http_env demo_server (exec_request demo_lines ''ipconfig'', replicate 400 3) demo_http_world
      = handle_exec demo_http_env ''ipconfig'' demo_http_world"
    by (intro exec_request_served) (simp_all add: MAX_BODY_def list_all_iff)
  have "hw_spawned (handle_exec demo_http_env ''ipconfig'' demo_http_world) = [''ipconfig'']" by code_simp
  then show ?thesis by (simp only: e)
qed

text \<open>The origin check compares a prefix, so that other hosts pass, and it finds the text anywhere, in the target too.\<close>

lemma foreign_origin_accepted:
  "check_origin (''POST /exec HTTP/1.1'' @ crlf @ ''Origin: http://localhost.evil.example'' @ crlf @ crlf)"
  "check_origin (''POST /exec?Origin:http://localhost HTTP/1.1'' @ crlf @ ''Origin: http://evil.example'' @ crlf @ crlf)"
  by code_simp+

section \<open>Who may do what\<close>

text \<open>
  C7. Whatever arrives on a connection, it starts a process, runs the elevated helper, writes a file or calls the
  configuration callback only for a POST request whose bytes pass the token check and the origin check.
\<close>

theorem actions_need_token:
  "let (raw, _) = read_headers [] c; w' = handle_connection env s c w in
    same_effects w w' \<or>
    (check_token s raw \<and> check_origin raw \<and>
     (case find_sub crlf raw of None \<Rightarrow> False | Some i \<Rightarrow> fst (request_line (take i raw)) = ''POST''))"
  using respond_acts [of w env s "fst (read_headers [] c)" _ "snd (read_headers [] c)"]
  by (auto simp: handle_connection_def case_prod_beta Let_def split: option.split)

text \<open>
  C8. The command line of a process that a connection starts is a routed command: its first word is one of the
  whitelist, it has none of the rejected characters, and at most one is started. (The whitelist does not look at the
  rest of the line.)
\<close>

theorem commands_whitelisted:
  "let w' = handle_connection env s c w in
    hw_spawned w' = hw_spawned w \<or>
    (\<exists>cmd. first_word cmd \<in> set (map cm_prefix SAFE_CMDS) \<and> list_all (\<lambda>x. \<not> is_bad_char x) cmd
       \<and> hw_spawned w' = hw_spawned w @ [routed cmd])"
proof (cases "find_sub crlf (fst (read_headers [] c))")
  case (Some i)
  from respond_spawned [of env s "fst (read_headers [] c)" "request_line (take i (fst (read_headers [] c)))"
      "snd (read_headers [] c)" w] Some
  show ?thesis
    by (auto simp: handle_connection_def case_prod_beta Let_def may_run_def list_all_iff list_ex_iff)
qed (simp add: handle_connection_def case_prod_beta)

text \<open>The whitelisted words reach far: a process is created, the firewall is switched off. The PowerShell cmdlets that
  the help text offers are always refused, since the prefix must be followed by a blank.\<close>

lemma whitelist_reaches_far:
  "exec_command env ''wmic process call create calc.exe'' w = run_command_line env ''wmic process call create calc.exe'' w"
  "exec_command env ''netsh advfirewall set allprofiles state off'' w =
     run_command_line env ''netsh advfirewall set allprofiles state off'' w"
  by (simp_all add: exec_command_routed first_word_def routed_def SAFE_CMDS_def is_bad_char_def)

lemma cmdlets_refused:
  assumes "c \<noteq> CHR '' ''" "\<not> list_ex is_bad_char (''Get-'' @ c # x)"
  shows "exec_command env (''Get-'' @ c # x) w = send_error env 403 ''Command not in whitelist'' w"
  using assms by (simp add: exec_command_routed first_word_def SAFE_CMDS_def)

lemma token_in_meta: "contains (ds_token s) (token_meta s)"
proof -
  have "token_meta s = (''<meta name='' @ dquote @ ''astartis-token'' @ dquote @ '' content='' @ dquote) @ ds_token s @ (dquote @ ''>'')"
    by (simp add: token_meta_def)
  then show ?thesis unfolding contains_iff by blast
qed

text \<open>
  The token is no secret to local clients: whoever asks for the page of the dashboard gets it in the reply, without
  showing any header.
\<close>

theorem index_reveals_token:
  assumes "hw_files w (ds_dashboard_dir s @ ''/index.html'') = Some page" "contains ''<head>'' page"
    and "find_sub crlf (fst (read_headers [] c)) = Some i"
    and "request_line (take i (fst (read_headers [] c))) = (''GET'', ''/'')"
  shows "contains (ds_token s) (hw_sent (handle_connection env s c w))"
proof -
  obtain k where "find_sub ''<head>'' page = Some k" using assms(2) by (auto simp: contains_def)
  then have "\<exists>a b. hw_sent (serve_index env s w) = a @ token_meta s @ b"
    by (simp add: serve_index_def send_response_def assms(1) Let_def) (metis append_assoc)
  then have "contains (token_meta s) (hw_sent (serve_index env s w))" unfolding contains_iff .
  with token_in_meta [of s] have "contains (ds_token s) (hw_sent (serve_index env s w))" by (rule contains_trans)
  then show ?thesis using assms(3, 4) by (simp add: handle_connection_def respond_def case_prod_beta Let_def)
qed

definition demo_page :: string where
  "demo_page = ''<html><head></head></html>''"

definition demo_get :: string where
  "demo_get = ''GET / HTTP/1.1'' @ crlf @ crlf"

theorem index_reveals_token_witness:
  "contains (ds_token demo_server) (hw_sent (handle_connection demo_http_env demo_server (demo_get, [100])
     (demo_http_world\<lparr>hw_files := [''dash/index.html'' \<mapsto> demo_page]\<rparr>)))"
proof (rule index_reveals_token [where page = demo_page and i = 14])
  show "hw_files (demo_http_world\<lparr>hw_files := [''dash/index.html'' \<mapsto> demo_page]\<rparr>) (ds_dashboard_dir demo_server @ ''/index.html'')
      = Some demo_page" by (simp add: demo_server_def new_dashboard_server_def)
  show "contains ''<head>'' demo_page" by code_simp
  show "find_sub crlf (fst (read_headers [] (demo_get, [100]))) = Some 14" by code_simp
  show "request_line (take 14 (fst (read_headers [] (demo_get, [100])))) = (''GET'', ''/'')" by code_simp
qed

section \<open>Which files it shows\<close>

definition served_files :: "dashboard_server \<Rightarrow> string list" where
  "served_files s = [ds_dashboard_dir s @ ''/index.html'', ds_dashboard_dir s @ ''/style.css'',
     ds_dashboard_dir s @ ''/script.js'', ds_data_json_path s, helper_result_path s, ds_config_path s]"

text \<open>What can be observed of an outcome, apart from the files.\<close>

definition observed :: "http_world \<Rightarrow> string \<times> bool \<times> string list \<times> (string \<times> string) list \<times> string list" where
  "observed w = (hw_sent w, hw_crashed w, hw_spawned w, hw_elevated w, hw_saved w)"

lemma send_response_observed:
  "observed v = observed w \<Longrightarrow> observed (send_response st ct b cors v) = observed (send_response st ct b cors w)"
  by (simp add: observed_def send_response_def)

lemma send_dumped_observed: "observed v = observed w \<Longrightarrow> observed (send_dumped st t v) = observed (send_dumped st t w)"
  by (cases t) (auto simp: send_dumped_def send_response_def observed_def)

lemma send_error_observed: "observed v = observed w \<Longrightarrow> observed (send_error env st m v) = observed (send_error env st m w)"
  unfolding send_error_def by (rule send_dumped_observed)

lemmas sends_observed = send_response_observed send_dumped_observed send_error_observed

definition alike :: "dashboard_server \<Rightarrow> http_world \<Rightarrow> http_world \<Rightarrow> bool" where
  "alike s v w = (observed v = observed w \<and> map (hw_files v) (served_files s) = map (hw_files w) (served_files s))"

lemma alike_observed: "alike s v w \<Longrightarrow> observed v = observed w"
  by (simp add: alike_def)

lemma alike_files:
  assumes "alike s v w"
  shows "hw_files v (ds_dashboard_dir s @ ''/index.html'') = hw_files w (ds_dashboard_dir s @ ''/index.html'')"
    "path = ''/style.css'' \<or> path = ''/script.js'' \<Longrightarrow>
      hw_files v (ds_dashboard_dir s @ path) = hw_files w (ds_dashboard_dir s @ path)"
    "hw_files v (ds_data_json_path s) = hw_files w (ds_data_json_path s)"
    "hw_files v (helper_result_path s) = hw_files w (helper_result_path s)"
    "hw_files v (ds_config_path s) = hw_files w (ds_config_path s)"
  using assms by (auto simp: alike_def served_files_def)

lemma if_alike:
  "(b \<Longrightarrow> observed x = observed x') \<Longrightarrow> (\<not> b \<Longrightarrow> observed y = observed y') \<Longrightarrow>
   observed (if b then x else y) = observed (if b then x' else y')"
  by simp

lemma option_alike:
  "(x = None \<Longrightarrow> observed a = observed a') \<Longrightarrow> (\<And>y. x = Some y \<Longrightarrow> observed (f y) = observed (f' y)) \<Longrightarrow>
   observed (case x of None \<Rightarrow> a | Some y \<Rightarrow> f y) = observed (case x of None \<Rightarrow> a' | Some y \<Rightarrow> f' y)"
  by (cases x) simp_all

lemma updates_alike:
  assumes "observed v = observed w"
  shows "observed (v\<lparr>hw_sent := hw_sent v @ x\<rparr>) = observed (w\<lparr>hw_sent := hw_sent w @ x\<rparr>)"
  using assms by (simp add: observed_def)

lemmas alike_intros = if_alike option_alike sends_observed updates_alike

lemma files_alike:
  assumes a: "alike s v w"
  shows "observed (serve_index env s v) = observed (serve_index env s w)"
    "path = ''/style.css'' \<or> path = ''/script.js'' \<Longrightarrow> observed (serve_static env s path v) = observed (serve_static env s path w)"
    "observed (serve_data_json env s v) = observed (serve_data_json env s w)"
    "observed (serve_npcap_result env s v) = observed (serve_npcap_result env s w)"
    "observed (handle_config_get env s v) = observed (handle_config_get env s w)"
    "observed (serve_health env v) = observed (serve_health env w)"
    "observed (handle_cors_preflight v) = observed (handle_cors_preflight w)"
proof -
  note o = alike_observed [OF a]
  show "observed (serve_index env s v) = observed (serve_index env s w)"
    unfolding serve_index_def alike_files(1) [OF a] Let_def by (intro alike_intros o)
  show "observed (serve_static env s path v) = observed (serve_static env s path w)"
    if "path = ''/style.css'' \<or> path = ''/script.js''"
    unfolding serve_static_def alike_files(2) [OF a that] by (intro alike_intros o)
  show "observed (serve_data_json env s v) = observed (serve_data_json env s w)"
    unfolding serve_data_json_def alike_files(3) [OF a] by (intro alike_intros o)
  show "observed (serve_npcap_result env s v) = observed (serve_npcap_result env s w)"
    unfolding serve_npcap_result_def alike_files(4) [OF a] by (intro alike_intros o)
  show "observed (handle_config_get env s v) = observed (handle_config_get env s w)"
    unfolding handle_config_get_def alike_files(5) [OF a] by (intro alike_intros o)
  show "observed (serve_health env v) = observed (serve_health env w)"
    unfolding serve_health_def by (intro alike_intros o)
  show "observed (handle_cors_preflight v) = observed (handle_cors_preflight w)"
    unfolding handle_cors_preflight_def by (rule updates_alike [OF o])
qed

lemma authorised_alike:
  "observed v = observed w \<Longrightarrow> observed (act v) = observed (act w) \<Longrightarrow>
   observed (authorised env s raw act v) = observed (authorised env s raw act w)"
  unfolding authorised_def by (intro if_alike send_error_observed)

lemma refused_alike:
  "observed v = observed w \<Longrightarrow> \<not> (check_token s raw \<and> check_origin raw) \<Longrightarrow>
   observed (authorised env s raw act v) = observed (authorised env s raw act w)"
  unfolding authorised_def by (intro if_alike send_error_observed) blast+

text \<open>The requests that run something or change a setting.\<close>

definition acting :: "string \<times> string \<Rightarrow> bool" where
  "acting target = (target \<in> set [(''POST'', ''/exec''), (''POST'', ''/npcap_verify''), (''POST'', ''/config'')])"

lemma respond_alike:
  assumes "alike s v w" "\<not> (acting target \<and> check_token s raw \<and> check_origin raw)"
  shows "observed (respond env s raw target c v) = observed (respond env s raw target c w)"
proof -
  note o = alike_observed [OF assms(1)] and f = files_alike [OF assms(1)]
  have refused: "observed (authorised env s raw act v) = observed (authorised env s raw act w)"
    if "fst target = ''POST'' \<and> snd target = path" "path \<in> set [''/exec'', ''/npcap_verify'', ''/config'']" for path act
    by (rule refused_alike [OF o]) (use assms(2) that in \<open>auto simp: acting_def prod_eq_iff\<close>)
  have static: "observed (serve_static env s (snd target) v) = observed (serve_static env s (snd target) w)"
    if "fst target = ''GET'' \<and> (snd target = ''/style.css'' \<or> snd target = ''/script.js'')"
    using that f(2) by blast
  show ?thesis
    unfolding respond_def case_prod_beta Let_def
    by (intro if_alike f(1, 3, 4, 6, 7) send_error_observed [OF o]
        authorised_alike [where act = "handle_config_get env s", OF o f(5)])
      (erule static refused, simp)+
qed

text \<open>
  C16. The server shows six files and no other: two machines that agree on these give a request the same reply and start
  the same processes, whatever the rest of their disks holds and whatever path the request names, unless it is a POST
  for one of the three endpoints that act and its bytes pass the token check and the origin check; what such a
  request runs may look at any file.
\<close>

theorem shows_only_its_files:
  assumes "map (hw_files w) (served_files s) = map files (served_files s)"
  shows "observed (handle_connection env s c (w\<lparr>hw_files := files\<rparr>)) = observed (handle_connection env s c w) \<or>
    (case read_headers [] c of (raw, _) \<Rightarrow> check_token s raw \<and> check_origin raw \<and>
       (case find_sub crlf raw of
          None \<Rightarrow> False
        | Some i \<Rightarrow> request_line (take i raw) \<in> set [(''POST'', ''/exec''), (''POST'', ''/npcap_verify''), (''POST'', ''/config'')]))"
proof -
  have a: "alike s (w\<lparr>hw_files := files\<rparr>) w" using assms by (simp add: alike_def observed_def)
  show ?thesis
  proof (cases "find_sub crlf (fst (read_headers [] c))")
    case None
    with alike_observed [OF a] show ?thesis by (simp add: handle_connection_def case_prod_beta)
  next
    case (Some i)
    have "observed (respond env s (fst (read_headers [] c)) target (snd (read_headers [] c)) (w\<lparr>hw_files := files\<rparr>))
        = observed (respond env s (fst (read_headers [] c)) target (snd (read_headers [] c)) w)
      \<or> acting target \<and> check_token s (fst (read_headers [] c)) \<and> check_origin (fst (read_headers [] c))" for target
      using respond_alike [OF a] by blast
    with Some show ?thesis
      unfolding handle_connection_def acting_def case_prod_beta Let_def by (simp only: option.case) blast
  qed
qed

theorem shows_only_its_files_witness:
  "observed (handle_connection demo_http_env demo_server (demo_get, [100])
       (demo_http_world\<lparr>hw_files := [''dash/index.html'' \<mapsto> demo_page, ''dash/secret.txt'' \<mapsto> ''key'']\<rparr>))
   = observed (handle_connection demo_http_env demo_server (demo_get, [100])
       (demo_http_world\<lparr>hw_files := [''dash/index.html'' \<mapsto> demo_page]\<rparr>))"
proof -
  have f: "served_files demo_server = [''dash/index.html'', ''dash/style.css'', ''dash/script.js'', ''dash/dashboard_data.json'',
      ''dash'' @ [CHR 0x5C] @ ''npcap_verify_result.json'', ''dash'' @ [CHR 0x5C] @ ''config.json'']"
    by code_simp
  have "\<not> check_token demo_server (fst (read_headers [] (demo_get, [100])))" by code_simp
  then show ?thesis
    using shows_only_its_files [of "demo_http_world\<lparr>hw_files := [''dash/index.html'' \<mapsto> demo_page]\<rparr>" demo_server
        "[''dash/index.html'' \<mapsto> demo_page, ''dash/secret.txt'' \<mapsto> ''key'']" demo_http_env "(demo_get, [100])"]
    unfolding f by (simp add: case_prod_beta)
qed

section \<open>The configuration it saves\<close>

definition in_bounds :: "int \<Rightarrow> int \<Rightarrow> string \<Rightarrow> json \<Rightarrow> bool" where
  "in_bounds lo hi key cfg =
     (case json_field key cfg of
        None \<Rightarrow> True
      | Some v \<Rightarrow> (case get_int v of Inl _ \<Rightarrow> False | Inr n \<Rightarrow> lo \<le> n \<and> n \<le> hi))"

text \<open>The settings within their bounds, each as an \<^verbatim>\<open>int\<close> read from the value.\<close>

definition settings_ok :: "json \<Rightarrow> bool" where
  "settings_ok cfg =
     (in_bounds 1 64 ''max_concurrent_tasks'' cfg \<and> in_bounds 5 3600 ''ollama_timeout_s'' cfg \<and> in_bounds 1024 65535 ''ollama_port'' cfg \<and>
      (case json_field ''ollama_host'' cfg of None \<Rightarrow> True | Some v \<Rightarrow> v = JString ''127.0.0.1'' \<or> v = JString ''localhost'') \<and>
      (case json_field ''chaos_threshold'' cfg of
         None \<Rightarrow> True | Some v \<Rightarrow> (case get_double v of Inl _ \<Rightarrow> False | Inr r \<Rightarrow> 0 \<le> r \<and> r \<le> 1)))"

lemma check_field_none:
  "check_field get ok key msg cfg = Inr None \<longleftrightarrow>
     (case json_field key cfg of None \<Rightarrow> True | Some v \<Rightarrow> (case get v of Inl _ \<Rightarrow> False | Inr x \<Rightarrow> ok x))"
  by (auto simp: check_field_def split: option.split sum.split)

lemma first_problem_none: "first_problem rs = Inr None \<longleftrightarrow> list_all (\<lambda>r. r = Inr None) rs"
  by (induction rs) (auto simp: and_then_Inr split: option.splits)

lemma get_string_is: "(case get_string v of Inl _ \<Rightarrow> False | Inr h \<Rightarrow> h = a \<or> h = b) = (v = JString a \<or> v = JString b)"
  by (cases v) auto

lemma config_problem_none: "config_problem cfg = Inr None \<longleftrightarrow> settings_ok cfg"
  unfolding config_problem_def first_problem_none list.pred_inject check_field_none settings_ok_def in_bounds_def get_string_is
  by (simp only: list.pred_inject, blast)

lemma config_post_saves:
  "hw_files (handle_config_post env s body w) (ds_config_path s) = hw_files w (ds_config_path s) \<or>
   (\<exists>cfg. he_parse env body = Some cfg \<and> settings_ok cfg \<and>
      hw_files (handle_config_post env s body w) (ds_config_path s)
        = Some (case he_dump2 env cfg of None \<Rightarrow> [] | Some t \<Rightarrow> t))"
  by (auto simp: handle_config_post_def save_settings_def config_problem_none split: option.split sum.split)

lemma exec_writes_nothing: "hw_files (handle_exec env body w) = hw_files w"
  by (auto simp: handle_exec_def exec_command_def run_command_line_def split: option.split sum.split)

lemma helper_writes_result:
  "p \<noteq> helper_result_path s \<Longrightarrow> hw_files (handle_npcap_verify env s w) p = hw_files w p"
  by (auto simp: handle_npcap_verify_def helper_reply_def Let_def split: option.split elevated.split)

lemma same_effects_files: "same_effects w w' \<Longrightarrow> hw_files w' = hw_files w"
  by (simp add: same_effects_def)

lemma respond_saves:
  assumes "ds_config_path s \<noteq> helper_result_path s"
  shows "hw_files (respond env s raw target c w) (ds_config_path s) = hw_files w (ds_config_path s) \<or>
   (\<exists>cfg. he_parse env (read_full_body raw (content_length raw) c) = Some cfg \<and> settings_ok cfg \<and>
      hw_files (respond env s raw target c w) (ds_config_path s) = Some (case he_dump2 env cfg of None \<Rightarrow> [] | Some t \<Rightarrow> t))"
  using config_post_saves [of env s "read_full_body raw (content_length raw) c" w]
    exec_writes_nothing helper_writes_result [OF assms] files_harmless [THEN same_effects_files]
  by (auto simp: respond_def authorised_def case_prod_beta Let_def)

text \<open>
  What a connection writes to the configuration file is the text of a parsed value whose settings, where present,
  are within their bounds, the model server's host among them; or nothing, when printing it fails.
\<close>

theorem saved_settings_checked:
  "let w' = handle_connection env s c w; p = ds_config_path s in
    hw_files w' p = hw_files w p \<or> p = helper_result_path s \<or>
    (\<exists>cfg. settings_ok cfg \<and> hw_files w' p = Some (case he_dump2 env cfg of None \<Rightarrow> [] | Some t \<Rightarrow> t))"
proof (cases "find_sub crlf (fst (read_headers [] c))")
  case (Some i)
  with respond_saves [of s env "fst (read_headers [] c)" "request_line (take i (fst (read_headers [] c)))"
      "snd (read_headers [] c)" w]
  show ?thesis by (auto simp: handle_connection_def case_prod_beta Let_def)
qed (simp add: handle_connection_def case_prod_beta)

text \<open>The bounds hold of the value cut to 32 bits, not of the number that is saved; and a value that is no object has no
  settings to check.\<close>

lemma settings_wrap: "settings_ok (JObject [(''ollama_port'', JInt (2 ^ 32 + 1024))])" "settings_ok (JArray [])"
  by (simp_all add: settings_ok_def in_bounds_def to_int32_def)

text \<open>Without the callback, which \<^verbatim>\<open>main\<close> does not install, a saved configuration has no effect on the process.\<close>

lemma settings_not_applied:
  assumes "\<not> ds_has_callback s"
  shows "hw_saved (handle_connection env s c w) = hw_saved w"
proof -
  have config: "hw_saved (handle_config_post env s body w) = hw_saved w" for body
    using assms by (auto simp: handle_config_post_def save_settings_def split: option.split sum.split)
  have helper: "hw_saved (handle_npcap_verify env s w) = hw_saved w"
    by (auto simp: handle_npcap_verify_def helper_reply_def Let_def split: option.split elevated.split)
  have exec: "hw_saved (handle_exec env body w) = hw_saved w" for body
    by (auto simp: handle_exec_def exec_command_routed run_command_line_def Let_def split: option.split sum.split)
  have files: "same_effects w w' \<Longrightarrow> hw_saved w' = hw_saved w" for w'
    by (simp add: same_effects_def)
  show ?thesis
    by (auto simp: handle_connection_def respond_def case_prod_beta Let_def authorised_def config helper exec
        files_harmless [THEN files] split: option.split)
qed

text \<open>A setting of the wrong type ends the process, since nothing catches the exception of the read.\<close>

lemma wrong_type_ends_process:
  "he_parse env body = Some (JObject [(''ollama_port'', JString v)]) \<Longrightarrow> hw_crashed (handle_config_post env s body w)"
  by (simp add: handle_config_post_def config_problem_def check_field_def)

section \<open>Sizes and framing\<close>

lemma read_output_length: "length acc < MAX_OUTPUT + 4095 \<Longrightarrow> length (read_output acc cs) < MAX_OUTPUT + 4095"
  by (induction acc cs rule: read_output.induct) auto

text \<open>
  The output of a command that goes into a reply is bounded, whatever the command prints: below 20 KB plus one read,
  plus the notes on the time and on the truncation.
\<close>

theorem command_output_bounded: "length (command_output p) < MAX_OUTPUT + 4095 + 40 + 26"
  using read_output_length [of "[]" "sp_reads p"] by (simp add: command_output_def Let_def nl_def MAX_OUTPUT_def)

lemma str_of_int_free: "c \<notin> set ''-0123456789'' \<Longrightarrow> c \<notin> set (str_of_int i)"
  using str_of_nat_free [of c] by (auto simp: str_of_int_def)

lemma status_text_free: "c \<in> {CHR 0x0D, CHR ''C''} \<Longrightarrow> c \<notin> set (status_text status)"
  by (auto simp: status_text_def)

definition content_types :: "string list" where
  "content_types = [''application/json'', ''text/html; charset=utf-8'', ''text/css'', ''application/javascript'']"

lemma content_type_free: "ct \<in> set content_types \<Longrightarrow> CHR 0x0D \<notin> set ct \<and> CHR ''C'' \<notin> set ct"
  by (auto simp: content_types_def)

lemma response_length:
  assumes "ct \<in> set content_types" "n < 2 ^ 32"
  shows "content_length (response_header status ct n cors @ body) = n"
proof -
  let ?pre = "''HTTP/1.1 '' @ str_of_int status @ '' '' @ status_text status @ crlf @ ''Content-Type: '' @ ct @ crlf"
  let ?post = "''Connection: close'' @ crlf @ CSP @ crlf
     @ (if cors then ''Access-Control-Allow-Origin: http://127.0.0.1'' @ crlf else []) @ crlf @ body"
  note free = content_type_free [OF assms(1)] str_of_int_free [of "CHR ''C''" status] status_text_free [of "CHR ''C''" status]
  have r: "response_header status ct n cors @ body = ?pre @ ''Content-Length:'' @ ('' '' @ str_of_nat n) @ crlf @ ?post"
    by (simp add: response_header_def)
  have inner: "find_sub ''Content-Length:'' (''Content-Type: '' @ ct @ crlf @ ''Content-Length:'' @ x) = Some (length (''Content-Type: '' @ ct @ crlf))" for x
  proof -
    have "find_sub ''Content-Length:'' ((ct @ crlf) @ ''Content-Length:'' @ x) = Some (length (ct @ crlf))"
      by (rule find_sub_at) (use free in \<open>simp_all add: crlf_def\<close>)
    then show ?thesis by (simp add: crlf_def)
  qed
  have at: "find_sub ''Content-Length:'' (?pre @ ''Content-Length:'' @ x) = Some (length ?pre)" for x
  proof -
    have "find_sub ''Content-Length:'' ((''HTTP/1.1 '' @ str_of_int status @ '' '' @ status_text status @ crlf)
        @ (''Content-Type: '' @ ct @ crlf @ ''Content-Length:'' @ x)) =
      Some (length (''HTTP/1.1 '' @ str_of_int status @ '' '' @ status_text status @ crlf) + length (''Content-Type: '' @ ct @ crlf))"
      by (subst find_sub_skip) (use free inner in \<open>simp_all add: crlf_def\<close>)
    then show ?thesis by (simp add: crlf_def)
  qed
  have "header_value ''Content-Length:'' (response_header status ct n cors @ body) = Some ('' '' @ str_of_nat n)"
  proof (rule header_value_line [where pre = ?pre and post = ?post])
    show "find_sub ''Content-Length:'' (response_header status ct n cors @ body) = Some (length ?pre)" unfolding r by (rule at)
    show "CHR 0x0D \<notin> set ('' '' @ str_of_nat n)" using str_of_nat_free [of "CHR 0x0D" n] by simp
  qed (rule r, simp)
  moreover have "stoul (wide ('' '' @ str_of_nat n)) = stoul (wide (str_of_nat n))"
    by (simp add: stoul_def wide_def wide_space_def)
  ultimately show ?thesis using assms(2) stoul_str_of_nat [of n] by (simp add: content_length_def)
qed

lemma response_header_lines:
  "response_header status ct n cors = header_lines
     ([''HTTP/1.1 '' @ str_of_int status @ '' '' @ status_text status, ''Content-Type: '' @ ct,
       ''Content-Length: '' @ str_of_nat n, ''Connection: close'', CSP]
      @ (if cors then [''Access-Control-Allow-Origin: http://127.0.0.1''] else [])) @ crlf"
  by (simp add: response_header_def header_lines_def)

text \<open>
  C31. A reply is framed: whatever its body holds, the blank line and the \<^verbatim>\<open>Content-Length\<close> that a client finds in it
  are those of the header, and the body read back by them is the body that was sent.
\<close>

theorem response_framed:
  assumes "ct \<in> set content_types" "length body < 2 ^ 32"
  shows "let r = response_header status ct (length body) cors @ body in
    content_length r = length body \<and> read_full_body r (content_length r) ([], []) = body"
proof -
  define r where "r = response_header status ct (length body) cors @ body"
  let ?ls = "[''HTTP/1.1 '' @ str_of_int status @ '' '' @ status_text status, ''Content-Type: '' @ ct,
       ''Content-Length: '' @ str_of_nat (length body), ''Connection: close'', CSP]
      @ (if cors then [''Access-Control-Allow-Origin: http://127.0.0.1''] else [])"
  have "list_all (\<lambda>l. l \<noteq> [] \<and> CHR 0x0D \<notin> set l) ?ls"
    using content_type_free [OF assms(1)] str_of_int_free [of "CHR 0x0D" status] status_text_free [of "CHR 0x0D" status]
      str_of_nat_free [of "CHR 0x0D" "length body"] by (simp add: CSP_def squote_def)
  then have "find_sub blank_line r = Some (length (header_lines ?ls) - 2)"
    unfolding r_def response_header_lines append_assoc by (intro find_blank_lines) simp_all
  moreover have "drop (length (header_lines ?ls) - 2 + 4) r = body"
  proof -
    have "2 \<le> length (header_lines ?ls)" by (simp add: header_lines_def crlf_def)
    then have "length (header_lines ?ls) - 2 + 4 = length (header_lines ?ls @ crlf)" by (simp add: crlf_def)
    then show ?thesis unfolding r_def response_header_lines by simp
  qed
  ultimately show ?thesis using response_length [OF assms(1), of "length body" status cors body] assms(2)
    by (simp add: read_full_body_def Let_def r_def [symmetric])
qed

theorem response_framed_witness:
  "content_length (response_header 200 ''application/json'' 6 True @ ''{1, 2}'') = 6
   \<and> read_full_body (response_header 200 ''application/json'' 6 True @ ''{1, 2}'') 6 ([], []) = ''{1, 2}''"
proof -
  have "length ''{1, 2}'' = 6" by simp
  moreover have "length ''{1, 2}'' < 2 ^ 32" by simp
  moreover have "''application/json'' \<in> set content_types" by (simp add: content_types_def)
  ultimately show ?thesis
    using response_framed [of "''application/json''" "''{1, 2}''" 200 True] by (simp only: Let_def) metis
qed

end
