(* ===== verification/BridgeMain.thy ===== *)
theory BridgeMain
  imports BridgeDemo DashboardServer "HOL-Library.Sublist"
begin

text \<open>
  The rest of \<^verbatim>\<open>main\<close> in \<^verbatim>\<open>bridge/astartis_bridge.cpp\<close>: its flags, the file of daemon mode, the directory of the
  dashboard and its server, the monitors of \<^verbatim>\<open>--protect\<close>, and the shutdown. What the monitors and the server are
  doing is kept in \<open>services\<close>, beside the bridge that their callbacks act on.
\<close>

section \<open>Flags and daemon mode\<close>

record main_flags =
  mf_daemon :: bool
  mf_protect :: bool
  mf_dashboard :: bool

definition read_flag :: "string \<Rightarrow> main_flags \<Rightarrow> main_flags" where
  "read_flag a f =
     (let f1 = (if a = ''--daemon'' then f\<lparr>mf_daemon := True\<rparr> else f);
          f2 = (if a = ''--protect'' then f1\<lparr>mf_protect := True\<rparr> else f1)
      in if a = ''--dashboard'' then f2\<lparr>mf_dashboard := True\<rparr> else f2)"

definition read_flags :: "string list \<Rightarrow> main_flags" where
  "read_flags argv = fold read_flag (tl argv) \<lparr>mf_daemon = False, mf_protect = False, mf_dashboard = False\<rparr>"

text \<open>The file with the process number, if it can be opened. Standard error goes to a log file, which is not modelled.\<close>

definition enter_daemon_mode :: "bool \<Rightarrow> nat \<Rightarrow> string \<Rightarrow> (string \<Rightarrow> string option) \<Rightarrow> string \<Rightarrow> string option" where
  "enter_daemon_mode writable pid pid_file_path files =
     (if writable then files(pid_file_path \<mapsto> str_of_nat pid @ nl) else files)"

section \<open>The directory of the dashboard\<close>

text \<open>An absolute directory is the text of its root, with the separator, and its names.\<close>

type_synonym fs_dir = "string \<times> string list"

definition dir_text :: "fs_dir \<Rightarrow> string" where
  "dir_text d = fst d @ join_with [backslash] (snd d)"

fun walk_up :: "(fs_dir \<Rightarrow> bool) \<Rightarrow> nat \<Rightarrow> fs_dir \<Rightarrow> fs_dir option" where
  "walk_up is_dir 0 d = None"
| "walk_up is_dir (Suc n) (r, ps) =
     (let candidate = (r, ps @ [''dashboard'']); parent = (r, butlast ps) in
      if is_dir candidate then Some candidate
      else if parent = (r, ps) then None
      else walk_up is_dir n parent)"

definition dashboard_dir :: "(fs_dir \<Rightarrow> bool) \<Rightarrow> fs_dir \<Rightarrow> fs_dir \<Rightarrow> fs_dir" where
  "dashboard_dir is_dir exe_dir cwd =
     (case walk_up is_dir 5 exe_dir of Some d \<Rightarrow> d | None \<Rightarrow> (fst cwd, snd cwd @ [''dashboard'']))"

section \<open>Services\<close>

record services =
  sv_writer :: bool
  sv_server :: "(dashboard_server \<times> listener) option"
  sv_browser :: bool
  sv_sensor :: "packet_sensor option"
  sv_events :: "event_log_monitor option"
  sv_files :: "fs_monitor option"

definition no_services :: services where
  "no_services = \<lparr>sv_writer = False, sv_server = None, sv_browser = False, sv_sensor = None, sv_events = None, sv_files = None\<rparr>"

text \<open>The environment: what the operating system answers. \<open>mn_mkdir\<close> and \<open>mn_token\<close> hold the text of the exception
  that making the directory or drawing the token throws.\<close>

record main_env =
  mn_is_dir :: "fs_dir \<Rightarrow> bool"
  mn_exe_dir :: fs_dir
  mn_cwd :: fs_dir
  mn_mkdir :: "string option"
  mn_token :: "string + string"
  mn_socket :: bool
  mn_bound :: bool
  mn_devices :: "pcap_dev list option"
  mn_opens_live :: "string \<Rightarrow> bool"
  mn_subscribed :: "string \<Rightarrow> bool"
  mn_exists :: "string \<Rightarrow> bool"
  mn_opens :: "string \<Rightarrow> bool"
  mn_roots :: "string list"

type_synonym ('k, 'f) main_state = "services \<times> ('k, 'f) starting"

text \<open>A stage that starts a service: the services change before the exception, if any, is reported.\<close>

definition init_service ::
    "('k, 'p, 'f) bridge_env \<Rightarrow> string \<Rightarrow> (services \<Rightarrow> ('k, 'f) bridge \<Rightarrow> string option \<times> services)
       \<Rightarrow> ('k, 'f) main_state \<Rightarrow> ('k, 'f) main_state" where
  "init_service env name init = (\<lambda>(ms, s).
     if bg_crashed (fst s) then (ms, s)
     else let (e, ms') = init ms (fst s) in (ms', try_init env name (\<lambda>b. (e, b)) s))"

definition start_dashboard :: "main_env \<Rightarrow> services \<Rightarrow> ('k, 'f) bridge \<Rightarrow> string option \<times> services" where
  "start_dashboard mn ms b =
     (case mn_mkdir mn of
        Some what \<Rightarrow> (Some what, ms)
      | None \<Rightarrow>
          (let d = dashboard_dir (mn_is_dir mn) (mn_exe_dir mn) (mn_cwd mn);
               data_path = dir_text (fst d, snd d @ [''dashboard_data.json'']);
               ms1 = ms\<lparr>sv_writer := True\<rparr>
           in case mn_token mn of
                Inl what \<Rightarrow> (Some what, ms1)
              | Inr t \<Rightarrow> (None, ms1\<lparr>sv_server := Some (new_dashboard_server (dir_text d) data_path False t,
                    start_listening (mn_socket mn) (mn_bound mn) \<lparr>li_running = False, li_listening = False\<rparr>),
                  sv_browser := True\<rparr>)))"

definition start_packets :: "main_env \<Rightarrow> services \<Rightarrow> ('k, 'f) bridge \<Rightarrow> string option \<times> services" where
  "start_packets mn ms b =
     (None, ms\<lparr>sv_sensor := Some (snd (start_sensor (mn_devices mn) (mn_opens_live mn)
        (new_packet_sensor [] DEFAULT_WINDOW_SIZE)))\<rparr>)"

definition start_events :: "main_env \<Rightarrow> services \<Rightarrow> ('k, 'f) bridge \<Rightarrow> string option \<times> services" where
  "start_events mn ms b =
     (let (ok, m) = start_event_log (mn_subscribed mn) \<lparr>em_running = False, em_subscriptions = [], em_events_forwarded = 0\<rparr>
      in (if ok then None else Some (''EvtSubscribe failed '' @ em_dash @ '' run as Administrator''), ms\<lparr>sv_events := Some m\<rparr>))"

definition risky_extensions :: "string list" where
  "risky_extensions = [''.exe'', ''.dll'', ''.bat'', ''.ps1'', ''.vbs'', ''.scr'', ''.com'', ''.pif'', ''.js'', ''.jar'', ''.msi'',
     ''.hta'', ''.wsf'']"

definition start_files :: "main_env \<Rightarrow> services \<Rightarrow> ('k, 'f) bridge \<Rightarrow> string option \<times> services" where
  "start_files mn ms b =
     (let m = \<lparr>fm_ext_filter = [], fm_running = False, fm_events_forwarded = 0\<rparr>;
          m1 = (if \<not> bg_clamd b then set_extension_filter risky_extensions m else m)
      in (None, ms\<lparr>sv_files := Some (snd (start_fs (mn_exists mn) (mn_opens mn) (mn_roots mn) m1))\<rparr>))"

definition start_autonomy :: "('k, 'f) bridge \<Rightarrow> string option \<times> ('k, 'f) bridge" where
  "start_autonomy b =
     (if bg_agents b = None then (Some ''agent_controller not available'', b) else (None, b\<lparr>bg_autonomy := Some new_autonomy_loop\<rparr>))"

text \<open>What is reported is which objects exist, not whether they run.\<close>

definition protect_fields :: "services \<Rightarrow> ('k, 'f) bridge \<Rightarrow> (string \<times> json) list" where
  "protect_fields ms b =
     [(''packet_sensor'', JBool (sv_sensor ms \<noteq> None)), (''event_log'', JBool (sv_events ms \<noteq> None)),
      (''fs_monitor'', JBool (sv_files ms \<noteq> None)), (''autonomy_loop'', JBool (bg_autonomy b \<noteq> None))]"

definition protect_started :: "('k, 'p, 'f) bridge_env \<Rightarrow> services \<Rightarrow> ('k, 'f) starting \<Rightarrow> ('k, 'f) starting" where
  "protect_started env ms = (\<lambda>(b, degraded).
     case send_event env ''protect_started'' (protect_fields ms b) b of
       (None, b') \<Rightarrow> (b', degraded)
     | (Some _, b') \<Rightarrow> (b'\<lparr>bg_crashed := True\<rparr>, degraded))"

definition start_protect :: "main_env \<Rightarrow> ('k, 'p, 'f) bridge_env \<Rightarrow> ('k, 'f) main_state \<Rightarrow> ('k, 'f) main_state" where
  "start_protect mn env = (\<lambda>(ms, s).
     let s1 = stage (\<lambda>(b, ds). (startup_plant env b, ds)) s;
         (ms2, s2) = init_service env ''packet_sensor_protect'' (start_packets mn) (ms, s1);
         (ms3, s3) = init_service env ''event_log_monitor'' (start_events mn) (ms2, s2);
         (ms4, s4) = init_service env ''fs_monitor'' (start_files mn) (ms3, s3);
         s5 = try_init env ''autonomy_loop'' start_autonomy s4
     in (ms4, stage (protect_started env ms4) s5))"

definition main_start ::
    "main_env \<Rightarrow> main_flags \<Rightarrow> ('k, 'p, 'f) start_env \<Rightarrow> ('k, 'f) main_state" where
  "main_start mn fl sv =
     (let env = sn_env sv;
          t0 = (no_services, start (sv\<lparr>sn_daemon := mf_daemon fl\<rparr>));
          t1 = (if mf_dashboard fl then init_service env ''dashboard'' (start_dashboard mn) t0 else t0)
      in if mf_protect fl then start_protect mn env t1 else t1)"

text \<open>After the end of the input the services stop one after the other. The sensor hands over what it has of a window.\<close>

definition shutdown :: "('k, 'p, 'f) bridge_env \<Rightarrow> services \<times> ('k, 'f) bridge \<Rightarrow> services \<times> ('k, 'f) bridge" where
  "shutdown env = (\<lambda>(ms, b).
     let ms1 = ms\<lparr>sv_files := map_option stop_fs (sv_files ms), sv_events := map_option stop_event_log (sv_events ms)\<rparr>;
         (ms2, b2) = (case sv_sensor ms1 of
            None \<Rightarrow> (ms1, b)
          | Some p \<Rightarrow> let (p', b') = stop_sensor (bridge_add env) (on_entropy_window env) (p, b) in (ms1\<lparr>sv_sensor := Some p'\<rparr>, b'))
     in (ms2\<lparr>sv_server := map_option (map_prod id stop_listening) (sv_server ms2), sv_writer := False\<rparr>, b2))"

section \<open>Where the dashboard is found\<close>

text \<open>The walk finds the nearest directory at or above the program's own that holds one, within five levels.\<close>

definition levels :: "fs_dir \<Rightarrow> fs_dir list" where
  "levels d = map (\<lambda>ps. (fst d, ps @ [''dashboard''])) (rev (prefixes (snd d)))"

lemma walk_up_nearest: "walk_up is_dir n d = find is_dir (take n (levels d))"
proof (induction n arbitrary: d)
  case (Suc n)
  show ?case
  proof (cases d)
    case (Pair r ps)
    with Suc [of "(r, butlast ps)"] show ?thesis by (cases ps rule: rev_cases) (simp_all add: levels_def Let_def)
  qed
qed simp

section \<open>What the reports leave out\<close>

text \<open>The monitors are reported as active although none of them could start.\<close>

lemma protect_overstates:
  assumes "\<And>ch. \<not> mn_subscribed mn ch" "\<And>r. \<not> mn_exists mn r"
    and "start_events mn ms b = (e1, m1)" "start_files mn m1 b = (e2, m2)"
  shows "map_of (protect_fields m2 b) ''event_log'' = Some (JBool True)" "map_of (protect_fields m2 b) ''fs_monitor'' = Some (JBool True)"
    "map_option em_running (sv_events m2) = Some False" "map_option fm_running (sv_files m2) = Some False"
  using assms
  by (auto simp: start_events_def start_files_def start_event_log_def start_fs_def protect_fields_def channels_def Let_def
      set_extension_filter_def)

text \<open>The page is opened although another process holds the port.\<close>

lemma opened_without_server:
  assumes "mn_mkdir mn = None" "mn_token mn = Inr t" "\<not> mn_bound mn"
  shows "sv_browser (snd (start_dashboard mn ms b))"
    "map_option (li_listening \<circ> snd) (sv_server (snd (start_dashboard mn ms b))) = Some False"
  using assms by (simp_all add: start_dashboard_def start_listening_def Let_def)

text \<open>The server gets no callback for a saved configuration.\<close>

lemma no_config_callback:
  "sv_server (snd (start_dashboard mn no_services b)) = Some (s, l) \<Longrightarrow> hw_saved (handle_connection env s c w) = hw_saved w"
  by (rule settings_not_applied)
    (auto simp: start_dashboard_def no_services_def new_dashboard_server_def Let_def split: option.splits sum.splits)

section \<open>The chain up to the end of the process\<close>

context bridge_blind
begin

lemma Q_init_service: "Q (fst (snd t)) (fst (snd (init_service env name init t)))"
proof (cases t)
  case (fields ms b ds)
  have "Q b (fst (try_init env name (Pair e) (b, ds)))" for e
    using Q_try_init [of "Pair e" "(b, ds)" name] by simp
  then show ?thesis by (simp add: fields init_service_def case_prod_beta Let_def)
qed

lemma Q_start_protect: "Q (fst (snd t)) (fst (snd (start_protect mn env t)))"
proof -
  obtain ms s where t: "t = (ms, s)" by (cases t)
  define s1 where "s1 = stage (\<lambda>(b, ds). (startup_plant env b, ds)) s"
  define t2 where "t2 = init_service env ''packet_sensor_protect'' (start_packets mn) (ms, s1)"
  define t3 where "t3 = init_service env ''event_log_monitor'' (start_events mn) t2"
  define t4 where "t4 = init_service env ''fs_monitor'' (start_files mn) t3"
  define s5 where "s5 = try_init env ''autonomy_loop'' start_autonomy (snd t4)"
  have 1: "Q (fst s) (fst s1)" unfolding s1_def by (rule Q_stage) (simp add: case_prod_beta Q_startup_plant)
  have 2: "Q (fst s1) (fst (snd t2))" unfolding t2_def using Q_init_service [of "(ms, s1)"] by simp
  have 3: "Q (fst (snd t2)) (fst (snd t3))" unfolding t3_def by (rule Q_init_service)
  have 4: "Q (fst (snd t3)) (fst (snd t4))" unfolding t4_def by (rule Q_init_service)
  have 5: "Q (fst (snd t4)) (fst s5)"
    unfolding s5_def by (rule Q_try_init) (auto simp: start_autonomy_def loop_level_def new_autonomy_loop_def intro: Q_autonomy)
  have 6: "Q (fst s5) (fst (stage (protect_started env (fst t4)) s5))"
    by (rule Q_stage) (auto simp: protect_started_def send_json_def split: prod.split option.split)
  have "snd (start_protect mn env t) = stage (protect_started env (fst t4)) s5"
    by (simp add: start_protect_def t s1_def t2_def t3_def t4_def s5_def case_prod_beta Let_def)
  then show ?thesis
    using R_trans [OF 1 R_trans [OF 2 R_trans [OF 3 R_trans [OF 4 R_trans [OF 5 6]]]]] by (simp add: t)
qed

lemma Q_shutdown: "Q (snd mb) (snd (shutdown env mb))"
  by (auto simp: shutdown_def stop_sensor_def flush_window_def flush_window_locked_def case_prod_beta Let_def
      intro: R_trans [OF Q_emit [OF R_refl] Q_entropy_window] split: option.split)

end

text \<open>
  C3. From the first instruction to the last, whatever flags are given, whatever fails to start and whatever happens
  in between, the audit chain of the process verifies, and neither a step of the run nor the shutdown, which hands over
  the packets the sensor still has, loses an entry.
\<close>

theorem chain_intact_to_end:
  assumes "list_all (\<lambda>(env, op). be_sha env = be_sha (sn_env sv)) ops" "be_sha env = be_sha (sn_env sv)"
  shows "let b0 = fst (snd (main_start mn fl sv)); b1 = bridge_run cf parse what ops b0; b2 = snd (shutdown env (ms, b1)) in
    vr_is_valid (verify_chain (be_sha env) (bridge_chain b2))
    \<and> extends (bridge_trail b0) (bridge_trail b1) \<and> extends (bridge_trail b1) (bridge_trail b2)"
proof -
  let ?sha = "be_sha (sn_env sv)"
  let ?sv = "sv\<lparr>sn_daemon := mf_daemon fl\<rparr>"
  define t0 where "t0 = (no_services, start ?sv)"
  define t1 where "t1 = (if mf_dashboard fl then init_service (sn_env sv) ''dashboard'' (start_dashboard mn) t0 else t0)"
  have start: "main_start mn fl sv = (if mf_protect fl then start_protect mn (sn_env sv) t1 else t1)"
    by (simp add: main_start_def t0_def t1_def Let_def)
  define b0 where "b0 = fst (snd (main_start mn fl sv))"
  define b1 where "b1 = bridge_run cf parse what ops b0"
  have 0: "grows ?sha (blank_bridge (sn_netsh sv) (sn_files sv)) (fst (snd t0))"
    using grows_start [of ?sv] by (simp add: t0_def)
  have 1: "grows ?sha (fst (snd t0)) (fst (snd t1))"
    by (simp add: t1_def growing.Q_init_service)
  have 2: "grows ?sha (fst (snd t1)) b0"
    by (simp add: b0_def start growing.Q_start_protect)
  have 3: "grows ?sha b0 b1" unfolding b1_def by (rule grows_run [OF assms(1)])
  have 4: "grows ?sha b1 (snd (shutdown env (ms, b1)))" using growing.Q_shutdown [of env "(ms, b1)"] assms(2) by simp
  have "chain_linked ?sha (bridge_chain (blank_bridge (sn_netsh sv) (sn_files sv)))"
    by (simp add: blank_bridge_def bridge_chain_def fresh_audit_def)
  with 0 1 2 3 4 have "chain_linked ?sha (bridge_chain (snd (shutdown env (ms, b1))))"
    unfolding grows_def by blast
  with 3 4 assms(2) show ?thesis
    by (simp add: grows_def verify_chain_valid_iff Let_def b0_def [symmetric] b1_def [symmetric])
qed

definition demo_main_env :: main_env where
  "demo_main_env = \<lparr>mn_is_dir = (\<lambda>_. False), mn_exe_dir = (''C:'' @ [backslash], [''opt'', ''bin'']),
     mn_cwd = (''C:'' @ [backslash], [''tmp'']), mn_mkdir = None, mn_token = Inr ''00'', mn_socket = True, mn_bound = True,
     mn_devices = None, mn_opens_live = (\<lambda>_. False), mn_subscribed = (\<lambda>_. False), mn_exists = (\<lambda>_. False),
     mn_opens = (\<lambda>_. False), mn_roots = []\<rparr>"

definition demo_flags :: main_flags where
  "demo_flags = read_flags [''bridge'', ''--protect'', ''--dashboard'', ''--verbose'']"

theorem chain_intact_to_end_witness:
  "mf_protect demo_flags \<and> \<not> mf_daemon demo_flags \<and>
   (let b0 = fst (snd (main_start demo_main_env demo_flags demo_start));
        b1 = demo_run [Line ''ping'', Loop_pass, Line ''worm_trigger''] b0;
        b2 = snd (shutdown demo_bridge_env (no_services, b1)) in
      vr_is_valid (verify_chain (be_sha demo_bridge_env) (bridge_chain b2))
      \<and> extends (bridge_trail b0) (bridge_trail b1) \<and> extends (bridge_trail b1) (bridge_trail b2))"
proof
  show "mf_protect demo_flags" by (simp add: demo_flags_def read_flags_def read_flag_def Let_def)
  have "\<not> mf_daemon demo_flags" by (simp add: demo_flags_def read_flags_def read_flag_def Let_def)
  moreover have "list_all (\<lambda>(env, op). be_sha env = be_sha (sn_env demo_start))
      (map (Pair demo_bridge_env) [Line ''ping'', Loop_pass, Line ''worm_trigger''])"
    by (simp add: demo_start_def)
  moreover have "be_sha demo_bridge_env = be_sha (sn_env demo_start)" by (simp add: demo_start_def)
  ultimately show "\<not> mf_daemon demo_flags \<and>
   (let b0 = fst (snd (main_start demo_main_env demo_flags demo_start));
        b1 = demo_run [Line ''ping'', Loop_pass, Line ''worm_trigger''] b0;
        b2 = snd (shutdown demo_bridge_env (no_services, b1)) in
      vr_is_valid (verify_chain (be_sha demo_bridge_env) (bridge_chain b2))
      \<and> extends (bridge_trail b0) (bridge_trail b1) \<and> extends (bridge_trail b1) (bridge_trail b2))"
    using chain_intact_to_end by blast
qed

end
