(* ===== verification/Dashboard.thy ===== *)
theory Dashboard
  imports BridgeRun Cxx_Time Cxx_Search
begin

text \<open>
  The data of the dashboard: the provider that \<^verbatim>\<open>bridge/astartis_bridge.cpp\<close> installs, which reads the state of the
  process, and \<^verbatim>\<open>bridge/dashboard_writer\<close>, which adds the health of the host and writes the file that the server
  shows. Where the process has no data for a section of the page, the provider fills in made-up data.
\<close>

section \<open>Data\<close>

record agent_row =
  gw_name :: string
  gw_tier :: string
  gw_model :: string
  gw_status :: string
  gw_tasks_completed :: int
  gw_last_active :: string

record block_row =
  bw_ip :: string
  bw_rule_name_in :: string
  bw_blocked_at_ms :: int
  bw_expires_at_ms :: int

record quarantine_row =
  qw_entry_id :: string
  qw_virus_name :: string
  qw_quarantined_at_ms :: int

record decoy_row =
  dw_attacker_tag :: string
  dw_poison_type :: string
  dw_action :: string
  dw_timestamp_ms :: int

record decision_row =
  zw_user_id :: string
  zw_decision :: string
  zw_trust_score :: int
  zw_resource :: string
  zw_timestamp :: string

record entropy_row =
  ew_mean :: real
  ew_max :: real
  ew_anomalous_flag :: bool
  ew_index :: nat

record chaos_row =
  cw_K_value :: real
  cw_anomalous_flag :: bool
  cw_index :: nat

record sandbox_row =
  sw_rel_path :: string
  sw_type :: string
  sw_locked :: bool
  sw_version :: u64

record audit_row =
  uw_entry_id :: string
  uw_event_type :: string
  uw_timestamp :: string
  uw_chain_valid :: bool

record system_metrics =
  mt_cpu_percent :: real
  mt_memory_percent :: real
  mt_memory_used_gb :: real
  mt_memory_total_gb :: real
  mt_disk_percent :: real
  mt_disk_free_gb :: real
  mt_network_mbps :: real
  mt_cpu_cores :: int
  mt_ollama_online :: bool

definition no_metrics :: system_metrics where
  "no_metrics = \<lparr>mt_cpu_percent = 0, mt_memory_percent = 0, mt_memory_used_gb = 0, mt_memory_total_gb = 0,
     mt_disk_percent = 0, mt_disk_free_gb = 0, mt_network_mbps = 0, mt_cpu_cores = 0, mt_ollama_online = False\<rparr>"

text \<open>Alerts, log lines and pipeline stages are never filled in by the provider and stay empty.\<close>

record dashboard_data =
  dd_system_mode :: string
  dd_active_agents :: int
  dd_queue_depth :: int
  dd_threat_level :: string
  dd_threat_score :: int
  dd_agents :: "agent_row list"
  dd_metrics :: system_metrics
  dd_firewall_blocks :: "block_row list"
  dd_quarantine_entries :: "quarantine_row list"
  dd_decoy_events :: "decoy_row list"
  dd_zerotrust_decisions :: "decision_row list"
  dd_entropy_windows :: "entropy_row list"
  dd_chaos_windows :: "chaos_row list"
  dd_sandbox_entries :: "sandbox_row list"
  dd_audit_entries :: "audit_row list"
  dd_audit_chain_valid :: bool
  dd_worm_is_locked :: bool

section \<open>Reading the process\<close>

fun threat_display :: "threat_tier \<Rightarrow> string \<times> int" where
  "threat_display LOW = (''LOW'', 10)"
| "threat_display MEDIUM = (''MEDIUM'', 45)"
| "threat_display HIGH = (''HIGH'', 75)"
| "threat_display CRITICAL = (''CRITICAL'', 95)"

fun display_status :: "agent_state \<Rightarrow> string" where
  "display_status RUNNING = ''busy''"
| "display_status COMPLETED = ''idle''"
| "display_status FAILED = ''error''"
| "display_status AgentController.IDLE = ''idle''"

definition agent_row_of :: "agent_status \<Rightarrow> agent_row" where
  "agent_row_of s = \<lparr>gw_name = agent_status.as_name s, gw_tier = as_category s, gw_model = [], gw_status = display_status (as_state s),
     gw_tasks_completed = as_tasks_completed s, gw_last_active = []\<rparr>"

definition block_row_of :: "active_block \<Rightarrow> block_row" where
  "block_row_of b = \<lparr>bw_ip = ab_ip b, bw_rule_name_in = ab_rule_name_in b, bw_blocked_at_ms = ab_blocked_at_ms b,
     bw_expires_at_ms = ab_expires_at_ms b\<rparr>"

definition quarantine_row_of :: "quarantine_entry \<Rightarrow> quarantine_row" where
  "quarantine_row_of e = \<lparr>qw_entry_id = qe_entry_id e, qw_virus_name = qe_virus_name e,
     qw_quarantined_at_ms = qe_quarantined_at_ms e\<rparr>"

definition sandbox_row_of :: "sandbox_entry \<Rightarrow> sandbox_row" where
  "sandbox_row_of e = \<lparr>sw_rel_path = se_rel_path e, sw_type = (if se_type e = FILE then ''file'' else ''dir''),
     sw_locked = se_locked e, sw_version = se_version e\<rparr>"

text \<open>Every second value of the history, with its index.\<close>

fun chaos_rows :: "nat \<Rightarrow> real list \<Rightarrow> chaos_row list" where
  "chaos_rows i (x # y # xs) =
     \<lparr>cw_K_value = x, cw_anomalous_flag = (x > 7 / 10), cw_index = i\<rparr> # chaos_rows (i + 2) xs"
| "chaos_rows i xs = []"

definition audit_row_of :: "bool \<Rightarrow> audit_entry \<Rightarrow> audit_row" where
  "audit_row_of valid e = \<lparr>uw_entry_id = ae_entry_id e, uw_event_type = ae_event_type e,
     uw_timestamp = iso_millis (ae_timestamp e), uw_chain_valid = valid\<rparr>"

definition decoy_row_of :: "decoy_event \<Rightarrow> decoy_row" where
  "decoy_row_of e = \<lparr>dw_attacker_tag = de_attacker_tag e, dw_poison_type = poison_type_name (de_poison_type e),
     dw_action = de_action e, dw_timestamp_ms = de_timestamp_ms e\<rparr>"

text \<open>The fields of a decision are cut out of the text of its audit entry, from the first \<^verbatim>\<open>key=\<close> to the next blank.\<close>

definition entry_value :: "string \<Rightarrow> string \<Rightarrow> string" where
  "entry_value key payload =
     (case find_sub (key @ ''='') payload of
        None \<Rightarrow> []
      | Some pos \<Rightarrow>
          let start = pos + length key + 1 in
          (case find_from '' '' payload start of
             None \<Rightarrow> drop start payload
           | Some blank \<Rightarrow> take (blank - start) (drop start payload)))"

definition decision_row_of :: "audit_entry \<Rightarrow> decision_row option" where
  "decision_row_of e =
     (if ae_event_type e = ''zerotrust_evaluate'' \<or> ae_event_type e = ''nac_simulate'' then
        let user = entry_value ''user'' (ae_payload e); decision = entry_value ''decision'' (ae_payload e) in
        if user \<noteq> [] \<and> decision \<noteq> [] then
          Some \<lparr>zw_user_id = user, zw_decision = decision, zw_trust_score = 0,
            zw_resource = entry_value ''resource'' (ae_payload e), zw_timestamp = iso_millis (ae_timestamp e)\<rparr>
        else None
      else None)"

section \<open>Made-up data\<close>

definition demo_entropy :: "entropy_row list" where
  "demo_entropy = map (\<lambda>(i, m, x). \<lparr>ew_mean = m / 100, ew_max = x / 100, ew_anomalous_flag = (m > 600), ew_index = i\<rparr>)
     (zip [0..<20] (zip
       [412, 435, 467, 489, 502, 521, 543, 518, 496, 474, 455, 478, 491, 513, 682, 714, 588, 531, 499, 471]
       [498, 512, 543, 567, 581, 602, 624, 597, 573, 551, 532, 558, 574, 591, 744, 789, 665, 608, 576, 547]))"

definition demo_chaos :: "chaos_row list" where
  "demo_chaos = map (\<lambda>(i, k). \<lparr>cw_K_value = k / 100, cw_anomalous_flag = (k > 70), cw_index = i\<rparr>)
     (zip [0..<20] [31, 35, 38, 42, 45, 48, 51, 47, 44, 41, 38, 43, 46, 52, 78, 82, 55, 48, 44, 41])"

definition demo_decoys_shown :: "int \<Rightarrow> decoy_row list" where
  "demo_decoys_shown now = map (\<lambda>(tag, ptype, action, dms).
       \<lparr>dw_attacker_tag = tag, dw_poison_type = ptype, dw_action = action, dw_timestamp_ms = now + dms\<rparr>)
     [(''attacker-0x1a'', ''credential'', ''read .env file'', -120000),
      (''attacker-0x1a'', ''id_rsa'', ''read private key'', -105000),
      (''attacker-0x2b'', ''sysinfo'', ''ran systeminfo'', -90000),
      (''attacker-0x2b'', ''/etc/passwd'', ''read user list'', -75000),
      (''attacker-0x3c'', ''local_file'', ''read documents folder'', -60000),
      (''attacker-0x3c'', ''ssh_connect'', ''lateral move via ssh'', -45000),
      (''attacker-0x4d'', ''exfil'', ''C2 upload attempted'', -30000),
      (''attacker-0x4d'', ''renamed_binary'', ''masquerading as svchost'', -15000)]"

definition demo_decisions :: "decision_row list" where
  "demo_decisions = map (\<lambda>(user, res, decision, score, ts).
       \<lparr>zw_user_id = user, zw_decision = decision, zw_trust_score = score, zw_resource = res, zw_timestamp = ts\<rparr>)
     [(''kgosi'', ''/api/admin'', ''ALLOW_FULL'', 95, ''2026-07-30T08:00:00.000Z''),
      (''guest01'', ''/api/report'', ''ALLOW_LIMITED'', 68, ''2026-07-30T08:15:00.000Z''),
      (''unknown'', ''/api/keys'', ''MFA_REQUIRED'', 55, ''2026-07-30T08:30:00.000Z''),
      (''iot-01'', ''/api/devices'', ''QUARANTINE'', 30, ''2026-07-30T09:00:00.000Z''),
      (''scanner'', ''/api/config'', ''DENY'', 12, ''2026-07-30T09:15:00.000Z''),
      (''kgosi'', ''/api/report'', ''ALLOW_FULL'', 96, ''2026-07-30T10:00:00.000Z'')]"

definition or_demo :: "'a list \<Rightarrow> 'a list \<Rightarrow> 'a list" where
  "or_demo rows demo = (if rows = [] then demo else rows)"

section \<open>The provider\<close>

text \<open>No code fills in entropy windows, metrics or their histories.\<close>

definition provide_data :: "(string \<Rightarrow> string) \<Rightarrow> int \<Rightarrow> string list \<Rightarrow> ('k, 'f) bridge \<Rightarrow> dashboard_data" where
  "provide_data sha now degraded b =
     (let chain = bridge_chain b; valid = vr_is_valid (verify_chain sha chain);
          threat = (case bg_threat b of Some m \<Rightarrow> threat_display (ts_current_tier m) | None \<Rightarrow> (''LOW'', 0)) in
      \<lparr>dd_system_mode = (if degraded = [] then ''FULL'' else ''DEGRADED''),
       dd_active_agents = (case bg_agents b of Some c \<Rightarrow> int (persona_count c) | None \<Rightarrow> 0),
       dd_queue_depth = (case bg_agents b of Some c \<Rightarrow> int (queue_depth c) | None \<Rightarrow> 0),
       dd_threat_level = fst threat, dd_threat_score = snd threat,
       dd_agents = (case bg_agents b of Some c \<Rightarrow> map agent_row_of (get_statuses c) | None \<Rightarrow> []),
       dd_metrics = no_metrics,
       dd_firewall_blocks = (case bg_firewall b of Some fw \<Rightarrow> map block_row_of (active_blocks fw) | None \<Rightarrow> []),
       dd_quarantine_entries = (case bg_qtn b of Some q \<Rightarrow> map quarantine_row_of (quarantine_list q) | None \<Rightarrow> []),
       dd_decoy_events = or_demo (case bg_decoy b of Some d \<Rightarrow> map decoy_row_of (dc_forensic_log d) | None \<Rightarrow> [])
         (demo_decoys_shown now),
       dd_zerotrust_decisions = or_demo (List.map_filter decision_row_of chain) demo_decisions,
       dd_entropy_windows = demo_entropy,
       dd_chaos_windows = or_demo (chaos_rows 0 (bg_chaos_history b)) demo_chaos,
       dd_sandbox_entries = (case bg_sandbox b of Some s \<Rightarrow> map sandbox_row_of (get_tree s) | None \<Rightarrow> []),
       dd_audit_entries = map (audit_row_of valid) chain,
       dd_audit_chain_valid = valid,
       dd_worm_is_locked = bridge_locked b\<rparr>)"

section \<open>The writer\<close>

record dep_info =
  dp_name :: string
  dp_version :: string
  dp_status :: string
  dp_verified_at :: string

record system_health =
  sh_ollama_online :: bool
  sh_npcap_installed :: bool
  sh_npcap_service_running :: bool
  sh_clamd_online :: bool
  sh_is_admin :: bool
  sh_deps :: "(string \<times> dep_info) list"

text \<open>What the probes of the host yield: which ports answer, the replies of the two services (\<open>None\<close>: no connection),
  the files and the service of Npcap, its version in the registry, and the counters.\<close>

record host_env =
  ho_ollama :: bool
  ho_clamd :: bool
  ho_npcap_dll :: bool
  ho_npcap_service :: bool
  ho_elevated :: bool
  ho_ollama_reply :: "string option"
  ho_clamd_reply :: "string option"
  ho_npcap_version :: "string option"
  ho_cpu :: "real option"
  ho_memory :: "(nat \<times> nat) option"
  ho_disk :: "(nat \<times> nat) option"
  ho_cores :: int
  ho_now_ms :: int
  ho_dump2 :: "json \<Rightarrow> string option"
  ho_writable :: bool

definition c_text :: "nat \<Rightarrow> string \<Rightarrow> string" where
  "c_text n reply = takeWhile (\<lambda>c. c \<noteq> CHR 0x00) (take n reply)"

definition parse_ollama_version :: "string \<Rightarrow> string" where
  "parse_ollama_version resp =
     (case find_sub (dquote @ ''version'' @ dquote) resp of
        None \<Rightarrow> []
      | Some v \<Rightarrow> (case find_from dquote resp (v + 9) of
          None \<Rightarrow> []
        | Some q \<Rightarrow> (case find_from dquote resp (q + 1) of
            None \<Rightarrow> []
          | Some q2 \<Rightarrow> take (q2 - (q + 1)) (drop (q + 1) resp))))"

definition parse_clamd_version :: "string \<Rightarrow> string" where
  "parse_clamd_version resp =
     (if starts_with ''ClamAV '' resp then
        (case find_from '' '' resp 7 of
           Some sp \<Rightarrow> take (sp - 7) (drop 7 resp)
         | None \<Rightarrow> drop 7 resp)
      else [])"

definition query_ollama_version :: "host_env \<Rightarrow> string" where
  "query_ollama_version h = (case ho_ollama_reply h of None \<Rightarrow> [] | Some r \<Rightarrow> parse_ollama_version (c_text 511 r))"

definition query_clamd_version :: "host_env \<Rightarrow> string" where
  "query_clamd_version h = (case ho_clamd_reply h of None \<Rightarrow> [] | Some r \<Rightarrow> parse_clamd_version (c_text 127 r))"

definition query_npcap_version :: "host_env \<Rightarrow> string" where
  "query_npcap_version h = (case ho_npcap_version h of None \<Rightarrow> [] | Some r \<Rightarrow> c_text 64 r)"

definition query_system_health :: "host_env \<Rightarrow> system_health" where
  "query_system_health h =
     (let now = iso_millis (ho_now_ms h); npcap = (ho_npcap_dll h \<and> ho_npcap_service h);
          dep = (\<lambda>name version status. \<lparr>dp_name = name, dp_version = version, dp_status = status, dp_verified_at = now\<rparr>);
          online = (\<lambda>b. if b then ''connected'' else ''missing'')
      in \<lparr>sh_ollama_online = ho_ollama h, sh_npcap_installed = npcap, sh_npcap_service_running = npcap,
          sh_clamd_online = ho_clamd h, sh_is_admin = ho_elevated h,
          sh_deps =
           [(''ollama'', dep ''Ollama'' (if ho_ollama h then query_ollama_version h else []) (online (ho_ollama h))),
            (''npcap'', dep ''Npcap (WinPcap)'' (query_npcap_version h) (if npcap then ''running'' else ''missing'')),
            (''clamd'', dep ''ClamAV (clamd)'' (if ho_clamd h then query_clamd_version h else []) (online (ho_clamd h))),
            (''granite_fast'', dep ''IBM Granite 3.1 MoE 3B'' ''granite3.1-moe:3b'' (online (ho_ollama h))),
            (''granite_heavy'', dep ''IBM Granite 3.1 Dense 8B'' ''granite3.1-dense:8b'' (online (ho_ollama h))),
            (''granite_acc'', dep ''IBM Granite 4.1 8B Q5'' ''ibm/granite4.1:8b-q5_K_M'' (online (ho_ollama h)))]\<rparr>)"

definition gib :: "nat \<Rightarrow> real" where
  "gib n = real n / (1024 * 1024 * 1024)"

definition query_windows_metrics :: "host_env \<Rightarrow> system_metrics" where
  "query_windows_metrics h =
     (let m0 = no_metrics\<lparr>mt_cpu_percent := (case ho_cpu h of None \<Rightarrow> 0 | Some c \<Rightarrow> c)\<rparr>;
          m1 = (case ho_memory h of
              None \<Rightarrow> m0
            | Some (tot, avail) \<Rightarrow> m0\<lparr>mt_memory_percent := real (tot - avail) / real tot * 100,
                mt_memory_used_gb := gib (tot - avail), mt_memory_total_gb := gib tot\<rparr>);
          m2 = (case ho_disk h of
              None \<Rightarrow> m1
            | Some (tot, free) \<Rightarrow> m1\<lparr>mt_disk_free_gb := gib free,
                mt_disk_percent := (gib tot - gib free) / gib tot * 100\<rparr>)
      in m2\<lparr>mt_cpu_cores := ho_cores h, mt_ollama_online := ho_ollama h\<rparr>)"

definition dep_to_json :: "dep_info \<Rightarrow> json" where
  "dep_to_json d = JObject [(''name'', JString (dp_name d)),
     (''version'', JString (if dp_version d = [] then ''unknown'' else dp_version d)),
     (''status'', JString (dp_status d)), (''verified_at'', JString (dp_verified_at d))]"

definition rows_json :: "dashboard_data \<Rightarrow> (string \<times> json) list" where
  "rows_json d =
     [(''firewall_blocks'', JArray (map (\<lambda>f. JObject [(''ip'', JString (bw_ip f)), (''rule_name_in'', JString (bw_rule_name_in f)),
         (''blocked_at_ms'', JInt (bw_blocked_at_ms f)), (''expires_at_ms'', JInt (bw_expires_at_ms f))]) (dd_firewall_blocks d))),
      (''quarantine_entries'', JArray (map (\<lambda>q. JObject [(''entry_id'', JString (qw_entry_id q)),
         (''virus_name'', JString (qw_virus_name q)), (''quarantined_at_ms'', JInt (qw_quarantined_at_ms q))])
         (dd_quarantine_entries d))),
      (''decoy_events'', JArray (map (\<lambda>e. JObject [(''attacker_tag'', JString (dw_attacker_tag e)),
         (''poison_type'', JString (dw_poison_type e)), (''action'', JString (dw_action e)),
         (''timestamp_ms'', JInt (dw_timestamp_ms e))]) (dd_decoy_events d))),
      (''zerotrust_decisions'', JArray (map (\<lambda>z. JObject [(''user_id'', JString (zw_user_id z)),
         (''decision'', JString (zw_decision z)), (''trust_score'', JInt (zw_trust_score z)),
         (''resource'', JString (zw_resource z)), (''timestamp'', JString (zw_timestamp z))]) (dd_zerotrust_decisions d))),
      (''entropy_windows'', JArray (map (\<lambda>e. JObject [(''mean_entropy_bits'', JReal (ew_mean e)),
         (''max_entropy_bits'', JReal (ew_max e)), (''anomalous'', JBool (ew_anomalous_flag e)),
         (''window_index'', JNat (ew_index e))]) (dd_entropy_windows d))),
      (''chaos_windows'', JArray (map (\<lambda>c. JObject [(''K'', JReal (cw_K_value c)), (''anomalous'', JBool (cw_anomalous_flag c)),
         (''window_index'', JNat (cw_index c))]) (dd_chaos_windows d))),
      (''sandbox_entries'', JArray (map (\<lambda>e. JObject [(''rel_path'', JString (sw_rel_path e)), (''type'', JString (sw_type e)),
         (''locked'', JBool (sw_locked e)), (''version'', JInt (uint (sw_version e)))]) (dd_sandbox_entries d))),
      (''audit_entries'', JArray (map (\<lambda>e. JObject [(''entry_id'', JString (uw_entry_id e)),
         (''event_type'', JString (uw_event_type e)), (''timestamp'', JString (uw_timestamp e)),
         (''chain_valid'', JBool (uw_chain_valid e))]) (dd_audit_entries d))),
      (''audit_chain_valid'', JBool (dd_audit_chain_valid d)), (''worm_is_locked'', JBool (dd_worm_is_locked d))]"

definition metrics_json :: "system_metrics \<Rightarrow> json" where
  "metrics_json m = JObject
     [(''cpu_percent'', JReal (mt_cpu_percent m)), (''memory_percent'', JReal (mt_memory_percent m)),
      (''memory_used_gb'', JReal (mt_memory_used_gb m)), (''memory_total_gb'', JReal (mt_memory_total_gb m)),
      (''disk_percent'', JReal (mt_disk_percent m)), (''disk_free_gb'', JReal (mt_disk_free_gb m)),
      (''network_mbps'', JReal (mt_network_mbps m)), (''cpu_cores'', JInt (mt_cpu_cores m)),
      (''ollama_online'', JBool (mt_ollama_online m))]"

definition health_json :: "system_health \<Rightarrow> (string \<times> json) list" where
  "health_json h =
     [(''health'', JObject [(''ollama_online'', JBool (sh_ollama_online h)), (''npcap_installed'', JBool (sh_npcap_installed h)),
        (''npcap_service_running'', JBool (sh_npcap_service_running h)), (''clamd_online'', JBool (sh_clamd_online h)),
        (''is_admin'', JBool (sh_is_admin h))]),
      (''deps'', JObject (map (\<lambda>(k, d). (k, dep_to_json d)) (sh_deps h)))]"

definition dashboard_json :: "string \<Rightarrow> dashboard_data \<Rightarrow> system_health \<Rightarrow> json" where
  "dashboard_json now d h = JObject
     ([(''system'', JObject [(''mode'', JString (dd_system_mode d)), (''status'', JString ''online''),
         (''version'', JString ''3.2.0''), (''timestamp'', JString now)]),
       (''kpi'', JObject [(''active_agents'', JInt (dd_active_agents d)), (''queue_depth'', JInt (dd_queue_depth d)),
         (''threat_level'', JString (dd_threat_level d)), (''threat_score'', JInt (dd_threat_score d)),
         (''alerts_24h'', JInt 0), (''critical_alerts'', JInt 0)]),
       (''agents'', JArray (map (\<lambda>a. JObject [(''name'', JString (gw_name a)), (''tier'', JString (gw_tier a)),
         (''model'', JString (gw_model a)), (''status'', JString (gw_status a)), (''tasks_completed'', JInt (gw_tasks_completed a)),
         (''last_active'', JString (gw_last_active a))]) (dd_agents d))),
       (''alerts'', JArray []), (''new_logs'', JArray []),
       (''system_metrics'', metrics_json (dd_metrics d)),
       (''cpu_history'', JArray []), (''mem_history'', JArray []), (''disk_history'', JArray []), (''net_history'', JArray [])]
      @ rows_json d @ health_json h)"

text \<open>One pass of the writer. An exception of the provider or of the printer is caught and nothing is written; the text is
  printed before the file is opened.\<close>

definition write_pass :: "host_env \<Rightarrow> dashboard_data option \<Rightarrow> string \<Rightarrow> (string \<Rightarrow> string option) \<Rightarrow> string \<Rightarrow> string option" where
  "write_pass h provided path files =
     (case provided of
        None \<Rightarrow> files
      | Some d \<Rightarrow>
          let d1 = (if mt_cpu_percent (dd_metrics d) = 0 then d\<lparr>dd_metrics := query_windows_metrics h\<rparr> else d) in
          (case ho_dump2 h (dashboard_json (iso_millis (ho_now_ms h)) d1 (query_system_health h)) of
             None \<Rightarrow> files
           | Some text \<Rightarrow> if ho_writable h then files(path \<mapsto> text) else files))"

section \<open>Fields of an audit entry\<close>

lemma entry_value_at:
  assumes "find_sub (key @ ''='') payload = Some (length x)" "payload = x @ key @ ''='' @ val @ rest"
    and "CHR '' '' \<notin> set val" "rest = [] \<or> hd rest = CHR '' ''"
  shows "entry_value key payload = val"
proof -
  have d: "drop (length x + length key + 1) payload = val @ rest" using assms(2) by simp
  have l: "length x + length key + 1 \<le> length payload" using assms(2) by simp
  have none: "find_sub '' '' val = None" using find_sub_skip [of "'' ''" val "[]"] assms(3) by simp
  show ?thesis
  proof (cases "rest = []")
    case True
    then show ?thesis using assms(1) d l none by (simp add: entry_value_def find_from_def Let_def)
  next
    case False
    then obtain ys where "rest = CHR '' '' # ys" using assms(4) by (cases rest) auto
    then have "find_sub '' '' (val @ rest) = Some (length val)" using find_sub_skip [of "'' ''" val rest] assms(3) by simp
    then show ?thesis using assms(1) d l by (simp add: entry_value_def find_from_def Let_def add.commute add.left_commute)
  qed
qed

text \<open>A text without blanks and equal signs.\<close>

definition plain :: "string \<Rightarrow> bool" where
  "plain a = list_all (\<lambda>c. c \<noteq> CHR '' '' \<and> c \<noteq> CHR ''='') a"

lemma plain_free: "plain a \<Longrightarrow> eq_free a \<and> CHR '' '' \<notin> set a"
  by (auto simp: plain_def list_all_iff)

lemma decision_str_plain: "plain (decision_str d)" "decision_str d \<noteq> []"
  by (cases d; simp add: plain_def)+

lemma zt_payload_fields:
  assumes u: "plain u" and s: "plain s" and d: "plain d" and r: "plain r" and v: "plain v"
  defines "p \<equiv> ''user='' @ u @ '' src='' @ s @ '' dst='' @ d @ '' resource='' @ r @ '' decision='' @ v"
  shows "entry_value ''user'' p = u" "entry_value ''resource'' p = r" "entry_value ''decision'' p = v"
proof -
  note free = plain_free [OF u] plain_free [OF s] plain_free [OF d] plain_free [OF r] plain_free [OF v]
  have ends: "a @ [x] \<noteq> b @ k @ [y]" if "x \<noteq> y" for a b k :: string and x y using that by (metis append_assoc last_snoc)
  have p: "p = ''user'' @ ''='' @ (u @ '' src'') @ ''='' @ (s @ '' dst'') @ ''='' @ (d @ '' resource'') @ ''='' @ (r @ '' decision'') @ ''='' @ v"
    by (simp add: p_def)
  have "find_sub (''user'' @ ''='') p = Some 0" unfolding p using find_field [of "[]" "''user''"] by simp
  then show "entry_value ''user'' p = u"
    by (intro entry_value_at [where x = "[]" and rest = "'' src='' @ s @ '' dst='' @ d @ '' resource='' @ r @ '' decision='' @ v"])
      (use free in \<open>simp_all add: p_def\<close>)
  have skip: "find_sub (key @ ''='') p = map_option (\<lambda>k. length ''user'' + 1 + (length (u @ '' src'') + 1 + (length (s @ '' dst'') + 1 + k)))
      (find_sub (key @ ''='') ((d @ '' resource'') @ ''='' @ (r @ '' decision'') @ ''='' @ v))"
    if "key = k @ [x]" "eq_free key" "x \<noteq> CHR ''r''" "x \<noteq> CHR ''c''" "x \<noteq> CHR ''t''" for key k x
  proof -
    have "''user'' \<noteq> b @ key" for b using ends [of "CHR ''r''" x "''use''" b k] that by auto
    moreover have "u @ '' src'' \<noteq> b @ key" for b using ends [of "CHR ''c''" x "u @ '' sr''" b k] that by auto
    moreover have "s @ '' dst'' \<noteq> b @ key" for b using ends [of "CHR ''t''" x "s @ '' ds''" b k] that by auto
    ultimately show ?thesis
      unfolding p using that free by (simp add: skip_field option.map_comp comp_def del: append_assoc append_Cons)
  qed
  have "find_sub (''resource'' @ ''='') ((d @ '' resource'') @ ''='' @ (r @ '' decision'') @ ''='' @ v) = Some (length d + 1)"
    using find_field [of "d @ '' ''" "''resource''"] free by simp
  then have res: "find_sub (''resource'' @ ''='') p = Some (length (''user='' @ u @ '' src='' @ s @ '' dst='' @ d @ '' ''))"
    using skip [of "''resource''" "''resourc''" "CHR ''e''"] by simp
  show "entry_value ''resource'' p = r"
    by (rule entry_value_at [OF res, where rest = "'' decision='' @ v"]) (use free in \<open>simp_all add: p_def\<close>)
  have "d @ '' resource'' \<noteq> b @ ''decision''" for b
    using ends [of "CHR ''e''" "CHR ''n''" "d @ '' resourc''" b "''decisio''"] by simp
  then have "find_sub (''decision'' @ ''='') ((d @ '' resource'') @ ''='' @ (r @ '' decision'') @ ''='' @ v)
      = map_option (\<lambda>k. length (d @ '' resource'') + 1 + k) (find_sub (''decision'' @ ''='') ((r @ '' decision'') @ ''='' @ v))"
    using free by (intro skip_field) simp_all
  moreover have "find_sub (''decision'' @ ''='') ((r @ '' decision'') @ ''='' @ v) = Some (length r + 1)"
    using find_field [of "r @ '' ''" "''decision''"] free by simp
  ultimately have dec: "find_sub (''decision'' @ ''='') p
      = Some (length (''user='' @ u @ '' src='' @ s @ '' dst='' @ d @ '' resource='' @ r @ '' ''))"
    using skip [of "''decision''" "''decisio''" "CHR ''n''"] by simp
  show "entry_value ''decision'' p = v"
    by (rule entry_value_at [OF dec, where rest = "[]"]) (use free in \<open>simp_all add: p_def\<close>)
qed

text \<open>
  C29. The page shows a decision as it was taken: for a request whose fields have no blank and no equal sign, the row
  that is cut out of the audit entry has its user, its resource and the decision.
\<close>

theorem zt_decision_read_back:
  assumes "list_all plain [ac_user_id ctx, ac_source_ip ctx, ac_destination_ip ctx, ac_requested_resource ctx]"
    and "ac_user_id ctx \<noteq> []"
  shows "decision_row_of (e\<lparr>ae_event_type := ''zerotrust_evaluate'', ae_payload := zt_audit_payload ctx\<rparr>) =
     Some \<lparr>zw_user_id = ac_user_id ctx, zw_decision = decision_str (fst (zt_verdict ctx)), zw_trust_score = 0,
       zw_resource = ac_requested_resource ctx, zw_timestamp = iso_millis (ae_timestamp e)\<rparr>"
  using assms zt_payload_fields [of "ac_user_id ctx" "ac_source_ip ctx" "ac_destination_ip ctx" "ac_requested_resource ctx"
      "decision_str (fst (zt_verdict ctx))"] decision_str_plain [of "fst (zt_verdict ctx)"]
  by (simp add: decision_row_of_def zt_audit_payload_def Let_def)

definition demo_context :: access_context where
  "demo_context = \<lparr>ac_user_id = ''bob'', ac_device_id = [], ac_source_ip = ''10.0.100.7'', ac_destination_ip = ''10.0.99.1'',
    ac_requested_resource = ''vault'', ac_ssid_name = ''SmartBots'', ac_trust_score = 0\<rparr>"

theorem zt_decision_read_back_witness:
  "map_option zw_user_id (decision_row_of (undefined\<lparr>ae_event_type := ''zerotrust_evaluate'', ae_payload := zt_audit_payload demo_context\<rparr>))
    = Some ''bob''"
  using zt_decision_read_back [of demo_context undefined] by (simp add: demo_context_def plain_def)

text \<open>Other requests can name their decision: the user below is denied, and the page shows that access was granted.\<close>

lemma decision_forged:
  fixes ctx :: access_context
  assumes "ctx = \<lparr>ac_user_id = ''bob decision=ALLOW'', ac_device_id = [], ac_source_ip = ''10.0.100.7'', ac_destination_ip = ''10.0.99.1'',
    ac_requested_resource = ''vault'', ac_ssid_name = ''SmartBots'', ac_trust_score = 0\<rparr>"
  shows "fst (zt_verdict ctx) = DENY" "entry_value ''user'' (zt_audit_payload ctx) = ''bob''"
    "entry_value ''decision'' (zt_audit_payload ctx) = ''ALLOW''"
  unfolding assms by code_simp+

text \<open>The entries of NAC runs say \<^verbatim>\<open>result=\<close> where the page looks for \<^verbatim>\<open>decision=\<close>, so that none is ever shown.\<close>

lemma nac_entry_hidden:
  assumes "plain (rq_device_name rq)" "plain (rq_ssid_name rq)" "plain (ic_username (rq_identity rq))"
    and "ae_event_type e = ''nac_simulate''" "ae_payload e = nac_audit_payload rq d"
  shows "decision_row_of e = None"
proof -
  let ?n = "rq_device_name rq" and ?s = "rq_ssid_name rq" and ?u = "ic_username (rq_identity rq)" and ?r = "nac_result_str (nd_result d)"
  have r: "eq_free ?r" by (cases "nd_result d") simp_all
  note free = plain_free [OF assms(1)] plain_free [OF assms(2)] plain_free [OF assms(3)] r
  have p: "ae_payload e = ''device'' @ ''='' @ (?n @ '' ssid'') @ ''='' @ (?s @ '' user'') @ ''='' @ (?u @ '' result'') @ ''='' @ ?r"
    by (simp add: assms(5) nac_audit_payload_def)
  have ends: "a @ [x] \<noteq> b @ ''decisio'' @ ''n''" if "x \<noteq> CHR ''n''" for a b :: string and x
    using that by (metis append_assoc last_snoc)
  have "find_sub (''decision'' @ ''='') (ae_payload e) = None"
  proof -
    have "''device'' \<noteq> b @ ''decision''" "?n @ '' ssid'' \<noteq> b @ ''decision''" "?s @ '' user'' \<noteq> b @ ''decision''"
      "?u @ '' result'' \<noteq> b @ ''decision''" for b
      using ends [of "CHR ''e''" "''devic''" b] ends [of "CHR ''d''" "?n @ '' ssi''" b] ends [of "CHR ''r''" "?s @ '' use''" b]
        ends [of "CHR ''t''" "?u @ '' resul''" b] by simp_all
    then show ?thesis
      unfolding p using free by (simp add: skip_field no_field del: append_assoc append_Cons)
  qed
  then show ?thesis using assms(4) by (simp add: decision_row_of_def entry_value_def Let_def)
qed

end
