(* ===== verification/NpcapHelper.thy ===== *)
theory NpcapHelper
  imports PacketSensor Cxx_Time
begin

text \<open>
  \<^verbatim>\<open>bridge/npcap_verify_helper\<close>: the elevated helper that captures ten packets on the best adapter and prints a
  JSON report, which it puts together by hand. The capture library is an argument: per adapter, whether it opens and
  what happens in each round of the loop.
\<close>

section \<open>Entropy and text\<close>

text \<open>The loop over the table of frequencies.\<close>

definition helper_entropy :: "bytes \<Rightarrow> real" where
  "helper_entropy d =
     (if d = [] then 0
      else fold (\<lambda>f e. if f = 0 then e else let p = real f / real (length d) in e - p * log 2 p)
        (map (byte_freq d) [0..<256]) 0)"

lemma helper_entropy_eq: "helper_entropy d = compute_entropy d"
  by (simp add: helper_entropy_def compute_entropy_def fold_map comp_def)

fun json_char :: "char \<Rightarrow> string" where
  "json_char c =
     (if c = CHR 0x22 then [backslash, CHR 0x22]
      else if c = backslash then [backslash, backslash]
      else if c = CHR 0x0A then [backslash, CHR ''n'']
      else if c = CHR 0x0D then [backslash, CHR ''r'']
      else if c = CHR 0x09 then [backslash, CHR ''t'']
      else [c])"

definition json_str :: "string \<Rightarrow> string" where
  "json_str s = dquote @ concat (map json_char s) @ dquote"

section \<open>Adapters\<close>

definition SKIP_PATTERNS :: "string list" where
  "SKIP_PATTERNS = [''wan miniport'', ''isatap'', ''teredo'', ''6to4'', ''npcap loopback'', ''microsoft kernel debug'',
     ''bluetooth'', ''vmware'', ''virtualbox'', ''tap-windows'', ''hyper-v'', ''ndis'']"

definition PREFER_PATTERNS :: "string list" where
  "PREFER_PATTERNS = [''wi-fi'', ''wifi'', ''wireless'', ''802.11'', ''wlan'', ''ethernet'', ''local area connection'',
     ''realtek'', ''intel'', ''qualcomm'', ''broadcom'', ''atheros'', ''marvell'', ''gigabit'']"

definition score_adapter :: "string \<Rightarrow> string option \<Rightarrow> int" where
  "score_adapter name desc =
     (let d = tolower (case desc of Some t \<Rightarrow> t | None \<Rightarrow> name) in
      if list_ex (\<lambda>p. contains p d) SKIP_PATTERNS then 2
      else if list_ex (\<lambda>p. contains p d) PREFER_PATTERNS then 0 else 1)"

record adapter =
  nd_name :: string
  nd_description :: "string option"
  nd_loopback :: bool

record candidate =
  nc_name :: string
  nc_desc :: string
  nc_score :: int

definition candidate_of :: "adapter \<Rightarrow> candidate" where
  "candidate_of d = \<lparr>nc_name = nd_name d, nc_desc = (case nd_description d of Some t \<Rightarrow> t | None \<Rightarrow> nd_name d),
     nc_score = score_adapter (nd_name d) (nd_description d)\<rparr>"

text \<open>\<^verbatim>\<open>std::sort\<close> leaves the order of equal scores open; here it is that of the list of adapters.\<close>

definition candidates_of :: "adapter list \<Rightarrow> candidate list" where
  "candidates_of ds = sort_key nc_score (map candidate_of (filter (\<lambda>d. \<not> nd_loopback d) ds))"

section \<open>Capture\<close>

record capture_state =
  ct_count :: int
  ct_total_entropy :: real
  ct_max_entropy :: real
  ct_adapter_name :: string
  ct_adapter_desc :: string
  ct_timestamp_start :: string
  ct_timestamp_end :: string
  ct_per_packet :: "real list"

definition CAPTURE_TARGET :: int where
  "CAPTURE_TARGET = 10"

definition packet_callback :: "string \<Rightarrow> bytes \<Rightarrow> capture_state \<Rightarrow> capture_state" where
  "packet_callback now packet g =
     (if ct_count g \<ge> CAPTURE_TARGET then g
      else
        let e = helper_entropy packet;
            g1 = g\<lparr>ct_per_packet := ct_per_packet g @ [e], ct_total_entropy := ct_total_entropy g + e,
                   ct_max_entropy := (if e > ct_max_entropy g then e else ct_max_entropy g), ct_count := ct_count g + 1\<rparr>
        in if ct_count g1 = CAPTURE_TARGET then g1\<lparr>ct_timestamp_end := now\<rparr> else g1)"

text \<open>One round of the loop: the tick count at its head, what \<^verbatim>\<open>pcap_dispatch\<close> returns and the packets it hands to
  the callback, at most as many as it is asked for. The tick count has 32 bits, and so has the deadline.\<close>

record round =
  ro_tick :: "32 word"
  ro_got :: int
  ro_packets :: "bytes list"
  ro_now :: string

fun capture_rounds :: "int \<Rightarrow> 32 word \<Rightarrow> round list \<Rightarrow> capture_state \<Rightarrow> capture_state" where
  "capture_rounds target deadline [] g = g"
| "capture_rounds target deadline (r # rs) g =
     (if ct_count g < target \<and> ro_tick r < deadline then
        let g1 = fold (packet_callback (ro_now r)) (take (nat (target - ct_count g)) (ro_packets r)) g in
        if ro_got r < 0 then g1 else capture_rounds target deadline rs g1
      else g)"

record pcap_env =
  pe_open :: "string \<Rightarrow> bool"
  pe_start :: "string \<Rightarrow> 32 word"
  pe_rounds :: "string \<Rightarrow> round list"
  pe_now :: "string \<Rightarrow> string"

definition try_capture :: "pcap_env \<Rightarrow> candidate \<Rightarrow> int \<Rightarrow> int \<Rightarrow> capture_state \<Rightarrow> bool \<times> capture_state" where
  "try_capture pe c target max_seconds g =
     (if \<not> pe_open pe (nc_name c) then (False, g)
      else
        let g0 = g\<lparr>ct_count := 0, ct_total_entropy := 0, ct_max_entropy := 0, ct_per_packet := [], ct_timestamp_end := [],
                   ct_adapter_name := nc_name c, ct_adapter_desc := nc_desc c\<rparr>;
            deadline = pe_start pe (nc_name c) + word_of_int max_seconds * 1000;
            g1 = capture_rounds target deadline (pe_rounds pe (nc_name c)) g0;
            g2 = (if ct_timestamp_end g1 = [] then g1\<lparr>ct_timestamp_end := pe_now pe (nc_name c)\<rparr> else g1)
        in (ct_count g2 > 0, g2))"

fun try_in_turn :: "pcap_env \<Rightarrow> (candidate \<times> int) list \<Rightarrow> capture_state \<Rightarrow> bool \<times> capture_state" where
  "try_in_turn pe [] g = (False, g)"
| "try_in_turn pe ((c, secs) # cs) g =
     (let (ok, g1) = try_capture pe c 10 secs g in if ok then (True, g1) else try_in_turn pe cs g1)"

text \<open>First the adapters that look physical, then, if none yields a packet, the virtual ones.\<close>

definition attempts :: "candidate list \<Rightarrow> (candidate \<times> int) list" where
  "attempts cs =
     map (\<lambda>c. (c, if nc_score c = 0 then 20 else 8)) (filter (\<lambda>c. \<not> nc_score c \<ge> 2) cs)
     @ map (\<lambda>c. (c, 5)) (filter (\<lambda>c. \<not> nc_score c < 2) cs)"

section \<open>The report\<close>

definition field_line :: "string \<Rightarrow> string \<Rightarrow> string" where
  "field_line key val = ''  '' @ dquote @ key @ dquote @ '': '' @ val"

definition error_report :: "string \<Rightarrow> string \<Rightarrow> string" where
  "error_report message start =
     ''{'' @ nl @ ''  '' @ dquote @ ''status'' @ dquote @ '': '' @ dquote @ ''error'' @ dquote @ '','' @ nl
     @ ''  '' @ dquote @ ''message'' @ dquote @ '': '' @ message @ '','' @ nl
     @ ''  '' @ dquote @ ''uac_shown'' @ dquote @ '': true,'' @ nl
     @ ''  '' @ dquote @ ''packets_captured'' @ dquote @ '': 0,'' @ nl
     @ ''  '' @ dquote @ ''timestamp_start'' @ dquote @ '': '' @ json_str start @ nl @ ''}''"

definition captured_message :: string where
  "captured_message = ''Npcap live capture completed. UAC elevation confirmed by OS.''"

definition no_packets_message :: string where
  "no_packets_message = ''Adapter found but no packets captured within time limit. ''
     @ ''The adapter may have no active traffic. '' @ ''UAC elevation confirmed by OS (helper ran elevated).''"

definition capture_report :: "bool \<Rightarrow> capture_state \<Rightarrow> string" where
  "capture_report captured g =
     (let mean = (if ct_count g > 0 then ct_total_entropy g / real_of_int (ct_count g) else 0) in
      ''{'' @ nl @ join_with ('','' @ nl)
        [field_line ''status'' (json_str (if captured then ''ok'' else ''partial'')),
         field_line ''uac_shown'' ''true'',
         field_line ''packets_captured'' (str_of_int (ct_count g)),
         field_line ''packets_target'' (str_of_int 10),
         field_line ''adapter'' (json_str (ct_adapter_desc g)),
         field_line ''adapter_name'' (json_str (ct_adapter_name g)),
         field_line ''mean_entropy_bits'' (fmt_fixed 4 mean),
         field_line ''max_entropy_bits'' (fmt_fixed 4 (ct_max_entropy g)),
         field_line ''per_packet_entropy'' (''['' @ join_with '','' (map (fmt_fixed 4) (ct_per_packet g)) @ '']''),
         field_line ''timestamp_start'' (json_str (ct_timestamp_start g)),
         field_line ''timestamp_end'' (json_str (ct_timestamp_end g)),
         field_line ''message'' (json_str (if captured then captured_message else no_packets_message))]
      @ nl @ ''}'')"

text \<open>What \<^verbatim>\<open>main\<close> prints, and its exit code. \<open>Inl\<close> is the error text of \<^verbatim>\<open>pcap_findalldevs\<close>.\<close>

definition new_capture_state :: "string \<Rightarrow> capture_state" where
  "new_capture_state start = \<lparr>ct_count = 0, ct_total_entropy = 0, ct_max_entropy = 0, ct_adapter_name = [],
     ct_adapter_desc = [], ct_timestamp_start = start, ct_timestamp_end = [], ct_per_packet = []\<rparr>"

definition helper_main :: "pcap_env \<Rightarrow> int \<Rightarrow> string + adapter list \<Rightarrow> string \<times> int" where
  "helper_main pe start_ms devs =
     (let start = iso_millis start_ms in
      case devs of
        Inl err \<Rightarrow> (error_report (json_str (''pcap_findalldevs: '' @ err)) start, 1)
      | Inr ds \<Rightarrow>
          if ds = [] then (error_report (json_str ''pcap_findalldevs: '') start, 1)
          else if candidates_of ds = [] then
            (error_report (dquote @ ''No non-loopback adapters found'' @ dquote) start, 1)
          else
            let (captured, g) = try_in_turn pe (attempts (candidates_of ds)) (new_capture_state start)
            in (capture_report captured g, if captured then 0 else 1))"

text \<open>The report goes to the file named by the argument, if it can be written, else to the console.\<close>

definition helper_write ::
    "string option \<Rightarrow> (string \<Rightarrow> bool) \<Rightarrow> string \<Rightarrow> (string \<Rightarrow> string option) \<times> string \<Rightarrow> (string \<Rightarrow> string option) \<times> string" where
  "helper_write argument writable report = (\<lambda>(files, console).
     case argument of
       Some path \<Rightarrow> if path \<noteq> [] \<and> writable path then (files(path \<mapsto> report), console) else (files, console @ report @ nl)
     | None \<Rightarrow> (files, console @ report @ nl))"

section \<open>The text of the report\<close>

text \<open>Reading a JSON string, as far as the escapes that the helper writes.\<close>

fun unescape :: "string \<Rightarrow> (string \<times> string) option" where
  "unescape [] = None"
| "unescape (c # s) =
     (if c = CHR 0x22 then Some ([], s)
      else if c = backslash then
        (case s of
           [] \<Rightarrow> None
         | e # t \<Rightarrow>
             (case map_of [(CHR 0x22, CHR 0x22), (backslash, backslash), (CHR ''n'', CHR 0x0A), (CHR ''r'', CHR 0x0D),
                 (CHR ''t'', CHR 0x09)] e of
                None \<Rightarrow> None
              | Some d \<Rightarrow> map_option (\<lambda>(x, r). (d # x, r)) (unescape t)))
      else map_option (\<lambda>(x, r). (c # x, r)) (unescape s))"

definition read_json_str :: "string \<Rightarrow> (string \<times> string) option" where
  "read_json_str t = (case t of [] \<Rightarrow> None | c # s \<Rightarrow> if c = CHR 0x22 then unescape s else None)"

lemma unescape_char: "unescape (json_char c @ s) = map_option (\<lambda>(x, r). (c # x, r)) (unescape s)"
  by (auto simp: backslash_def)

text \<open>
  The texts in the report read back as they were, whatever quotes, backslashes and line ends are in the name of an
  adapter or the message of an error, and what follows them stays in place.
\<close>

theorem json_str_read_back: "read_json_str (json_str s @ rest) = Some (s, rest)"
proof -
  have "unescape (concat (map json_char s) @ dquote @ rest) = Some (s, rest)"
    by (induction s) (simp_all add: unescape_char dquote_def del: json_char.simps)
  then show ?thesis by (simp add: read_json_str_def json_str_def dquote_def)
qed

text \<open>Other control characters go through unescaped, which JSON does not allow.\<close>

lemma control_char_kept: "CHR 0x07 \<in> set (json_str [CHR 0x07])"
  by (simp add: json_str_def backslash_def)

section \<open>What is captured\<close>

definition capture_ok :: "capture_state \<Rightarrow> bool" where
  "capture_ok g =
     (ct_count g = int (length (ct_per_packet g)) \<and> ct_count g \<le> CAPTURE_TARGET \<and>
      ct_total_entropy g = sum_list (ct_per_packet g) \<and> ct_max_entropy g = foldl max 0 (ct_per_packet g) \<and>
      list_all (\<lambda>e. 0 \<le> e \<and> e \<le> 8) (ct_per_packet g))"

lemma packet_callback_ok: "capture_ok g \<Longrightarrow> capture_ok (packet_callback now d g)"
  using compute_entropy_bounds [of d]
  by (auto simp: capture_ok_def packet_callback_def helper_entropy_eq Let_def max_def CAPTURE_TARGET_def)

lemma fold_callback_ok: "capture_ok g \<Longrightarrow> capture_ok (fold (packet_callback now) ds g)"
  by (induction ds arbitrary: g) (simp_all add: packet_callback_ok)

lemma capture_rounds_ok: "capture_ok g \<Longrightarrow> capture_ok (capture_rounds target deadline rs g)"
  by (induction rs arbitrary: g) (simp_all add: fold_callback_ok Let_def)

lemma capture_ok_end [simp]: "capture_ok (g\<lparr>ct_timestamp_end := t\<rparr>) = capture_ok g"
  by (simp add: capture_ok_def)

lemma try_capture_ok: "capture_ok g \<Longrightarrow> capture_ok (snd (try_capture pe c target secs g))"
  by (auto simp: try_capture_def Let_def intro!: capture_rounds_ok) (auto simp: capture_ok_def CAPTURE_TARGET_def)

lemma capture_ok_count: "capture_ok g \<Longrightarrow> 0 \<le> ct_count g"
  by (simp add: capture_ok_def)

lemma try_capture_count: "ct_count g = 0 \<Longrightarrow> fst (try_capture pe c target secs g) = (ct_count (snd (try_capture pe c target secs g)) > 0)"
  by (simp add: try_capture_def Let_def)

lemma try_in_turn_ok:
  "capture_ok g \<Longrightarrow> ct_count g = 0 \<Longrightarrow> try_in_turn pe cs g = (k, g') \<Longrightarrow> capture_ok g' \<and> k = (ct_count g' > 0)"
proof (induction pe cs g rule: try_in_turn.induct)
  case (2 pe c secs cs g)
  obtain k1 g1 where t: "try_capture pe c 10 secs g = (k1, g1)" by fastforce
  from try_capture_ok [OF 2(2), of pe c 10 secs] try_capture_count [OF 2(3), of pe c 10 secs] t
  have g1: "capture_ok g1" "k1 = (ct_count g1 > 0)" by simp_all
  show ?case
  proof (cases k1)
    case True
    with 2(4) t g1 show ?thesis by simp
  next
    case False
    then have "ct_count g1 = 0" using g1 capture_ok_count [OF g1(1)] by simp
    with 2(1) [OF _ _ False g1(1)] 2(4) t False show ?thesis by simp
  qed
qed simp

text \<open>
  The report counts what was captured: after any attempts there are at most ten packets, one entropy for each, the
  mean and the maximum are those of the list, and all are between 0 and 8 bits.
\<close>

theorem capture_report_sound:
  "let (captured, g) = try_in_turn pe cs (new_capture_state start); es = ct_per_packet g in
    ct_count g = int (length es) \<and> length es \<le> 10 \<and> ct_total_entropy g = sum_list es \<and> ct_max_entropy g = foldl max 0 es
    \<and> list_all (\<lambda>e. 0 \<le> e \<and> e \<le> 8) es \<and> captured = (es \<noteq> [])"
proof -
  obtain k g where t: "try_in_turn pe cs (new_capture_state start) = (k, g)" by fastforce
  have "capture_ok g \<and> k = (ct_count g > 0)"
    by (rule try_in_turn_ok [OF _ _ t]) (simp_all add: capture_ok_def new_capture_state_def CAPTURE_TARGET_def)
  then show ?thesis by (auto simp: t capture_ok_def CAPTURE_TARGET_def)
qed

section \<open>Which adapter\<close>

definition yields :: "pcap_env \<Rightarrow> candidate \<times> int \<Rightarrow> bool" where
  "yields pe = (\<lambda>(c, secs). fst (try_capture pe c 10 secs (new_capture_state [])))"

text \<open>An attempt starts afresh, so that its outcome does not depend on those before.\<close>

lemma try_capture_fresh: "fst (try_capture pe c target secs g) = fst (try_capture pe c target secs h)"
proof -
  have cb: "ct_count (packet_callback now d g) = ct_count (packet_callback now d h)" if "ct_count g = ct_count h" for now d g h
    using that by (simp add: packet_callback_def Let_def)
  have fold: "ct_count (fold (packet_callback now) ds g) = ct_count (fold (packet_callback now) ds h)" if "ct_count g = ct_count h" for now ds g h
    using that
  proof (induction ds arbitrary: g h)
    case (Cons d ds)
    from Cons.IH [OF cb [OF Cons.prems]] show ?case by simp
  qed simp
  have rounds: "ct_count (capture_rounds target deadline rs g) = ct_count (capture_rounds target deadline rs h)"
    if "ct_count g = ct_count h" for deadline rs g h
    using that
  proof (induction rs arbitrary: g h)
    case (Cons r rs)
    let ?ps = "take (nat (target - ct_count h)) (ro_packets r)"
    from fold [OF Cons.prems, of "ro_now r" ?ps] Cons.IH [OF fold [OF Cons.prems, of "ro_now r" ?ps]] Cons.prems
    show ?case by (simp add: Let_def)
  qed simp
  let ?new = "\<lambda>g. g\<lparr>ct_count := 0, ct_total_entropy := 0, ct_max_entropy := 0, ct_per_packet := [], ct_timestamp_end := [],
      ct_adapter_name := nc_name c, ct_adapter_desc := nc_desc c\<rparr>"
  have "ct_count (capture_rounds target deadline rs (?new g)) = ct_count (capture_rounds target deadline rs (?new h))" for deadline rs
    by (rule rounds) simp
  then show ?thesis by (simp add: try_capture_def Let_def)
qed

lemma rounds_keep_name:
  "ct_adapter_name (capture_rounds target deadline rs g) = ct_adapter_name g"
proof -
  have "ct_adapter_name (fold (packet_callback now) ds g) = ct_adapter_name g" for now ds g
    by (induction ds arbitrary: g) (simp_all add: packet_callback_def Let_def)
  then show ?thesis by (induction rs arbitrary: g) (simp_all add: Let_def)
qed

lemma try_in_turn_find:
  "case find (yields pe) cs of
     None \<Rightarrow> \<not> fst (try_in_turn pe cs g)
   | Some (c, secs) \<Rightarrow> fst (try_in_turn pe cs g) \<and> ct_adapter_name (snd (try_in_turn pe cs g)) = nc_name c"
proof (induction pe cs g rule: try_in_turn.induct)
  case (2 pe c secs cs g)
  obtain k1 g1 where t: "try_capture pe c 10 secs g = (k1, g1)" by fastforce
  have y: "yields pe (c, secs) = k1" using try_capture_fresh [of pe c 10 secs g "new_capture_state []"] t by (simp add: yields_def)
  have step: "try_in_turn pe ((c, secs) # cs) g = (if k1 then (True, g1) else try_in_turn pe cs g1)" by (simp add: t)
  show ?case
  proof (cases k1)
    case True
    then have "ct_adapter_name g1 = nc_name c"
      using t by (auto simp: try_capture_def Let_def rounds_keep_name split: if_splits)
    with True y show ?thesis unfolding step by simp
  next
    case False
    with 2 [of "(k1, g1)" k1 g1] t y show ?thesis unfolding step by simp
  qed
qed simp

lemma sorted_attempts: "sorted (map nc_score (map fst (attempts (candidates_of ds))))"
proof -
  have f: "sorted (map nc_score (filter P (candidates_of ds)))" for P
    unfolding candidates_of_def by (simp add: sorted_filter)
  show ?thesis
    using f [of "\<lambda>c. \<not> nc_score c \<ge> 2"] f [of "\<lambda>c. \<not> nc_score c < 2"]
    by (auto simp: attempts_def sorted_append comp_def)
qed

lemma find_sorted_least:
  "find P xs = Some x \<Longrightarrow> sorted (map f xs) \<Longrightarrow> y \<in> set xs \<Longrightarrow> P y \<Longrightarrow> f x \<le> f y"
  by (induction xs) (auto split: if_splits)

text \<open>The seconds an adapter gets.\<close>

definition allowed :: "candidate \<Rightarrow> candidate \<times> int" where
  "allowed c = (c, if nc_score c = 0 then 20 else if nc_score c < 2 then 8 else 5)"

lemma set_attempts: "set (attempts cs) = set (map allowed cs)"
  by (force simp: attempts_def allowed_def)

text \<open>
  The report is about the best adapter: packets are captured exactly when some adapter yields one within the
  seconds it gets, and then the adapter of the report has the least score among those that do, so that a virtual adapter is
  reported only when no other captures anything.
\<close>

theorem best_adapter_reported:
  "let ready = filter (yields pe) (map allowed (candidates_of ds)) in
   case try_in_turn pe (attempts (candidates_of ds)) g0 of
     (False, _) \<Rightarrow> ready = []
   | (True, g) \<Rightarrow> list_ex (\<lambda>(c, _). nc_name c = ct_adapter_name g \<and> list_all (\<lambda>(d, _). nc_score c \<le> nc_score d) ready) ready"
proof -
  let ?as = "attempts (candidates_of ds)"
  let ?ready = "filter (yields pe) (map allowed (candidates_of ds))"
  have set: "set ?ready = {x \<in> set ?as. yields pe x}" by (auto simp: set_attempts)
  obtain k g where t: "try_in_turn pe ?as g0 = (k, g)" by fastforce
  show ?thesis
  proof (cases "find (yields pe) ?as")
    case None
    then have "set ?ready = {}" unfolding set by (simp add: find_None_iff)
    then have "?ready = []" by (rule set_empty [THEN iffD1])
    moreover have "\<not> k" using try_in_turn_find [of pe ?as g0] unfolding None t by simp
    ultimately show ?thesis unfolding t Let_def by (simp only: if_False prod.case bool.case)
  next
    case (Some x)
    obtain c secs where x: "x = (c, secs)" by fastforce
    have c: "(c, secs) \<in> set ?ready" using Some by (auto simp: x set find_Some_iff simp del: set_filter)
    have "nc_score c \<le> nc_score d" if "(d, n) \<in> set ?ready" for d n
      using find_sorted_least [OF Some, of "nc_score \<circ> fst" "(d, n)"] sorted_attempts [of ds] that
      by (auto simp: x comp_def set simp del: set_filter)
    then have least: "list_all (\<lambda>(d, _). nc_score c \<le> nc_score d) ?ready" by (auto simp: list_all_iff simp del: set_filter set_map)
    have "k" "ct_adapter_name g = nc_name c" using try_in_turn_find [of pe ?as g0] unfolding Some t x by simp_all
    with least show ?thesis unfolding t Let_def list_ex_iff by (auto intro!: bexI [OF _ c] simp del: set_filter set_map)
  qed
qed

text \<open>The deadline wraps around with the tick count: close to the wrap, the loop ends before its first round and reports that
  there was no traffic.\<close>

lemma deadline_wraps:
  assumes "pe_start pe (nc_name c) = 0xFFFFFFFF" "list_all (\<lambda>r. 0xFFFFFF00 \<le> ro_tick r) (pe_rounds pe (nc_name c))"
  shows "\<not> fst (try_capture pe c 10 20 g)"
proof -
  have d: "pe_start pe (nc_name c) + 20000 = (19999 :: 32 word)" unfolding assms(1) by simp
  have "capture_rounds 10 19999 rs g = g" if "list_all (\<lambda>r. 0xFFFFFF00 \<le> ro_tick r) rs" for rs g
    using that by (cases rs) (auto simp: not_less word_le_nat_alt word_less_nat_alt)
  from this [OF assms(2)] show ?thesis by (simp add: try_capture_def Let_def d)
qed

end
