(* ===== verification/WriteRaces.thy ===== *)
theory WriteRaces
  imports VersionStore Sandbox "HOL-Library.Multiset"
begin

text \<open>
  \<^verbatim>\<open>VersionStore::write\<close> and \<^verbatim>\<open>Sandbox::write\<close> check the WORM lock before they take their mutex. Here both are
  split at that point, and any number of writers wait at the mutex while the lock is engaged and lifted. The
  functions \<open>write_version\<close> and \<open>sandbox_write\<close> are the two halves run without a break.
\<close>

section \<open>The two halves of a write\<close>

text \<open>Before the mutex: \<open>Some\<close> is an early return.\<close>

definition write_begin :: "('w \<Rightarrow> bool) \<Rightarrow> string \<Rightarrow> 'w \<Rightarrow> version_result option" where
  "write_begin lock_check rid w =
     (if rid = [] then Some (version_error ''record_id must not be empty'')
      else if lock_check w then Some (version_error ''write blocked: WORM lockdown is active'')
      else None)"

definition write_commit ::
    "(string \<Rightarrow> string) \<Rightarrow> 'w audit_adder \<Rightarrow> int \<Rightarrow> string \<Rightarrow> string \<Rightarrow> string
       \<Rightarrow> version_store \<times> 'w \<Rightarrow> version_result \<times> version_store \<times> 'w" where
  "write_commit sha add now rid data author = (\<lambda>(s, w).
     let v = make_version sha now rid data author s in
     (version_ok (rv_version_number v), sm_assign rid (get_history rid s @ [v]) s,
      emit add ''version_write'' (version_payload v) w))"

lemma write_version_split:
  "write_version sha add lock_check now rid data author (s, w) =
     (case write_begin lock_check rid w of
        Some r \<Rightarrow> (r, s, w)
      | None \<Rightarrow> write_commit sha add now rid data author (s, w))"
  by (simp add: write_version_def write_begin_def write_commit_def)

definition sandbox_begin :: "('w \<Rightarrow> bool) \<Rightarrow> string \<Rightarrow> sandbox \<times> 'w \<Rightarrow> string + string" where
  "sandbox_begin lock_check abs_path = (\<lambda>(s, w).
     if \<not> is_inside abs_path (sb_root_path s) then Inl (outside_error abs_path)
     else
       let rel = to_rel (sb_root_path s) abs_path in
       if rel = [] then Inl (''could not compute rel_path for: '' @ abs_path)
       else if lock_check w then Inl ''write blocked: global WORM lockdown active''
       else Inr rel)"

definition sandbox_commit ::
    "'w audit_adder \<Rightarrow> (string \<Rightarrow> string \<Rightarrow> 'w \<Rightarrow> 'w) \<Rightarrow> int \<Rightarrow> string \<Rightarrow> string \<Rightarrow> string \<Rightarrow> string
       \<Rightarrow> sandbox \<times> 'w \<Rightarrow> sandbox_result \<times> sandbox \<times> 'w" where
  "sandbox_commit add disk ts abs_path rel content author = (\<lambda>(s, w).
     if (case map_of (sb_entries s) rel of None \<Rightarrow> False | Some e \<Rightarrow> se_locked e) then
       (Inl (''write blocked: entry is individually locked: '' @ rel), s, w)
     else
       let e = write_entry rel content ts s;
           s' = s\<lparr>sb_entries := sm_assign rel e (sb_entries s)\<rparr>
       in (Inr (), s', emit add ''sandbox_write'' (write_payload e rel author) (disk abs_path content w)))"

lemma sandbox_write_split:
  "sandbox_write add lock_check disk ts abs_path content author (s, w) =
     (case sandbox_begin lock_check abs_path (s, w) of
        Inl msg \<Rightarrow> (Inl msg, s, w)
      | Inr rel \<Rightarrow> sandbox_commit add disk ts abs_path rel content author (s, w))"
  by (simp add: sandbox_write_def sandbox_begin_def sandbox_commit_def Let_def)

section \<open>Writers and the lock\<close>

text \<open>A writer that has passed the check: record, data and author. The clock is read under the mutex.\<close>

type_synonym writer = "string \<times> string \<times> string"

datatype race_op = Begin string string string | Commit nat int | Engage string | Disengage string

fun race_step ::
    "(string \<Rightarrow> string) \<Rightarrow> environment \<Rightarrow> race_op \<Rightarrow> writer list \<times> version_store \<times> gate_world
       \<Rightarrow> writer list \<times> version_store \<times> gate_world" where
  "race_step sha env (Begin rid data author) (ps, s, g) =
     (case write_begin gate_locked rid g of Some _ \<Rightarrow> (ps, s, g) | None \<Rightarrow> (ps @ [(rid, data, author)], s, g))"
| "race_step sha env (Commit i now) (ps, s, g) =
     (if i < length ps then
        let (rid, data, author) = ps ! i; (_, s', g') = write_commit sha (gate_add sha env) now rid data author (s, g)
        in (take i ps @ drop (Suc i) ps, s', g')
      else (ps, s, g))"
| "race_step sha env (Engage r) (ps, s, g) = (ps, s, gate_trigger sha env r g)"
| "race_step sha env (Disengage a) (ps, s, g) = (ps, s, snd (unlock (audit_add sha env) a (fst g) (snd g)))"

abbreviation race_run ::
    "(string \<Rightarrow> string) \<Rightarrow> environment \<Rightarrow> race_op list \<Rightarrow> writer list \<times> version_store \<times> gate_world
       \<Rightarrow> writer list \<times> version_store \<times> gate_world" where
  "race_run sha env ops \<equiv> fold (race_step sha env) ops"

fun lifts :: "race_op \<Rightarrow> bool" where
  "lifts (Disengage _) = True"
| "lifts _ = False"

text \<open>What was written, as a multiset of records, data and authors.\<close>

definition written :: "record_version list \<Rightarrow> writer multiset" where
  "written h = mset (map (\<lambda>v. (rv_record_id v, rv_data v, rv_author v)) h)"

definition contents :: "version_store \<Rightarrow> writer multiset" where
  "contents s = sum_list (map (\<lambda>kv. written (snd kv)) s)"

lemma contents_assign: "sm_ok s \<Longrightarrow> contents (sm_assign r h s) + written (get_history r s) = contents s + written h"
proof (induction r h s rule: sm_assign.induct)
  case (2 k v k' v' m)
  then have ok: "sm_ok m" and above: "\<forall>x\<in>fst ` set m. k' < x" by (auto simp: sm_ok_def)
  consider "k < k'" | "k = k'" | "k' < k" by force
  then show ?case
  proof cases
    case 1
    with above have "map_of m k = None" by (auto simp: map_of_eq_None_iff)
    with 1 show ?thesis by (simp add: contents_def get_history_def written_def)
  next
    case 3
    then have k: "\<not> k < k'" "k \<noteq> k'" by auto
    from 2(1) [OF k ok] k show ?thesis by (simp add: contents_def get_history_def)
  qed (simp add: contents_def get_history_def add_ac)
qed (simp add: contents_def get_history_def written_def)

lemma contents_commit:
  assumes "sm_ok s"
  shows "contents (fst (snd (write_commit sha add now rid d a (s, w)))) = add_mset (rid, d, a) (contents s)"
proof -
  let ?v = "make_version sha now rid d a s"
  have "contents (sm_assign rid (get_history rid s @ [?v]) s) + written (get_history rid s)
      = add_mset (rid, d, a) (contents s) + written (get_history rid s)"
    using contents_assign [OF assms, of rid "get_history rid s @ [?v]"] by (simp add: written_def make_version_fields)
  then have "contents (sm_assign rid (get_history rid s @ [?v]) s) = add_mset (rid, d, a) (contents s)"
    by (rule add_right_imp_eq)
  then show ?thesis by (simp add: write_commit_def Let_def)
qed

lemma mset_remove_at: "i < length ps \<Longrightarrow> add_mset (ps ! i) (mset (take i ps @ drop (Suc i) ps)) = mset ps"
  by (metis id_take_nth_drop mset_append mset.simps(2) union_mset_add_mset_right)

text \<open>Under the lock nothing passes the check, so that the writers inside only become fewer.\<close>

definition frozen_race :: "writer multiset \<Rightarrow> writer multiset \<Rightarrow> writer list \<times> version_store \<times> gate_world \<Rightarrow> bool" where
  "frozen_race whole inside = (\<lambda>(ps, s, g). gate_locked g \<and> sm_ok s \<and> mset ps \<subseteq># inside \<and> contents s + mset ps = whole)"

lemma frozen_race_step:
  assumes "frozen_race whole inside t" "\<not> lifts op"
  shows "frozen_race whole inside (race_step sha env op t)"
proof -
  obtain ps s g where t: "t = (ps, s, g)" by (cases t)
  show ?thesis
  proof (cases op)
    case (Begin rid d a)
    with assms show ?thesis by (simp add: t frozen_race_def write_begin_def)
  next
    case (Commit i now)
    show ?thesis
    proof (cases "i < length ps")
      case True
      obtain rid d a where p: "ps ! i = (rid, d, a)" by (cases "ps ! i")
      obtain r s' g' where c: "write_commit sha (gate_add sha env) now rid d a (s, g) = (r, s', g')" by (metis prod_cases3)
      have ok: "sm_ok s" and l: "gate_locked g" using assms by (simp_all add: t frozen_race_def)
      have "sm_ok s'" using c ok by (auto simp: write_commit_def Let_def)
      moreover have "gate_locked g'" using c l by (auto simp: write_commit_def Let_def gate.emit_keeps_lock)
      moreover have "contents s' = add_mset (rid, d, a) (contents s)" using contents_commit [OF ok] c by (metis fst_conv snd_conv)
      moreover have m: "mset ps = add_mset (rid, d, a) (mset (take i ps @ drop (Suc i) ps))"
        using mset_remove_at [OF True] by (simp add: p)
      moreover have step: "race_step sha env op t = (take i ps @ drop (Suc i) ps, s', g')" using True by (simp add: Commit t p c)
      moreover have "mset ps \<subseteq># inside" and whole: "contents s + mset ps = whole" using assms by (simp_all add: t frozen_race_def)
      then have "mset (take i ps @ drop (Suc i) ps) \<subseteq># inside"
        unfolding m by (metis add_mset_add_single subset_mset.le_iff_add subset_mset.trans)
      ultimately show ?thesis using whole by (simp add: frozen_race_def del: mset_append)
    qed (use assms in \<open>simp add: t Commit\<close>)
  next
    case (Engage r)
    with assms show ?thesis by (simp add: t frozen_race_def gate.trigger_locks)
  qed (use assms in simp)
qed

lemma frozen_race_run: "frozen_race whole inside t \<Longrightarrow> list_all (\<lambda>op. \<not> lifts op) ops \<Longrightarrow> frozen_race whole inside (race_run sha env ops t)"
  by (induction ops arbitrary: t) (simp_all add: frozen_race_step)

text \<open>
  C14. A lockdown closes the store, up to the writers that had passed the check: whatever is called afterwards, in any
  order and short of lifting the lock, each of them writes its data at most once, nobody else writes anything, and
  nothing that was written is lost.
\<close>

theorem lockdown_lets_writers_finish:
  assumes "gate_locked g" "sm_ok s" "list_all (\<lambda>op. \<not> lifts op) ops"
  shows "let (ps', s', g') = race_run sha env ops (ps, s, g) in
    gate_locked g' \<and> mset ps' \<subseteq># mset ps \<and> contents s' + mset ps' = contents s + mset ps"
proof -
  have "frozen_race (contents s + mset ps) (mset ps) (ps, s, g)" using assms(1, 2) by (simp add: frozen_race_def)
  from frozen_race_run [where sha = sha and env = env, OF this assms(3)] show ?thesis by (auto simp: frozen_race_def Let_def split: prod.splits)
qed

theorem lockdown_lets_writers_finish_witness:
  "let (ps', s', g') = race_run demo_sha demo_env [Commit 0 7, Begin ''r2'' ''x'' ''eve'', Commit 0 8]
       ([(''r1'', ''data'', ''alice'')], [], gate_trigger demo_sha demo_env ''alarm'' (new_worm_lock, fresh_audit)) in
     gate_locked g' \<and> mset ps' \<subseteq># {#(''r1'', ''data'', ''alice'')#}
     \<and> contents s' + mset ps' = {#(''r1'', ''data'', ''alice'')#}"
proof -
  have "contents [] = {#}" by (simp add: contents_def)
  with lockdown_lets_writers_finish [of "gate_trigger demo_sha demo_env ''alarm'' (new_worm_lock, fresh_audit)" "[]"
      "[Commit 0 7, Begin ''r2'' ''x'' ''eve'', Commit 0 8]" demo_sha demo_env "[(''r1'', ''data'', ''alice'')]"]
  show ?thesis by (simp only: gate.trigger_locks sm_ok_Nil list.pred_inject lifts.simps simp_thms mset.simps empty_neutral)
qed

text \<open>Such a late write does land: the version is stored while the lock is engaged.\<close>

lemma late_write_lands:
  "let (ps, s, g) = race_run sha env [Begin rid data author, Engage r, Commit 0 now] ([], s0, g0) in
   rid \<noteq> [] \<longrightarrow> \<not> gate_locked g0 \<longrightarrow> gate_locked g \<and> length (get_history rid s) = length (get_history rid s0) + 1"
  by (simp add: write_begin_def write_commit_def Let_def get_history_assign gate.trigger_locks)

section \<open>Locked entries of the sandbox\<close>

text \<open>The lock of an entry is checked under the mutex, so a late write does not get past it: whatever the writer checked
  before, committing leaves every locked entry as it is.\<close>

lemma late_write_spares_locked:
  assumes "map_of (sb_entries s) rel = Some e" "se_locked e"
  shows "map_of (sb_entries (fst (snd (sandbox_commit add disk ts p rel' content author (s, w))))) rel = Some e"
  using assms by (cases "rel' = rel") (simp_all add: sandbox_commit_def Let_def)

end
